(* ===== verification/Go_Base.thy ===== *)
theory Go_Base
  imports Main "HOL-Library.Char_ord" "HOL-Library.List_Lexorder"
begin

text \<open>
  Prelude: the part of the Go language and its standard library that the modelled packages use,
  as executable HOL functions with the lemmas the component theories share.
  \<^item> a Go string is a \<^typ>\<open>string\<close>, a list of bytes; \<open>TrimSpace\<close> and \<open>Fields\<close> look at the ASCII
    spaces only, so a string with a multi-byte Unicode space is outside the model;
  \<^item> a Go map that is only read and updated by key is a HOL map, and reading a missing key gives
    the zero value (\<open>mget\<close>); a map whose keys the code ranges over is an association list with
    distinct keys;
  \<^item> a call that can fail returns a sum, \<open>Inl\<close> the error;
  \<^item> \<open>sort.Strings\<close> is \<^const>\<open>sort\<close> for the lexicographic order on bytes
    (\<open>List_Lexorder\<close> over \<open>Char_ord\<close>).
  The collections \<open>go_simps\<close> (string functions) and \<open>path_simps\<close> (path/filepath) name the rules
  that the component proofs pass to the simplifier.
\<close>

named_theorems go_simps "string and strconv functions of the Go standard library"
named_theorems path_simps "path/filepath functions of the Go standard library"

type_synonym strmap = "string \<Rightarrow> string option"
type_synonym stralist = "(string \<times> string) list"

section \<open>Maps and defaults\<close>

definition mget :: "strmap \<Rightarrow> string \<Rightarrow> string" where
  "mget m k = (case m k of None \<Rightarrow> '''' | Some v \<Rightarrow> v)"

definition alget :: "stralist \<Rightarrow> string \<Rightarrow> string" where
  "alget m k = mget (map_of m) k"

definition sortedKeysOf :: "stralist \<Rightarrow> string list" where
  "sortedKeysOf m = sort (map fst m)"

definition orDefault :: "string \<Rightarrow> string \<Rightarrow> string" where
  "orDefault s d = (if s = '''' then d else s)"

section \<open>Package strings\<close>

definition is_space :: "char \<Rightarrow> bool" where
  "is_space c = (c \<in> {CHR '' '', CHR 0x09, CHR 0x0A, CHR 0x0B, CHR 0x0C, CHR 0x0D})"

definition TrimLeftSpace :: "string \<Rightarrow> string" where
  "TrimLeftSpace s = dropWhile is_space s"

definition TrimSpace :: "string \<Rightarrow> string" where
  "TrimSpace s = rev (dropWhile is_space (rev (dropWhile is_space s)))"

definition TrimChar :: "char \<Rightarrow> string \<Rightarrow> string" where
  "TrimChar c s = rev (dropWhile (\<lambda>x. x = c) (rev (dropWhile (\<lambda>x. x = c) s)))"

definition TrimRightChar :: "char \<Rightarrow> string \<Rightarrow> string" where
  "TrimRightChar c s = rev (dropWhile (\<lambda>x. x = c) (rev s))"

definition HasPrefix :: "string \<Rightarrow> string \<Rightarrow> bool" where
  "HasPrefix s p = (take (length p) s = p)"

definition HasSuffix :: "string \<Rightarrow> string \<Rightarrow> bool" where
  "HasSuffix s p = (take (length p) (rev s) = rev p)"

definition TrimPrefix :: "string \<Rightarrow> string \<Rightarrow> string" where
  "TrimPrefix s p = (if HasPrefix s p then drop (length p) s else s)"

definition TrimSuffix :: "string \<Rightarrow> string \<Rightarrow> string" where
  "TrimSuffix s p = (if HasSuffix s p then take (length s - length p) s else s)"

definition ContainsAny :: "string \<Rightarrow> string \<Rightarrow> bool" where
  "ContainsAny s cs = list_ex (\<lambda>c. c \<in> set cs) s"

fun Contains :: "string \<Rightarrow> string \<Rightarrow> bool" where
  "Contains [] p = (p = [])"
| "Contains (c # s) p = (HasPrefix (c # s) p \<or> Contains s p)"

fun SplitOn :: "char \<Rightarrow> string \<Rightarrow> string list" where
  "SplitOn c [] = [[]]"
| "SplitOn c (x # xs) =
     (if x = c then [] # SplitOn c xs
      else (case SplitOn c xs of [] \<Rightarrow> [[x]] | y # ys \<Rightarrow> (x # y) # ys))"

fun JoinWith :: "string \<Rightarrow> string list \<Rightarrow> string" where
  "JoinWith sep [] = []"
| "JoinWith sep [x] = x"
| "JoinWith sep (x # y # ys) = x @ sep @ JoinWith sep (y # ys)"

text \<open>\<open>strings.IndexByte\<close>, \<open>strings.LastIndex\<close> and \<open>strings.Cut\<close> on a one-byte separator; the code uses
  the index only to slice, so each returns the two slices.\<close>

fun CutAt :: "char \<Rightarrow> string \<Rightarrow> (string \<times> string) option" where
  "CutAt c [] = None"
| "CutAt c (x # xs) =
     (if x = c then Some ([], xs)
      else (case CutAt c xs of None \<Rightarrow> None | Some (a, b) \<Rightarrow> Some (x # a, b)))"

definition CutAtLast :: "char \<Rightarrow> string \<Rightarrow> (string \<times> string) option" where
  "CutAtLast c s = (case CutAt c (rev s) of None \<Rightarrow> None | Some (a, b) \<Rightarrow> Some (rev b, rev a))"

fun FieldsBy :: "(char \<Rightarrow> bool) \<Rightarrow> string \<Rightarrow> string \<Rightarrow> string list" where
  "FieldsBy p acc [] = (if acc = [] then [] else [rev acc])"
| "FieldsBy p acc (c # cs) =
     (if p c then (if acc = [] then FieldsBy p [] cs else rev acc # FieldsBy p [] cs)
      else FieldsBy p (c # acc) cs)"

definition FieldsFunc :: "(char \<Rightarrow> bool) \<Rightarrow> string \<Rightarrow> string list" where
  "FieldsFunc p s = FieldsBy p [] s"

definition Fields :: "string \<Rightarrow> string list" where
  "Fields s = FieldsFunc is_space s"

text \<open>The idiom \<open>for _, p := range strings.Split(v, ",") { if p = strings.TrimSpace(p); p != "" ... }\<close>.\<close>

definition trimmedTokens :: "string list \<Rightarrow> string list" where
  "trimmedTokens ps = filter (\<lambda>p. p \<noteq> '''') (map TrimSpace ps)"

section \<open>Package strconv\<close>

definition is_digit :: "char \<Rightarrow> bool" where
  "is_digit c = (48 \<le> (of_char c :: nat) \<and> (of_char c :: nat) \<le> 57)"

definition digit_val :: "char \<Rightarrow> nat" where
  "digit_val c = of_char c - 48"

definition digit_char :: "nat \<Rightarrow> char" where
  "digit_char n = char_of (n + 48)"

fun dec_val :: "nat \<Rightarrow> string \<Rightarrow> nat" where
  "dec_val acc [] = acc"
| "dec_val acc (c # cs) = dec_val (10 * acc + digit_val c) cs"

fun dec_digits :: "nat \<Rightarrow> string" where
  "dec_digits n = (if n < 10 then [digit_char n] else dec_digits (n div 10) @ [digit_char (n mod 10)])"

declare dec_digits.simps [simp del]

definition max_int64 :: int where "max_int64 = 9223372036854775807"

definition min_int64 :: int where "min_int64 = - 9223372036854775808"

definition in_int64 :: "int \<Rightarrow> bool" where
  "in_int64 n = (min_int64 \<le> n \<and> n \<le> max_int64)"

text \<open>\<open>strconv.Atoi\<close> and \<open>strconv.ParseInt(s, 10, 64)\<close>: an optional sign, at least one decimal digit and
  nothing else, in the range of a 64-bit integer.\<close>

definition parse_digits :: "string \<Rightarrow> nat option" where
  "parse_digits s = (if s \<noteq> [] \<and> list_all is_digit s then Some (dec_val 0 s) else None)"

definition Atoi :: "string \<Rightarrow> int option" where
  "Atoi s =
     (let (neg, ds) = (case s of [] \<Rightarrow> (False, []) | c # cs \<Rightarrow>
            (if c = CHR ''-'' then (True, cs) else if c = CHR ''+'' then (False, cs) else (False, s)))
      in case parse_digits ds of None \<Rightarrow> None
         | Some n \<Rightarrow> (let v = (if neg then - int n else int n) in if in_int64 v then Some v else None))"

definition Itoa :: "int \<Rightarrow> string" where
  "Itoa n = (if n < 0 then CHR ''-'' # dec_digits (nat (- n)) else dec_digits (nat n))"

section \<open>Package path/filepath (Unix)\<close>

abbreviation slash :: char where "slash \<equiv> CHR ''/''"

definition IsAbs :: "string \<Rightarrow> bool" where
  "IsAbs p = HasPrefix p ''/''"

text \<open>\<open>Clean\<close> keeps a stack of the components seen so far (last one first): an empty component and
  \<open>.\<close> are dropped, \<open>..\<close> removes the component before it, is dropped at the root of a rooted path and
  is kept at the start of a relative one.\<close>

fun clean_push :: "bool \<Rightarrow> string list \<Rightarrow> string \<Rightarrow> string list" where
  "clean_push rooted st c =
     (if c = [] \<or> c = ''.'' then st
      else if c = ''..'' then
        (case st of [] \<Rightarrow> (if rooted then [] else [''..''])
         | d # ds \<Rightarrow> (if d = ''..'' then ''..'' # d # ds else ds))
      else c # st)"

definition clean_stack :: "bool \<Rightarrow> string list \<Rightarrow> string list \<Rightarrow> string list" where
  "clean_stack rooted st cs = rev (foldl (clean_push rooted) st cs)"

definition clean_comps :: "string \<Rightarrow> string list" where
  "clean_comps p = clean_stack (IsAbs p) [] (SplitOn slash p)"

definition render_path :: "bool \<Rightarrow> string list \<Rightarrow> string" where
  "render_path rooted cs =
     (if rooted then ''/'' @ JoinWith ''/'' cs else if cs = [] then ''.'' else JoinWith ''/'' cs)"

definition Clean :: "string \<Rightarrow> string" where
  "Clean p = (if p = '''' then ''.'' else render_path (IsAbs p) (clean_comps p))"

definition PathJoin :: "string list \<Rightarrow> string" where
  "PathJoin es = (case dropWhile (\<lambda>e. e = '''') es of [] \<Rightarrow> '''' | es' \<Rightarrow> Clean (JoinWith ''/'' es'))"

definition Dir :: "string \<Rightarrow> string" where
  "Dir p = Clean (case CutAtLast slash p of None \<Rightarrow> '''' | Some (a, _) \<Rightarrow> a @ ''/'')"

definition Base :: "string \<Rightarrow> string" where
  "Base p =
     (if p = '''' then ''.''
      else (let q = TrimRightChar slash p;
                b = (case CutAtLast slash q of None \<Rightarrow> q | Some (_, r) \<Rightarrow> r)
            in if b = '''' then ''/'' else b))"

text \<open>\<open>filepath.Rel\<close>: both paths are cleaned, the common leading components are skipped, one \<open>..\<close> per
  remaining base component goes up and the remaining target components go down. It fails when one
  path is rooted and the other is not, and when the first component that differs is a \<open>..\<close> of the
  base.\<close>

fun strip_common :: "string list \<Rightarrow> string list \<Rightarrow> string list \<times> string list" where
  "strip_common (b # bs) (t # ts) = (if b = t then strip_common bs ts else (b # bs, t # ts))"
| "strip_common bs ts = (bs, ts)"

definition path_comps :: "string \<Rightarrow> string list" where
  "path_comps p = (let q = TrimPrefix p ''/'' in if q = '''' then [] else SplitOn slash q)"

definition Rel :: "string \<Rightarrow> string \<Rightarrow> string option" where
  "Rel basepath targpath =
     (let base = Clean basepath; targ = Clean targpath in
      if targ = base then Some ''.''
      else
        (let base' = (if base = ''.'' then '''' else base) in
         if IsAbs base' \<noteq> IsAbs targ then None
         else
           (case strip_common (path_comps base') (path_comps targ) of (bs, ts) \<Rightarrow>
              if bs \<noteq> [] \<and> ts \<noteq> [] \<and> hd bs = ''..'' then None
              else Some (JoinWith ''/'' (replicate (length bs) ''..'' @ ts)))))"

text \<open>The guard both \<open>extractTar\<close> and \<open>resolveJDKHome\<close> apply to the result of \<open>Rel\<close>.\<close>

definition relEscapes :: "string option \<Rightarrow> bool" where
  "relEscapes r = (case r of None \<Rightarrow> True | Some rel \<Rightarrow> rel = ''..'' \<or> HasPrefix rel ''../'')"

section \<open>Lemmas on strings\<close>

lemma mget_empty [simp]: "mget Map.empty k = ''''"
  by (simp add: mget_def)

lemma mget_upd [simp]: "mget (m(k \<mapsto> v)) j = (if j = k then v else mget m j)"
  by (simp add: mget_def)

lemma orDefault_simps [simp]:
  "orDefault '''' d = d" "s \<noteq> '''' \<Longrightarrow> orDefault s d = s" "d \<noteq> '''' \<Longrightarrow> orDefault s d \<noteq> ''''"
  by (simp_all add: orDefault_def)

lemma dropWhile_none: "list_all (\<lambda>c. \<not> p c) s \<Longrightarrow> dropWhile p s = s"
  by (cases s) auto

lemma TrimSpace_id:
  assumes "list_all (\<lambda>c. \<not> is_space c) s" shows "TrimSpace s = s"
proof -
  have "dropWhile is_space s = s" and "dropWhile is_space (rev s) = rev s"
    using assms by (auto intro!: dropWhile_none simp: list_all_iff)
  then show ?thesis by (simp add: TrimSpace_def)
qed

lemma TrimSpace_Nil [simp]: "TrimSpace [] = []"
  by (simp add: TrimSpace_def)

lemma dropWhile_hd: "dropWhile p s \<noteq> [] \<Longrightarrow> \<not> p (hd (dropWhile p s))"
  by (induction s) auto

lemma TrimSpace_idem [simp]: "TrimSpace (TrimSpace s) = TrimSpace s"
proof -
  define a where "a = dropWhile is_space s"
  define b where "b = rev (dropWhile is_space (rev a))"
  have "\<exists>z. a = b @ z"
    by (metis b_def rev_append rev_rev_ident takeWhile_dropWhile_id)
  then obtain z where z: "a = b @ z" ..
  have "dropWhile is_space b = b"
  proof (cases b)
    case (Cons c cs)
    then have "a \<noteq> []" and "hd a = c" using z by auto
    then have "\<not> is_space c" using dropWhile_hd [of is_space s] a_def by metis
    then show ?thesis using Cons by simp
  qed simp
  moreover have "dropWhile is_space (rev b) = rev b" by (simp add: b_def)
  ultimately show ?thesis by (simp add: TrimSpace_def b_def [symmetric] a_def [symmetric])
qed

lemma set_TrimSpace: "set (TrimSpace s) \<subseteq> set s"
  by (auto simp: TrimSpace_def dest!: set_dropWhileD)

lemma SplitOn_not_Nil [simp]: "SplitOn c s \<noteq> []"
  by (cases s) (auto split: list.split)

lemma SplitOn_no_sep: "c \<notin> set x \<Longrightarrow> SplitOn c x = [x]"
  by (induction x) auto

lemma SplitOn_append: "c \<notin> set x \<Longrightarrow> SplitOn c (x @ c # s) = x # SplitOn c s"
  by (induction x) auto

lemma SplitOn_JoinWith:
  "xs \<noteq> [] \<Longrightarrow> \<forall>x \<in> set xs. c \<notin> set x \<Longrightarrow> SplitOn c (JoinWith [c] xs) = xs"
  by (induction "[c]" xs rule: JoinWith.induct) (auto simp: SplitOn_no_sep SplitOn_append)

lemma JoinWith_Cons: "xs \<noteq> [] \<Longrightarrow> JoinWith sep (x # xs) = x @ sep @ JoinWith sep xs"
  by (cases xs) auto

lemma JoinWith_SplitOn: "JoinWith [c] (SplitOn c s) = s"
proof (induction s)
  case (Cons x s)
  obtain y ys where y: "SplitOn c s = y # ys" by (cases "SplitOn c s") auto
  with Cons show ?case by (cases ys) (auto simp: JoinWith_Cons)
qed simp

lemma SplitOn_elem: "x \<in> set (SplitOn c s) \<Longrightarrow> c \<notin> set x"
proof (induction s arbitrary: x)
  case (Cons d s)
  then show ?case by (cases "SplitOn c s") (auto split: if_splits)
qed simp

lemma JoinWith_eq_Nil: "sep \<noteq> [] \<Longrightarrow> JoinWith sep xs = [] \<longleftrightarrow> xs = [] \<or> xs = [[]]"
  by (cases "(sep, xs)" rule: JoinWith.cases) auto

lemma CutAt_append: "c \<notin> set a \<Longrightarrow> CutAt c (a @ c # b) = Some (a, b)"
  by (induction a) auto

lemma CutAt_None: "CutAt c s = None \<longleftrightarrow> c \<notin> set s"
  by (induction s) (auto split: option.splits)

lemma CutAt_Some: "CutAt c s = Some (a, b) \<Longrightarrow> s = a @ c # b \<and> c \<notin> set a"
  by (induction s arbitrary: a) (auto split: if_splits option.splits)

lemma CutAtLast_append: "c \<notin> set b \<Longrightarrow> CutAtLast c (a @ c # b) = Some (a, b)"
  using CutAt_append [of c "rev b" "rev a"] by (simp add: CutAtLast_def)

lemma CutAtLast_None: "CutAtLast c s = None \<longleftrightarrow> c \<notin> set s"
  using CutAt_None [of c "rev s"] by (auto simp: CutAtLast_def split: option.splits)

lemma CutAtLast_Some:
  assumes "CutAtLast c s = Some (a, b)" shows "s = a @ c # b \<and> c \<notin> set b"
proof -
  from assms have "CutAt c (rev s) = Some (rev b, rev a)"
    by (auto simp: CutAtLast_def split: option.splits)
  from CutAt_Some [OF this] have "rev s = rev b @ c # rev a" and "c \<notin> set b" by auto
  then have "s = rev (rev b @ c # rev a)" by (metis rev_rev_ident)
  then show ?thesis using \<open>c \<notin> set b\<close> by simp
qed

lemma HasPrefix_append [simp]: "HasPrefix (p @ s) p"
  by (simp add: HasPrefix_def)

lemma HasPrefix_iff: "HasPrefix s p \<longleftrightarrow> (\<exists>r. s = p @ r)"
proof
  assume "HasPrefix s p"
  then have "s = p @ drop (length p) s" unfolding HasPrefix_def by (metis append_take_drop_id)
  then show "\<exists>r. s = p @ r" ..
qed auto

lemma HasSuffix_iff: "HasSuffix s p \<longleftrightarrow> (\<exists>r. s = r @ p)"
proof
  assume "HasSuffix s p"
  then have "rev s = rev p @ drop (length p) (rev s)"
    unfolding HasSuffix_def by (metis append_take_drop_id)
  then show "\<exists>r. s = r @ p" by (metis rev_append rev_rev_ident)
qed (auto simp: HasSuffix_def)

lemma TrimPrefix_append [simp]: "TrimPrefix (p @ s) p = s"
  by (simp add: TrimPrefix_def)

lemma TrimSuffix_append [simp]: "TrimSuffix (s @ p) p = s"
  by (auto simp: TrimSuffix_def HasSuffix_iff)

lemma trimmedTokens_id:
  "\<forall>x \<in> set xs. TrimSpace x = x \<and> x \<noteq> [] \<Longrightarrow> trimmedTokens xs = xs"
  by (induction xs) (auto simp: trimmedTokens_def)

lemma trimmedTokens_elem: "x \<in> set (trimmedTokens xs) \<Longrightarrow> TrimSpace x = x \<and> x \<noteq> []"
  by (auto simp: trimmedTokens_def)

section \<open>Lemmas on decimal numbers\<close>

lemma digit_char_val: "n < 10 \<Longrightarrow> digit_val (digit_char n) = n"
  by (simp add: digit_val_def digit_char_def of_char_of)

lemma is_digit_char: "n < 10 \<Longrightarrow> is_digit (digit_char n)"
  by (simp add: is_digit_def digit_char_def of_char_of)

lemma dec_val_append: "dec_val acc (xs @ ys) = dec_val (dec_val acc xs) ys"
  by (induction xs arbitrary: acc) auto

lemma dec_digits_not_Nil [simp]: "dec_digits n \<noteq> []"
  by (subst dec_digits.simps) simp

lemma dec_digits_digits: "list_all is_digit (dec_digits n)"
proof (induction n rule: dec_digits.induct)
  case (1 n)
  then show ?case by (subst dec_digits.simps) (auto simp: is_digit_char)
qed

lemma dec_val_dec_digits: "dec_val 0 (dec_digits n) = n"
proof (induction n rule: dec_digits.induct)
  case (1 n)
  then show ?case
    by (subst dec_digits.simps) (auto simp: digit_char_val dec_val_append)
qed

lemma is_digit_not: "is_digit c \<Longrightarrow> c \<noteq> CHR ''-'' \<and> c \<noteq> CHR ''+'' \<and> \<not> is_space c \<and> c \<noteq> CHR '','' \<and> c \<noteq> slash"
  by (auto simp: is_digit_def is_space_def)

lemma dec_digits_chars: "c \<in> set (dec_digits n) \<Longrightarrow> is_digit c"
  using dec_digits_digits [of n] by (simp add: list_all_iff)

lemma dec_digits_inj: "dec_digits m = dec_digits n \<Longrightarrow> m = n"
  by (metis dec_val_dec_digits)

theorem Atoi_Itoa: "in_int64 n \<Longrightarrow> Atoi (Itoa n) = Some n"
proof -
  assume n: "in_int64 n"
  define d where "d = dec_digits (nat \<bar>n\<bar>)"
  obtain c cs where d: "d = c # cs" unfolding d_def by (meson dec_digits_not_Nil neq_Nil_conv)
  have c: "c \<noteq> CHR ''-''" "c \<noteq> CHR ''+''"
    using is_digit_not [of c] dec_digits_chars [of c "nat \<bar>n\<bar>"] d d_def by auto
  have p: "parse_digits d = Some (nat \<bar>n\<bar>)"
    using dec_digits_digits dec_val_dec_digits by (simp add: parse_digits_def d_def)
  show ?thesis using n c p d by (cases "n < 0") (auto simp: Atoi_def Itoa_def d_def)
qed

lemma Itoa_pos: "0 \<le> n \<Longrightarrow> Itoa n = dec_digits (nat n)"
  by (simp add: Itoa_def)

lemma Itoa_chars: "c \<in> set (Itoa n) \<Longrightarrow> c = CHR ''-'' \<or> is_digit c"
  by (auto simp: Itoa_def dest: dec_digits_chars split: if_splits)

lemma Itoa_not_Nil [simp]: "Itoa n \<noteq> []"
  by (simp add: Itoa_def)

lemma Itoa_inj: "Itoa m = Itoa n \<Longrightarrow> m = n"
proof -
  assume eq: "Itoa m = Itoa n"
  have h: "hd (dec_digits k) \<noteq> CHR ''-''" for k
    using is_digit_not dec_digits_chars [of "hd (dec_digits k)" k] by (auto simp: hd_in_set)
  show ?thesis
    using eq h [of "nat m"] h [of "nat n"]
    by (auto simp: Itoa_def dest: dec_digits_inj split: if_splits)
       (metis list.sel(1))+
qed

lemma Itoa_no_space: "TrimSpace (Itoa n) = Itoa n"
  by (rule TrimSpace_id) (auto simp: list_all_iff is_space_def dest!: Itoa_chars is_digit_not)

section \<open>Lemmas on paths\<close>

text \<open>\<open>inside d t\<close>: the cleaned path \<open>t\<close> is \<open>d\<close> itself or lies below it.\<close>

definition inside :: "string \<Rightarrow> string \<Rightarrow> bool" where
  "inside d t \<longleftrightarrow> IsAbs d = IsAbs t \<and>
     (\<exists>r. clean_comps t = clean_comps d @ r \<and> (r = [] \<or> hd r \<noteq> ''..''))"

definition plain_comp :: "string \<Rightarrow> bool" where
  "plain_comp c \<longleftrightarrow> c \<noteq> '''' \<and> c \<noteq> ''.'' \<and> slash \<notin> set c"

lemma clean_push_plain:
  "slash \<notin> set c \<Longrightarrow> \<forall>x \<in> set st. plain_comp x \<Longrightarrow> \<forall>x \<in> set (clean_push r st c). plain_comp x"
  by (cases st) (auto simp: plain_comp_def)

declare clean_push.simps [simp del]

lemma clean_stack_plain:
  "\<forall>c \<in> set cs. slash \<notin> set c \<Longrightarrow> \<forall>c \<in> set st. plain_comp c \<Longrightarrow>
     \<forall>c \<in> set (clean_stack rooted st cs). plain_comp c"
  unfolding clean_stack_def
proof (induction cs arbitrary: st)
  case (Cons c cs)
  then have "\<forall>x \<in> set (clean_push rooted st c). plain_comp x" by (intro clean_push_plain) auto
  with Cons show ?case by simp
qed simp

lemma clean_comps_plain: "c \<in> set (clean_comps p) \<Longrightarrow> plain_comp c"
  using clean_stack_plain [of "SplitOn slash p" "[]" "IsAbs p"]
  by (auto simp: clean_comps_def dest: SplitOn_elem)

lemma clean_stack_append:
  "clean_stack r st (xs @ ys) = clean_stack r (rev (clean_stack r st xs)) ys"
  by (simp add: clean_stack_def)

lemma clean_stack_plain_id:
  "\<forall>c \<in> set cs. plain_comp c \<and> c \<noteq> ''..'' \<Longrightarrow> clean_stack r st cs = rev st @ cs"
  unfolding clean_stack_def
  by (induction cs arbitrary: st) (auto simp: plain_comp_def clean_push.simps)

lemma SplitOn_append_sep: "SplitOn c (a @ c # b) = SplitOn c a @ SplitOn c b"
proof (induction a)
  case (Cons x a)
  obtain y ys where "SplitOn c a = y # ys" by (cases "SplitOn c a") auto
  with Cons show ?case by auto
qed simp

lemma IsAbs_simps [simp, path_simps]:
  "IsAbs (slash # p)" "\<not> IsAbs []" "p \<noteq> [] \<Longrightarrow> IsAbs (p @ q) = IsAbs p"
  by (auto simp: IsAbs_def HasPrefix_def neq_Nil_conv)

lemma JoinWith_SplitOn_path:
  "cs \<noteq> [] \<Longrightarrow> \<forall>c \<in> set cs. plain_comp c \<Longrightarrow> SplitOn slash (JoinWith ''/'' cs) = cs"
  by (rule SplitOn_JoinWith) (auto simp: plain_comp_def)

lemma JoinWith_not_abs:
  assumes "\<forall>c \<in> set cs. plain_comp c" shows "\<not> IsAbs (JoinWith ''/'' cs)"
proof (cases cs)
  case (Cons c cs')
  with assms have "c \<noteq> []" "slash \<notin> set c" by (auto simp: plain_comp_def)
  then have "\<not> IsAbs c" by (auto simp: IsAbs_def HasPrefix_iff)
  then show ?thesis using Cons \<open>c \<noteq> []\<close> by (cases cs') auto
qed simp

lemma IsAbs_Clean [simp]: "IsAbs (Clean p) = IsAbs p"
proof -
  have "\<not> IsAbs (JoinWith ''/'' (clean_comps p))"
    using JoinWith_not_abs clean_comps_plain by blast
  then show ?thesis by (auto simp: Clean_def render_path_def IsAbs_def HasPrefix_def)
qed

lemma path_comps_JoinWith:
  assumes "\<forall>c \<in> set cs. plain_comp c"
  shows "path_comps (JoinWith ''/'' cs) = cs" and "path_comps (slash # JoinWith ''/'' cs) = cs"
proof -
  have "\<not> HasPrefix (JoinWith ''/'' cs) ''/''" using JoinWith_not_abs [OF assms] by (simp add: IsAbs_def)
  moreover have "cs \<noteq> [] \<Longrightarrow> JoinWith ''/'' cs \<noteq> []"
    using assms by (auto simp: JoinWith_eq_Nil plain_comp_def)
  ultimately show "path_comps (JoinWith ''/'' cs) = cs"
    using JoinWith_SplitOn_path [OF _ assms] by (cases "cs = []") (auto simp: path_comps_def TrimPrefix_def)
  from \<open>cs \<noteq> [] \<Longrightarrow> JoinWith ''/'' cs \<noteq> []\<close> show "path_comps (slash # JoinWith ''/'' cs) = cs"
    using JoinWith_SplitOn_path [OF _ assms] TrimPrefix_append [of "''/''" "JoinWith ''/'' cs"]
    by (cases "cs = []") (auto simp: path_comps_def)
qed

lemma clean_comps_Nil [simp]: "clean_comps [] = []"
  by (simp add: clean_comps_def clean_stack_def clean_push.simps)

lemma path_comps_Clean:
  "path_comps (Clean p) = (if \<not> IsAbs p \<and> clean_comps p = [] then [''.''] else clean_comps p)"
proof -
  have pl: "\<forall>c \<in> set (clean_comps p). plain_comp c" using clean_comps_plain by blast
  have d: "path_comps ''.'' = [''.'']" by (simp add: path_comps_def TrimPrefix_def HasPrefix_def)
  show ?thesis using path_comps_JoinWith [OF pl] d by (auto simp: Clean_def render_path_def)
qed

lemma Clean_eq_dot: "Clean p = ''.'' \<longleftrightarrow> \<not> IsAbs p \<and> clean_comps p = []"
proof
  assume "Clean p = ''.''"
  then show "\<not> IsAbs p \<and> clean_comps p = []"
    using path_comps_Clean [of p] clean_comps_plain [of "''.''" p] IsAbs_Clean [of p]
    by (cases "clean_comps p")
       (auto simp: path_comps_def TrimPrefix_def HasPrefix_def IsAbs_def plain_comp_def split: if_splits)
next
  assume "\<not> IsAbs p \<and> clean_comps p = []"
  then show "Clean p = ''.''" by (simp add: Clean_def render_path_def)
qed

lemma Clean_cong: "IsAbs p = IsAbs q \<Longrightarrow> clean_comps p = clean_comps q \<Longrightarrow> Clean p = Clean q"
  using clean_comps_Nil by (auto simp: Clean_def render_path_def)

lemma strip_common_prefix:
  "strip_common bs ts = (bs', ts') \<Longrightarrow> \<exists>p. bs = p @ bs' \<and> ts = p @ ts'"
proof (induction bs ts rule: strip_common.induct)
  case (1 b bs t ts)
  show ?case
  proof (cases "b = t")
    case True
    with "1" obtain p where "bs = p @ bs'" "ts = p @ ts'" by auto
    with True have "b # bs = (b # p) @ bs' \<and> t # ts = (b # p) @ ts'" by simp
    then show ?thesis by blast
  qed (use "1" in simp)
qed auto

lemma strip_common_append: "strip_common p (p @ r) = ([], r)"
  by (induction p) auto

lemma HasPrefix_up:
  assumes "n > 0"
  shows "relEscapes (Some (JoinWith ''/'' (replicate n ''..'' @ ts)))"
proof -
  obtain m where n: "n = Suc m" using assms by (cases n) auto
  define xs where "xs = replicate m ''..'' @ ts"
  show ?thesis
  proof (cases xs)
    case Nil
    then show ?thesis using n xs_def by (simp add: relEscapes_def)
  next
    case (Cons y ys)
    then have "JoinWith ''/'' (replicate n ''..'' @ ts) = ''../'' @ JoinWith ''/'' xs"
      using n xs_def by simp
    then show ?thesis by (auto simp: relEscapes_def HasPrefix_iff)
  qed
qed

lemma relEscapes_down:
  assumes "\<forall>c \<in> set ts. plain_comp c"
  shows "relEscapes (Some (JoinWith ''/'' ts)) \<longleftrightarrow> ts \<noteq> [] \<and> hd ts = ''..''"
proof (cases ts)
  case (Cons t ts')
  have pt: "slash \<notin> set t" using assms Cons by (simp add: plain_comp_def)
  have "HasPrefix (JoinWith ''/'' ts) ''../'' \<longleftrightarrow> t = ''..'' \<and> ts' \<noteq> []"
  proof
    assume "HasPrefix (JoinWith ''/'' ts) ''../''"
    then obtain r where r: "JoinWith ''/'' ts = ''..'' @ slash # r" by (auto simp: HasPrefix_iff)
    have "SplitOn slash (JoinWith ''/'' ts) = ts" using JoinWith_SplitOn_path assms Cons by blast
    then show "t = ''..'' \<and> ts' \<noteq> []"
      using r Cons SplitOn_append [of slash "''..''" r] by auto
  qed (use Cons in \<open>auto simp: HasPrefix_def JoinWith_Cons\<close>)
  moreover have "JoinWith ''/'' ts = ''..'' \<longleftrightarrow> t = ''..'' \<and> ts' = []"
    using Cons JoinWith_SplitOn_path [of ts] assms SplitOn_no_sep [of slash "''..''"] by (cases ts') auto
  ultimately show ?thesis using Cons by (auto simp: relEscapes_def)
qed (simp add: relEscapes_def HasPrefix_def)

text \<open>The escape guard accepts exactly the targets inside the destination.\<close>

theorem relEscapes_iff: "relEscapes (Rel d t) \<longleftrightarrow> \<not> inside d t"
proof (cases "Clean t = Clean d")
  case True
  then have "IsAbs d = IsAbs t" using IsAbs_Clean by metis
  moreover have "clean_comps t = clean_comps d"
    using path_comps_Clean [of t] path_comps_Clean [of d] True Clean_eq_dot [of t] Clean_eq_dot [of d]
    by metis
  ultimately show ?thesis using True by (auto simp: Rel_def inside_def relEscapes_def HasPrefix_def)
next
  case False
  define bc where "bc = clean_comps d"
  define tc where "tc = clean_comps t"
  have plt: "\<forall>c \<in> set tc. plain_comp c" using clean_comps_plain tc_def by blast
  have base: "path_comps (if Clean d = ''.'' then [] else Clean d) = bc"
    using Clean_eq_dot [of d] by (auto simp: bc_def path_comps_Clean) (simp add: path_comps_def TrimPrefix_def)
  have absd: "IsAbs (if Clean d = ''.'' then [] else Clean d) = IsAbs d"
    using Clean_eq_dot [of d] by auto
  show ?thesis
  proof (cases "IsAbs d = IsAbs t")
    case abs: True
    show ?thesis
    proof (cases "\<not> IsAbs t \<and> tc = []")
      case dot: True
      have "bc \<noteq> []" using dot abs False Clean_eq_dot [of t] Clean_eq_dot [of d] by (auto simp: tc_def bc_def)
      then obtain b bs where b: "bc = b # bs" by (cases bc) auto
      have "b \<noteq> ''.''" using clean_comps_plain [of b d] b by (auto simp: bc_def plain_comp_def)
      then have "Rel d t = None \<or> Rel d t = Some (JoinWith ''/'' (replicate (length bc) ''..'' @ [''.'']))"
        using False abs base absd dot b
        by (auto simp: Rel_def Let_def path_comps_Clean tc_def [symmetric])
      then have "relEscapes (Rel d t)" using HasPrefix_up [of "length bc"] b by (auto simp: relEscapes_def)
      then show ?thesis using dot b by (auto simp: inside_def tc_def bc_def)
    next
      case ndot: False
      obtain bs ts where st: "strip_common bc tc = (bs, ts)" by fastforce
      then obtain p where p: "bc = p @ bs" "tc = p @ ts" using strip_common_prefix by blast
      have r: "Rel d t = (if bs \<noteq> [] \<and> ts \<noteq> [] \<and> hd bs = ''..'' then None
                  else Some (JoinWith ''/'' (replicate (length bs) ''..'' @ ts)))"
        using False abs base absd ndot st by (auto simp: Rel_def Let_def path_comps_Clean tc_def [symmetric])
      show ?thesis
      proof (cases bs)
        case Nil
        then show ?thesis
          using r p plt relEscapes_down [of ts] abs by (auto simp: inside_def bc_def tc_def)
      next
        case (Cons b bs')
        then have "relEscapes (Rel d t)"
          using r HasPrefix_up [of "length bs" ts] by (auto simp: relEscapes_def)
        moreover have "\<not> inside d t"
        proof
          assume "inside d t"
          then obtain q where "tc = bc @ q" by (auto simp: inside_def bc_def tc_def)
          then show False using strip_common_append [of bc q] st Cons by simp
        qed
        ultimately show ?thesis by simp
      qed
    qed
  next
    case False
    then show ?thesis using \<open>Clean t \<noteq> Clean d\<close> absd by (auto simp: Rel_def Let_def relEscapes_def inside_def)
  qed
qed

lemma clean_comps_append:
  assumes "d \<noteq> []"
  shows "clean_comps (d @ slash # n) = clean_stack (IsAbs d) (rev (clean_comps d)) (SplitOn slash n)"
  using assms by (simp add: clean_comps_def SplitOn_append_sep clean_stack_append)

lemma PathJoin2: "d \<noteq> [] \<Longrightarrow> PathJoin [d, n] = Clean (d @ slash # n)"
  by (simp add: PathJoin_def)

end
