(* ===== verification/Vocabulary.thy ===== *)
theory Vocabulary
  imports Go_Base
begin

text \<open>
  The label and annotation vocabulary of \<open>kubernetes/internal/brewlet/labels.go\<close> that the operator,
  the admission webhook, the node provisioner and the shim share. Every constant is a definition
  with its defining equation in the collection \<open>vocab\<close>, so that a proof unfolds the strings only where
  it has to tell two keys apart. The shim's own copies of the pod annotations
  (\<open>bundle_prepare.go\<close>) are these same strings.
\<close>

named_theorems vocab "defining equations of the label and annotation keys"

definition LabelProvision :: string where [vocab]: "LabelProvision = ''brewlet.sh/provision''"
definition LabelRuntimeReady :: string where [vocab]: "LabelRuntimeReady = ''brewlet.sh/runtime''"
definition ValueReady :: string where [vocab]: "ValueReady = ''ready''"
definition AnnotationJDKs :: string where [vocab]: "AnnotationJDKs = ''brewlet.sh/jdks''"
definition AnnotationLaunchers :: string where [vocab]: "AnnotationLaunchers = ''brewlet.sh/launchers''"
definition AnnotationProvisionState :: string where
  [vocab]: "AnnotationProvisionState = ''brewlet.sh/provision-state''"
definition AnnotationProvisionError :: string where
  [vocab]: "AnnotationProvisionError = ''brewlet.sh/provision-error''"
definition AnnotationProfile :: string where [vocab]: "AnnotationProfile = ''brewlet.sh/profile''"
definition AnnotationProfileGeneration :: string where
  [vocab]: "AnnotationProfileGeneration = ''brewlet.sh/profile-generation''"
definition LabelNodeProfile :: string where [vocab]: "LabelNodeProfile = ''brewlet.sh/nodeprofile''"
definition FinalizerCleanup :: string where [vocab]: "FinalizerCleanup = ''node.brewlet.sh/cleanup''"

definition ProviderPoolKeys :: "string list" where
  [vocab]: "ProviderPoolKeys =
     [''cloud.google.com/gke-nodepool'', ''kubernetes.azure.com/agentpool'', ''agentpool'',
      ''eks.amazonaws.com/nodegroup'', ''karpenter.sh/nodepool'']"

definition CuratedDistributions :: "string list" where
  [vocab]: "CuratedDistributions = [''temurin'', ''microsoft'']"

definition AnnotationArtifactRef :: string where [vocab]: "AnnotationArtifactRef = ''brewlet.sh/artifact-ref''"
definition AnnotationArtifactDigest :: string where
  [vocab]: "AnnotationArtifactDigest = ''brewlet.sh/artifact-digest''"
definition AnnotationRequestedJDK :: string where [vocab]: "AnnotationRequestedJDK = ''brewlet.sh/jdk''"
definition AnnotationRequestedLauncher :: string where
  [vocab]: "AnnotationRequestedLauncher = ''brewlet.sh/launcher''"
definition AnnotationRequestedArch :: string where [vocab]: "AnnotationRequestedArch = ''brewlet.sh/arch''"
definition AnnotationCDSRegenerate :: string where
  [vocab]: "AnnotationCDSRegenerate = ''brewlet.sh/cds-regenerate''"

definition LabelJDKPrefix :: string where [vocab]: "LabelJDKPrefix = ''brewlet.sh/jdk.''"
definition LabelJDKFeaturePrefix :: string where [vocab]: "LabelJDKFeaturePrefix = ''brewlet.sh/jdk-feature.''"
definition LabelLauncherPrefix :: string where [vocab]: "LabelLauncherPrefix = ''brewlet.sh/launcher.''"
definition LabelArch :: string where [vocab]: "LabelArch = ''kubernetes.io/arch''"

definition VanillaLauncher :: string where [vocab]: "VanillaLauncher = ''java''"

definition StateProvisioning :: string where [vocab]: "StateProvisioning = ''Provisioning''"
definition StateReady :: string where [vocab]: "StateReady = ''Ready''"
definition StateFailed :: string where [vocab]: "StateFailed = ''Failed''"

definition RuntimeClassName :: string where [vocab]: "RuntimeClassName = ''brewlet''"
definition ProvisionerName :: string where [vocab]: "ProvisionerName = ''brewlet-node-provisioner''"
definition ProvisionerAppLabel :: string where [vocab]: "ProvisionerAppLabel = ''brewlet-node-provisioner''"

definition ReasonNoCompatibleJDK :: string where [vocab]: "ReasonNoCompatibleJDK = ''NoCompatibleJDK''"
definition ReasonNoCompatibleLauncher :: string where
  [vocab]: "ReasonNoCompatibleLauncher = ''NoCompatibleLauncher''"
definition ReasonNoCompatibleArch :: string where [vocab]: "ReasonNoCompatibleArch = ''NoCompatibleArch''"

definition ProfileDaemonSetName :: "string \<Rightarrow> string" where
  "ProfileDaemonSetName profile = ProvisionerName @ ''-'' @ profile"

definition CleanupDaemonSetName :: "string \<Rightarrow> string" where
  "CleanupDaemonSetName profile = ''brewlet-cleanup-'' @ profile"

lemma deny_reasons_distinct [simp]:
  "ReasonNoCompatibleJDK \<noteq> ReasonNoCompatibleLauncher" "ReasonNoCompatibleJDK \<noteq> ReasonNoCompatibleArch"
  "ReasonNoCompatibleLauncher \<noteq> ReasonNoCompatibleArch" "ReasonNoCompatibleLauncher \<noteq> ReasonNoCompatibleJDK"
  "ReasonNoCompatibleArch \<noteq> ReasonNoCompatibleJDK" "ReasonNoCompatibleArch \<noteq> ReasonNoCompatibleLauncher"
  "ReasonNoCompatibleJDK \<noteq> []" "ReasonNoCompatibleLauncher \<noteq> []" "ReasonNoCompatibleArch \<noteq> []"
  by (simp_all add: vocab)

lemma artifact_keys_distinct [simp]:
  "AnnotationArtifactRef \<noteq> AnnotationArtifactDigest" "AnnotationArtifactDigest \<noteq> AnnotationArtifactRef"
  "AnnotationRequestedJDK \<noteq> AnnotationArtifactRef" "AnnotationRequestedJDK \<noteq> AnnotationArtifactDigest"
  "AnnotationRequestedLauncher \<noteq> AnnotationArtifactRef" "AnnotationRequestedLauncher \<noteq> AnnotationArtifactDigest"
  "AnnotationRequestedArch \<noteq> AnnotationArtifactRef" "AnnotationRequestedArch \<noteq> AnnotationArtifactDigest"
  by (simp_all add: vocab)

lemma provision_states_distinct [simp]:
  "StateReady \<noteq> StateFailed" "StateReady \<noteq> StateProvisioning" "StateFailed \<noteq> StateProvisioning"
  "StateFailed \<noteq> StateReady" "StateProvisioning \<noteq> StateReady" "StateProvisioning \<noteq> StateFailed"
  "StateReady \<noteq> []" "StateFailed \<noteq> []" "StateProvisioning \<noteq> []"
  by (simp_all add: vocab)

lemma managed_names_distinct: "ProfileDaemonSetName p \<noteq> CleanupDaemonSetName q"
  by (simp add: ProfileDaemonSetName_def CleanupDaemonSetName_def vocab)

end
