(* ===== verification/Cluster_Types.thy ===== *)
theory Cluster_Types
  imports Vocabulary
begin

text \<open>
  The fields of the Kubernetes API objects that the admission webhook and the controllers read or
  write, as records. Fields that they only carry along are kept as one opaque string
  (\<open>af_rest\<close>, \<open>na_preferred\<close>), so that a frame property can say they are unchanged.

  How the scheduler evaluates a node selector is not part of this repository: it is the argument
  \<open>sat\<close>, and the locale \<open>node_selector\<close> states its documented behaviour (\<open>Exists\<close>, \<open>In\<close> and \<open>NotIn\<close> on
  one label). \<open>label_sat\<close> is a concrete function with that behaviour.
\<close>

datatype selector_op = OpIn | OpNotIn | OpExists

record NodeSelectorRequirement =
  nsr_Key :: string
  nsr_Operator :: selector_op
  nsr_Values :: "string list"

record NodeSelectorTerm =
  MatchExpressions :: "NodeSelectorRequirement list"
  MatchFields :: "NodeSelectorRequirement list"

record NodeAffinity =
  Required :: "NodeSelectorTerm list option"
  na_preferred :: string

record Affinity =
  af_NodeAffinity :: "NodeAffinity option"
  af_rest :: string

record Container =
  c_Name :: string
  c_Image :: string

record Pod =
  pod_Name :: string
  pod_Annotations :: strmap
  pod_RuntimeClassName :: "string option"
  pod_Containers :: "Container list"
  pod_Affinity :: "Affinity option"

record Node =
  node_Name :: string
  node_Labels :: strmap
  node_Annotations :: strmap

text \<open>A term is a conjunction of its requirements, and a term without requirements selects no node; a
  selector is a disjunction of terms; a pod without a required selector fits every node.\<close>

definition term_sat :: "(Node \<Rightarrow> NodeSelectorRequirement \<Rightarrow> bool) \<Rightarrow> Node \<Rightarrow> NodeSelectorTerm \<Rightarrow> bool" where
  "term_sat sat n t = ((MatchExpressions t \<noteq> [] \<or> MatchFields t \<noteq> []) \<and>
     list_all (sat n) (MatchExpressions t) \<and> list_all (sat n) (MatchFields t))"

definition requiredTerms :: "Affinity option \<Rightarrow> NodeSelectorTerm list option" where
  "requiredTerms a = (case a of None \<Rightarrow> None | Some af \<Rightarrow>
     (case af_NodeAffinity af of None \<Rightarrow> None | Some na \<Rightarrow> Required na))"

definition affinity_sat :: "(Node \<Rightarrow> NodeSelectorRequirement \<Rightarrow> bool) \<Rightarrow> Affinity option \<Rightarrow> Node \<Rightarrow> bool" where
  "affinity_sat sat a n = (case requiredTerms a of None \<Rightarrow> True | Some ts \<Rightarrow> list_ex (term_sat sat n) ts)"

text \<open>What the API server guarantees of a required selector a user supplies: at least one term, and the
  terms are not empty.\<close>

definition affinity_wf :: "Affinity option \<Rightarrow> bool" where
  "affinity_wf a = (case requiredTerms a of None \<Rightarrow> True | Some ts \<Rightarrow>
     ts \<noteq> [] \<and> list_all (\<lambda>t. MatchExpressions t \<noteq> [] \<or> MatchFields t \<noteq> []) ts)"

fun label_sat :: "Node \<Rightarrow> NodeSelectorRequirement \<Rightarrow> bool" where
  "label_sat n r = (case nsr_Operator r of
       OpExists \<Rightarrow> node_Labels n (nsr_Key r) \<noteq> None
     | OpIn \<Rightarrow> (case node_Labels n (nsr_Key r) of None \<Rightarrow> False | Some v \<Rightarrow> v \<in> set (nsr_Values r))
     | OpNotIn \<Rightarrow> (case node_Labels n (nsr_Key r) of None \<Rightarrow> True | Some v \<Rightarrow> v \<notin> set (nsr_Values r)))"

locale node_selector =
  fixes sat :: "Node \<Rightarrow> NodeSelectorRequirement \<Rightarrow> bool"
  assumes sat_Exists: "nsr_Operator r = OpExists \<Longrightarrow> sat n r \<longleftrightarrow> node_Labels n (nsr_Key r) \<noteq> None"
    and sat_In: "nsr_Operator r = OpIn \<Longrightarrow>
      sat n r \<longleftrightarrow> (\<exists>v \<in> set (nsr_Values r). node_Labels n (nsr_Key r) = Some v)"
    and sat_NotIn: "nsr_Operator r = OpNotIn \<Longrightarrow>
      sat n r \<longleftrightarrow> (\<forall>v \<in> set (nsr_Values r). node_Labels n (nsr_Key r) \<noteq> Some v)"
begin

lemmas sat_simps = sat_Exists sat_In sat_NotIn

lemma sat_single_term:
  "list_ex (term_sat sat n) [\<lparr>MatchExpressions = [r], MatchFields = []\<rparr>] = sat n r"
  by (simp add: term_sat_def)

end

interpretation k8s: node_selector label_sat
  by unfold_locales (auto split: option.splits)

lemma requiredTerms_simps [simp]:
  "requiredTerms None = None"
  "requiredTerms (Some \<lparr>af_NodeAffinity = None, af_rest = r\<rparr>) = None"
  "requiredTerms (Some \<lparr>af_NodeAffinity = Some \<lparr>Required = t, na_preferred = q\<rparr>, af_rest = r\<rparr>) = t"
  by (simp_all add: requiredTerms_def)

end
