(* ===== verification/Admission.thy ===== *)
theory Admission
  imports Cluster_Types
begin

text \<open>
  The pod admission webhook: \<open>kubernetes/internal/admission/capability.go\<close> (the fleet view and
  \<open>CheckFleet\<close>), \<open>mutate.go\<close> (\<open>MutatePod\<close>, which stamps the artifact annotations, checks the request
  against the ready fleet and injects node affinity) and \<open>webhook.go\<close> (the admission handler around
  them, with the decoder, the node list and the encoder as arguments, because they belong to
  controller-runtime). A message the code builds with \<open>strconv.Quote\<close> is a constructor of
  \<open>fleet_message\<close> with the quoted strings as arguments.

  The lemmas show when the webhook denies, that the reason it gives is the right one, and, with the
  locale \<open>node_selector\<close> for the scheduler, that the affinity it injects selects exactly the nodes whose
  advertised inventory satisfies the request.
\<close>

section \<open>Node capabilities\<close>

record NodeCapability =
  nc_Name :: string
  nc_Ready :: bool
  nc_Arch :: string
  nc_JDKs :: "string list"
  nc_Launchers :: "string list"

definition splitInventory :: "string \<Rightarrow> string list" where
  "splitInventory v = (if v = '''' then [] else trimmedTokens (SplitOn (CHR '','') v))"

definition NodeCapabilityFrom :: "Node \<Rightarrow> NodeCapability" where
  "NodeCapabilityFrom node =
     \<lparr>nc_Name = node_Name node,
      nc_Ready = (mget (node_Labels node) LabelRuntimeReady = ValueReady),
      nc_Arch = mget (node_Labels node) LabelArch,
      nc_JDKs = splitInventory (mget (node_Annotations node) AnnotationJDKs),
      nc_Launchers = splitInventory (mget (node_Annotations node) AnnotationLaunchers)\<rparr>"

definition bareFeature :: "string \<Rightarrow> int option" where
  "bareFeature s = (case Atoi s of None \<Rightarrow> None | Some n \<Rightarrow> if n \<le> 0 then None else Some n)"

definition jdkFeature :: "string \<Rightarrow> int" where
  "jdkFeature jdk = (case CutAtLast (CHR ''-'') jdk of None \<Rightarrow> 0 | Some (_, f) \<Rightarrow>
     if f = '''' then 0 else (case Atoi f of None \<Rightarrow> 0 | Some n \<Rightarrow> n))"

definition supportsJDK :: "NodeCapability \<Rightarrow> string \<Rightarrow> bool" where
  "supportsJDK c request =
     (if request = '''' then True
      else (case bareFeature request of
              Some feature \<Rightarrow> list_ex (\<lambda>jdk. jdkFeature jdk = feature) (nc_JDKs c)
            | None \<Rightarrow> list_ex (\<lambda>jdk. jdk = request) (nc_JDKs c)))"

definition supportsLauncher :: "NodeCapability \<Rightarrow> string \<Rightarrow> bool" where
  "supportsLauncher c request =
     (if request = '''' \<or> request = VanillaLauncher then True
      else list_ex (\<lambda>l. l = request) (nc_Launchers c))"

definition supportsArch :: "NodeCapability \<Rightarrow> string list \<Rightarrow> bool" where
  "supportsArch c request = (if request = [] then True else list_ex (\<lambda>a. nc_Arch c = a) request)"

section \<open>The fleet check\<close>

datatype fleet_message =
    NoMessage
  | MsgNoJDK string string
  | MsgNoLauncher string string
  | MsgNoArch string string
  | MsgJointArch string string
  | MsgJointLauncher string string

record FleetResult =
  fr_Compatible :: bool
  fr_DenyReason :: string
  fr_Message :: fleet_message

definition anySupportsArch :: "NodeCapability list \<Rightarrow> string list \<Rightarrow> bool" where
  "anySupportsArch fleet arch = list_ex (\<lambda>n. supportsArch n arch) fleet"

definition anySupportsJDK :: "NodeCapability list \<Rightarrow> string \<Rightarrow> bool" where
  "anySupportsJDK fleet jdk = list_ex (\<lambda>n. supportsJDK n jdk) fleet"

definition anySupportsLauncher :: "NodeCapability list \<Rightarrow> string \<Rightarrow> bool" where
  "anySupportsLauncher fleet l = list_ex (\<lambda>n. supportsLauncher n l) fleet"

definition joinInventory :: "NodeCapability list \<Rightarrow> (NodeCapability \<Rightarrow> string list) \<Rightarrow> string" where
  "joinInventory fleet pick =
     (let vs = remdups (concat (map pick fleet))
      in if vs = [] then ''none'' else JoinWith '','' (sort vs))"

definition fleetJDKs :: "NodeCapability list \<Rightarrow> string" where
  "fleetJDKs fleet = joinInventory fleet nc_JDKs"

definition fleetLaunchers :: "NodeCapability list \<Rightarrow> string" where
  "fleetLaunchers fleet = joinInventory fleet nc_Launchers"

definition fleetArches :: "NodeCapability list \<Rightarrow> string" where
  "fleetArches fleet = joinInventory fleet (\<lambda>n. if nc_Arch n = '''' then [] else [nc_Arch n])"

definition deniedBy :: "string \<Rightarrow> fleet_message \<Rightarrow> FleetResult" where
  "deniedBy reason msg = \<lparr>fr_Compatible = False, fr_DenyReason = reason, fr_Message = msg\<rparr>"

definition fleetOK :: FleetResult where
  "fleetOK = \<lparr>fr_Compatible = True, fr_DenyReason = '''', fr_Message = NoMessage\<rparr>"

definition CheckFleet :: "NodeCapability list \<Rightarrow> string \<Rightarrow> string \<Rightarrow> string list \<Rightarrow> FleetResult" where
  "CheckFleet fleet jdk launcher arch =
     (let ready = filter nc_Ready fleet;
          jdkExplicit = (jdk \<noteq> '''');
          launcherExplicit = (launcher \<noteq> '''' \<and> launcher \<noteq> VanillaLauncher);
          archExplicit = (arch \<noteq> [])
      in if \<not> jdkExplicit \<and> \<not> launcherExplicit \<and> \<not> archExplicit then fleetOK
         else if list_ex (\<lambda>n. supportsJDK n jdk \<and> supportsLauncher n launcher \<and> supportsArch n arch) ready
         then fleetOK
         else if jdkExplicit \<and> \<not> anySupportsJDK ready jdk
         then deniedBy ReasonNoCompatibleJDK (MsgNoJDK jdk (fleetJDKs ready))
         else if launcherExplicit \<and> \<not> anySupportsLauncher ready launcher
         then deniedBy ReasonNoCompatibleLauncher (MsgNoLauncher launcher (fleetLaunchers ready))
         else if archExplicit \<and> \<not> anySupportsArch ready arch
         then deniedBy ReasonNoCompatibleArch (MsgNoArch (JoinWith '','' arch) (fleetArches ready))
         else if archExplicit
         then deniedBy ReasonNoCompatibleArch (MsgJointArch (JoinWith '','' arch) (fleetArches ready))
         else if launcherExplicit
         then deniedBy ReasonNoCompatibleLauncher (MsgJointLauncher launcher (fleetLaunchers ready))
         else deniedBy ReasonNoCompatibleJDK (MsgNoJDK jdk (fleetJDKs ready)))"

section \<open>The pod mutation\<close>

record MutationResult =
  mr_Applies :: bool
  mr_DenyReason :: string
  mr_DenyMessage :: fleet_message
  mr_ArtifactRef :: string
  mr_ArtifactDigest :: string

definition IsBrewletPod :: "Pod \<Rightarrow> bool" where
  "IsBrewletPod pod = (pod_RuntimeClassName pod = Some RuntimeClassName)"

definition splitArch :: "string \<Rightarrow> string list" where
  "splitArch v = (if TrimSpace v = '''' then [] else trimmedTokens (SplitOn (CHR '','') v))"

definition podArtifactRef :: "Pod \<Rightarrow> string" where
  "podArtifactRef pod =
     (case pod_Containers pod of [] \<Rightarrow> ''''
      | c0 # cs \<Rightarrow>
        (let name = mget (pod_Annotations pod) ''brewlet.sh/artifact-container'' in
         if name \<noteq> '''' then
           (case find (\<lambda>c. c_Name c = name) (c0 # cs) of Some c \<Rightarrow> c_Image c | None \<Rightarrow> c_Image c0)
         else c_Image c0))"

definition refDigest :: "string \<Rightarrow> string" where
  "refDigest ref = (case CutAtLast (CHR ''@'') ref of None \<Rightarrow> '''' | Some (_, digest) \<Rightarrow>
     if \<not> HasPrefix digest ''sha256:'' \<or> length digest \<le> length ''sha256:'' then '''' else digest)"

definition requiredCapabilityLabels :: "string \<Rightarrow> string \<Rightarrow> string list \<Rightarrow> NodeSelectorRequirement list" where
  "requiredCapabilityLabels jdk launcher arch =
     (if jdk \<noteq> '''' then
        [\<lparr>nsr_Key = (case bareFeature jdk of Some f \<Rightarrow> LabelJDKFeaturePrefix @ Itoa f
                     | None \<Rightarrow> LabelJDKPrefix @ jdk),
          nsr_Operator = OpExists, nsr_Values = []\<rparr>] else []) @
     (if launcher \<noteq> '''' \<and> launcher \<noteq> VanillaLauncher then
        [\<lparr>nsr_Key = LabelLauncherPrefix @ launcher, nsr_Operator = OpExists, nsr_Values = []\<rparr>] else []) @
     (if arch \<noteq> [] then
        [\<lparr>nsr_Key = LabelArch, nsr_Operator = OpIn, nsr_Values = arch\<rparr>] else [])"

definition injectNodeAffinity :: "Pod \<Rightarrow> string \<Rightarrow> string \<Rightarrow> string list \<Rightarrow> Pod" where
  "injectNodeAffinity pod jdk launcher arch =
     (let reqs = requiredCapabilityLabels jdk launcher arch in
      if reqs = [] then pod
      else
        (let af = (case pod_Affinity pod of None \<Rightarrow> \<lparr>af_NodeAffinity = None, af_rest = ''''\<rparr> | Some a \<Rightarrow> a);
             na = (case af_NodeAffinity af of None \<Rightarrow> \<lparr>Required = None, na_preferred = ''''\<rparr> | Some x \<Rightarrow> x);
             sel = (case Required na of None \<Rightarrow> [] | Some ts \<Rightarrow> ts);
             terms = (if sel = [] then [\<lparr>MatchExpressions = [], MatchFields = []\<rparr>] else sel);
             terms' = map (\<lambda>t. t\<lparr>MatchExpressions := MatchExpressions t @ reqs\<rparr>) terms
         in pod\<lparr>pod_Affinity := Some (af\<lparr>af_NodeAffinity := Some (na\<lparr>Required := Some terms'\<rparr>)\<rparr>)\<rparr>))"

definition stampArtifact :: "Pod \<Rightarrow> MutationResult \<Rightarrow> Pod \<times> MutationResult" where
  "stampArtifact pod res =
     (let ref = podArtifactRef pod in
      if ref = '''' then (pod, res)
      else
        (let ann = pod_Annotations pod;
             ann1 = (if mget ann AnnotationArtifactRef = '''' then ann(AnnotationArtifactRef \<mapsto> ref) else ann);
             stamped = mget ann1 AnnotationArtifactRef;
             digest = refDigest stamped;
             ann2 = (if digest \<noteq> '''' \<and> mget ann1 AnnotationArtifactDigest = ''''
                     then ann1(AnnotationArtifactDigest \<mapsto> digest) else ann1)
         in (pod\<lparr>pod_Annotations := ann2\<rparr>,
             res\<lparr>mr_ArtifactRef := stamped, mr_ArtifactDigest := mget ann2 AnnotationArtifactDigest\<rparr>)))"

definition noMutation :: MutationResult where
  "noMutation = \<lparr>mr_Applies = False, mr_DenyReason = '''', mr_DenyMessage = NoMessage,
                 mr_ArtifactRef = '''', mr_ArtifactDigest = ''''\<rparr>"

definition MutatePod :: "Pod \<Rightarrow> NodeCapability list \<Rightarrow> Pod \<times> MutationResult" where
  "MutatePod pod fleet =
     (if \<not> IsBrewletPod pod then (pod, noMutation)
      else
        (case stampArtifact pod (noMutation\<lparr>mr_Applies := True\<rparr>) of (pod1, res1) \<Rightarrow>
           (let jdk = TrimSpace (mget (pod_Annotations pod1) AnnotationRequestedJDK);
                launcher = TrimSpace (mget (pod_Annotations pod1) AnnotationRequestedLauncher);
                arch = splitArch (mget (pod_Annotations pod1) AnnotationRequestedArch);
                fr = CheckFleet fleet jdk launcher arch
            in if \<not> fr_Compatible fr
               then (pod1, res1\<lparr>mr_DenyReason := fr_DenyReason fr, mr_DenyMessage := fr_Message fr\<rparr>)
               else (injectNodeAffinity pod1 jdk launcher arch, res1))))"

section \<open>The admission handler\<close>

datatype admission_response =
    Errored nat
  | Allowed string
  | Denied string fleet_message
  | PatchResponse Pod

text \<open>Arguments: the decoded pod (\<open>None\<close> when the decoder fails), the node list (\<open>None\<close> when listing
  fails) and whether the mutated pod can be encoded. The second component of the result is the
  sequence of \<open>ObserveAdmission\<close> calls.\<close>

definition PodMutatorHandle ::
  "Pod option \<Rightarrow> Node list option \<Rightarrow> bool \<Rightarrow> admission_response \<times> (string \<times> string) list" where
  "PodMutatorHandle decoded nodes marshalOK =
     (case decoded of None \<Rightarrow> (Errored 400, [(''error'', ''decode'')])
      | Some pod \<Rightarrow>
        if \<not> IsBrewletPod pod then (Allowed ''not a brewlet pod'', [])
        else (case nodes of
          None \<Rightarrow> (Allowed ''fleet unavailable'', [(''fail_open'', ''fleet_unavailable'')])
        | Some ns \<Rightarrow>
          (case MutatePod pod (map NodeCapabilityFrom ns) of (pod', res) \<Rightarrow>
             if mr_DenyReason res \<noteq> '''' then
               (Denied (mr_DenyReason res) (mr_DenyMessage res), [(''denied'', mr_DenyReason res)])
             else if \<not> marshalOK then (Errored 500, [(''error'', ''encode'')])
             else (PatchResponse pod', [(''admitted'', ''none'')]))))"

section \<open>When the webhook denies\<close>

definition launcherExplicit :: "string \<Rightarrow> bool" where
  "launcherExplicit l \<longleftrightarrow> l \<noteq> '''' \<and> l \<noteq> VanillaLauncher"

definition requestOK :: "NodeCapability \<Rightarrow> string \<Rightarrow> string \<Rightarrow> string list \<Rightarrow> bool" where
  "requestOK n jdk launcher arch \<longleftrightarrow> supportsJDK n jdk \<and> supportsLauncher n launcher \<and> supportsArch n arch"

definition reqJDK :: "Pod \<Rightarrow> string" where
  "reqJDK pod = TrimSpace (mget (pod_Annotations pod) AnnotationRequestedJDK)"

definition reqLauncher :: "Pod \<Rightarrow> string" where
  "reqLauncher pod = TrimSpace (mget (pod_Annotations pod) AnnotationRequestedLauncher)"

definition reqArch :: "Pod \<Rightarrow> string list" where
  "reqArch pod = splitArch (mget (pod_Annotations pod) AnnotationRequestedArch)"

lemma fleetOK_simps [simp]: "fr_Compatible fleetOK" "fr_DenyReason fleetOK = ''''"
  by (simp_all add: fleetOK_def)

lemma deniedBy_simps [simp]:
  "\<not> fr_Compatible (deniedBy r m)" "fr_DenyReason (deniedBy r m) = r" "fr_Message (deniedBy r m) = m"
  by (simp_all add: deniedBy_def)

lemma supports_vacuous [simp]:
  "supportsJDK n ''''" "\<not> launcherExplicit l \<Longrightarrow> supportsLauncher n l" "supportsArch n []"
  by (auto simp: supportsJDK_def supportsLauncher_def supportsArch_def launcherExplicit_def)

lemma any_supports_iff:
  "anySupportsJDK fl j \<longleftrightarrow> (\<exists>n \<in> set fl. supportsJDK n j)"
  "anySupportsLauncher fl l \<longleftrightarrow> (\<exists>n \<in> set fl. supportsLauncher n l)"
  "anySupportsArch fl a \<longleftrightarrow> (\<exists>n \<in> set fl. supportsArch n a)"
  by (auto simp: anySupportsJDK_def anySupportsLauncher_def anySupportsArch_def list_ex_iff)

lemma fleet_jdk_only:
  "\<not> launcherExplicit l \<Longrightarrow> \<not> (\<exists>n \<in> set fl. requestOK n jdk l []) \<Longrightarrow> \<not> anySupportsJDK fl jdk"
  by (auto simp: requestOK_def any_supports_iff)

lemma CheckFleet_OK:
  "(jdk = '''' \<and> \<not> launcherExplicit l \<and> arch = []) \<or> (\<exists>n \<in> set (filter nc_Ready fleet). requestOK n jdk l arch)
   \<Longrightarrow> CheckFleet fleet jdk l arch = fleetOK"
  unfolding CheckFleet_def Let_def launcherExplicit_def [symmetric] requestOK_def list_ex_iff by auto

lemma CheckFleet_denied:
  assumes "\<not> (jdk = '''' \<and> \<not> launcherExplicit l \<and> arch = [])"
    and "\<not> (\<exists>n \<in> set ready. requestOK n jdk l arch)" and "ready = filter nc_Ready fleet"
  shows "CheckFleet fleet jdk l arch =
     (if jdk \<noteq> '''' \<and> \<not> anySupportsJDK ready jdk
      then deniedBy ReasonNoCompatibleJDK (MsgNoJDK jdk (fleetJDKs ready))
      else if launcherExplicit l \<and> \<not> anySupportsLauncher ready l
      then deniedBy ReasonNoCompatibleLauncher (MsgNoLauncher l (fleetLaunchers ready))
      else if arch \<noteq> [] \<and> \<not> anySupportsArch ready arch
      then deniedBy ReasonNoCompatibleArch (MsgNoArch (JoinWith '','' arch) (fleetArches ready))
      else if arch \<noteq> []
      then deniedBy ReasonNoCompatibleArch (MsgJointArch (JoinWith '','' arch) (fleetArches ready))
      else deniedBy ReasonNoCompatibleLauncher (MsgJointLauncher l (fleetLaunchers ready)))"
proof -
  have no: "\<not> list_ex (\<lambda>n. supportsJDK n jdk \<and> supportsLauncher n l \<and> supportsArch n arch) ready"
    using assms(2) by (simp add: list_ex_iff requestOK_def)
  have key: "\<not> launcherExplicit l \<Longrightarrow> arch = [] \<Longrightarrow> \<not> anySupportsJDK ready jdk"
    using assms(2) fleet_jdk_only by blast
  show ?thesis
    using assms(1) no key
    unfolding CheckFleet_def Let_def launcherExplicit_def [symmetric] assms(3) [symmetric]
    by (cases "launcherExplicit l"; cases "arch = []"; cases "jdk = []"; cases "anySupportsJDK ready jdk")
       simp_all
qed

lemma CheckFleet_compatible_iff:
  "fr_Compatible (CheckFleet fleet jdk launcher arch) \<longleftrightarrow>
     (jdk = '''' \<and> \<not> launcherExplicit launcher \<and> arch = []) \<or>
     (\<exists>n \<in> set fleet. nc_Ready n \<and> requestOK n jdk launcher arch)"
  (is "?c \<longleftrightarrow> ?none \<or> ?some")
proof -
  have "?some \<longleftrightarrow> (\<exists>n \<in> set (filter nc_Ready fleet). requestOK n jdk launcher arch)" by auto
  then show ?thesis
    using CheckFleet_OK [of jdk launcher arch fleet] CheckFleet_denied [of jdk launcher arch _ fleet]
    by (cases "?none \<or> ?some") auto
qed

text \<open>A denial blames the right axis. The reason is \<open>NoCompatibleJDK\<close> exactly when no ready node has the
  requested JDK, so the last branch of the switch is never reached; \<open>NoCompatibleLauncher\<close> and
  \<open>NoCompatibleArch\<close> are given only for an explicit launcher or architecture; and a request that fails
  although the JDK and the launcher each exist somewhere is blamed on the architecture when there is one.\<close>

lemma CheckFleet_deny_reason:
  assumes "\<not> fr_Compatible (CheckFleet fleet jdk launcher arch)"
    and "ready = filter nc_Ready fleet" and "reason = fr_DenyReason (CheckFleet fleet jdk launcher arch)"
  shows "(reason = ReasonNoCompatibleJDK \<longleftrightarrow> jdk \<noteq> '''' \<and> \<not> anySupportsJDK ready jdk) \<and>
     (reason = ReasonNoCompatibleLauncher \<longrightarrow> launcherExplicit launcher) \<and>
     (reason = ReasonNoCompatibleArch \<longrightarrow> arch \<noteq> []) \<and>
     (anySupportsJDK ready jdk \<and> anySupportsLauncher ready launcher \<and> arch \<noteq> [] \<longrightarrow>
        reason = ReasonNoCompatibleArch) \<and>
     reason \<in> {ReasonNoCompatibleJDK, ReasonNoCompatibleLauncher, ReasonNoCompatibleArch}"
proof -
  have none: "\<not> (jdk = '''' \<and> \<not> launcherExplicit launcher \<and> arch = [])"
    and no: "\<not> (\<exists>n \<in> set ready. requestOK n jdk launcher arch)"
    using assms(1,2) CheckFleet_OK fleetOK_simps(1) by metis+
  have key: "\<not> launcherExplicit launcher \<Longrightarrow> arch = [] \<Longrightarrow> \<not> anySupportsJDK ready jdk"
    using no fleet_jdk_only by blast
  show ?thesis
    unfolding assms(3) CheckFleet_denied [OF none no assms(2)]
    using key none by (cases "arch = []"; cases "jdk = []"; cases "anySupportsJDK ready jdk";
      cases "launcherExplicit launcher"; cases "anySupportsLauncher ready launcher") simp_all
qed

section \<open>What the injected affinity selects\<close>

text \<open>The provisioner's contract (\<open>provisioner/entrypoint.sh\<close>): next to the inventory annotations a node
  carries one capability label per installed JDK, per feature version and per custom launcher.\<close>

definition advertises :: "Node \<Rightarrow> bool" where
  "advertises n \<longleftrightarrow>
     (\<forall>t. node_Labels n (LabelJDKPrefix @ t) \<noteq> None \<longleftrightarrow> t \<in> set (nc_JDKs (NodeCapabilityFrom n))) \<and>
     (\<forall>f > 0. node_Labels n (LabelJDKFeaturePrefix @ Itoa f) \<noteq> None \<longleftrightarrow>
        (\<exists>jdk \<in> set (nc_JDKs (NodeCapabilityFrom n)). jdkFeature jdk = f)) \<and>
     (\<forall>l. launcherExplicit l \<longrightarrow>
        (node_Labels n (LabelLauncherPrefix @ l) \<noteq> None \<longleftrightarrow> l \<in> set (nc_Launchers (NodeCapabilityFrom n))))"

lemma bareFeature_pos: "bareFeature s = Some f \<Longrightarrow> f > 0"
  by (auto simp: bareFeature_def split: option.splits if_splits)

lemma splitArch_tokens: "'''' \<notin> set (splitArch v)"
  by (auto simp: splitArch_def dest: trimmedTokens_elem)

context node_selector
begin

lemma sat_jdk_label:
  assumes "advertises n" and "jdk \<noteq> ''''"
  shows "list_all (sat n) (requiredCapabilityLabels jdk '''' []) \<longleftrightarrow> supportsJDK (NodeCapabilityFrom n) jdk"
  using assms
  by (cases "bareFeature jdk")
     (auto simp: requiredCapabilityLabels_def sat_Exists supportsJDK_def advertises_def list_ex_iff
       dest: bareFeature_pos)

lemma sat_launcher_label:
  assumes "advertises n" and "launcherExplicit l"
  shows "list_all (sat n) (requiredCapabilityLabels '''' l []) \<longleftrightarrow> supportsLauncher (NodeCapabilityFrom n) l"
  using assms
  by (auto simp: requiredCapabilityLabels_def sat_Exists supportsLauncher_def advertises_def list_ex_iff
      launcherExplicit_def)

lemma sat_arch_label:
  assumes "arch \<noteq> []" and "'''' \<notin> set arch"
  shows "list_all (sat n) (requiredCapabilityLabels '''' '''' arch) \<longleftrightarrow> supportsArch (NodeCapabilityFrom n) arch"
  using assms
  by (auto simp: requiredCapabilityLabels_def sat_In supportsArch_def list_ex_iff NodeCapabilityFrom_def
      mget_def split: option.splits)

lemma requiredCapabilityLabels_split:
  "requiredCapabilityLabels jdk l arch =
     requiredCapabilityLabels jdk '''' [] @ requiredCapabilityLabels '''' l [] @ requiredCapabilityLabels '''' '''' arch"
  by (simp add: requiredCapabilityLabels_def)

lemma sat_capabilities:
  assumes "advertises n" and "'''' \<notin> set arch"
  shows "list_all (sat n) (requiredCapabilityLabels jdk l arch) \<longleftrightarrow> requestOK (NodeCapabilityFrom n) jdk l arch"
proof -
  have j: "list_all (sat n) (requiredCapabilityLabels jdk '''' []) \<longleftrightarrow> supportsJDK (NodeCapabilityFrom n) jdk"
    using sat_jdk_label [OF assms(1)] by (cases "jdk = []") (simp_all add: requiredCapabilityLabels_def)
  have l: "list_all (sat n) (requiredCapabilityLabels '''' l []) \<longleftrightarrow> supportsLauncher (NodeCapabilityFrom n) l"
    using sat_launcher_label [OF assms(1)]
    by (cases "launcherExplicit l") (auto simp: requiredCapabilityLabels_def launcherExplicit_def supportsLauncher_def)
  have a: "list_all (sat n) (requiredCapabilityLabels '''' '''' arch) \<longleftrightarrow> supportsArch (NodeCapabilityFrom n) arch"
    using sat_arch_label [OF _ assms(2)] by (cases "arch = []") (simp_all add: requiredCapabilityLabels_def)
  show ?thesis by (subst requiredCapabilityLabels_split) (simp add: j l a requestOK_def)
qed

lemma sat_injected:
  assumes "affinity_wf (pod_Affinity pod)"
  shows "affinity_sat sat (pod_Affinity (injectNodeAffinity pod jdk l arch)) n \<longleftrightarrow>
    affinity_sat sat (pod_Affinity pod) n \<and> list_all (sat n) (requiredCapabilityLabels jdk l arch)"
proof (cases "requiredCapabilityLabels jdk l arch = []")
  case True
  then show ?thesis by (simp add: injectNodeAffinity_def)
next
  case False
  define reqs where "reqs = requiredCapabilityLabels jdk l arch"
  define ts where "ts = (case requiredTerms (pod_Affinity pod) of None \<Rightarrow> [] | Some ts \<Rightarrow> ts)"
  define ts0 where "ts0 = (if ts = [] then [\<lparr>MatchExpressions = [], MatchFields = []\<rparr>] else ts)"
  have r: "reqs \<noteq> []" using False reqs_def by simp
  have "requiredTerms (pod_Affinity (injectNodeAffinity pod jdk l arch)) =
      Some (map (\<lambda>t. t\<lparr>MatchExpressions := MatchExpressions t @ reqs\<rparr>) ts0)"
    using False by (auto simp: injectNodeAffinity_def Let_def requiredTerms_def reqs_def [symmetric] ts0_def ts_def
        split: option.splits)
  then have "affinity_sat sat (pod_Affinity (injectNodeAffinity pod jdk l arch)) n \<longleftrightarrow>
      (\<exists>t \<in> set ts0. list_all (sat n) (MatchExpressions t) \<and> list_all (sat n) (MatchFields t)) \<and> list_all (sat n) reqs"
    using r by (auto simp: affinity_sat_def list_ex_iff term_sat_def)
  moreover have "affinity_sat sat (pod_Affinity pod) n \<longleftrightarrow>
      (\<exists>t \<in> set ts0. list_all (sat n) (MatchExpressions t) \<and> list_all (sat n) (MatchFields t))"
    using assms
    by (auto simp: affinity_sat_def affinity_wf_def ts0_def ts_def list_ex_iff term_sat_def list_all_iff
        split: option.splits)
  ultimately show ?thesis by (simp add: reqs_def)
qed

end

section \<open>The mutation\<close>

lemma stampArtifact_frame:
  assumes "stampArtifact pod res = (pod', res')"
  shows "pod_Affinity pod' = pod_Affinity pod" "pod_RuntimeClassName pod' = pod_RuntimeClassName pod"
    "pod_Containers pod' = pod_Containers pod" "pod_Name pod' = pod_Name pod"
    "\<And>k. k \<noteq> AnnotationArtifactRef \<Longrightarrow> k \<noteq> AnnotationArtifactDigest \<Longrightarrow>
       pod_Annotations pod' k = pod_Annotations pod k"
    "\<And>k v. pod_Annotations pod k = Some v \<Longrightarrow> v \<noteq> '''' \<Longrightarrow> pod_Annotations pod' k = Some v"
    "mr_Applies res' = mr_Applies res" "mr_DenyReason res' = mr_DenyReason res"
  using assms by (auto simp: stampArtifact_def Let_def mget_def split: if_splits)

lemma stampArtifact_requests:
  assumes "stampArtifact pod res = (pod', res')"
  shows "reqJDK pod' = reqJDK pod" "reqLauncher pod' = reqLauncher pod" "reqArch pod' = reqArch pod"
  using stampArtifact_frame(5) [OF assms]
  by (simp_all add: reqJDK_def reqLauncher_def reqArch_def mget_def)

lemma MutatePod_brewlet:
  assumes "IsBrewletPod pod"
  obtains pod1 res1 where "stampArtifact pod (noMutation\<lparr>mr_Applies := True\<rparr>) = (pod1, res1)"
    and "mr_DenyReason res1 = ''''" and "mr_Applies res1"
    and "MutatePod pod fleet =
      (let fr = CheckFleet fleet (reqJDK pod) (reqLauncher pod) (reqArch pod) in
       if \<not> fr_Compatible fr
       then (pod1, res1\<lparr>mr_DenyReason := fr_DenyReason fr, mr_DenyMessage := fr_Message fr\<rparr>)
       else (injectNodeAffinity pod1 (reqJDK pod) (reqLauncher pod) (reqArch pod), res1))"
proof -
  obtain pod1 res1 where st: "stampArtifact pod (noMutation\<lparr>mr_Applies := True\<rparr>) = (pod1, res1)" by fastforce
  note req = stampArtifact_requests [OF st, unfolded reqJDK_def reqLauncher_def reqArch_def]
  show thesis
    by (rule that [OF st])
       (use st assms stampArtifact_frame(7,8) [OF st] in
         \<open>simp_all add: MutatePod_def Let_def noMutation_def reqJDK_def reqLauncher_def reqArch_def req\<close>)
qed

lemma CheckFleet_denied_reason: "\<not> fr_Compatible (CheckFleet fl j l a) \<Longrightarrow> fr_DenyReason (CheckFleet fl j l a) \<noteq> ''''"
proof -
  assume "\<not> fr_Compatible (CheckFleet fl j l a)"
  then have "\<not> (j = '''' \<and> \<not> launcherExplicit l \<and> a = [])" and "\<not> (\<exists>n \<in> set (filter nc_Ready fl). requestOK n j l a)"
    using CheckFleet_OK fleetOK_simps(1) by metis+
  then show ?thesis using CheckFleet_denied [of j l a _ fl] by simp
qed

lemma MutatePod_admitted:
  assumes "IsBrewletPod pod" and "MutatePod pod fleet = (pod', res)" and "mr_DenyReason res = ''''"
  obtains pod1 res1 where "stampArtifact pod (noMutation\<lparr>mr_Applies := True\<rparr>) = (pod1, res1)"
    and "pod' = injectNodeAffinity pod1 (reqJDK pod) (reqLauncher pod) (reqArch pod)"
    and "fr_Compatible (CheckFleet fleet (reqJDK pod) (reqLauncher pod) (reqArch pod))"
  using assms(2,3) CheckFleet_denied_reason
  by (rule_tac MutatePod_brewlet [OF assms(1), of fleet]) (auto simp: Let_def split: if_splits)


text \<open>C3: an admitted pod that asks for something can be scheduled. If every node advertises its inventory
  and the pod brings no node affinity of its own, then after admission some node that is ready
  satisfies the pod's required affinity.\<close>

theorem MutatePod_schedulable:
  assumes "node_selector sat" and "IsBrewletPod pod"
    and "MutatePod pod (map NodeCapabilityFrom nodes) = (pod', res)" and "mr_DenyReason res = ''''"
    and "\<forall>n \<in> set nodes. advertises n" and "pod_Affinity pod = None"
    and "reqJDK pod \<noteq> '''' \<or> launcherExplicit (reqLauncher pod) \<or> reqArch pod \<noteq> []"
  shows "\<exists>n \<in> set nodes. nc_Ready (NodeCapabilityFrom n) \<and> affinity_sat sat (pod_Affinity pod') n"
proof -
  have "fr_Compatible (CheckFleet (map NodeCapabilityFrom nodes) (reqJDK pod) (reqLauncher pod) (reqArch pod))"
    using MutatePod_admitted [OF assms(2-4)] by metis
  then obtain n where n: "n \<in> set nodes" "nc_Ready (NodeCapabilityFrom n)"
    "requestOK (NodeCapabilityFrom n) (reqJDK pod) (reqLauncher pod) (reqArch pod)"
    using assms(7) by (auto simp: CheckFleet_compatible_iff)
  obtain pod1 res1 where st: "stampArtifact pod (noMutation\<lparr>mr_Applies := True\<rparr>) = (pod1, res1)"
    and p: "pod' = injectNodeAffinity pod1 (reqJDK pod) (reqLauncher pod) (reqArch pod)"
    using MutatePod_admitted [OF assms(2-4)] by metis
  have a: "pod_Affinity pod1 = None" using stampArtifact_frame(1) [OF st] assms(6) by simp
  have t: "'''' \<notin> set (reqArch pod)" by (simp add: reqArch_def splitArch_tokens)
  have adv: "advertises n" using assms(5) n(1) by simp
  show ?thesis
    using node_selector.sat_injected [OF assms(1), of pod1] n
      node_selector.sat_capabilities [OF assms(1) adv t] by (auto simp: p a affinity_wf_def affinity_sat_def)
qed

text \<open>C2: the handler denies a pod exactly when it targets the Brewlet runtime class, the nodes could be
  listed, the pod asks for a JDK, a custom launcher or an architecture, and no ready node satisfies the
  whole request. So it never blocks a pod of another runtime class, and it fails open when the fleet
  cannot be read.\<close>

theorem PodMutatorHandle_denies_iff:
  "(\<exists>reason msg. fst (PodMutatorHandle (Some pod) nodes marshalOK) = Denied reason msg) \<longleftrightarrow>
     IsBrewletPod pod \<and>
     (reqJDK pod \<noteq> '''' \<or> launcherExplicit (reqLauncher pod) \<or> reqArch pod \<noteq> []) \<and>
     (\<exists>ns. nodes = Some ns \<and>
        (\<forall>n \<in> set ns. nc_Ready (NodeCapabilityFrom n) \<longrightarrow>
           \<not> requestOK (NodeCapabilityFrom n) (reqJDK pod) (reqLauncher pod) (reqArch pod)))"
proof (cases "IsBrewletPod pod")
  case brewlet: True
  show ?thesis
  proof (cases nodes)
    case (Some ns)
    let ?fr = "CheckFleet (map NodeCapabilityFrom ns) (reqJDK pod) (reqLauncher pod) (reqArch pod)"
    obtain pod1 res1 where "mr_DenyReason res1 = ''''"
      and "MutatePod pod (map NodeCapabilityFrom ns) =
        (let fr = ?fr in
         if \<not> fr_Compatible fr
         then (pod1, res1\<lparr>mr_DenyReason := fr_DenyReason fr, mr_DenyMessage := fr_Message fr\<rparr>)
         else (injectNodeAffinity pod1 (reqJDK pod) (reqLauncher pod) (reqArch pod), res1))"
      by (rule MutatePod_brewlet [OF brewlet])
    then have "(\<exists>reason msg. fst (PodMutatorHandle (Some pod) nodes marshalOK) = Denied reason msg) \<longleftrightarrow>
        \<not> fr_Compatible ?fr"
      using brewlet Some CheckFleet_denied_reason by (auto simp: PodMutatorHandle_def Let_def split: if_splits)
    then show ?thesis using brewlet Some by (auto simp: CheckFleet_compatible_iff)
  qed (simp add: PodMutatorHandle_def brewlet)
qed (simp add: PodMutatorHandle_def)

text \<open>The mutation touches only what it owns. A pod of another runtime class is returned as it is; for
  any pod the containers, the runtime class and the name are unchanged, an annotation that has a value
  keeps it, only the two artifact annotations can be added, and the parts of the affinity other than
  the required node selector are unchanged.\<close>

lemma MutatePod_frame:
  assumes "MutatePod pod fleet = (pod', res)"
  shows "(\<not> IsBrewletPod pod \<longrightarrow> pod' = pod \<and> \<not> mr_Applies res) \<and>
    pod_Containers pod' = pod_Containers pod \<and> pod_RuntimeClassName pod' = pod_RuntimeClassName pod \<and>
    pod_Name pod' = pod_Name pod \<and>
    (\<forall>k v. pod_Annotations pod k = Some v \<and> v \<noteq> '''' \<longrightarrow> pod_Annotations pod' k = Some v) \<and>
    (\<forall>k. k \<noteq> AnnotationArtifactRef \<and> k \<noteq> AnnotationArtifactDigest \<longrightarrow>
       pod_Annotations pod' k = pod_Annotations pod k) \<and>
    (\<forall>a na. pod_Affinity pod = Some a \<and> af_NodeAffinity a = Some na \<longrightarrow>
       (\<exists>a' na'. pod_Affinity pod' = Some a' \<and> af_rest a' = af_rest a \<and>
          af_NodeAffinity a' = Some na' \<and> na_preferred na' = na_preferred na))"
proof (cases "IsBrewletPod pod")
  case True
  obtain pod1 res1 where st: "stampArtifact pod (noMutation\<lparr>mr_Applies := True\<rparr>) = (pod1, res1)"
    and m: "MutatePod pod fleet =
      (let fr = CheckFleet fleet (reqJDK pod) (reqLauncher pod) (reqArch pod) in
       if \<not> fr_Compatible fr
       then (pod1, res1\<lparr>mr_DenyReason := fr_DenyReason fr, mr_DenyMessage := fr_Message fr\<rparr>)
       else (injectNodeAffinity pod1 (reqJDK pod) (reqLauncher pod) (reqArch pod), res1))"
    by (rule MutatePod_brewlet [OF True])
  have inj: "pod_Containers (injectNodeAffinity pod1 j l a) = pod_Containers pod1 \<and>
      pod_RuntimeClassName (injectNodeAffinity pod1 j l a) = pod_RuntimeClassName pod1 \<and>
      pod_Name (injectNodeAffinity pod1 j l a) = pod_Name pod1 \<and>
      pod_Annotations (injectNodeAffinity pod1 j l a) = pod_Annotations pod1 \<and>
      (\<forall>x na. pod_Affinity pod1 = Some x \<and> af_NodeAffinity x = Some na \<longrightarrow>
        (\<exists>x' na'. pod_Affinity (injectNodeAffinity pod1 j l a) = Some x' \<and> af_rest x' = af_rest x \<and>
          af_NodeAffinity x' = Some na' \<and> na_preferred na' = na_preferred na))" for j l a
    by (simp add: injectNodeAffinity_def Let_def)
  show ?thesis
    using assms m True inj [of "reqJDK pod" "reqLauncher pod" "reqArch pod"] stampArtifact_frame(1-6) [OF st]
    by (auto simp: Let_def split: if_splits)
qed (use assms in \<open>auto simp: MutatePod_def noMutation_def\<close>)

section \<open>Example fleet\<close>

definition exampleNode :: Node where
  "exampleNode = \<lparr>node_Name = ''n1'',
     node_Labels = [LabelRuntimeReady \<mapsto> ValueReady, LabelArch \<mapsto> ''amd64'',
       ''brewlet.sh/jdk.temurin-21'' \<mapsto> ''true'', ''brewlet.sh/jdk-feature.21'' \<mapsto> ''true''],
     node_Annotations = [AnnotationJDKs \<mapsto> ''temurin-21'']\<rparr>"

definition examplePod :: Pod where
  "examplePod = \<lparr>pod_Name = ''orders'', pod_Annotations = [AnnotationRequestedJDK \<mapsto> ''21''],
     pod_RuntimeClassName = Some RuntimeClassName,
     pod_Containers = [\<lparr>c_Name = ''app'', c_Image = ''reg.io/orders@sha256:ab''\<rparr>], pod_Affinity = None\<rparr>"

lemma Itoa_21: "Itoa 21 = ''21''"
  by code_simp

lemma example_capability:
  "NodeCapabilityFrom exampleNode =
     \<lparr>nc_Name = ''n1'', nc_Ready = True, nc_Arch = ''amd64'', nc_JDKs = [''temurin-21''], nc_Launchers = []\<rparr>"
  by (simp add: NodeCapabilityFrom_def exampleNode_def vocab splitInventory_def trimmedTokens_def TrimSpace_def
      is_space_def)

lemma jdkFeature_temurin21: "jdkFeature ''temurin-21'' = 21"
  by (simp add: jdkFeature_def CutAtLast_def Atoi_def parse_digits_def is_digit_def digit_val_def in_int64_def
      min_int64_def max_int64_def)

lemma example_labels:
  "node_Labels exampleNode k \<noteq> None \<longleftrightarrow>
     k \<in> {''brewlet.sh/runtime'', ''kubernetes.io/arch'', ''brewlet.sh/jdk.temurin-21'', ''brewlet.sh/jdk-feature.21''}"
  by (simp add: exampleNode_def vocab)

lemma example_advertises: "advertises exampleNode"
proof -
  have f: "LabelJDKFeaturePrefix @ Itoa f = ''brewlet.sh/jdk-feature.21'' \<longleftrightarrow> f = 21" for f
    using Itoa_inj [of f 21] Itoa_21 by (auto simp: vocab)
  have "node_Labels exampleNode (LabelJDKPrefix @ t) \<noteq> None \<longleftrightarrow> t = ''temurin-21''" for t
    by (simp only: example_labels) (simp add: vocab)
  moreover have "node_Labels exampleNode (LabelJDKFeaturePrefix @ Itoa k) \<noteq> None \<longleftrightarrow> k = 21" for k
    using f [of k] by (simp only: example_labels) (simp add: vocab)
  moreover have "node_Labels exampleNode (LabelLauncherPrefix @ l) = None" for l
    using example_labels [of "LabelLauncherPrefix @ l"] by (simp add: vocab)
  ultimately show ?thesis
    unfolding advertises_def example_capability
    by (simp only: NodeCapability.simps list.set jdkFeature_temurin21 bex_simps insert_iff empty_iff) simp
qed

lemma example_requests:
  "reqJDK examplePod = ''21''" "reqLauncher examplePod = ''''" "reqArch examplePod = []"
  by (simp_all add: reqJDK_def reqLauncher_def reqArch_def examplePod_def vocab mget_def splitArch_def TrimSpace_def
      is_space_def)

lemma example_check:
  "fr_Compatible (CheckFleet [NodeCapabilityFrom exampleNode] ''21'' [] [])"
  "\<not> fr_Compatible (CheckFleet [NodeCapabilityFrom exampleNode] ''99'' [] [])"
  by (simp_all add: CheckFleet_compatible_iff example_capability requestOK_def supportsJDK_def bareFeature_def
      Atoi_def parse_digits_def is_digit_def digit_val_def in_int64_def min_int64_def max_int64_def
      jdkFeature_temurin21 launcherExplicit_def)

lemma example_admitted:
  "IsBrewletPod examplePod"
  "mr_DenyReason (snd (MutatePod examplePod [NodeCapabilityFrom exampleNode])) = ''''"
proof -
  show b: "IsBrewletPod examplePod" by (simp add: IsBrewletPod_def examplePod_def)
  show "mr_DenyReason (snd (MutatePod examplePod [NodeCapabilityFrom exampleNode])) = ''''"
    by (rule MutatePod_brewlet [OF b, of "[NodeCapabilityFrom exampleNode]"])
       (simp add: example_requests example_check)
qed

theorem CheckFleet_deny_reason_witness:
  "fr_DenyReason (CheckFleet [NodeCapabilityFrom exampleNode] ''99'' [] []) = ReasonNoCompatibleJDK"
  using CheckFleet_deny_reason [OF example_check(2) refl refl]
  unfolding launcherExplicit_def by blast


theorem MutatePod_schedulable_witness:
  "\<exists>n \<in> set [exampleNode]. nc_Ready (NodeCapabilityFrom n) \<and>
     affinity_sat label_sat (pod_Affinity (fst (MutatePod examplePod [NodeCapabilityFrom exampleNode]))) n"
  using MutatePod_schedulable [OF k8s.node_selector_axioms example_admitted(1), of "[exampleNode]",
      OF _ _ _ _ _]
    example_admitted(2) example_advertises
  by (simp add: example_requests prod_eq_iff) (simp add: examplePod_def)

theorem MutatePod_frame_witness:
  "pod_Containers (fst (MutatePod examplePod [])) = [\<lparr>c_Name = ''app'', c_Image = ''reg.io/orders@sha256:ab''\<rparr>]"
  using MutatePod_frame [of examplePod "[]", OF surjective_pairing] by (simp add: examplePod_def)

theorem PodMutatorHandle_denies_iff_witness:
  "\<exists>reason msg. fst (PodMutatorHandle (Some examplePod) (Some []) True) = Denied reason msg"
  using PodMutatorHandle_denies_iff [of examplePod "Some []" True] example_admitted(1)
  by (simp add: example_requests)

end
