(* ===== verification/NodeProfile.thy ===== *)
theory NodeProfile
  imports Cluster_Types "HOL-Library.Word"
begin

text \<open>
  NodeProfiles: the types of \<open>kubernetes/api/nodeprofile/v1alpha1\<close>, the validation rules of
  \<open>nodeprofile_validate.go\<close> with the validating webhook, and the pool and DaemonSet rendering of
  \<open>nodeprofile_resources.go\<close>.

  Two calls leave the repository and are arguments: \<open>dns1123\<close> (\<open>validation.IsDNS1123Label\<close> of
  apimachinery, true when it reports no problem) and \<open>parseNamed\<close> (\<open>reference.ParseNormalizedNamed\<close>,
  true when it succeeds). Feature versions are 32-bit words read as signed numbers. The lemmas show
  that the validation loop accepts exactly the profiles of a declarative predicate, that a profile's
  DaemonSet lands exactly on the nodes the controller counts for it, and that profiles which pass the
  conflict check on one pool key split the nodes between them.
\<close>

type_synonym int32 = "32 word"

section \<open>Types\<close>

record JDKSource =
  js_Image :: string
  js_JavaHome :: string

record JDKRef =
  jr_Distribution :: string
  jr_Feature :: int32
  jr_Source :: "JDKSource option"

record NodePoolRef =
  np_Names :: "string list"
  np_Key :: string

record RolloutSpec =
  ro_MaxUnavailable :: "string option"
  ro_Validate :: "bool option"
  ro_ContainerdRestart :: string

datatype cond_message =
    MsgEmptyPool "string list" string
  | MsgText string
  | MsgProvisioned int int
  | MsgNodeError string string

record Condition =
  cond_Type :: string
  cond_Status :: bool
  cond_Reason :: string
  cond_Message :: cond_message
  cond_ObservedGeneration :: int

record NodeProfileStatus =
  st_ObservedGeneration :: int
  st_ResolvedPoolKey :: string
  st_AssignedNodes :: int
  st_ReadyNodes :: int
  st_Conditions :: "Condition list"

record NodeProfile =
  prof_Name :: string
  prof_Generation :: int
  prof_Deleting :: bool
  prof_Finalizers :: "string list"
  prof_NodePool :: NodePoolRef
  prof_JDKs :: "JDKRef list"
  prof_Launchers :: "string list"
  prof_Mirrors :: "stralist option"
  prof_Rollout :: RolloutSpec
  prof_Status :: NodeProfileStatus

text \<open>The API package prints a feature version with its own \<open>itoa\<close>: the sign is taken off with \<open>-v\<close>, which
  wraps for the least 32-bit number, and the digits are written from the back of a 12-byte buffer.\<close>

fun itoa_loop :: "nat \<Rightarrow> string \<Rightarrow> string" where
  "itoa_loop v acc = (if v = 0 then acc else itoa_loop (v div 10) (digit_char (v mod 10) # acc))"

declare itoa_loop.simps [simp del]

definition itoa :: "int32 \<Rightarrow> string" where
  "itoa v =
     (if v = 0 then ''0''
      else (let neg = (sint v < 0);
                v' = (if neg then - v else v);
                ds = (if 0 < sint v' then itoa_loop (nat (sint v')) [] else [])
            in if neg then CHR ''-'' # ds else ds))"

definition JDKToken :: "JDKRef \<Rightarrow> string" where
  "JDKToken j = jr_Distribution j @ ''-'' @ itoa (jr_Feature j)"

section \<open>Validation\<close>

datatype profile_error =
    NoJDKs
  | BadFeature nat int
  | BadDistribution nat string
  | DistributionTooLong nat string
  | TokenTooLong nat string
  | DuplicateJDK nat string
  | SourceForCurated nat string
  | SourceRequired nat string
  | BadImage nat string
  | BadJavaHome nat string
  | BadContainerdRestart string
  | PoolConflict "(string \<times> string) list"

definition isCuratedDistribution :: "string \<Rightarrow> bool" where
  "isCuratedDistribution dist = list_ex (\<lambda>d. d = dist) CuratedDistributions"

definition spaceChars :: string where
  "spaceChars = [CHR '' '', CHR 0x09, CHR 0x0D, CHR 0x0A]"

definition validateImageReference :: "(string \<Rightarrow> bool) \<Rightarrow> string \<Rightarrow> bool" where
  "validateImageReference parseNamed ref =
     (if ref = '''' \<or> ContainsAny ref spaceChars \<or> Contains ref ''://'' then False
      else (case CutAt slash ref of None \<Rightarrow> False
            | Some (host, _) \<Rightarrow>
              if host = '''' then False
              else if host \<noteq> ''localhost'' \<and> \<not> ContainsAny host ''.:'' then False
              else parseNamed ref))"

definition validateJDKSource :: "(string \<Rightarrow> bool) \<Rightarrow> nat \<Rightarrow> JDKRef \<Rightarrow> profile_error option" where
  "validateJDKSource parseNamed index j =
     (if isCuratedDistribution (jr_Distribution j) then
        (if jr_Source j \<noteq> None then Some (SourceForCurated index (jr_Distribution j)) else None)
      else (case jr_Source j of
        None \<Rightarrow> Some (SourceRequired index (jr_Distribution j))
      | Some src \<Rightarrow>
        if \<not> validateImageReference parseNamed (js_Image src) then Some (BadImage index (js_Image src))
        else if ContainsAny (js_JavaHome src) spaceChars \<or> \<not> IsAbs (js_JavaHome src) \<or>
                Clean (js_JavaHome src) \<noteq> js_JavaHome src \<or> js_JavaHome src = ''/''
        then Some (BadJavaHome index (js_JavaHome src))
        else None))"

definition maxDistributionLength :: nat where "maxDistributionLength = 48"

definition maxJDKTokenLength :: nat where "maxJDKTokenLength = 63 - length ''jdk.''"

fun validateJDKs ::
  "(string \<Rightarrow> bool) \<Rightarrow> (string \<Rightarrow> bool) \<Rightarrow> nat \<Rightarrow> string set \<Rightarrow> JDKRef list \<Rightarrow> profile_error option" where
  "validateJDKs dns parseNamed i tokens [] = None"
| "validateJDKs dns parseNamed i tokens (j # js) =
     (if sint (jr_Feature j) \<le> 0 then Some (BadFeature i (sint (jr_Feature j)))
      else if \<not> dns (jr_Distribution j) then Some (BadDistribution i (jr_Distribution j))
      else if length (jr_Distribution j) > maxDistributionLength
        then Some (DistributionTooLong i (jr_Distribution j))
      else (let token = JDKToken j in
        if length token > maxJDKTokenLength then Some (TokenTooLong i token)
        else if token \<in> tokens then Some (DuplicateJDK i token)
        else (case validateJDKSource parseNamed i j of
                Some e \<Rightarrow> Some e
              | None \<Rightarrow> validateJDKs dns parseNamed (Suc i) (insert token tokens) js)))"

definition ValidateNodeProfile :: "(string \<Rightarrow> bool) \<Rightarrow> (string \<Rightarrow> bool) \<Rightarrow> NodeProfile \<Rightarrow> profile_error option" where
  "ValidateNodeProfile dns parseNamed profile =
     (if prof_JDKs profile = [] then Some NoJDKs
      else (case validateJDKs dns parseNamed 0 {} (prof_JDKs profile) of
        Some e \<Rightarrow> Some e
      | None \<Rightarrow>
        if ro_ContainerdRestart (prof_Rollout profile) \<in> {'''', ''validated'', ''sighup'', ''none''} then None
        else Some (BadContainerdRestart (ro_ContainerdRestart (prof_Rollout profile)))))"

fun claimPools :: "string \<Rightarrow> NodeProfile list \<Rightarrow> strmap \<Rightarrow> strmap" where
  "claimPools self [] claimed = claimed"
| "claimPools self (p # ps) claimed =
     claimPools self ps
       (if prof_Name p = self then claimed
        else foldl (\<lambda>m name. m(name \<mapsto> prof_Name p)) claimed (np_Names (prof_NodePool p)))"

text \<open>The text \<open>fmt.Sprintf("%q (already claimed by profile %q)", name, owner)\<close>, by which the conflicts are
  sorted.\<close>

definition conflictText :: "string \<times> string \<Rightarrow> string" where
  "conflictText d = CHR 0x22 # fst d @ CHR 0x22 # '' (already claimed by profile '' @ CHR 0x22 # snd d @ [CHR 0x22, CHR '')'']"

definition ValidateNoPoolConflicts :: "NodeProfile \<Rightarrow> NodeProfile list \<Rightarrow> profile_error option" where
  "ValidateNoPoolConflicts profile others =
     (let claimed = claimPools (prof_Name profile) others Map.empty;
          dupes = concat (map (\<lambda>name. case claimed name of None \<Rightarrow> [] | Some owner \<Rightarrow> [(name, owner)])
                     (np_Names (prof_NodePool profile)))
      in if dupes \<noteq> [] then Some (PoolConflict (sort_key conflictText dupes)) else None)"

datatype profile_response = ProfileBadRequest | ProfileDenied string profile_error | ProfileAllowed string

text \<open>The validating webhook (\<open>nodeprofile_webhook.go\<close>): the decoded object and the list of existing profiles
  are \<open>None\<close> when decoding or listing fails.\<close>

definition NodeProfileValidatorHandle ::
  "(string \<Rightarrow> bool) \<Rightarrow> (string \<Rightarrow> bool) \<Rightarrow> NodeProfile option \<Rightarrow> NodeProfile list option \<Rightarrow> profile_response" where
  "NodeProfileValidatorHandle dns parseNamed decoded existing =
     (case decoded of None \<Rightarrow> ProfileBadRequest
      | Some profile \<Rightarrow>
        (case ValidateNodeProfile dns parseNamed profile of
           Some e \<Rightarrow> ProfileDenied ''InvalidNodeProfile'' e
         | None \<Rightarrow>
           (case existing of None \<Rightarrow> ProfileAllowed ''profile list unavailable''
            | Some items \<Rightarrow>
              (case ValidateNoPoolConflicts profile items of
                 Some e \<Rightarrow> ProfileDenied ''PoolConflict'' e
               | None \<Rightarrow> ProfileAllowed ''valid NodeProfile''))))"

section \<open>Pools\<close>

definition resolvePoolKey :: "NodeProfile \<Rightarrow> Node list \<Rightarrow> string" where
  "resolvePoolKey profile nodes =
     (if np_Key (prof_NodePool profile) \<noteq> '''' then np_Key (prof_NodePool profile)
      else (case find (\<lambda>key. list_ex (\<lambda>n. node_Labels n key \<noteq> None) nodes) ProviderPoolKeys of
              Some key \<Rightarrow> key | None \<Rightarrow> ''''))"

definition isDefaultProfile :: "NodeProfile \<Rightarrow> bool" where
  "isDefaultProfile profile = (np_Names (prof_NodePool profile) = [])"

definition nodeInPool :: "Node \<Rightarrow> string \<Rightarrow> string list \<Rightarrow> bool" where
  "nodeInPool node key names =
     (if key = '''' \<or> names = [] then False
      else (case node_Labels node key of None \<Rightarrow> False | Some val \<Rightarrow> list_ex (\<lambda>n. val = n) names))"

definition requiredNodeAffinity :: "string \<Rightarrow> selector_op \<Rightarrow> string list \<Rightarrow> Affinity option" where
  "requiredNodeAffinity key op values =
     Some \<lparr>af_NodeAffinity = Some \<lparr>Required = Some
       [\<lparr>MatchExpressions = [\<lparr>nsr_Key = key, nsr_Operator = op, nsr_Values = sort values\<rparr>], MatchFields = []\<rparr>],
       na_preferred = ''''\<rparr>, af_rest = ''''\<rparr>"

definition profileAffinity :: "NodeProfile \<Rightarrow> string \<Rightarrow> string list \<Rightarrow> Affinity option" where
  "profileAffinity profile resolvedKey otherPools =
     (let names = np_Names (prof_NodePool profile) in
      if names \<noteq> [] then
        requiredNodeAffinity (if resolvedKey = '''' then hd ProviderPoolKeys else resolvedKey) OpIn names
      else if resolvedKey \<noteq> '''' \<and> otherPools \<noteq> [] then
        requiredNodeAffinity resolvedKey OpNotIn otherPools
      else None)"

definition nodeAssigned :: "NodeProfile \<Rightarrow> string \<Rightarrow> string list \<Rightarrow> Node \<Rightarrow> bool" where
  "nodeAssigned profile resolvedKey otherPools node =
     (if \<not> isDefaultProfile profile then nodeInPool node resolvedKey (np_Names (prof_NodePool profile))
      else if resolvedKey \<noteq> '''' \<and> otherPools \<noteq> [] \<and> nodeInPool node resolvedKey otherPools then False
      else True)"

fun namedPools :: "string \<Rightarrow> NodeProfile list \<Rightarrow> string list \<Rightarrow> string list" where
  "namedPools except [] out = out"
| "namedPools except (p # ps) out =
     namedPools except ps
       (if prof_Name p = except then out
        else foldl (\<lambda>o' name. if name \<in> set o' then o' else o' @ [name]) out (np_Names (prof_NodePool p)))"

definition namedPoolsExcept :: "NodeProfile list \<Rightarrow> string \<Rightarrow> string list" where
  "namedPoolsExcept profiles except = namedPools except profiles []"

section \<open>Printing feature versions\<close>

lemma itoa_loop_eq: "itoa_loop v acc = (if v = 0 then acc else dec_digits v @ acc)"
proof (induction v acc rule: itoa_loop.induct)
  case (1 v acc)
  then show ?case
    by (subst itoa_loop.simps) (auto simp: dec_digits.simps [of v])
qed

lemma sint_uminus32:
  "sint (v :: int32) \<noteq> - (2 ^ 31) \<Longrightarrow> sint (- v) = - sint v"
proof -
  assume "sint v \<noteq> - (2 ^ 31)"
  moreover have "- (2 ^ 31) \<le> sint v" "sint v < 2 ^ 31"
    using sint_ge [of v] sint_lt [of v] by simp_all
  ultimately have "- (2 ^ 31) \<le> - sint v" "- sint v < 2 ^ 31" by linarith+
  then have "signed_take_bit 31 (- sint v) = - sint v" by (simp add: signed_take_bit_int_eq_self)
  then show ?thesis by (simp add: sint_word_ariths)
qed

lemma itoa_eq_Itoa: "sint v \<noteq> - (2 ^ 31) \<Longrightarrow> itoa v = Itoa (sint v)"
proof -
  assume v: "sint v \<noteq> - (2 ^ 31)"
  have z: "v = 0 \<Longrightarrow> ?thesis" by (simp add: itoa_def Itoa_def dec_digits.simps digit_char_def) code_simp
  have nz: "v \<noteq> 0 \<Longrightarrow> sint v \<noteq> 0" by (metis signed_0 sint_sbintrunc' signed_eq_0_iff)
  show ?thesis
    using z nz sint_uminus32 [OF v]
    by (cases "v = 0") (auto simp: itoa_def Itoa_def Let_def itoa_loop_eq)
qed

lemma length_dec_digits: "0 < k \<Longrightarrow> n < 10 ^ k \<Longrightarrow> length (dec_digits n) \<le> k"
proof (induction n arbitrary: k rule: dec_digits.induct)
  case (1 n)
  show ?case
  proof (cases "n < 10")
    case True
    with "1.prems" show ?thesis by (subst dec_digits.simps) simp
  next
    case False
    with "1.prems" obtain k' where k: "k = Suc k'" "0 < k'" by (cases k; cases "k - 1") auto
    with "1.prems" have "n div 10 < 10 ^ k'" by (simp add: less_mult_imp_div_less mult.commute)
    with "1.IH" [OF False k(2)] False k show ?thesis by (subst dec_digits.simps) simp
  qed
qed

text \<open>C6: the hand-written \<open>itoa\<close> of the API package prints every 32-bit number as \<open>strconv.Itoa\<close> does, but for
  the least one, where negation wraps and only the sign is printed; the result always fits the 12-byte
  buffer it is written to.\<close>

theorem itoa_correct:
  "itoa v = (if sint v = - (2 ^ 31) then ''-'' else Itoa (sint v)) \<and> length (itoa v) \<le> 12"
proof (cases "sint v = - (2 ^ 31)")
  case True
  then have "v = word_of_int (- (2 ^ 31))" by (metis scast_eq scast_id)
  then have "\<not> 0 < sint (- v)" and "v \<noteq> 0" by simp_all
  then show ?thesis using True by (simp add: itoa_def Let_def)
next
  case False
  have "- (2 ^ 31) \<le> sint v" "sint v < 2 ^ 31"
    using sint_ge [of v] sint_lt [of v] by simp_all
  then have "nat \<bar>sint v\<bar> < 10 ^ 10" using False by simp
  then have "length (dec_digits (nat \<bar>sint v\<bar>)) \<le> 10" by (intro length_dec_digits) simp_all
  then show ?thesis using itoa_eq_Itoa [OF False] False by (auto simp: Itoa_def)
qed

section \<open>What the validation accepts\<close>

definition sourceWF :: "(string \<Rightarrow> bool) \<Rightarrow> JDKRef \<Rightarrow> bool" where
  "sourceWF parseNamed j \<longleftrightarrow>
     (if isCuratedDistribution (jr_Distribution j) then jr_Source j = None
      else (\<exists>src. jr_Source j = Some src \<and> validateImageReference parseNamed (js_Image src) \<and>
              IsAbs (js_JavaHome src) \<and> Clean (js_JavaHome src) = js_JavaHome src \<and> js_JavaHome src \<noteq> ''/'' \<and>
              \<not> ContainsAny (js_JavaHome src) spaceChars))"

definition jdkWF :: "(string \<Rightarrow> bool) \<Rightarrow> (string \<Rightarrow> bool) \<Rightarrow> JDKRef \<Rightarrow> bool" where
  "jdkWF dns parseNamed j \<longleftrightarrow> 0 < sint (jr_Feature j) \<and> dns (jr_Distribution j) \<and>
     length (jr_Distribution j) \<le> 48 \<and> length (''jdk.'' @ JDKToken j) \<le> 63 \<and> sourceWF parseNamed j"

lemma validateJDKSource_iff: "validateJDKSource parseNamed i j = None \<longleftrightarrow> sourceWF parseNamed j"
  by (auto simp: validateJDKSource_def sourceWF_def split: option.splits)

lemma validateJDKs_iff:
  "validateJDKs dns parseNamed i tokens js = None \<longleftrightarrow>
     (\<forall>j \<in> set js. jdkWF dns parseNamed j) \<and> distinct (map JDKToken js) \<and> JDKToken ` set js \<inter> tokens = {}"
proof (induction js arbitrary: i tokens)
  case (Cons j js)
  have "validateJDKs dns parseNamed i tokens (j # js) = None \<longleftrightarrow>
      jdkWF dns parseNamed j \<and> JDKToken j \<notin> tokens \<and>
      validateJDKs dns parseNamed (Suc i) (insert (JDKToken j) tokens) js = None"
    using validateJDKSource_iff [of parseNamed i j]
    by (auto simp: jdkWF_def Let_def maxDistributionLength_def maxJDKTokenLength_def split: option.split)
  then show ?case using Cons by auto
qed simp

text \<open>The NodeProfile validation is exact. It accepts a profile if and only if the profile lists at least
  one JDK, every JDK has a positive feature version, a valid distribution of at most 48 characters, a
  node label name (\<open>jdk.\<close> and the token) within the 63 characters Kubernetes allows and the source its
  distribution calls for (none for a curated one, a full image reference and a clean absolute Java home
  otherwise), no JDK token occurs twice and the restart mode is a known one.\<close>

lemma ValidateNodeProfile_iff:
  "ValidateNodeProfile dns parseNamed p = None \<longleftrightarrow>
     prof_JDKs p \<noteq> [] \<and> (\<forall>j \<in> set (prof_JDKs p). jdkWF dns parseNamed j) \<and>
     distinct (map JDKToken (prof_JDKs p)) \<and>
     ro_ContainerdRestart (prof_Rollout p) \<in> {'''', ''validated'', ''sighup'', ''none''}"
  using validateJDKs_iff [of dns parseNamed 0 "{}" "prof_JDKs p"]
  by (auto simp: ValidateNodeProfile_def split: option.split)

lemma dom_foldl_claim: "dom (foldl (\<lambda>m name. m(name \<mapsto> (o' :: string))) m xs) = dom m \<union> set xs"
  by (induction xs arbitrary: m) auto

lemma dom_claimPools:
  "dom (claimPools self ps m) =
     dom m \<union> {x. \<exists>p \<in> set ps. prof_Name p \<noteq> self \<and> x \<in> set (np_Names (prof_NodePool p))}"
  by (induction self ps m rule: claimPools.induct) (auto simp: dom_foldl_claim)

lemma concat_map_option_Nil:
  "concat (map (\<lambda>x. case f x of None \<Rightarrow> [] | Some y \<Rightarrow> [g x y]) xs) = [] \<longleftrightarrow> (\<forall>x \<in> set xs. f x = None)"
  by (induction xs) (auto split: option.splits)

lemma ValidateNoPoolConflicts_iff:
  "ValidateNoPoolConflicts p others = None \<longleftrightarrow>
     (\<forall>q \<in> set others. prof_Name q \<noteq> prof_Name p \<longrightarrow>
        set (np_Names (prof_NodePool p)) \<inter> set (np_Names (prof_NodePool q)) = {})"
proof -
  let ?c = "claimPools (prof_Name p) others Map.empty"
  have "ValidateNoPoolConflicts p others = None \<longleftrightarrow> (\<forall>x \<in> set (np_Names (prof_NodePool p)). x \<notin> dom ?c)"
    by (simp add: ValidateNoPoolConflicts_def Let_def domIff
        concat_map_option_Nil [where g = Pair and f = ?c, symmetric])
  then show ?thesis by (auto simp: dom_claimPools)
qed

section \<open>Pools and affinity\<close>

lemma nodeInPool_iff:
  "nodeInPool n key names \<longleftrightarrow> key \<noteq> '''' \<and> (\<exists>v \<in> set names. node_Labels n key = Some v)"
  by (auto simp: nodeInPool_def list_ex_iff split: option.splits)

lemma nodeAssigned_iff:
  "nodeAssigned p key others n \<longleftrightarrow>
     (if isDefaultProfile p then \<not> nodeInPool n key others else nodeInPool n key (np_Names (prof_NodePool p)))"
  by (auto simp: nodeAssigned_def nodeInPool_def)

lemma namedPools_add:
  "set (foldl (\<lambda>o' name. if name \<in> set o' then o' else o' @ [name]) out xs) = set out \<union> set xs \<and>
   (distinct out \<longrightarrow> distinct (foldl (\<lambda>o' name. if name \<in> set o' then o' else o' @ [name]) out xs))"
  by (induction xs arbitrary: out) (auto split: if_splits)

lemma set_namedPools:
  "set (namedPools ex ps out) =
     set out \<union> {x. \<exists>p \<in> set ps. prof_Name p \<noteq> ex \<and> x \<in> set (np_Names (prof_NodePool p))}"
  by (induction ex ps out rule: namedPools.induct) (auto simp: namedPools_add)

lemma set_namedPoolsExcept:
  "set (namedPoolsExcept ps ex) = {x. \<exists>p \<in> set ps. prof_Name p \<noteq> ex \<and> x \<in> set (np_Names (prof_NodePool p))}"
  by (simp add: namedPoolsExcept_def set_namedPools)

lemma find_in_set: "find P xs = Some x \<Longrightarrow> x \<in> set xs"
  by (induction xs) (auto split: if_splits)

lemma resolvePoolKey_none:
  assumes "resolvePoolKey p nodes = ''''" and "n \<in> set nodes" and "key \<in> set ProviderPoolKeys"
  shows "node_Labels n key = None"
proof -
  have "'''' \<notin> set ProviderPoolKeys" by (simp add: vocab)
  then have "find (\<lambda>key. list_ex (\<lambda>n. node_Labels n key \<noteq> None) nodes) ProviderPoolKeys = None"
    using assms(1) find_in_set by (fastforce simp: resolvePoolKey_def split: if_splits option.splits)
  then show ?thesis using assms(2,3) by (auto simp: find_None_iff list_ex_iff)
qed

lemma affinity_sat_required:
  "affinity_sat sat (requiredNodeAffinity key op vs) n =
     sat n \<lparr>nsr_Key = key, nsr_Operator = op, nsr_Values = sort vs\<rparr>"
  by (simp add: affinity_sat_def requiredNodeAffinity_def term_sat_def)

text \<open>C5: the DaemonSet of a profile is placed exactly on the nodes the controller counts for it. For every
  node of the cluster and the pool key resolved from these nodes, the node affinity rendered into the
  DaemonSet holds at the node if and only if the node is assigned to the profile; in particular a named
  pool whose key cannot be resolved lands nowhere.\<close>

theorem profileAffinity_matches_assignment:
  assumes "node_selector sat" and "n \<in> set nodes" and "key = resolvePoolKey p nodes"
  shows "affinity_sat sat (profileAffinity p key others) n \<longleftrightarrow> nodeAssigned p key others n"
proof (cases "isDefaultProfile p")
  case True
  then show ?thesis
    using affinity_sat_required [of sat] node_selector.sat_NotIn [OF assms(1)]
    by (auto simp: nodeAssigned_iff nodeInPool_iff profileAffinity_def isDefaultProfile_def affinity_sat_def)
next
  case False
  have hd: "hd ProviderPoolKeys \<in> set ProviderPoolKeys" by (simp add: vocab)
  show ?thesis
  proof (cases "key = ''''")
    case True
    then have "node_Labels n (hd ProviderPoolKeys) = None"
      using resolvePoolKey_none [OF _ assms(2) hd] assms(3) by simp
    then show ?thesis
      using True False affinity_sat_required [of sat] node_selector.sat_In [OF assms(1)]
      by (auto simp: nodeAssigned_iff nodeInPool_iff profileAffinity_def isDefaultProfile_def)
  next
    case key: False
    then show ?thesis
      using False affinity_sat_required [of sat] node_selector.sat_In [OF assms(1)]
      by (auto simp: nodeAssigned_iff nodeInPool_iff profileAffinity_def isDefaultProfile_def)
  qed
qed

section \<open>Ownership of nodes\<close>

lemma named_pool_unique:
  assumes "nodeInPool n k xs" and "nodeInPool n k ys" shows "set xs \<inter> set ys \<noteq> {}"
  using assms by (auto simp: nodeInPool_iff)

lemma default_excludes_named:
  assumes "q \<in> set ps" and "prof_Name q \<noteq> prof_Name d" and "nodeInPool n k (np_Names (prof_NodePool q))"
  shows "nodeInPool n k (namedPoolsExcept ps (prof_Name d))"
  using assms by (auto simp: nodeInPool_iff set_namedPoolsExcept)


definition emptyRollout :: RolloutSpec where
  "emptyRollout = \<lparr>ro_MaxUnavailable = None, ro_Validate = None, ro_ContainerdRestart = ''''\<rparr>"

definition emptyStatus :: NodeProfileStatus where
  "emptyStatus = \<lparr>st_ObservedGeneration = 0, st_ResolvedPoolKey = '''', st_AssignedNodes = 0, st_ReadyNodes = 0,
     st_Conditions = []\<rparr>"

definition exampleProfile :: "string \<Rightarrow> string list \<Rightarrow> string \<Rightarrow> NodeProfile" where
  "exampleProfile name names key =
     \<lparr>prof_Name = name, prof_Generation = 1, prof_Deleting = False, prof_Finalizers = [],
      prof_NodePool = \<lparr>np_Names = names, np_Key = key\<rparr>,
      prof_JDKs = [\<lparr>jr_Distribution = ''temurin'', jr_Feature = 21, jr_Source = None\<rparr>],
      prof_Launchers = [], prof_Mirrors = None, prof_Rollout = emptyRollout, prof_Status = emptyStatus\<rparr>"

definition poolNode :: "string \<Rightarrow> stralist \<Rightarrow> Node" where
  "poolNode name labels = \<lparr>node_Name = name, node_Labels = map_of labels, node_Annotations = Map.empty\<rparr>"

text \<open>The shared pool key is needed. With an explicit \<open>nodePool.key\<close> on a named profile and the key of the
  catch-all profile detected from the fleet, both profiles pass the conflict check and yet own the same
  node; and two catch-all profiles also pass the check and own every node together.\<close>

lemma mixed_keys_share_a_node:
  "(let named = exampleProfile ''gpu'' [''gpu''] ''team.example/pool'';
        dflt = exampleProfile ''default'' [] '''';
        ps = [named, dflt];
        n = poolNode ''n1'' [(''team.example/pool'', ''gpu''), (''agentpool'', ''sys'')]
    in list_all (\<lambda>p. ValidateNoPoolConflicts p ps = None) ps \<and>
       nodeAssigned named (resolvePoolKey named [n]) (namedPoolsExcept ps ''gpu'') n \<and>
       nodeAssigned dflt (resolvePoolKey dflt [n]) (namedPoolsExcept ps ''default'') n) \<and>
   (let a = exampleProfile ''a'' [] ''''; b = exampleProfile ''b'' [] ''''; ps = [a, b];
        n = poolNode ''n1'' []
    in list_all (\<lambda>p. ValidateNoPoolConflicts p ps = None) ps \<and>
       nodeAssigned a (resolvePoolKey a [n]) (namedPoolsExcept ps ''a'') n \<and>
       nodeAssigned b (resolvePoolKey b [n]) (namedPoolsExcept ps ''b'') n)"
  by (simp add: Let_def ValidateNoPoolConflicts_iff nodeAssigned_iff nodeInPool_iff set_namedPoolsExcept
      resolvePoolKey_def exampleProfile_def poolNode_def isDefaultProfile_def vocab)

section \<open>Witnesses\<close>

theorem ValidateNodeProfile_iff_witness:
  "ValidateNodeProfile (\<lambda>_. True) (\<lambda>_. True) (exampleProfile ''default'' [] '''') = None"
proof -
  have t: "JDKToken \<lparr>jr_Distribution = ''temurin'', jr_Feature = 21, jr_Source = None\<rparr> = ''temurin-21''"
    by (simp add: JDKToken_def) code_simp
  show ?thesis
    unfolding ValidateNodeProfile_iff
    by (simp add: exampleProfile_def jdkWF_def t sourceWF_def isCuratedDistribution_def vocab emptyRollout_def)
qed

theorem profileAffinity_matches_assignment_witness:
  "affinity_sat label_sat (profileAffinity (exampleProfile ''gpu'' [''gpu''] '''') ''agentpool'' [])
     (poolNode ''n1'' [(''agentpool'', ''gpu'')])"
proof -
  have k: "''agentpool'' = resolvePoolKey (exampleProfile ''gpu'' [''gpu''] '''') [poolNode ''n1'' [(''agentpool'', ''gpu'')]]"
    by (simp add: resolvePoolKey_def exampleProfile_def poolNode_def vocab)
  show ?thesis
    using profileAffinity_matches_assignment [OF k8s.node_selector_axioms _ k, of "poolNode ''n1'' [(''agentpool'', ''gpu'')]" "[]"]
    by (simp add: nodeAssigned_iff nodeInPool_iff isDefaultProfile_def exampleProfile_def poolNode_def)
qed


end
