(* ===== verification/NodeProfile_Controller.thy ===== *)
theory NodeProfile_Controller
  imports NodeProfile
begin

text \<open>
  The NodeProfile controller: the objects it renders (\<open>resources.go\<close>, \<open>nodeprofile_resources.go\<close>) and its
  reconcile loop (\<open>nodeprofile_controller.go\<close>).

  A reconcile run is a function of what the API server answers and gives the list of effects it has, in
  order, with the outcome. The answers are the record \<open>np_env\<close>: the objects that are read, and for every
  write whether it succeeds (for the cleanup DaemonSet, the status it has after the write). The library
  function \<open>meta.SetStatusCondition\<close> is the argument \<open>setCond\<close>; the locale \<open>status_conditions\<close> states its
  documented behaviour, and \<open>replaceCondition\<close> is a function that has it.
\<close>

section \<open>Rendered objects\<close>

record EnvVar =
  ev_Name :: string
  ev_Value :: string
  ev_FieldPath :: "string option"

record DSContainer =
  dc_Name :: string
  dc_Image :: string
  dc_Command :: "string list"
  dc_Args :: "string list"
  dc_Privileged :: "bool option"
  dc_AllowPrivilegeEscalation :: "bool option"
  dc_Env :: "EnvVar list"
  dc_Port :: "int option"
  dc_VolumeMounts :: "(string \<times> string) list"

record DaemonSet =
  ds_Name :: string
  ds_Namespace :: string
  ds_Labels :: strmap
  ds_Selector :: strmap
  ds_TemplateLabels :: strmap
  ds_ServiceAccountName :: string
  ds_HostPID :: bool
  ds_TolerateAll :: bool
  ds_Affinity :: "Affinity option"
  ds_Containers :: "DSContainer list"
  ds_Volumes :: "(string \<times> string \<times> bool) list"
  ds_RollingMaxUnavailable :: "string option"

record Config =
  cfg_Namespace :: string
  cfg_ProvisionerImage :: string
  cfg_MetricsPort :: int
  cfg_MetricsEnabled :: bool

record RuntimeClass =
  rc_Name :: string
  rc_Labels :: strmap
  rc_Handler :: string
  rc_NodeSelector :: strmap
  rc_OverheadCPU :: string
  rc_OverheadMemory :: string

definition buildRuntimeClass :: RuntimeClass where
  "buildRuntimeClass =
     \<lparr>rc_Name = RuntimeClassName, rc_Labels = [''app.kubernetes.io/managed-by'' \<mapsto> ''brewlet-operator''],
      rc_Handler = RuntimeClassName, rc_NodeSelector = [LabelRuntimeReady \<mapsto> ValueReady],
      rc_OverheadCPU = ''50m'', rc_OverheadMemory = ''64Mi''\<rparr>"

definition profileLabels :: "string \<Rightarrow> strmap" where
  "profileLabels profile = [''app'' \<mapsto> ProvisionerAppLabel, LabelNodeProfile \<mapsto> profile]"

definition envVar :: "string \<Rightarrow> string \<Rightarrow> EnvVar" where
  "envVar n v = \<lparr>ev_Name = n, ev_Value = v, ev_FieldPath = None\<rparr>"

definition jdkTokens :: "NodeProfile \<Rightarrow> string" where
  "jdkTokens profile = JoinWith '','' (map JDKToken (prof_JDKs profile))"

fun customSources :: "nat \<Rightarrow> JDKRef list \<Rightarrow> EnvVar list" where
  "customSources count [] = []"
| "customSources count (j # js) =
     (case jr_Source j of None \<Rightarrow> customSources count js
      | Some src \<Rightarrow>
        (let prefix = ''JDK_CUSTOM_SOURCE_'' @ Itoa (int count) @ ''_'' in
         [envVar (prefix @ ''TOKEN'') (JDKToken j), envVar (prefix @ ''IMAGE'') (js_Image src),
          envVar (prefix @ ''JAVA_HOME'') (js_JavaHome src)] @ customSources (Suc count) js))"

definition customJDKSourceEnv :: "NodeProfile \<Rightarrow> EnvVar list" where
  "customJDKSourceEnv profile =
     (let count = length (filter (\<lambda>j. jr_Source j \<noteq> None) (prof_JDKs profile)) in
      if count = 0 then []
      else envVar ''JDK_CUSTOM_SOURCE_COUNT'' (Itoa (int count)) # customSources 0 (prof_JDKs profile))"

definition mirrorEnv :: "NodeProfile \<Rightarrow> string" where
  "mirrorEnv profile =
     (case prof_Mirrors profile of None \<Rightarrow> ''''
      | Some ms \<Rightarrow> if ms = [] then ''''
                  else JoinWith '','' (map (\<lambda>h. h @ ''='' @ alget ms h) (sortedKeysOf ms)))"

definition containerdRestart :: "NodeProfile \<Rightarrow> string" where
  "containerdRestart profile = orDefault (ro_ContainerdRestart (prof_Rollout profile)) ''validated''"

definition profileEnv :: "NodeProfile \<Rightarrow> EnvVar list" where
  "profileEnv profile =
     [\<lparr>ev_Name = ''NODE_NAME'', ev_Value = '''', ev_FieldPath = Some ''spec.nodeName''\<rparr>,
      envVar ''JDKS'' (jdkTokens profile),
      envVar ''LAUNCHERS'' (JoinWith '','' (prof_Launchers profile)),
      envVar ''BREWLET_CONTAINERD_RESTART'' (containerdRestart profile),
      envVar ''BREWLET_PROFILE_NAME'' (prof_Name profile),
      envVar ''BREWLET_PROFILE_GENERATION'' (Itoa (prof_Generation profile))] @
     customJDKSourceEnv profile @
     (if mirrorEnv profile \<noteq> '''' then [envVar ''MIRRORS'' (mirrorEnv profile)] else []) @
     (if ro_Validate (prof_Rollout profile) = Some False then [envVar ''BREWLET_VALIDATE'' ''false''] else [])"

definition buildProfileDaemonSet :: "Config \<Rightarrow> NodeProfile \<Rightarrow> string \<Rightarrow> string list \<Rightarrow> DaemonSet" where
  "buildProfileDaemonSet cfg profile resolvedKey otherPools =
     (let lbls = profileLabels (prof_Name profile);
          metricsPort = (if cfg_MetricsPort cfg \<le> 0 then 9090 else cfg_MetricsPort cfg);
          provisioner =
            \<lparr>dc_Name = ''provisioner'', dc_Image = cfg_ProvisionerImage cfg, dc_Command = [], dc_Args = [],
             dc_Privileged = Some True, dc_AllowPrivilegeEscalation = None, dc_Env = profileEnv profile,
             dc_Port = None,
             dc_VolumeMounts = [(''host-opt'', ''/opt/brewlet''), (''containerd-conf'', ''/etc/containerd''),
               (''host-bin'', ''/host/usr/local/bin''), (''containerd-sock'', ''/run/containerd/containerd.sock'')]\<rparr>;
          exporter =
            \<lparr>dc_Name = ''metrics-exporter'', dc_Image = cfg_ProvisionerImage cfg,
             dc_Command = [''/opt/brewlet-dist/brewlet-metrics-exporter''],
             dc_Args = [''--root=/opt/brewlet'', ''--listen-address=:'' @ Itoa metricsPort],
             dc_Privileged = None, dc_AllowPrivilegeEscalation = Some False, dc_Env = [],
             dc_Port = Some metricsPort, dc_VolumeMounts = [(''host-opt'', ''/opt/brewlet'')]\<rparr>
      in \<lparr>ds_Name = ProfileDaemonSetName (prof_Name profile), ds_Namespace = cfg_Namespace cfg,
          ds_Labels = lbls, ds_Selector = lbls, ds_TemplateLabels = lbls,
          ds_ServiceAccountName = ProvisionerName, ds_HostPID = True, ds_TolerateAll = True,
          ds_Affinity = profileAffinity profile resolvedKey otherPools,
          ds_Containers = (if cfg_MetricsEnabled cfg then [provisioner, exporter] else [provisioner]),
          ds_Volumes = [(''host-opt'', ''/opt/brewlet'', False), (''containerd-conf'', ''/etc/containerd'', False),
            (''host-bin'', ''/usr/local/bin'', False), (''containerd-sock'', ''/run/containerd/containerd.sock'', True)],
          ds_RollingMaxUnavailable = ro_MaxUnavailable (prof_Rollout profile)\<rparr>)"

text \<open>The label map of the DaemonSet, its selector and its pod template are one Go map, so the assignment to
  the key \<open>app\<close> changes all three.\<close>

definition buildCleanupDaemonSet :: "Config \<Rightarrow> NodeProfile \<Rightarrow> string \<Rightarrow> string list \<Rightarrow> DaemonSet" where
  "buildCleanupDaemonSet cfg profile resolvedKey otherPools =
     (let ds = buildProfileDaemonSet cfg profile resolvedKey otherPools;
          lbls = (ds_Selector ds)(''app'' \<mapsto> ''brewlet-cleanup'');
          c0 = hd (ds_Containers ds)
      in ds\<lparr>ds_Name := CleanupDaemonSetName (prof_Name profile), ds_Labels := lbls, ds_Selector := lbls,
            ds_TemplateLabels := lbls,
            ds_Containers := [c0\<lparr>dc_Env := dc_Env c0 @ [envVar ''BREWLET_MODE'' ''cleanup'']\<rparr>]\<rparr>)"

section \<open>Status\<close>

definition nodeReady :: "NodeProfile \<Rightarrow> Node \<Rightarrow> bool" where
  "nodeReady profile node =
     (let appliedRevision = (mget (node_Annotations node) AnnotationProfile = prof_Name profile \<and>
            mget (node_Annotations node) AnnotationProfileGeneration = Itoa (prof_Generation profile))
      in mget (node_Labels node) LabelRuntimeReady = ValueReady \<and> (prof_Generation profile = 0 \<or> appliedRevision))"

fun poolCountsLoop :: "NodeProfile \<Rightarrow> string \<Rightarrow> string list \<Rightarrow> Node list \<Rightarrow> int \<times> int \<Rightarrow> int \<times> int" where
  "poolCountsLoop p key others [] acc = acc"
| "poolCountsLoop p key others (n # ns) (assigned, ready) =
     (if \<not> nodeAssigned p key others n then poolCountsLoop p key others ns (assigned, ready)
      else poolCountsLoop p key others ns (assigned + 1, if nodeReady p n then ready + 1 else ready))"

definition poolCounts :: "NodeProfile \<Rightarrow> string \<Rightarrow> string list \<Rightarrow> Node list \<Rightarrow> int \<times> int" where
  "poolCounts p key others nodes = poolCountsLoop p key others nodes (0, 0)"

fun assignedNodeFailure :: "NodeProfile \<Rightarrow> string \<Rightarrow> string list \<Rightarrow> Node list \<Rightarrow> cond_message option" where
  "assignedNodeFailure p key others [] = None"
| "assignedNodeFailure p key others (n # ns) =
     (if \<not> nodeAssigned p key others n then assignedNodeFailure p key others ns
      else if mget (node_Annotations n) AnnotationProvisionError \<noteq> ''''
      then Some (MsgNodeError (node_Name n) (mget (node_Annotations n) AnnotationProvisionError))
      else assignedNodeFailure p key others ns)"

definition equalStatus :: "NodeProfileStatus \<Rightarrow> NodeProfileStatus \<Rightarrow> bool" where
  "equalStatus a b =
     (if st_ObservedGeneration a \<noteq> st_ObservedGeneration b \<or> st_ResolvedPoolKey a \<noteq> st_ResolvedPoolKey b \<or>
         st_AssignedNodes a \<noteq> st_AssignedNodes b \<or> st_ReadyNodes a \<noteq> st_ReadyNodes b \<or>
         length (st_Conditions a) \<noteq> length (st_Conditions b)
      then False
      else list_all2 (\<lambda>ac bc. cond_Type ac = cond_Type bc \<and> cond_Status ac = cond_Status bc \<and>
             cond_Reason ac = cond_Reason bc \<and> cond_Message ac = cond_Message bc \<and>
             cond_ObservedGeneration ac = cond_ObservedGeneration bc) (st_Conditions a) (st_Conditions b))"

definition readyCondition :: "NodeProfile \<Rightarrow> string \<Rightarrow> int \<Rightarrow> int \<Rightarrow> cond_message option \<Rightarrow> Condition" where
  "readyCondition profile resolvedKey assigned ready failed =
     (let cond = (\<lambda>s r m. \<lparr>cond_Type = ''Ready'', cond_Status = s, cond_Reason = r, cond_Message = m,
                           cond_ObservedGeneration = prof_Generation profile\<rparr>)
      in if \<not> isDefaultProfile profile \<and> assigned = 0
         then cond False ''EmptyPool'' (MsgEmptyPool (np_Names (prof_NodePool profile)) resolvedKey)
         else (case failed of
           Some reason \<Rightarrow> cond False ''NodeFailure'' reason
         | None \<Rightarrow>
           if ready \<ge> assigned then cond True ''AllNodesProvisioned'' (MsgProvisioned ready assigned)
           else cond False ''Provisioning'' (MsgProvisioned ready assigned)))"

section \<open>The reconcile loop\<close>

type_synonym set_cond = "Condition list \<Rightarrow> Condition \<Rightarrow> Condition list"

datatype np_effect =
    EffForgetMetrics
  | EffUpdateProfile NodeProfile
  | EffEnsureRuntimeClass RuntimeClass
  | EffEnsureDaemonSet DaemonSet
  | EffDeleteDaemonSet string
  | EffEvent string cond_message
  | EffSetMetrics string int int string bool
  | EffUpdateStatus NodeProfileStatus

datatype np_result = Done | Requeue | Failed string

datatype 'a reply = NotFound | ReadError | Found 'a

record np_env =
  env_profile :: "NodeProfile reply"
  env_nodes :: "Node list option"
  env_profiles :: "NodeProfile list option"
  env_updateOK :: bool
  env_runtimeClassOK :: bool
  env_daemonSetOK :: bool
  env_cleanup :: "(int \<times> int) option"
  env_deleteOK :: bool
  env_statusOK :: bool

definition addFinalizer :: "NodeProfile \<Rightarrow> NodeProfile" where
  "addFinalizer p = p\<lparr>prof_Finalizers := prof_Finalizers p @ [FinalizerCleanup]\<rparr>"

definition removeFinalizer :: "NodeProfile \<Rightarrow> NodeProfile" where
  "removeFinalizer p = p\<lparr>prof_Finalizers := filter (\<lambda>f. f \<noteq> FinalizerCleanup) (prof_Finalizers p)\<rparr>"

definition updateStatus ::
  "set_cond \<Rightarrow> bool \<Rightarrow> NodeProfile \<Rightarrow> string \<Rightarrow> string list \<Rightarrow> Node list \<Rightarrow> np_effect list \<times> np_result" where
  "updateStatus setCond statusOK profile resolvedKey otherPools nodes =
     (case poolCounts profile resolvedKey otherPools nodes of (assigned, ready) \<Rightarrow>
        (let failed = assignedNodeFailure profile resolvedKey otherPools nodes;
             cond = readyCondition profile resolvedKey assigned ready failed;
             status = \<lparr>st_ObservedGeneration = prof_Generation profile, st_ResolvedPoolKey = resolvedKey,
               st_AssignedNodes = assigned, st_ReadyNodes = ready,
               st_Conditions = setCond (st_Conditions (prof_Status profile)) cond\<rparr>;
             effs = (if cond_Reason cond = ''EmptyPool'' then [EffEvent ''NodeUnmatched'' (cond_Message cond)] else []) @
               [EffSetMetrics (prof_Name profile) assigned ready (cond_Reason cond) (cond_Status cond)]
         in if equalStatus (prof_Status profile) status then (effs, Done)
            else (effs @ [EffUpdateStatus status], if statusOK then Done else Failed ''status'')))"

definition setDeleting :: "set_cond \<Rightarrow> NodeProfile \<Rightarrow> np_effect list" where
  "setDeleting setCond profile =
     (let status = (prof_Status profile)\<lparr>st_Conditions := setCond (st_Conditions (prof_Status profile))
        \<lparr>cond_Type = ''Ready'', cond_Status = False, cond_Reason = ''CleanupPending'',
         cond_Message = MsgText ''running host cleanup before deletion'',
         cond_ObservedGeneration = prof_Generation profile\<rparr>\<rparr>
      in if equalStatus (prof_Status profile) status then [] else [EffUpdateStatus status])"

text \<open>\<open>env_cleanup\<close> is what the API server reports of the cleanup DaemonSet after it was created or updated:
  the desired and the ready number of pods, or \<open>None\<close> when the call failed.\<close>

definition ensureCleanupComplete ::
  "Config \<Rightarrow> (int \<times> int) option \<Rightarrow> NodeProfile \<Rightarrow> string \<Rightarrow> string list \<Rightarrow> int \<Rightarrow> np_effect list \<times> bool option" where
  "ensureCleanupComplete cfg cleanup profile resolvedKey otherPools assigned =
     (if assigned = 0 then ([], Some True)
      else ([EffEnsureDaemonSet (buildCleanupDaemonSet cfg profile resolvedKey otherPools)],
        (case cleanup of None \<Rightarrow> None
         | Some (desired, ready) \<Rightarrow> Some (desired > 0 \<and> ready \<ge> desired))))"

definition reconcileDelete ::
  "set_cond \<Rightarrow> Config \<Rightarrow> np_env \<Rightarrow> NodeProfile \<Rightarrow> string \<Rightarrow> string list \<Rightarrow> Node list \<Rightarrow> np_effect list \<times> np_result" where
  "reconcileDelete setCond cfg env profile resolvedKey otherPools nodes =
     (if FinalizerCleanup \<notin> set (prof_Finalizers profile) then ([], Done)
      else
        (let assigned = fst (poolCounts profile resolvedKey otherPools nodes) in
         case ensureCleanupComplete cfg (env_cleanup env) profile resolvedKey otherPools assigned of
           (effs, None) \<Rightarrow> (effs, Failed ''ensuring cleanup DaemonSet'')
         | (effs, Some False) \<Rightarrow> (effs @ setDeleting setCond profile, Requeue)
         | (effs, Some True) \<Rightarrow>
             (let effs1 = effs @ [EffDeleteDaemonSet (CleanupDaemonSetName (prof_Name profile))] in
              if \<not> env_deleteOK env then (effs1, Failed ''deleting cleanup DaemonSet'')
              else (effs1 @ [EffUpdateProfile (removeFinalizer profile)],
                    if env_updateOK env then Done else Failed ''removing finalizer''))))"

definition Reconcile :: "set_cond \<Rightarrow> Config \<Rightarrow> np_env \<Rightarrow> np_effect list \<times> np_result" where
  "Reconcile setCond cfg env =
     (case env_profile env of
        NotFound \<Rightarrow> ([EffForgetMetrics], Done)
      | ReadError \<Rightarrow> ([], Failed ''get'')
      | Found profile \<Rightarrow>
        (case env_nodes env of None \<Rightarrow> ([], Failed ''listing nodes'')
         | Some nodes \<Rightarrow>
           (case env_profiles env of None \<Rightarrow> ([], Failed ''listing profiles'')
            | Some profiles \<Rightarrow>
              (let resolvedKey = resolvePoolKey profile nodes;
                   otherPools = namedPoolsExcept profiles (prof_Name profile)
               in if prof_Deleting profile
                  then reconcileDelete setCond cfg env profile resolvedKey otherPools nodes
                  else
                    (let add = (FinalizerCleanup \<notin> set (prof_Finalizers profile));
                         profile1 = (if add then addFinalizer profile else profile);
                         effs1 = (if add then [EffUpdateProfile profile1] else [])
                     in if add \<and> \<not> env_updateOK env then (effs1, Failed ''adding finalizer'')
                        else
                          (let effs2 = effs1 @ [EffEnsureRuntimeClass buildRuntimeClass] in
                           if \<not> env_runtimeClassOK env then (effs2, Failed ''ensuring RuntimeClass'')
                           else
                             (let effs3 = effs2 @ [EffEnsureDaemonSet (buildProfileDaemonSet cfg profile1 resolvedKey otherPools)] in
                              if \<not> env_daemonSetOK env then (effs3, Failed ''ensuring provisioner DaemonSet'')
                              else (case updateStatus setCond (env_statusOK env) profile1 resolvedKey otherPools nodes of
                                     (effs4, r) \<Rightarrow> (effs3 @ effs4, r)))))))))"

section \<open>Status conditions\<close>

definition condOf :: "string \<Rightarrow> Condition list \<Rightarrow> Condition option" where
  "condOf t cs = find (\<lambda>c. cond_Type c = t) cs"

fun replaceCondition :: "Condition list \<Rightarrow> Condition \<Rightarrow> Condition list" where
  "replaceCondition [] c = [c]"
| "replaceCondition (x # xs) c = (if cond_Type x = cond_Type c then c # xs else x # replaceCondition xs c)"

locale status_conditions =
  fixes setCond :: set_cond
  assumes set_same: "condOf (cond_Type c) (setCond cs c) = Some c"
    and set_other: "t \<noteq> cond_Type c \<Longrightarrow> condOf t (setCond cs c) = condOf t cs"
    and set_idem: "setCond (setCond cs c) c = setCond cs c"

interpretation meta: status_conditions replaceCondition
proof unfold_locales
  fix c cs
  show "condOf (cond_Type c) (replaceCondition cs c) = Some c"
    by (induction cs c rule: replaceCondition.induct) (auto simp: condOf_def)
  show "replaceCondition (replaceCondition cs c) c = replaceCondition cs c"
    by (induction cs c rule: replaceCondition.induct) auto
next
  fix t c cs
  show "t \<noteq> cond_Type c \<Longrightarrow> condOf t (replaceCondition cs c) = condOf t cs"
    by (induction cs c rule: replaceCondition.induct) (auto simp: condOf_def)
qed

lemma equalStatus_refl: "equalStatus s s"
  by (simp add: equalStatus_def list.rel_refl)

section \<open>Counting\<close>

lemma poolCountsLoop_eq:
  "poolCountsLoop p key others ns (a, r) =
     (a + int (length (filter (nodeAssigned p key others) ns)),
      r + int (length (filter (\<lambda>n. nodeAssigned p key others n \<and> nodeReady p n) ns)))"
  by (induction ns arbitrary: a r) auto

lemma poolCounts_eq:
  "poolCounts p key others ns =
     (int (length (filter (nodeAssigned p key others) ns)),
      int (length (filter (\<lambda>n. nodeAssigned p key others n \<and> nodeReady p n) ns)))"
  by (simp add: poolCounts_def poolCountsLoop_eq)

lemma poolCounts_ready_le:
  "poolCounts p key others ns = (a, r) \<Longrightarrow> 0 \<le> r \<and> r \<le> a"
  by (induction ns arbitrary: a r) (auto simp: poolCounts_eq split: if_splits)

lemma ready_count_full:
  "length (filter P ns) \<le> length (filter (\<lambda>n. P n \<and> Q n) ns) \<longleftrightarrow> (\<forall>n \<in> set ns. P n \<longrightarrow> Q n)"
proof (induction ns)
  case (Cons n ns)
  have "length (filter (\<lambda>n. P n \<and> Q n) ns) \<le> length (filter P ns)" by (induction ns) auto
  with Cons show ?case by auto
qed simp

lemma assignedNodeFailure_None:
  "assignedNodeFailure p key others ns = None \<longleftrightarrow>
     (\<forall>n \<in> set ns. nodeAssigned p key others n \<longrightarrow> mget (node_Annotations n) AnnotationProvisionError = '''')"
  by (induction ns) auto

text \<open>What Ready means. The condition the controller computes is True exactly when the profile is the
  catch-all or owns at least one node, no owned node reports a provisioning error, and every owned node
  advertises the runtime and (but for generation 0) has applied this very revision of the profile.\<close>

lemma readyCondition_iff:
  assumes "poolCounts p key others nodes = (assigned, ready)"
  shows "cond_Status (readyCondition p key assigned ready (assignedNodeFailure p key others nodes)) \<longleftrightarrow>
     (isDefaultProfile p \<or> (\<exists>n \<in> set nodes. nodeAssigned p key others n)) \<and>
     (\<forall>n \<in> set nodes. nodeAssigned p key others n \<longrightarrow>
        mget (node_Annotations n) AnnotationProvisionError = '''' \<and> nodeReady p n)"
proof -
  have a: "assigned = 0 \<longleftrightarrow> \<not> (\<exists>n \<in> set nodes. nodeAssigned p key others n)"
    using assms by (auto simp: poolCounts_eq filter_empty_conv)
  have r: "assigned \<le> ready \<longleftrightarrow> (\<forall>n \<in> set nodes. nodeAssigned p key others n \<longrightarrow> nodeReady p n)"
    using assms ready_count_full [of "nodeAssigned p key others" nodes "nodeReady p"] by (auto simp: poolCounts_eq)
  show ?thesis
    using assignedNodeFailure_None [of p key others nodes]
    by (cases "assignedNodeFailure p key others nodes") (auto simp: readyCondition_def Let_def a r)
qed

section \<open>Deletion\<close>

lemma reconcileDelete_cases:
  "reconcileDelete setCond cfg env p key others nodes =
     (let assigned = (\<exists>n \<in> set nodes. nodeAssigned p key others n);
          effs = (if assigned then [EffEnsureDaemonSet (buildCleanupDaemonSet cfg p key others)] else []);
          del = EffDeleteDaemonSet (CleanupDaemonSetName (prof_Name p))
      in if FinalizerCleanup \<notin> set (prof_Finalizers p) then ([], Done)
         else if assigned \<and> env_cleanup env = None then (effs, Failed ''ensuring cleanup DaemonSet'')
         else if assigned \<and> \<not> (\<exists>d r. env_cleanup env = Some (d, r) \<and> 0 < d \<and> d \<le> r)
         then (effs @ setDeleting setCond p, Requeue)
         else if \<not> env_deleteOK env then (effs @ [del], Failed ''deleting cleanup DaemonSet'')
         else (effs @ [del, EffUpdateProfile (removeFinalizer p)],
               if env_updateOK env then Done else Failed ''removing finalizer''))"
  by (cases "env_cleanup env")
     (auto simp: reconcileDelete_def ensureCleanupComplete_def Let_def poolCounts_eq filter_empty_conv
       split: bool.splits)

lemma setDeleting_no_update: "EffUpdateProfile q \<notin> set (setDeleting setCond p)"
  by (simp add: setDeleting_def Let_def)

lemma updateStatus_no_update:
  "EffUpdateProfile q \<notin> set (fst (updateStatus setCond ok p key others nodes))"
  by (auto simp: updateStatus_def Let_def split: prod.splits if_splits)

lemma addFinalizer_has: "FinalizerCleanup \<in> set (prof_Finalizers (addFinalizer p))"
  by (simp add: addFinalizer_def)

text \<open>C7: host cleanup comes before the release of a profile. If a reconcile run writes a profile without the
  cleanup finalizer, then the profile is being deleted, and either no node is assigned to it or the
  cleanup DaemonSet was ensured first and the API server reported it scheduled and ready on all its
  nodes; the cleanup DaemonSet is deleted right before the write, which is the last effect.\<close>

theorem finalizer_released_after_cleanup:
  assumes "EffUpdateProfile q \<in> set (fst (Reconcile setCond cfg env))"
    and "FinalizerCleanup \<notin> set (prof_Finalizers q)"
  shows "\<exists>p nodes ps. env_profile env = Found p \<and> env_nodes env = Some nodes \<and> env_profiles env = Some ps \<and>
     prof_Deleting p \<and> q = removeFinalizer p \<and>
     (let key = resolvePoolKey p nodes; others = namedPoolsExcept ps (prof_Name p);
          rel = [EffDeleteDaemonSet (CleanupDaemonSetName (prof_Name p)), EffUpdateProfile q]
      in ((\<forall>n \<in> set nodes. \<not> nodeAssigned p key others n) \<and> fst (Reconcile setCond cfg env) = rel) \<or>
         ((\<exists>d r. env_cleanup env = Some (d, r) \<and> 0 < d \<and> d \<le> r) \<and>
          fst (Reconcile setCond cfg env) =
            EffEnsureDaemonSet (buildCleanupDaemonSet cfg p key others) # rel))"
proof -
  obtain p nodes ps where e: "env_profile env = Found p" "env_nodes env = Some nodes" "env_profiles env = Some ps"
    using assms(1) by (auto simp: Reconcile_def split: reply.splits option.splits)
  let ?key = "resolvePoolKey p nodes" and ?others = "namedPoolsExcept ps (prof_Name p)"
  have del: "prof_Deleting p"
  proof (rule ccontr)
    assume "\<not> prof_Deleting p"
    then have "q = addFinalizer p"
      using assms(1) e updateStatus_no_update [of q setCond "env_statusOK env" _ ?key ?others nodes]
      by (auto simp: Reconcile_def Let_def split: if_splits prod.splits) (metis fst_conv)+
    then show False using assms(2) addFinalizer_has by simp
  qed
  then have r: "Reconcile setCond cfg env = reconcileDelete setCond cfg env p ?key ?others nodes"
    using e by (simp add: Reconcile_def Let_def)
  then show ?thesis
    using assms(1) e del setDeleting_no_update [of q setCond p]
    by (auto simp: reconcileDelete_cases Let_def split: if_splits)
qed

section \<open>No write loop\<close>

lemma status_irrelevant [simp]:
  "nodeAssigned (p\<lparr>prof_Status := s\<rparr>) = nodeAssigned p" "nodeReady (p\<lparr>prof_Status := s\<rparr>) = nodeReady p"
  "readyCondition (p\<lparr>prof_Status := s\<rparr>) = readyCondition p"
  by (simp_all add: fun_eq_iff nodeAssigned_def isDefaultProfile_def nodeReady_def readyCondition_def)

lemma counts_status_irrelevant [simp]:
  "poolCounts (p\<lparr>prof_Status := s\<rparr>) key others ns = poolCounts p key others ns"
  "assignedNodeFailure (p\<lparr>prof_Status := s\<rparr>) key others ns = assignedNodeFailure p key others ns"
  by (simp add: poolCounts_eq) (induction ns; simp)

context status_conditions
begin

lemma updateStatus_stable:
  assumes "EffUpdateStatus s \<in> set (fst (updateStatus setCond ok p key others nodes))"
  shows "EffUpdateStatus t \<notin> set (fst (updateStatus setCond ok' (p\<lparr>prof_Status := s\<rparr>) key others nodes))"
  using assms
  by (cases "poolCounts p key others nodes")
     (auto simp: updateStatus_def Let_def set_idem equalStatus_refl split: if_splits)

lemma updateStatus_condition:
  assumes "EffUpdateStatus s \<in> set (fst (updateStatus setCond ok p key others nodes))"
    and "poolCounts p key others nodes = (a, r)"
  shows "condOf ''Ready'' (st_Conditions s) =
      Some (readyCondition p key a r (assignedNodeFailure p key others nodes))"
    and "t \<noteq> ''Ready'' \<Longrightarrow> condOf t (st_Conditions s) = condOf t (st_Conditions (prof_Status p))"
proof -
  let ?c = "readyCondition p key a r (assignedNodeFailure p key others nodes)"
  have ty: "cond_Type ?c = ''Ready''" by (simp add: readyCondition_def Let_def split: option.splits)
  have s: "st_Conditions s = setCond (st_Conditions (prof_Status p)) ?c"
    using assms by (auto simp: updateStatus_def Let_def split: if_splits)
  show "condOf ''Ready'' (st_Conditions s) = Some ?c" using set_same [of ?c] by (simp add: s ty)
  show "t \<noteq> ''Ready'' \<Longrightarrow> condOf t (st_Conditions s) = condOf t (st_Conditions (prof_Status p))"
    using set_other [of t ?c] by (simp add: s ty)
qed

end

text \<open>The status written is the status computed, once. A status update records the Ready condition of the
  current counts and keeps every condition of another type; and when the run is repeated on the profile
  with that status and an unchanged fleet, it writes no status at all, so the controller does not wake
  itself up for ever.\<close>

lemma updateStatus_writes_once:
  assumes "status_conditions setCond"
    and "EffUpdateStatus s \<in> set (fst (updateStatus setCond ok p key others nodes))"
  shows "condOf ''Ready'' (st_Conditions s) =
       Some (readyCondition p key (fst (poolCounts p key others nodes)) (snd (poolCounts p key others nodes))
              (assignedNodeFailure p key others nodes)) \<and>
     (\<forall>t. t \<noteq> ''Ready'' \<longrightarrow> condOf t (st_Conditions s) = condOf t (st_Conditions (prof_Status p))) \<and>
     (\<forall>t. EffUpdateStatus t \<notin> set (fst (updateStatus setCond ok' (p\<lparr>prof_Status := s\<rparr>) key others nodes)))"
  using status_conditions.updateStatus_condition [OF assms surjective_pairing]
    status_conditions.updateStatus_stable [OF assms] by blast

text \<open>The cleanup DaemonSet runs where the provisioner ran and never selects its pods. It has the same
  namespace, affinity, volumes and service account, another name, one container of the same image whose
  environment ends with \<open>BREWLET_MODE=cleanup\<close>, and its selector does not match the labels of the
  provisioner's pods.\<close>

lemma cleanup_daemonset_scope:
  fixes cfg p key others
  defines "prov \<equiv> buildProfileDaemonSet cfg p key others" and "cl \<equiv> buildCleanupDaemonSet cfg p key others"
  shows "ds_Affinity cl = ds_Affinity prov \<and> ds_Namespace cl = ds_Namespace prov \<and>
     ds_Volumes cl = ds_Volumes prov \<and> ds_ServiceAccountName cl = ds_ServiceAccountName prov \<and>
     ds_Name cl \<noteq> ds_Name prov \<and>
     (\<exists>c. ds_Containers cl = [c] \<and> dc_Image c = cfg_ProvisionerImage cfg \<and>
        dc_Env c = profileEnv p @ [envVar ''BREWLET_MODE'' ''cleanup'']) \<and>
     ds_Selector cl = ds_TemplateLabels cl \<and>
     ds_Selector cl ''app'' \<noteq> ds_TemplateLabels prov ''app''"
proof -
  have n: "ds_Name cl \<noteq> ds_Name prov"
    using managed_names_distinct [of "prof_Name p" "prof_Name p"]
    by (auto simp: prov_def cl_def buildCleanupDaemonSet_def buildProfileDaemonSet_def Let_def)
  have "''app'' \<noteq> LabelNodeProfile" by (simp add: vocab)
  then have s: "ds_TemplateLabels prov ''app'' = Some ProvisionerAppLabel"
    by (simp add: prov_def buildProfileDaemonSet_def Let_def profileLabels_def)
  have c: "ds_Selector cl ''app'' = Some ''brewlet-cleanup''"
    by (simp add: cl_def buildCleanupDaemonSet_def Let_def)
  show ?thesis
    using n s c by (simp add: vocab) (simp add: cl_def prov_def buildCleanupDaemonSet_def buildProfileDaemonSet_def Let_def)
qed

section \<open>Witnesses\<close>

definition exampleConfig :: Config where
  "exampleConfig = \<lparr>cfg_Namespace = ''brewlet'', cfg_ProvisionerImage = ''img'', cfg_MetricsPort = 0, cfg_MetricsEnabled = False\<rparr>"

definition deletingProfile :: NodeProfile where
  "deletingProfile = (exampleProfile ''default'' [] '''')\<lparr>prof_Deleting := True, prof_Finalizers := [FinalizerCleanup]\<rparr>"

definition deletingEnv :: np_env where
  "deletingEnv = \<lparr>env_profile = Found deletingProfile, env_nodes = Some [poolNode ''n1'' []], env_profiles = Some [deletingProfile],
     env_updateOK = True, env_runtimeClassOK = True, env_daemonSetOK = True, env_cleanup = Some (1, 1),
     env_deleteOK = True, env_statusOK = True\<rparr>"

lemma deleting_effects:
  "EffUpdateProfile (removeFinalizer deletingProfile) \<in> set (fst (Reconcile replaceCondition exampleConfig deletingEnv))"
  by (simp add: Reconcile_def deletingEnv_def Let_def reconcileDelete_cases) (simp add: deletingProfile_def)

theorem finalizer_released_after_cleanup_witness:
  "\<exists>ds. EffEnsureDaemonSet ds \<in> set (fst (Reconcile replaceCondition exampleConfig deletingEnv))"
proof -
  have f: "FinalizerCleanup \<notin> set (prof_Finalizers (removeFinalizer deletingProfile))" by (simp add: removeFinalizer_def)
  have a: "nodeAssigned p k o' n" if "isDefaultProfile p" "o' = []" for p k o' n
    using that by (simp add: nodeAssigned_def)
  have o: "namedPoolsExcept [deletingProfile] (prof_Name deletingProfile) = []"
    by (simp add: namedPoolsExcept_def)
  have d: "isDefaultProfile deletingProfile" by (simp add: isDefaultProfile_def deletingProfile_def exampleProfile_def)
  show ?thesis
    using finalizer_released_after_cleanup [OF deleting_effects f] a [OF d o]
    by (auto simp: Let_def deletingEnv_def)
qed

theorem readyCondition_iff_witness:
  "cond_Status (readyCondition deletingProfile '''' 0 0 (assignedNodeFailure deletingProfile '''' [] []))"
  using readyCondition_iff [of deletingProfile "''''" "[]" "[]" 0 0]
  by (simp add: poolCounts_eq isDefaultProfile_def deletingProfile_def exampleProfile_def)

theorem updateStatus_writes_once_witness:
  "\<exists>s :: NodeProfileStatus. condOf ''Ready'' (st_Conditions s) = Some (readyCondition deletingProfile '''' 0 0 None)"
proof -
  let ?s = "\<lparr>st_ObservedGeneration = 1, st_ResolvedPoolKey = '''', st_AssignedNodes = 0, st_ReadyNodes = 0,
     st_Conditions = [readyCondition deletingProfile '''' 0 0 None]\<rparr>"
  have "EffUpdateStatus ?s \<in> set (fst (updateStatus replaceCondition True deletingProfile '''' [] []))"
    by (simp add: updateStatus_def poolCounts_eq Let_def equalStatus_def deletingProfile_def exampleProfile_def emptyStatus_def)
  from updateStatus_writes_once [OF meta.status_conditions_axioms this, of True] show ?thesis
    by - (rule exI [of _ ?s], simp add: poolCounts_eq)
qed

end
