(* ===== verification/Node_Controller.thy ===== *)
theory Node_Controller
  imports NodeProfile_Controller
begin

text \<open>
  The node lifecycle controller (\<open>src/kubernetes/internal/controller/node_controller.go\<close>), which
  mirrors the provisioning state of every Brewlet node into the annotation
  \<open>brewlet.sh/provision-state\<close> and into events.

  A run of \<open>Reconcile\<close> is a function from the replies of the API server (\<open>node_env\<close>) to the list of its
  writes in order and its result. The events and the metric transition that the code emits are effects
  as well.
\<close>

section \<open>Data\<close>

record ContainerStatus =
  cs_WaitingReason :: "string option"
  cs_RestartCount :: int32

record ProvPod =
  pp_Name :: string
  pp_Namespace :: string
  pp_Labels :: strmap
  pp_NodeName :: string
  pp_ContainerStatuses :: "ContainerStatus list"

datatype node_effect =
    EvNodeReady string
  | EvProvisionFailed string
  | EvProvisioning
  | ObserveTransition string
  | PatchNode Node

datatype node_result = NodeOk | NodeErr string

record node_env =
  ne_node :: "Node reply"
  ne_profiles :: "NodeProfile list option"
  ne_nodes :: "Node list option"
  ne_pods :: "ProvPod list option"
  ne_patchOK :: bool

section \<open>Membership\<close>

definition profileClaimsNode :: "NodeProfile \<Rightarrow> string \<Rightarrow> string list \<Rightarrow> Node \<Rightarrow> bool" where
  "profileClaimsNode profile resolvedKey allNamed node =
     (if \<not> isDefaultProfile profile then nodeInPool node resolvedKey (np_Names (prof_NodePool profile))
      else if resolvedKey \<noteq> '''' \<and> length allNamed > 0 \<and> nodeInPool node resolvedKey allNamed then False
      else True)"

definition isBrewletNode :: "node_env \<Rightarrow> Node \<Rightarrow> bool option" where
  "isBrewletNode env node =
     (if mget (node_Labels node) LabelProvision = ''true'' \<or> mget (node_Labels node) LabelRuntimeReady = ValueReady
      then Some True
      else (case ne_profiles env of None \<Rightarrow> None
            | Some profiles \<Rightarrow>
                if length profiles = 0 then Some False
                else (case ne_nodes env of None \<Rightarrow> None
                      | Some nodes \<Rightarrow>
                          (let otherNamed = namedPoolsExcept profiles ''''
                           in Some (list_ex (\<lambda>p. profileClaimsNode p (resolvePoolKey p nodes) otherNamed node) profiles)))))"

section \<open>The provisioner pod of a node\<close>

fun statusFailing :: "string \<Rightarrow> ContainerStatus list \<Rightarrow> string option" where
  "statusFailing name [] = None"
| "statusFailing name (cs # css) =
     (if cs_WaitingReason cs = Some ''CrashLoopBackOff''
      then Some (''provisioner pod '' @ name @ '' is in CrashLoopBackOff'')
      else if 3 \<le> sint (cs_RestartCount cs)
      then Some (''provisioner pod '' @ name @ '' has restarted '' @ Itoa (sint (cs_RestartCount cs)) @ '' times'')
      else statusFailing name css)"

fun podsFailing :: "string \<Rightarrow> ProvPod list \<Rightarrow> string option" where
  "podsFailing nodeName [] = None"
| "podsFailing nodeName (p # ps) =
     (if pp_NodeName p \<noteq> nodeName then podsFailing nodeName ps
      else (case statusFailing (pp_Name p) (pp_ContainerStatuses p) of
              Some r \<Rightarrow> Some r | None \<Rightarrow> podsFailing nodeName ps))"

text \<open>The list call selects by namespace and by the provisioner's \<open>app\<close> label; an error of the call is
  logged and counts as not failing.\<close>

definition provisionerFailing :: "Config \<Rightarrow> ProvPod list option \<Rightarrow> string \<Rightarrow> string option" where
  "provisionerFailing cfg pods nodeName =
     (case pods of None \<Rightarrow> None
      | Some ps \<Rightarrow> podsFailing nodeName
          (filter (\<lambda>p. pp_Namespace p = cfg_Namespace cfg \<and> pp_Labels p ''app'' = Some ProvisionerAppLabel) ps))"

section \<open>State writes\<close>

definition prettyInventory :: "string \<Rightarrow> string" where
  "prettyInventory v = (if v = '''' then ''none'' else JoinWith '', '' (SplitOn CHR '','' v))"

definition setState :: "bool \<Rightarrow> Node \<Rightarrow> string \<Rightarrow> node_effect list \<times> node_result" where
  "setState patchOK node state =
     (if mget (node_Annotations node) AnnotationProvisionState = state then ([], NodeOk)
      else ([PatchNode (node\<lparr>node_Annotations := (node_Annotations node)(AnnotationProvisionState \<mapsto> state)\<rparr>)],
            if patchOK then NodeOk else NodeErr ''patch''))"

definition markReady :: "bool \<Rightarrow> Node \<Rightarrow> node_effect list \<times> node_result" where
  "markReady patchOK node =
     (if mget (node_Annotations node) AnnotationProvisionState = StateReady then ([], NodeOk)
      else
        (let jdks = prettyInventory (mget (node_Annotations node) AnnotationJDKs);
             launchers = prettyInventory (mget (node_Annotations node) AnnotationLaunchers)
         in case setState patchOK node StateReady of (effs, r) \<Rightarrow>
              ([EvNodeReady (''node provisioned; JDKs=['' @ jdks @ ''] launchers=['' @ launchers @ '']''),
                ObserveTransition StateReady] @ effs, r)))"

definition markFailed :: "bool \<Rightarrow> Node \<Rightarrow> string \<Rightarrow> node_effect list \<times> node_result" where
  "markFailed patchOK node reason =
     (case setState patchOK node StateFailed of (effs, r) \<Rightarrow>
        ((if mget (node_Annotations node) AnnotationProvisionState \<noteq> StateFailed
          then [EvProvisionFailed reason, ObserveTransition StateFailed] else []) @ effs, r))"

definition markProvisioning :: "bool \<Rightarrow> Node \<Rightarrow> node_effect list \<times> node_result" where
  "markProvisioning patchOK node =
     (case setState patchOK node StateProvisioning of (effs, r) \<Rightarrow>
        ((if mget (node_Annotations node) AnnotationProvisionState \<noteq> StateProvisioning
          then [EvProvisioning, ObserveTransition StateProvisioning] else []) @ effs, r))"

section \<open>Reconcile\<close>

definition NodeReconcile :: "Config \<Rightarrow> node_env \<Rightarrow> node_effect list \<times> node_result" where
  "NodeReconcile cfg env =
     (case ne_node env of
        NotFound \<Rightarrow> ([], NodeOk)
      | ReadError \<Rightarrow> ([], NodeErr ''get'')
      | Found node \<Rightarrow>
        (case isBrewletNode env node of
           None \<Rightarrow> ([], NodeErr ''checking node membership'')
         | Some False \<Rightarrow> ([], NodeOk)
         | Some True \<Rightarrow>
             (let e = mget (node_Annotations node) AnnotationProvisionError in
              if e \<noteq> '''' then markFailed (ne_patchOK env) node e
              else if mget (node_Labels node) LabelRuntimeReady = ValueReady then markReady (ne_patchOK env) node
              else (case provisionerFailing cfg (ne_pods env) (node_Name node) of
                      Some reason \<Rightarrow> markFailed (ne_patchOK env) node reason
                    | None \<Rightarrow> markProvisioning (ne_patchOK env) node))))"

definition podToNode :: "Config \<Rightarrow> ProvPod \<Rightarrow> string list" where
  "podToNode cfg pod =
     (if pp_Namespace pod \<noteq> cfg_Namespace cfg then []
      else if mget (pp_Labels pod) ''app'' \<noteq> ProvisionerAppLabel \<or> pp_NodeName pod = '''' then []
      else [pp_NodeName pod])"

section \<open>Membership is what the profile controllers provision\<close>

lemma profileClaimsNode_iff:
  "profileClaimsNode p key allNamed n \<longleftrightarrow>
     (if isDefaultProfile p then \<not> nodeInPool n key allNamed else nodeInPool n key (np_Names (prof_NodePool p)))"
  by (auto simp: profileClaimsNode_def nodeInPool_def)

lemma nodeInPool_set_cong: "set xs = set ys \<Longrightarrow> nodeInPool n key xs = nodeInPool n key ys"
  by (auto simp: nodeInPool_iff)

lemma default_names_irrelevant:
  assumes "distinct (map prof_Name ps)" and "'''' \<notin> prof_Name ` set ps" and "p \<in> set ps" and "isDefaultProfile p"
  shows "set (namedPoolsExcept ps '''') = set (namedPoolsExcept ps (prof_Name p))"
proof -
  have "q = p" if "q \<in> set ps" "prof_Name q = prof_Name p" for q
    using assms(1,3) that by (meson distinct_map inj_onD)
  then show ?thesis
    using assms(2,4) by (force simp: set_namedPoolsExcept isDefaultProfile_def)
qed

lemma claims_eq_assigned:
  assumes "distinct (map prof_Name ps)" and "'''' \<notin> prof_Name ` set ps" and "p \<in> set ps"
  shows "profileClaimsNode p key (namedPoolsExcept ps '''') n =
    nodeAssigned p key (namedPoolsExcept ps (prof_Name p)) n"
proof (cases "isDefaultProfile p")
  case True
  show ?thesis
    using nodeInPool_set_cong [OF default_names_irrelevant [OF assms True], of n key] True
    by (simp add: profileClaimsNode_iff nodeAssigned_iff)
qed (simp add: profileClaimsNode_iff nodeAssigned_iff)

text \<open>C10: the two controllers agree on which nodes are Brewlet nodes. With the profiles and the nodes listed,
  the names of the profiles different and not empty (as the API server ensures), the node controller
  tracks a node exactly when it carries the opt-in label, already advertises the runtime, or is assigned
  to some profile by the rule with which the NodeProfile controller places its DaemonSets; in every such
  case the membership check returns.\<close>

theorem isBrewletNode_iff_assigned:
  assumes "ne_profiles env = Some ps" and "ne_nodes env = Some nodes"
    and "distinct (map prof_Name ps)" and "'''' \<notin> prof_Name ` set ps"
  shows "isBrewletNode env n = Some (mget (node_Labels n) LabelProvision = ''true'' \<or>
     mget (node_Labels n) LabelRuntimeReady = ValueReady \<or>
     (\<exists>p \<in> set ps. nodeAssigned p (resolvePoolKey p nodes) (namedPoolsExcept ps (prof_Name p)) n))"
  using assms claims_eq_assigned [OF assms(3,4)] by (auto simp: isBrewletNode_def Let_def list_ex_iff)

section \<open>The state that is reflected\<close>

text \<open>The state a node should be annotated with, and the reason of a failure.\<close>

definition failureReason :: "Config \<Rightarrow> node_env \<Rightarrow> Node \<Rightarrow> string option" where
  "failureReason cfg env n =
     (if mget (node_Annotations n) AnnotationProvisionError \<noteq> ''''
      then Some (mget (node_Annotations n) AnnotationProvisionError)
      else if mget (node_Labels n) LabelRuntimeReady = ValueReady then None
      else provisionerFailing cfg (ne_pods env) (node_Name n))"

definition desiredState :: "Config \<Rightarrow> node_env \<Rightarrow> Node \<Rightarrow> string" where
  "desiredState cfg env n =
     (if failureReason cfg env n \<noteq> None then StateFailed
      else if mget (node_Labels n) LabelRuntimeReady = ValueReady then StateReady else StateProvisioning)"

definition withState :: "string \<Rightarrow> Node \<Rightarrow> Node" where
  "withState s n = n\<lparr>node_Annotations := (node_Annotations n)(AnnotationProvisionState \<mapsto> s)\<rparr>"

definition transitionEvent :: "Config \<Rightarrow> node_env \<Rightarrow> Node \<Rightarrow> node_effect" where
  "transitionEvent cfg env n =
     (case failureReason cfg env n of Some r \<Rightarrow> EvProvisionFailed r
      | None \<Rightarrow> if mget (node_Labels n) LabelRuntimeReady = ValueReady
          then EvNodeReady (''node provisioned; JDKs=['' @ prettyInventory (mget (node_Annotations n) AnnotationJDKs) @
            ''] launchers=['' @ prettyInventory (mget (node_Annotations n) AnnotationLaunchers) @ '']'')
          else EvProvisioning)"

lemmas mark_defs = markReady_def markFailed_def markProvisioning_def setState_def withState_def

lemma NodeReconcile_targeted:
  assumes "ne_node env = Found n" and "isBrewletNode env n = Some True"
  shows "NodeReconcile cfg env =
     (if mget (node_Annotations n) AnnotationProvisionState = desiredState cfg env n then ([], NodeOk)
      else ([transitionEvent cfg env n, ObserveTransition (desiredState cfg env n),
             PatchNode (withState (desiredState cfg env n) n)],
            if ne_patchOK env then NodeOk else NodeErr ''patch''))"
  using assms
  by (auto simp: NodeReconcile_def mark_defs desiredState_def failureReason_def transitionEvent_def Let_def
      split: option.split)

text \<open>C8: the controller reflects the state of a Brewlet node and nothing else. A run on a node writes at most
  once: when the annotation differs from the desired state (failed if the provisioner reported an error
  or its pod is stuck, else ready if the node advertises the runtime, else provisioning) it emits one
  event and one metric transition and patches this single annotation; when the annotation already holds
  the desired state, the node is not a Brewlet node, or its membership cannot be decided, it has no
  effect.\<close>

theorem NodeReconcile_reflects:
  assumes "ne_node env = Found n"
  shows "NodeReconcile cfg env =
     (case isBrewletNode env n of
        None \<Rightarrow> ([], NodeErr ''checking node membership'')
      | Some False \<Rightarrow> ([], NodeOk)
      | Some True \<Rightarrow>
         if mget (node_Annotations n) AnnotationProvisionState = desiredState cfg env n then ([], NodeOk)
         else ([transitionEvent cfg env n, ObserveTransition (desiredState cfg env n),
                PatchNode (withState (desiredState cfg env n) n)],
               if ne_patchOK env then NodeOk else NodeErr ''patch''))"
proof (cases "isBrewletNode env n = Some True")
  case True
  then show ?thesis using NodeReconcile_targeted [OF assms True, of cfg] by simp
next
  case False
  then show ?thesis using assms by (auto simp: NodeReconcile_def split: option.split bool.split)
qed

lemma withState_simps [simp]:
  "node_Labels (withState s n) = node_Labels n"
  "node_Name (withState s n) = node_Name n"
  "mget (node_Annotations (withState s n)) AnnotationProvisionState = s"
  by (simp_all add: withState_def)

lemma error_withState [simp]:
  "mget (node_Annotations (withState s n)) AnnotationProvisionError = mget (node_Annotations n) AnnotationProvisionError"
  by (simp add: withState_def vocab)

lemma resolvePoolKey_labels:
  assumes "map node_Labels ns = map node_Labels ms" shows "resolvePoolKey p ns = resolvePoolKey p ms"
proof -
  have "list_ex (\<lambda>n. node_Labels n key \<noteq> None) ns = list_ex (\<lambda>n. node_Labels n key \<noteq> None) ms" for key
    using arg_cong [OF assms, of "list_ex (\<lambda>l. l key \<noteq> None)"] by (simp add: list_ex_iff)
  then show ?thesis by (simp add: resolvePoolKey_def)
qed

lemma profileClaimsNode_withState [simp]:
  "profileClaimsNode p key xs (withState s n) = profileClaimsNode p key xs n"
  by (simp add: profileClaimsNode_def nodeInPool_def)

lemma isBrewletNode_withState:
  assumes "map_option (map node_Labels) nodes' = map_option (map node_Labels) (ne_nodes env)"
  shows "isBrewletNode (env\<lparr>ne_node := r, ne_nodes := nodes'\<rparr>) (withState s n) = isBrewletNode env n"
proof -
  have "map node_Labels ns = map node_Labels ms"
    if "nodes' = Some ns" "ne_nodes env = Some ms" for ns ms
    using assms that by simp
  then have "resolvePoolKey p ns = resolvePoolKey p ms" if "nodes' = Some ns" "ne_nodes env = Some ms" for ns ms p
    using resolvePoolKey_labels that by blast
  then show ?thesis
    using assms by (auto simp: isBrewletNode_def split: option.split)
qed

text \<open>C9: reconciliation is idempotent. If a run patched the node, a second run that sees the patched node, the
  same profiles and provisioner pods and the same node labels has no effect and succeeds: no event is
  repeated and the annotation is stable.\<close>

theorem NodeReconcile_idempotent:
  assumes "ne_node env = Found n" and "PatchNode n' \<in> set (fst (NodeReconcile cfg env))"
    and "map_option (map node_Labels) nodes' = map_option (map node_Labels) (ne_nodes env)"
  shows "NodeReconcile cfg (env\<lparr>ne_node := Found n', ne_nodes := nodes'\<rparr>) = ([], NodeOk)"
proof -
  have t: "isBrewletNode env n = Some True" and n': "n' = withState (desiredState cfg env n) n"
    using assms(1,2) NodeReconcile_targeted [OF assms(1), of cfg]
    by (auto simp: NodeReconcile_def transitionEvent_def split: option.splits bool.splits if_splits)
  let ?e = "env\<lparr>ne_node := Found n', ne_nodes := nodes'\<rparr>"
  have "isBrewletNode ?e n' = Some True" using isBrewletNode_withState [OF assms(3)] t n' by simp
  moreover have "desiredState cfg ?e n' = desiredState cfg env n"
    by (simp add: desiredState_def failureReason_def n')
  ultimately show ?thesis using NodeReconcile_targeted [of ?e n' cfg] n' by simp
qed

text \<open>The watch covers the failure check. Whenever a pod in the list makes the check report the node as
  failing, the pod's own watch event enqueues exactly this node.\<close>

lemma failing_pod_is_watched:
  assumes "provisionerFailing cfg (Some ps) name = Some r" and "name \<noteq> ''''"
  shows "\<exists>p \<in> set ps. podToNode cfg p = [name] \<and> statusFailing (pp_Name p) (pp_ContainerStatuses p) = Some r"
proof -
  have "\<exists>p \<in> set qs. pp_NodeName p = name \<and> statusFailing (pp_Name p) (pp_ContainerStatuses p) = Some r"
    if "podsFailing name qs = Some r" for qs
    using that by (induction name qs rule: podsFailing.induct) (auto split: if_splits option.splits)
  from this [of "filter (\<lambda>p. pp_Namespace p = cfg_Namespace cfg \<and> pp_Labels p ''app'' = Some ProvisionerAppLabel) ps"]
  obtain p where p: "p \<in> set ps" "pp_NodeName p = name" "pp_Namespace p = cfg_Namespace cfg"
      "pp_Labels p ''app'' = Some ProvisionerAppLabel"
      "statusFailing (pp_Name p) (pp_ContainerStatuses p) = Some r"
    using assms(1) by (auto simp: provisionerFailing_def)
  then have "podToNode cfg p = [name]" using assms(2) by (simp add: podToNode_def mget_def)
  with p show ?thesis by blast
qed

section \<open>Witnesses\<close>

definition brokenNode :: Node where
  "brokenNode = (poolNode ''n1'' [(LabelProvision, ''true'')])\<lparr>node_Annotations := [AnnotationProvisionError \<mapsto> ''boom'']\<rparr>"

definition brokenEnv :: node_env where
  "brokenEnv = \<lparr>ne_node = Found brokenNode, ne_profiles = Some [exampleProfile ''default'' [] ''''],
     ne_nodes = Some [brokenNode], ne_pods = Some [], ne_patchOK = True\<rparr>"

lemma brokenEnv_facts:
  "ne_node brokenEnv = Found brokenNode" "isBrewletNode brokenEnv brokenNode = Some True"
  "desiredState exampleConfig brokenEnv brokenNode = StateFailed"
  "mget (node_Annotations brokenNode) AnnotationProvisionState = ''''"
  by (simp_all add: brokenEnv_def isBrewletNode_def brokenNode_def poolNode_def desiredState_def failureReason_def
      mget_def) (simp add: vocab)

theorem isBrewletNode_iff_assigned_witness:
  "isBrewletNode brokenEnv (poolNode ''n2'' []) = Some True"
  using isBrewletNode_iff_assigned [of brokenEnv "[exampleProfile ''default'' [] '''']" "[brokenNode]" "poolNode ''n2'' []"]
  by (simp add: brokenEnv_def exampleProfile_def nodeAssigned_def isDefaultProfile_def namedPoolsExcept_def)

theorem NodeReconcile_reflects_witness:
  "PatchNode (withState StateFailed brokenNode) \<in> set (fst (NodeReconcile exampleConfig brokenEnv))"
  using NodeReconcile_reflects [OF brokenEnv_facts(1), of exampleConfig]
  by (simp add: brokenEnv_facts) (simp add: vocab)

theorem NodeReconcile_idempotent_witness:
  "NodeReconcile exampleConfig (brokenEnv\<lparr>ne_node := Found (withState StateFailed brokenNode), ne_nodes := Some [brokenNode]\<rparr>)
     = ([], NodeOk)"
proof -
  have "PatchNode (withState StateFailed brokenNode) \<in> set (fst (NodeReconcile exampleConfig brokenEnv))"
    using NodeReconcile_targeted [OF brokenEnv_facts(1,2)] by (simp add: brokenEnv_facts) (simp add: vocab)
  from NodeReconcile_idempotent [OF brokenEnv_facts(1) this, of "Some [brokenNode]"] show ?thesis
    by (simp add: brokenEnv_def)
qed

theorem failing_pod_is_watched_witness:
  "let p = \<lparr>pp_Name = ''p'', pp_Namespace = ''brewlet'', pp_Labels = [''app'' \<mapsto> ProvisionerAppLabel], pp_NodeName = ''n1'',
        pp_ContainerStatuses = [\<lparr>cs_WaitingReason = Some ''CrashLoopBackOff'', cs_RestartCount = 0\<rparr>]\<rparr>
   in podToNode exampleConfig p = [''n1'']"
proof -
  let ?p = "\<lparr>pp_Name = ''p'', pp_Namespace = ''brewlet'', pp_Labels = [''app'' \<mapsto> ProvisionerAppLabel], pp_NodeName = ''n1'',
        pp_ContainerStatuses = [\<lparr>cs_WaitingReason = Some ''CrashLoopBackOff'', cs_RestartCount = 0\<rparr>]\<rparr>"
  have "provisionerFailing exampleConfig (Some [?p]) ''n1'' = Some (''provisioner pod '' @ ''p'' @ '' is in CrashLoopBackOff'')"
    by (simp add: provisionerFailing_def exampleConfig_def)
  from failing_pod_is_watched [OF this] show ?thesis by (simp add: Let_def)
qed

end
