(* ===== verification/JavaApplication.thy ===== *)
theory JavaApplication
  imports NodeProfile_Controller
begin

text \<open>
  The JavaApplication controller: the API types (\<open>src/kubernetes/api/v1alpha1/javaapplication_types.go\<close>),
  the Deployment, Service and HorizontalPodAutoscaler it renders
  (\<open>src/kubernetes/internal/controller/javaapplication_resources.go\<close>) and its reconcile loop
  (\<open>javaapplication_controller.go\<close>).

  As for the NodeProfile controller, a run is a function from the replies of the API server
  (\<open>app_env\<close>) to the effects in order and the result. \<open>CreateOrUpdate\<close> reads the live object, applies the
  controller's mutate function to it (or to an empty object) and writes the outcome: the mutate functions
  are definitions here, the live object and the outcome of the call are replies. Parts of the spec that
  the controller copies without looking at them are opaque strings.
\<close>

section \<open>API types\<close>

record ArtifactSpec =
  as_Image :: string
  as_PullPolicy :: string
  as_PullSecrets :: "string list"

record JVMSpec =
  jvm_Version :: int32
  jvm_Distribution :: string
  jvm_Launcher :: string
  jvm_Args :: "string list"
  jvm_CDSRegenerate :: bool

record ServiceSpec =
  ss_Enabled :: "bool option"
  ss_Type :: string

record AutoscalingSpec =
  au_Enabled :: bool
  au_MinReplicas :: "int32 option"
  au_MaxReplicas :: int32
  au_TargetCPU :: "int32 option"

record ContainerPort =
  cp_Name :: string
  cp_ContainerPort :: int32
  cp_Protocol :: string

record ProbesSpec =
  pr_Readiness :: "string option"
  pr_Liveness :: "string option"

record JavaApplicationStatus =
  ja_ObservedGeneration :: int
  ja_ReadyReplicas :: int32
  ja_SelectedJdk :: string
  ja_Conditions :: "Condition list"

record JavaApplication =
  app_Name :: string
  app_Namespace :: string
  app_UID :: string
  app_Generation :: int
  app_Artifact :: ArtifactSpec
  app_Replicas :: "int32 option"
  app_Resources :: string
  app_JVM :: JVMSpec
  app_Env :: "EnvVar list"
  app_Ports :: "ContainerPort list"
  app_Service :: ServiceSpec
  app_Probes :: ProbesSpec
  app_Autoscaling :: AutoscalingSpec
  app_Arch :: "string list"
  app_Status :: JavaApplicationStatus

section \<open>Rendered objects\<close>

record AppContainer =
  ac_Name :: string
  ac_Image :: string
  ac_ImagePullPolicy :: string
  ac_Resources :: string
  ac_Ports :: "ContainerPort list"
  ac_Env :: "EnvVar list"
  ac_ReadinessProbe :: "string option"
  ac_LivenessProbe :: "string option"

record PodTemplate =
  pt_Labels :: strmap
  pt_Annotations :: strmap
  pt_RuntimeClassName :: "string option"
  pt_Containers :: "AppContainer list"
  pt_ImagePullSecrets :: "string list"

record Deployment =
  dep_Name :: string
  dep_Namespace :: string
  dep_Labels :: strmap
  dep_Owner :: "string option"
  dep_Replicas :: "int32 option"
  dep_Selector :: strmap
  dep_Template :: PodTemplate

record ServicePort =
  sp_Name :: string
  sp_Port :: int32
  sp_TargetPort :: int32
  sp_Protocol :: string

record Service =
  svc_Name :: string
  svc_Namespace :: string
  svc_Labels :: strmap
  svc_Owner :: "string option"
  svc_Type :: string
  svc_Selector :: strmap
  svc_Ports :: "ServicePort list"
  svc_rest :: string

record HPASpec =
  hpa_TargetAPIVersion :: string
  hpa_TargetKind :: string
  hpa_TargetName :: string
  hpa_MinReplicas :: "int32 option"
  hpa_MaxReplicas :: int32
  hpa_TargetCPU :: "int32 option"

record HPA =
  hpa_Name :: string
  hpa_Namespace :: string
  hpa_Labels :: strmap
  hpa_Owner :: "string option"
  hpa_Spec :: HPASpec

definition appContainerName :: string where "appContainerName = ''app''"

definition jdkJavaOptionsEnv :: string where "jdkJavaOptionsEnv = ''JDK_JAVA_OPTIONS''"

definition javaToolOptionsEnv :: string where "javaToolOptionsEnv = ''JAVA_TOOL_OPTIONS''"

definition jvmOptionsEnvName :: "int32 \<Rightarrow> string" where
  "jvmOptionsEnvName version = (if version = 8 then javaToolOptionsEnv else jdkJavaOptionsEnv)"

definition selectorLabels :: "JavaApplication \<Rightarrow> strmap" where
  "selectorLabels app = [''app.kubernetes.io/name'' \<mapsto> app_Name app, ''app.kubernetes.io/managed-by'' \<mapsto> ''brewlet-operator'']"

definition desiredReplicas :: "JavaApplication \<Rightarrow> int32 option" where
  "desiredReplicas app =
     (if au_Enabled (app_Autoscaling app) then None
      else (case app_Replicas app of Some r \<Rightarrow> Some r | None \<Rightarrow> Some 1))"

definition podAnnotations :: "JavaApplication \<Rightarrow> strmap" where
  "podAnnotations app =
     (let ann = Map.empty;
          v = jvm_Version (app_JVM app);
          dist = TrimSpace (jvm_Distribution (app_JVM app));
          ann = (if 0 < sint v
                 then (if dist \<noteq> '''' then ann(AnnotationRequestedJDK \<mapsto> dist @ ''-'' @ Itoa (sint v))
                       else ann(AnnotationRequestedJDK \<mapsto> Itoa (sint v)))
                 else ann);
          l = TrimSpace (jvm_Launcher (app_JVM app));
          ann = (if l \<noteq> '''' \<and> l \<noteq> VanillaLauncher then ann(AnnotationRequestedLauncher \<mapsto> l) else ann);
          arch = trimmedTokens (app_Arch app);
          ann = (if length arch > 0 then ann(AnnotationRequestedArch \<mapsto> JoinWith '','' arch) else ann);
          ann = (if jvm_CDSRegenerate (app_JVM app) then ann(AnnotationCDSRegenerate \<mapsto> ''true'') else ann)
      in ann)"

definition buildEnv :: "JavaApplication \<Rightarrow> EnvVar list" where
  "buildEnv app =
     (let env = app_Env app in
      if length (jvm_Args (app_JVM app)) = 0 then env
      else if list_ex (\<lambda>e. ev_Name e = jdkJavaOptionsEnv \<or> ev_Name e = javaToolOptionsEnv) env then env
      else env @ [\<lparr>ev_Name = jvmOptionsEnvName (jvm_Version (app_JVM app)),
                   ev_Value = JoinWith '' '' (jvm_Args (app_JVM app)), ev_FieldPath = None\<rparr>])"

definition buildDeployment :: "JavaApplication \<Rightarrow> Deployment" where
  "buildDeployment app =
     (let labels = selectorLabels app;
          container =
            \<lparr>ac_Name = appContainerName, ac_Image = as_Image (app_Artifact app),
             ac_ImagePullPolicy = as_PullPolicy (app_Artifact app), ac_Resources = app_Resources app,
             ac_Ports = app_Ports app, ac_Env = buildEnv app,
             ac_ReadinessProbe = pr_Readiness (app_Probes app), ac_LivenessProbe = pr_Liveness (app_Probes app)\<rparr>
      in \<lparr>dep_Name = app_Name app, dep_Namespace = app_Namespace app, dep_Labels = labels, dep_Owner = None,
          dep_Replicas = desiredReplicas app, dep_Selector = labels,
          dep_Template = \<lparr>pt_Labels = labels, pt_Annotations = podAnnotations app,
            pt_RuntimeClassName = Some RuntimeClassName, pt_Containers = [container],
            pt_ImagePullSecrets = as_PullSecrets (app_Artifact app)\<rparr>\<rparr>)"

definition serviceEnabled :: "JavaApplication \<Rightarrow> bool" where
  "serviceEnabled app = (case ss_Enabled (app_Service app) of None \<Rightarrow> True | Some b \<Rightarrow> b)"

definition servicePortProtocol :: "string \<Rightarrow> string" where
  "servicePortProtocol p = (if p = '''' then ''TCP'' else p)"

definition buildService :: "JavaApplication \<Rightarrow> Service option" where
  "buildService app =
     (if \<not> serviceEnabled app \<or> length (app_Ports app) = 0 then None
      else
        (let labels = selectorLabels app;
             svcType = (if ss_Type (app_Service app) = '''' then ''ClusterIP'' else ss_Type (app_Service app));
             ports = map (\<lambda>p. \<lparr>sp_Name = cp_Name p, sp_Port = cp_ContainerPort p,
                         sp_TargetPort = cp_ContainerPort p, sp_Protocol = servicePortProtocol (cp_Protocol p)\<rparr>) (app_Ports app)
         in Some \<lparr>svc_Name = app_Name app, svc_Namespace = app_Namespace app, svc_Labels = labels, svc_Owner = None,
              svc_Type = svcType, svc_Selector = labels, svc_Ports = ports, svc_rest = ''''\<rparr>))"

definition buildHPA :: "JavaApplication \<Rightarrow> HPA option" where
  "buildHPA app =
     (let as = app_Autoscaling app in
      if \<not> au_Enabled as then None
      else Some \<lparr>hpa_Name = app_Name app, hpa_Namespace = app_Namespace app, hpa_Labels = selectorLabels app, hpa_Owner = None,
             hpa_Spec = \<lparr>hpa_TargetAPIVersion = ''apps/v1'', hpa_TargetKind = ''Deployment'', hpa_TargetName = app_Name app,
               hpa_MinReplicas = au_MinReplicas as, hpa_MaxReplicas = au_MaxReplicas as, hpa_TargetCPU = au_TargetCPU as\<rparr>\<rparr>)"

section \<open>Reconcile\<close>

text \<open>\<open>setRef uid owner\<close> is the library function \<open>SetControllerReference\<close> on the owner of an object: the new
  owner (\<open>Inr\<close>) or its error (\<open>Inl\<close>).\<close>

type_synonym set_ref = "string \<Rightarrow> string option \<Rightarrow> string + string"

datatype 'a lookup = Absent | LookupErr string | Present 'a

record DeploymentState =
  ds_SpecReplicas :: "int32 option"
  ds_ReadyReplicas :: int32
  ds_Generation :: int
  ds_ObservedGeneration :: int

datatype app_effect =
    ApplyDeployment Deployment
  | ApplyService Service
  | ApplyHPA HPA
  | DeleteService string string
  | DeleteHPA string string
  | AppEvent string string
  | AppStatus JavaApplicationStatus

datatype app_result = AppOk | AppErr string

record app_env =
  ae_app :: "JavaApplication lookup"
  ae_dep :: "Deployment lookup"
  ae_depErr :: "string option"
  ae_svc :: "Service lookup"
  ae_svcErr :: "string option"
  ae_svcDeleteErr :: "string option"
  ae_hpa :: "HPA lookup"
  ae_hpaErr :: "string option"
  ae_hpaDeleteErr :: "string option"
  ae_depState :: "DeploymentState lookup"
  ae_statusErr :: "string option"

text \<open>A \<open>CreateOrUpdate\<close> call as the controller sees it: the reply to the read is what its mutate function is
  run on, an error of the read, of the mutate function or of the write is the error of the call.\<close>

definition createOrUpdate ::
  "'a lookup \<Rightarrow> string option \<Rightarrow> ('a option \<Rightarrow> string + 'a) \<Rightarrow> ('a \<Rightarrow> app_effect) \<Rightarrow> app_effect list \<times> string option" where
  "createOrUpdate live writeErr mutate eff =
     (case live of
        LookupErr e \<Rightarrow> ([], Some e)
      | Absent \<Rightarrow> (case mutate None of Inl e \<Rightarrow> ([], Some e) | Inr x \<Rightarrow> ([eff x], writeErr))
      | Present y \<Rightarrow> (case mutate (Some y) of Inl e \<Rightarrow> ([], Some e) | Inr x \<Rightarrow> ([eff x], writeErr)))"

definition mutateDeployment :: "set_ref \<Rightarrow> JavaApplication \<Rightarrow> Deployment option \<Rightarrow> string + Deployment" where
  "mutateDeployment setRef app live =
     (let desired = buildDeployment app;
          dep = (case live of Some d \<Rightarrow> d | None \<Rightarrow> desired\<lparr>dep_Replicas := None, dep_Owner := None\<rparr>);
          dep = dep\<lparr>dep_Labels := dep_Labels desired\<rparr>;
          dep = (if live = None then dep\<lparr>dep_Selector := dep_Selector desired\<rparr> else dep);
          dep = (if dep_Replicas desired \<noteq> None then dep\<lparr>dep_Replicas := dep_Replicas desired\<rparr> else dep);
          dep = dep\<lparr>dep_Template := dep_Template desired\<rparr>
      in case setRef (app_UID app) (dep_Owner dep) of Inl e \<Rightarrow> Inl e | Inr o' \<Rightarrow> Inr (dep\<lparr>dep_Owner := Some o'\<rparr>))"

definition reconcileDeployment :: "set_ref \<Rightarrow> app_env \<Rightarrow> JavaApplication \<Rightarrow> app_effect list \<times> string option" where
  "reconcileDeployment setRef env app =
     createOrUpdate (ae_dep env) (ae_depErr env) (mutateDeployment setRef app) ApplyDeployment"

definition mutateService :: "set_ref \<Rightarrow> JavaApplication \<Rightarrow> Service \<Rightarrow> Service option \<Rightarrow> string + Service" where
  "mutateService setRef app desired live =
     (let svc = (case live of Some s \<Rightarrow> s | None \<Rightarrow> desired\<lparr>svc_Owner := None\<rparr>);
          svc = svc\<lparr>svc_Labels := svc_Labels desired, svc_Selector := svc_Selector desired,
                    svc_Type := svc_Type desired, svc_Ports := svc_Ports desired\<rparr>
      in case setRef (app_UID app) (svc_Owner svc) of Inl e \<Rightarrow> Inl e | Inr o' \<Rightarrow> Inr (svc\<lparr>svc_Owner := Some o'\<rparr>))"

definition reconcileService :: "set_ref \<Rightarrow> app_env \<Rightarrow> JavaApplication \<Rightarrow> app_effect list \<times> string option" where
  "reconcileService setRef env app =
     (case buildService app of
        None \<Rightarrow> ([DeleteService (app_Namespace app) (app_Name app)], ae_svcDeleteErr env)
      | Some desired \<Rightarrow> createOrUpdate (ae_svc env) (ae_svcErr env) (mutateService setRef app desired) ApplyService)"

definition mutateHPA :: "set_ref \<Rightarrow> JavaApplication \<Rightarrow> HPA \<Rightarrow> HPA option \<Rightarrow> string + HPA" where
  "mutateHPA setRef app desired live =
     (let hpa = (case live of Some h \<Rightarrow> h | None \<Rightarrow> desired\<lparr>hpa_Owner := None\<rparr>);
          hpa = hpa\<lparr>hpa_Labels := hpa_Labels desired, hpa_Spec := hpa_Spec desired\<rparr>
      in case setRef (app_UID app) (hpa_Owner hpa) of Inl e \<Rightarrow> Inl e | Inr o' \<Rightarrow> Inr (hpa\<lparr>hpa_Owner := Some o'\<rparr>))"

definition reconcileHPA :: "set_ref \<Rightarrow> app_env \<Rightarrow> JavaApplication \<Rightarrow> app_effect list \<times> string option" where
  "reconcileHPA setRef env app =
     (case buildHPA app of
        None \<Rightarrow> ([DeleteHPA (app_Namespace app) (app_Name app)], ae_hpaDeleteErr env)
      | Some desired \<Rightarrow> createOrUpdate (ae_hpa env) (ae_hpaErr env) (mutateHPA setRef app desired) ApplyHPA)"

definition validateSpec :: "JavaApplication \<Rightarrow> string option" where
  "validateSpec app =
     (let as = app_Autoscaling app in
      if \<not> au_Enabled as then None
      else if sint (au_MaxReplicas as) < 1
      then Some ''autoscaling.maxReplicas is required and must be >= 1 when autoscaling.enabled is true''
      else (case au_MinReplicas as of None \<Rightarrow> None
            | Some m \<Rightarrow>
                if sint m < 1 then Some (''autoscaling.minReplicas must be >= 1, got '' @ Itoa (sint m))
                else if sint m > sint (au_MaxReplicas as)
                then Some (''autoscaling.minReplicas ('' @ Itoa (sint m) @ '') must not exceed autoscaling.maxReplicas ('' @
                       Itoa (sint (au_MaxReplicas as)) @ '')'')
                else None))"

definition deploymentReady :: "DeploymentState option \<Rightarrow> bool \<times> string \<times> string" where
  "deploymentReady dep =
     (case dep of
        None \<Rightarrow> (False, ''Progressing'', ''Deployment not created yet'')
      | Some d \<Rightarrow>
          (let want = (case ds_SpecReplicas d of None \<Rightarrow> 1 | Some r \<Rightarrow> r);
               msg = Itoa (sint (ds_ReadyReplicas d)) @ ''/'' @ Itoa (sint want) @ '' replicas ready''
           in if sint want \<le> sint (ds_ReadyReplicas d) \<and> ds_Generation d \<le> ds_ObservedGeneration d
              then (True, ''Reconciled'', msg) else (False, ''Progressing'', msg)))"

definition appUpdateStatus :: "set_cond \<Rightarrow> app_env \<Rightarrow> JavaApplication \<Rightarrow> app_effect list \<times> string option" where
  "appUpdateStatus setCond env app =
     (case ae_depState env of
        LookupErr e \<Rightarrow> ([], Some e)
      | dep \<Rightarrow>
          (let found = (case dep of Present d \<Rightarrow> Some d | _ \<Rightarrow> None);
               v = jvm_Version (app_JVM app)
           in case deploymentReady found of (ready, reason, msg) \<Rightarrow>
             (let status =
                \<lparr>ja_ObservedGeneration = app_Generation app,
                 ja_ReadyReplicas = (case found of None \<Rightarrow> 0 | Some d \<Rightarrow> ds_ReadyReplicas d),
                 ja_SelectedJdk = (if 0 < sint v then Itoa (sint v) else ''''),
                 ja_Conditions = setCond (ja_Conditions (app_Status app))
                   \<lparr>cond_Type = ''Ready'', cond_Status = ready, cond_Reason = reason, cond_Message = MsgText msg,
                    cond_ObservedGeneration = app_Generation app\<rparr>\<rparr>
              in ([AppStatus status], ae_statusErr env))))"

definition fail :: "set_cond \<Rightarrow> JavaApplication \<Rightarrow> string \<Rightarrow> string \<Rightarrow> app_effect list \<times> app_result" where
  "fail setCond app action cause =
     (let err = action @ '': '' @ cause;
          conds = setCond (ja_Conditions (app_Status app))
            \<lparr>cond_Type = ''Ready'', cond_Status = False, cond_Reason = ''ReconcileError'', cond_Message = MsgText err,
             cond_ObservedGeneration = app_Generation app\<rparr>
      in ([AppEvent ''ReconcileError'' err, AppStatus ((app_Status app)\<lparr>ja_Conditions := conds\<rparr>)], AppErr err))"

definition AppReconcile :: "set_cond \<Rightarrow> set_ref \<Rightarrow> app_env \<Rightarrow> app_effect list \<times> app_result" where
  "AppReconcile setCond setRef env =
     (case ae_app env of
        Absent \<Rightarrow> ([], AppOk)
      | LookupErr e \<Rightarrow> ([], AppErr e)
      | Present app \<Rightarrow>
        (case validateSpec app of Some e \<Rightarrow> fail setCond app ''validating spec'' e
         | None \<Rightarrow>
           (case reconcileDeployment setRef env app of
              (effs1, Some e) \<Rightarrow> (case fail setCond app ''reconciling Deployment'' e of (fs, r) \<Rightarrow> (effs1 @ fs, r))
            | (effs1, None) \<Rightarrow>
              (case reconcileService setRef env app of
                 (effs2, Some e) \<Rightarrow> (case fail setCond app ''reconciling Service'' e of (fs, r) \<Rightarrow> (effs1 @ effs2 @ fs, r))
               | (effs2, None) \<Rightarrow>
                 (case reconcileHPA setRef env app of
                    (effs3, Some e) \<Rightarrow>
                      (case fail setCond app ''reconciling HorizontalPodAutoscaler'' e of (fs, r) \<Rightarrow> (effs1 @ effs2 @ effs3 @ fs, r))
                  | (effs3, None) \<Rightarrow>
                    (case appUpdateStatus setCond env app of
                       (effs4, e) \<Rightarrow> (effs1 @ effs2 @ effs3 @ effs4, case e of None \<Rightarrow> AppOk | Some e \<Rightarrow> AppErr e)))))))"

section \<open>The contract of controller references\<close>

text \<open>\<open>SetControllerReference\<close> makes the given object the controller of the target, and refuses a target that
  another controller owns.\<close>

locale controller_reference =
  fixes setRef :: set_ref
  assumes ref_sets: "setRef u o' = Inr w \<Longrightarrow> w = u"
    and ref_free: "setRef u None = Inr u"
    and ref_mine: "setRef u (Some u) = Inr u"
    and ref_other: "v \<noteq> u \<Longrightarrow> \<exists>e. setRef u (Some v) = Inl e"
begin

lemma mutateDeployment_owner:
  "mutateDeployment setRef app live = Inr d \<Longrightarrow> dep_Owner d = Some (app_UID app)"
  by (auto simp: mutateDeployment_def Let_def ref_sets split: sum.splits)

lemma mutateDeployment_idem:
  assumes "mutateDeployment setRef app live = Inr d"
  shows "mutateDeployment setRef app (Some d) = Inr d"
  using mutateDeployment_owner [OF assms] assms ref_mine
  by (auto simp: mutateDeployment_def Let_def split: sum.splits option.splits)

lemma mutateService_owner:
  "mutateService setRef app desired live = Inr s \<Longrightarrow> svc_Owner s = Some (app_UID app)"
  by (auto simp: mutateService_def Let_def ref_sets split: sum.splits)

lemma mutateService_idem:
  assumes "mutateService setRef app desired live = Inr s" shows "mutateService setRef app desired (Some s) = Inr s"
  using mutateService_owner [OF assms] assms ref_mine
  by (auto simp: mutateService_def Let_def split: sum.splits option.splits)

lemma mutateHPA_owner:
  "mutateHPA setRef app desired live = Inr s \<Longrightarrow> hpa_Owner s = Some (app_UID app)"
  by (auto simp: mutateHPA_def Let_def ref_sets split: sum.splits)

lemma mutateHPA_idem:
  assumes "mutateHPA setRef app desired live = Inr s" shows "mutateHPA setRef app desired (Some s) = Inr s"
  using mutateHPA_owner [OF assms] assms ref_mine
  by (auto simp: mutateHPA_def Let_def split: sum.splits option.splits)

lemma foreign_object_refused:
  assumes "dep_Owner d = Some v" and "v \<noteq> app_UID app"
  shows "\<exists>e. mutateDeployment setRef app (Some d) = Inl e"
  using ref_other [OF assms(2)] assms(1) by (auto simp: mutateDeployment_def Let_def)

end

definition claimOwner :: set_ref where
  "claimOwner u o' = (case o' of None \<Rightarrow> Inr u | Some v \<Rightarrow> if v = u then Inr u else Inl ''already owned by another controller'')"

interpretation ctl: controller_reference claimOwner
  by unfold_locales (auto simp: claimOwner_def split: option.splits if_splits)

section \<open>Rendering\<close>

text \<open>What each successful mutation leaves in the object.\<close>

lemma mutateDeployment_fields:
  assumes "mutateDeployment setRef app live = Inr d"
  shows "dep_Template d = dep_Template (buildDeployment app)" "dep_Labels d = selectorLabels app"
    "dep_Replicas d = (if au_Enabled (app_Autoscaling app) then (case live of None \<Rightarrow> None | Some l \<Rightarrow> dep_Replicas l)
                       else Some (case app_Replicas app of None \<Rightarrow> 1 | Some r \<Rightarrow> r))"
    "dep_Selector d = (case live of None \<Rightarrow> selectorLabels app | Some l \<Rightarrow> dep_Selector l)"
  using assms
  by (auto simp: mutateDeployment_def Let_def buildDeployment_def desiredReplicas_def split: sum.splits option.splits if_splits)

lemma createOrUpdate_effects:
  "x \<in> set (fst (createOrUpdate live err mutate eff)) \<Longrightarrow>
     \<exists>l y. mutate l = Inr y \<and> x = eff y \<and> (live = Absent \<and> l = None \<or> (\<exists>z. live = Present z \<and> l = Some z))"
  by (auto simp: createOrUpdate_def split: lookup.splits sum.splits)

lemma fail_effects: "x \<in> set (fst (fail setCond app action cause)) \<Longrightarrow> (\<exists>a b. x = AppEvent a b) \<or> (\<exists>s. x = AppStatus s)"
  by (auto simp: fail_def Let_def)

lemma appUpdateStatus_effects: "x \<in> set (fst (appUpdateStatus setCond env app)) \<Longrightarrow> \<exists>s. x = AppStatus s"
  by (auto simp: appUpdateStatus_def Let_def split: lookup.splits prod.splits)

lemma AppReconcile_effects:
  assumes "ae_app env = Present app" and "x \<in> set (fst (AppReconcile setCond setRef env))"
  shows "(\<exists>a b. x = AppEvent a b) \<or> (\<exists>s. x = AppStatus s) \<or>
     validateSpec app = None \<and> (x \<in> set (fst (reconcileDeployment setRef env app)) \<or>
       x \<in> set (fst (reconcileService setRef env app)) \<or> x \<in> set (fst (reconcileHPA setRef env app)))"
  using assms fail_effects [of x setCond app] appUpdateStatus_effects [of x setCond env app]
  by (auto simp: AppReconcile_def split: option.splits prod.splits) (metis fst_conv)+

lemma reconcile_no_hpa:
  "ApplyHPA h \<notin> set (fst (reconcileDeployment setRef env app))" "ApplyHPA h \<notin> set (fst (reconcileService setRef env app))"
  by (auto simp: reconcileDeployment_def reconcileService_def dest!: createOrUpdate_effects split: option.splits)

lemma reconcile_no_deployment:
  "ApplyDeployment d \<notin> set (fst (reconcileService setRef env app))" "ApplyDeployment d \<notin> set (fst (reconcileHPA setRef env app))"
  by (auto simp: reconcileHPA_def reconcileService_def dest!: createOrUpdate_effects split: option.splits)

lemma reconcile_no_service:
  "ApplyService s \<notin> set (fst (reconcileDeployment setRef env app))" "ApplyService s \<notin> set (fst (reconcileHPA setRef env app))"
  by (auto simp: reconcileHPA_def reconcileDeployment_def dest!: createOrUpdate_effects split: option.splits)

lemma applied_hpa:
  assumes "ae_app env = Present app" and "ApplyHPA h \<in> set (fst (AppReconcile setCond setRef env))"
  shows "validateSpec app = None" "au_Enabled (app_Autoscaling app)" "\<exists>d. buildHPA app = Some d \<and> hpa_Spec h = hpa_Spec d"
proof -
  have v: "validateSpec app = None" and h: "ApplyHPA h \<in> set (fst (reconcileHPA setRef env app))"
    using AppReconcile_effects [OF assms] reconcile_no_hpa by auto
  show "validateSpec app = None" by fact
  obtain d where d: "buildHPA app = Some d" "ApplyHPA h \<in> set (fst (createOrUpdate (ae_hpa env) (ae_hpaErr env) (mutateHPA setRef app d) ApplyHPA))"
    using h by (auto simp: reconcileHPA_def split: option.splits)
  then show "au_Enabled (app_Autoscaling app)" by (auto simp: buildHPA_def Let_def split: if_splits)
  obtain l where "mutateHPA setRef app d l = Inr h" using createOrUpdate_effects [OF d(2)] by auto
  then show "\<exists>d. buildHPA app = Some d \<and> hpa_Spec h = hpa_Spec d"
    using d(1) by (auto simp: mutateHPA_def Let_def split: sum.splits)
qed

lemma applied_deployment:
  assumes "ae_app env = Present app" and "ApplyDeployment d \<in> set (fst (AppReconcile setCond setRef env))"
  obtains l where "mutateDeployment setRef app l = Inr d"
    and "ae_dep env = (case l of None \<Rightarrow> Absent | Some z \<Rightarrow> Present z)"
proof -
  have "ApplyDeployment d \<in> set (fst (reconcileDeployment setRef env app))"
    using AppReconcile_effects [OF assms] reconcile_no_deployment by auto
  from createOrUpdate_effects [OF this [unfolded reconcileDeployment_def]] show ?thesis
    using that by auto
qed

lemma validateSpec_iff:
  "validateSpec app = None \<longleftrightarrow> (au_Enabled (app_Autoscaling app) \<longrightarrow>
     1 \<le> sint (au_MaxReplicas (app_Autoscaling app)) \<and>
     (\<forall>m. au_MinReplicas (app_Autoscaling app) = Some m \<longrightarrow> 1 \<le> sint m \<and> sint m \<le> sint (au_MaxReplicas (app_Autoscaling app))))"
  by (auto simp: validateSpec_def Let_def split: option.splits)

text \<open>C11: the controller never emits an invalid autoscaler and never fights it. If a run applies a
  HorizontalPodAutoscaler, then its bounds are ordered (\<open>1 \<le> min \<le> max\<close>, as signed 32-bit numbers), it
  targets the Deployment of the application, and a Deployment written in the same run keeps the replica
  count of the live object.\<close>

theorem autoscaling_is_consistent:
  assumes "ae_app env = Present app" and "ApplyHPA h \<in> set (fst (AppReconcile setCond setRef env))"
  shows "1 \<le> sint (hpa_MaxReplicas (hpa_Spec h)) \<and>
    (\<forall>m. hpa_MinReplicas (hpa_Spec h) = Some m \<longrightarrow> 1 \<le> sint m \<and> sint m \<le> sint (hpa_MaxReplicas (hpa_Spec h))) \<and>
    hpa_TargetKind (hpa_Spec h) = ''Deployment'' \<and> hpa_TargetName (hpa_Spec h) = dep_Name (buildDeployment app) \<and>
    (\<forall>d. ApplyDeployment d \<in> set (fst (AppReconcile setCond setRef env)) \<longrightarrow>
       dep_Replicas d = (case ae_dep env of Present l \<Rightarrow> dep_Replicas l | _ \<Rightarrow> None))"
proof -
  obtain x where x: "buildHPA app = Some x" "hpa_Spec h = hpa_Spec x" using applied_hpa(3) [OF assms] by blast
  have e: "au_Enabled (app_Autoscaling app)" by (rule applied_hpa(2) [OF assms])
  have s: "hpa_MaxReplicas (hpa_Spec h) = au_MaxReplicas (app_Autoscaling app)"
     "hpa_MinReplicas (hpa_Spec h) = au_MinReplicas (app_Autoscaling app)"
     "hpa_TargetKind (hpa_Spec h) = ''Deployment'' \<and> hpa_TargetName (hpa_Spec h) = dep_Name (buildDeployment app)"
    using x e by (auto simp: buildHPA_def buildDeployment_def Let_def)
  have r: "dep_Replicas d = (case ae_dep env of Present l \<Rightarrow> dep_Replicas l | _ \<Rightarrow> None)"
    if ap: "ApplyDeployment d \<in> set (fst (AppReconcile setCond setRef env))" for d
  proof -
    obtain l where "mutateDeployment setRef app l = Inr d" "ae_dep env = (case l of None \<Rightarrow> Absent | Some z \<Rightarrow> Present z)"
      using applied_deployment [OF assms(1) ap] by blast
    then show ?thesis using e mutateDeployment_fields(3) [of setRef app l d] by (cases l) simp_all
  qed
  have b: "1 \<le> sint (hpa_MaxReplicas (hpa_Spec h)) \<and>
    (\<forall>m. hpa_MinReplicas (hpa_Spec h) = Some m \<longrightarrow> 1 \<le> sint m \<and> sint m \<le> sint (hpa_MaxReplicas (hpa_Spec h)))"
    using applied_hpa(1) [OF assms] e unfolding s validateSpec_iff by simp
  show ?thesis using b s(3) r by blast
qed

text \<open>An invalid spec touches no object. If autoscaling is enabled with bounds that are not
  \<open>1 \<le> min \<le> max\<close>, a run only emits a warning event and writes a status whose Ready condition is False with
  reason \<open>ReconcileError\<close> for the current generation, and returns the error.\<close>

lemma invalid_spec_is_reported:
  assumes "status_conditions setCond" and "ae_app env = Present app" and "au_Enabled (app_Autoscaling app)"
    and "\<not> (1 \<le> sint (au_MaxReplicas (app_Autoscaling app)) \<and>
      (\<forall>m. au_MinReplicas (app_Autoscaling app) = Some m \<longrightarrow> 1 \<le> sint m \<and> sint m \<le> sint (au_MaxReplicas (app_Autoscaling app))))"
  shows "\<exists>err s c. AppReconcile setCond setRef env = ([AppEvent ''ReconcileError'' err, AppStatus s], AppErr err) \<and>
    condOf ''Ready'' (ja_Conditions s) = Some c \<and> \<not> cond_Status c \<and> cond_Reason c = ''ReconcileError'' \<and>
    cond_ObservedGeneration c = app_Generation app"
proof -
  obtain e where "validateSpec app = Some e" using assms(3,4) validateSpec_iff [of app] by (cases "validateSpec app") auto
  then show ?thesis
    using assms(2) status_conditions.set_same [OF assms(1),
      of "\<lparr>cond_Type = ''Ready'', cond_Status = False, cond_Reason = ''ReconcileError'',
           cond_Message = MsgText (''validating spec: '' @ e), cond_ObservedGeneration = app_Generation app\<rparr>"]
    by (simp add: AppReconcile_def fail_def Let_def)
qed

text \<open>The Deployment and the Service fit together. Every Deployment a run writes runs one container with the
  artifact image under the Brewlet runtime class, belongs to the application, keeps the (immutable)
  selector of a live object, and writing it again changes nothing; every Service of the run selects its
  pods and forwards each port to a port of that container.\<close>

lemma deployment_serves:
  assumes "controller_reference setRef" and "ae_app env = Present app"
    and "ApplyDeployment d \<in> set (fst (AppReconcile setCond setRef env))"
    and "ApplyService s \<in> set (fst (AppReconcile setCond setRef env))"
  shows "pt_RuntimeClassName (dep_Template d) = Some RuntimeClassName \<and>
    map ac_Image (pt_Containers (dep_Template d)) = [as_Image (app_Artifact app)] \<and>
    dep_Owner d = Some (app_UID app) \<and>
    (\<forall>l. ae_dep env = Present l \<longrightarrow> dep_Selector d = dep_Selector l) \<and>
    mutateDeployment setRef app (Some d) = Inr d \<and>
    svc_Selector s \<subseteq>\<^sub>m pt_Labels (dep_Template d) \<and>
    (\<forall>p \<in> set (svc_Ports s). \<exists>c \<in> set (pt_Containers (dep_Template d)). \<exists>q \<in> set (ac_Ports c).
       sp_TargetPort p = cp_ContainerPort q)"
proof -
  obtain l where l: "mutateDeployment setRef app l = Inr d" "ae_dep env = (case l of None \<Rightarrow> Absent | Some z \<Rightarrow> Present z)"
    using applied_deployment [OF assms(2,3)] by blast
  have "ApplyService s \<in> set (fst (reconcileService setRef env app))"
    using AppReconcile_effects [OF assms(2,4)] reconcile_no_service by auto
  then obtain x m where x: "buildService app = Some x" "mutateService setRef app x m = Inr s"
    by (auto simp: reconcileService_def split: option.splits dest!: createOrUpdate_effects)
  have s: "svc_Selector s = selectorLabels app" "sp_TargetPort ` set (svc_Ports s) = cp_ContainerPort ` set (app_Ports app)"
    using x by (auto simp: mutateService_def buildService_def Let_def image_image split: sum.splits option.splits if_splits)
  have t: "pt_Labels (dep_Template d) = selectorLabels app" "pt_RuntimeClassName (dep_Template d) = Some RuntimeClassName"
     "map ac_Image (pt_Containers (dep_Template d)) = [as_Image (app_Artifact app)]"
     "\<exists>c \<in> set (pt_Containers (dep_Template d)). ac_Ports c = app_Ports app"
    by (simp_all add: mutateDeployment_fields(1) [OF l(1)] buildDeployment_def Let_def)
  have p: "\<forall>p \<in> set (svc_Ports s). \<exists>c \<in> set (pt_Containers (dep_Template d)). \<exists>q \<in> set (ac_Ports c).
       sp_TargetPort p = cp_ContainerPort q"
    using t(4) s(2) by (metis imageE imageI)
  show ?thesis
    using t s(1) p controller_reference.mutateDeployment_owner [OF assms(1) l(1)]
      controller_reference.mutateDeployment_idem [OF assms(1) l(1)] mutateDeployment_fields(4) [OF l(1)] l(2)
    by (simp split: option.splits)
qed

lemma deploymentReady_iff:
  "fst (deploymentReady dep) \<longleftrightarrow> (\<exists>d. dep = Some d \<and>
     sint (case ds_SpecReplicas d of None \<Rightarrow> 1 | Some r \<Rightarrow> r) \<le> sint (ds_ReadyReplicas d) \<and>
     ds_Generation d \<le> ds_ObservedGeneration d)"
  by (auto simp: deploymentReady_def Let_def split: option.splits)

lemma appUpdateStatus_cond:
  assumes "status_conditions setCond" and "AppStatus s \<in> set (fst (appUpdateStatus setCond env app))"
  shows "\<exists>c. condOf ''Ready'' (ja_Conditions s) = Some c \<and> cond_ObservedGeneration c = app_Generation app \<and>
    (cond_Status c \<longleftrightarrow> (\<exists>d. ae_depState env = Present d \<and>
       sint (case ds_SpecReplicas d of None \<Rightarrow> 1 | Some r \<Rightarrow> r) \<le> sint (ds_ReadyReplicas d) \<and>
       ds_Generation d \<le> ds_ObservedGeneration d))"
proof -
  obtain dep where dep: "ae_depState env = (case dep of None \<Rightarrow> Absent | Some d \<Rightarrow> Present d)"
    using that [of None] that [of "Some d" for d] assms(2) by (cases "ae_depState env") (simp_all add: appUpdateStatus_def)
  obtain r reason msg where d: "deploymentReady dep = (r, reason, msg)" by (metis prod.exhaust)
  let ?c = "\<lparr>cond_Type = ''Ready'', cond_Status = r, cond_Reason = reason, cond_Message = MsgText msg,
     cond_ObservedGeneration = app_Generation app\<rparr>"
  have "ja_Conditions s = setCond (ja_Conditions (app_Status app)) ?c"
    using assms(2) dep d by (auto simp: appUpdateStatus_def Let_def split: option.splits)
  then have "condOf ''Ready'' (ja_Conditions s) = Some ?c"
    using status_conditions.set_same [OF assms(1), of ?c] by simp
  moreover have "r \<longleftrightarrow> (\<exists>d. ae_depState env = Present d \<and>
       sint (case ds_SpecReplicas d of None \<Rightarrow> 1 | Some r \<Rightarrow> r) \<le> sint (ds_ReadyReplicas d) \<and>
       ds_Generation d \<le> ds_ObservedGeneration d)"
    using deploymentReady_iff [of dep] d dep by (auto split: option.splits)
  ultimately show ?thesis by simp
qed

lemma fail_cond:
  assumes "status_conditions setCond" and "AppStatus s \<in> set (fst (fail setCond app action cause))"
  shows "\<exists>c. condOf ''Ready'' (ja_Conditions s) = Some c \<and> cond_ObservedGeneration c = app_Generation app \<and> \<not> cond_Status c"
  using assms(2) status_conditions.set_same [OF assms(1),
      of "\<lparr>cond_Type = ''Ready'', cond_Status = False, cond_Reason = ''ReconcileError'',
           cond_Message = MsgText (action @ '': '' @ cause), cond_ObservedGeneration = app_Generation app\<rparr>"]
  by (simp add: fail_def Let_def)

lemma reconcile_no_status:
  "AppStatus s \<notin> set (fst (reconcileDeployment setRef env app))" "AppStatus s \<notin> set (fst (reconcileService setRef env app))"
  "AppStatus s \<notin> set (fst (reconcileHPA setRef env app))"
  by (auto simp: reconcileDeployment_def reconcileHPA_def reconcileService_def dest!: createOrUpdate_effects split: option.splits)

lemma AppReconcile_status:
  assumes "ae_app env = Present app" and "AppStatus s \<in> set (fst (AppReconcile setCond setRef env))"
  defines "ok \<equiv> validateSpec app = None \<and> snd (reconcileDeployment setRef env app) = None \<and>
     snd (reconcileService setRef env app) = None \<and> snd (reconcileHPA setRef env app) = None"
  shows "if ok then AppStatus s \<in> set (fst (appUpdateStatus setCond env app))
    else \<exists>action cause. AppStatus s \<in> set (fst (fail setCond app action cause))"
proof -
  obtain d1 e1 d2 e2 d3 e3 where r: "reconcileDeployment setRef env app = (d1, e1)"
      "reconcileService setRef env app = (d2, e2)" "reconcileHPA setRef env app = (d3, e3)"
    by (metis prod.exhaust)
  have "AppStatus s \<notin> set d1" "AppStatus s \<notin> set d2" "AppStatus s \<notin> set d3"
    using reconcile_no_status [where env = env and app = app and setRef = setRef and s = s] r by simp_all
  then show ?thesis
    using assms(1,2) r
    by (auto simp: AppReconcile_def ok_def split: option.splits prod.splits) (metis fst_conv)+
qed

text \<open>C12: Ready is honest. Whatever status a run writes, its Ready condition is for the current generation, and it
  is True if and only if the spec is valid, the Deployment, the Service and the autoscaler were all
  reconciled without error, and the Deployment, observed at its latest generation, has at least as many
  ready replicas as it asks for (one when unset).\<close>

theorem app_ready_iff:
  assumes "status_conditions setCond" and "ae_app env = Present app"
    and "AppStatus s \<in> set (fst (AppReconcile setCond setRef env))"
  shows "\<exists>c. condOf ''Ready'' (ja_Conditions s) = Some c \<and> cond_ObservedGeneration c = app_Generation app \<and>
    (cond_Status c \<longleftrightarrow> validateSpec app = None \<and> snd (reconcileDeployment setRef env app) = None \<and>
       snd (reconcileService setRef env app) = None \<and> snd (reconcileHPA setRef env app) = None \<and>
       (\<exists>d. ae_depState env = Present d \<and>
         sint (case ds_SpecReplicas d of None \<Rightarrow> 1 | Some r \<Rightarrow> r) \<le> sint (ds_ReadyReplicas d) \<and>
         ds_Generation d \<le> ds_ObservedGeneration d))"
proof (cases "validateSpec app = None \<and> snd (reconcileDeployment setRef env app) = None \<and>
     snd (reconcileService setRef env app) = None \<and> snd (reconcileHPA setRef env app) = None")
  case True
  then have "AppStatus s \<in> set (fst (appUpdateStatus setCond env app))"
    using AppReconcile_status [OF assms(2,3)] by simp
  from appUpdateStatus_cond [OF assms(1) this] True show ?thesis by simp
next
  case False
  then obtain a e where "AppStatus s \<in> set (fst (fail setCond app a e))"
    using AppReconcile_status [OF assms(2,3)] by (auto split: if_splits)
  from fail_cond [OF assms(1) this] False show ?thesis by auto
qed

section \<open>Witnesses\<close>

definition exampleApp :: JavaApplication where
  "exampleApp =
     \<lparr>app_Name = ''shop'', app_Namespace = ''prod'', app_UID = ''u1'', app_Generation = 3,
      app_Artifact = \<lparr>as_Image = ''registry/shop@sha256:ab'', as_PullPolicy = '''', as_PullSecrets = []\<rparr>,
      app_Replicas = None, app_Resources = '''',
      app_JVM = \<lparr>jvm_Version = 21, jvm_Distribution = ''temurin'', jvm_Launcher = '''', jvm_Args = [''-Xmx1g''], jvm_CDSRegenerate = False\<rparr>,
      app_Env = [], app_Ports = [\<lparr>cp_Name = ''http'', cp_ContainerPort = 8080, cp_Protocol = ''''\<rparr>],
      app_Service = \<lparr>ss_Enabled = None, ss_Type = ''''\<rparr>, app_Probes = \<lparr>pr_Readiness = None, pr_Liveness = None\<rparr>,
      app_Autoscaling = \<lparr>au_Enabled = True, au_MinReplicas = Some 2, au_MaxReplicas = 5, au_TargetCPU = None\<rparr>,
      app_Arch = [],
      app_Status = \<lparr>ja_ObservedGeneration = 0, ja_ReadyReplicas = 0, ja_SelectedJdk = '''', ja_Conditions = []\<rparr>\<rparr>"

definition exampleAppEnv :: "JavaApplication \<Rightarrow> app_env" where
  "exampleAppEnv app =
     \<lparr>ae_app = Present app, ae_dep = Absent, ae_depErr = None, ae_svc = Absent, ae_svcErr = None, ae_svcDeleteErr = None,
      ae_hpa = Absent, ae_hpaErr = None, ae_hpaDeleteErr = None,
      ae_depState = Present \<lparr>ds_SpecReplicas = Some 2, ds_ReadyReplicas = 2, ds_Generation = 1, ds_ObservedGeneration = 1\<rparr>,
      ae_statusErr = None\<rparr>"

lemma exampleApp_valid: "validateSpec exampleApp = None"
  by (simp add: validateSpec_def exampleApp_def)

lemma exampleApp_builds:
  "buildService exampleApp \<noteq> None" "buildHPA exampleApp \<noteq> None" "au_Enabled (app_Autoscaling exampleApp)"
  by (simp_all add: buildService_def serviceEnabled_def buildHPA_def exampleApp_def Let_def)

lemma exampleApp_steps:
  "reconcileDeployment claimOwner (exampleAppEnv exampleApp) exampleApp =
     ([ApplyDeployment ((buildDeployment exampleApp)\<lparr>dep_Owner := Some (app_UID exampleApp)\<rparr>)], None)"
  "\<exists>s. reconcileService claimOwner (exampleAppEnv exampleApp) exampleApp = ([ApplyService s], None)"
  "\<exists>h. reconcileHPA claimOwner (exampleAppEnv exampleApp) exampleApp = ([ApplyHPA h], None)"
  using exampleApp_builds
  by (auto simp: reconcileDeployment_def reconcileService_def reconcileHPA_def createOrUpdate_def exampleAppEnv_def
      mutateDeployment_def mutateService_def mutateHPA_def buildDeployment_def desiredReplicas_def claimOwner_def Let_def)

lemma exampleApp_effects:
  "\<exists>s h st. fst (AppReconcile replaceCondition claimOwner (exampleAppEnv exampleApp)) =
     [ApplyDeployment ((buildDeployment exampleApp)\<lparr>dep_Owner := Some (app_UID exampleApp)\<rparr>),
      ApplyService s, ApplyHPA h, AppStatus st]"
  using exampleApp_steps exampleApp_valid
  by (auto simp: AppReconcile_def exampleAppEnv_def appUpdateStatus_def Let_def split: prod.splits)

theorem autoscaling_is_consistent_witness:
  "\<exists>h. ApplyHPA h \<in> set (fst (AppReconcile replaceCondition claimOwner (exampleAppEnv exampleApp))) \<and>
     1 \<le> sint (hpa_MaxReplicas (hpa_Spec h))"
proof -
  obtain h where "ApplyHPA h \<in> set (fst (AppReconcile replaceCondition claimOwner (exampleAppEnv exampleApp)))"
    using exampleApp_effects by auto
  with autoscaling_is_consistent [OF _ this, of exampleApp] show ?thesis by (auto simp: exampleAppEnv_def)
qed

theorem invalid_spec_is_reported_witness:
  "let app = exampleApp\<lparr>app_Autoscaling := \<lparr>au_Enabled = True, au_MinReplicas = None, au_MaxReplicas = 0, au_TargetCPU = None\<rparr>\<rparr> in
   \<exists>err s. AppReconcile replaceCondition claimOwner (exampleAppEnv app) = ([AppEvent ''ReconcileError'' err, AppStatus s], AppErr err)"
proof -
  let ?app = "exampleApp\<lparr>app_Autoscaling := \<lparr>au_Enabled = True, au_MinReplicas = None, au_MaxReplicas = 0, au_TargetCPU = None\<rparr>\<rparr>"
  have "ae_app (exampleAppEnv ?app) = Present ?app" by (simp add: exampleAppEnv_def)
  from invalid_spec_is_reported [OF meta.status_conditions_axioms this, of claimOwner] show ?thesis
    by (auto simp: Let_def)
qed

theorem deployment_serves_witness:
  "\<exists>d. ApplyDeployment d \<in> set (fst (AppReconcile replaceCondition claimOwner (exampleAppEnv exampleApp))) \<and>
     dep_Owner d = Some (app_UID exampleApp)"
proof -
  obtain d s where "ApplyDeployment d \<in> set (fst (AppReconcile replaceCondition claimOwner (exampleAppEnv exampleApp)))"
     "ApplyService s \<in> set (fst (AppReconcile replaceCondition claimOwner (exampleAppEnv exampleApp)))"
    using exampleApp_effects by auto
  with deployment_serves [OF ctl.controller_reference_axioms _ this, of exampleApp] show ?thesis
    by (auto simp: exampleAppEnv_def)
qed

theorem app_ready_iff_witness:
  "\<exists>s c. AppStatus s \<in> set (fst (AppReconcile replaceCondition claimOwner (exampleAppEnv exampleApp))) \<and>
     condOf ''Ready'' (ja_Conditions s) = Some c \<and> cond_Status c"
proof -
  obtain s where s: "AppStatus s \<in> set (fst (AppReconcile replaceCondition claimOwner (exampleAppEnv exampleApp)))"
    using exampleApp_effects by auto
  have p: "ae_app (exampleAppEnv exampleApp) = Present exampleApp" by (simp add: exampleAppEnv_def)
  show ?thesis
    using app_ready_iff [OF meta.status_conditions_axioms p s] s exampleApp_steps exampleApp_valid
    by (auto simp: exampleAppEnv_def)
qed

text \<open>Switching the Service off deletes a Service the controller does not manage. For an application whose
  Service is disabled, the run deletes the Service with the application's name although another
  controller owns it; with the Service enabled the same object is refused.\<close>

lemma disabled_service_deletes_foreign:
  "let off = exampleApp\<lparr>app_Service := \<lparr>ss_Enabled = Some False, ss_Type = ''''\<rparr>\<rparr>;
       foreign = \<lparr>svc_Name = ''shop'', svc_Namespace = ''prod'', svc_Labels = Map.empty, svc_Owner = Some ''someone-else'',
         svc_Type = ''ClusterIP'', svc_Selector = Map.empty, svc_Ports = [], svc_rest = ''''\<rparr>;
       env = (exampleAppEnv off)\<lparr>ae_svc := Present foreign\<rparr>
   in DeleteService ''prod'' ''shop'' \<in> set (fst (AppReconcile replaceCondition claimOwner env)) \<and>
      (\<exists>e. snd (reconcileService claimOwner env exampleApp) = Some e)"
proof -
  let ?off = "exampleApp\<lparr>app_Service := \<lparr>ss_Enabled = Some False, ss_Type = ''''\<rparr>\<rparr>"
  have "validateSpec ?off = None" "buildService ?off = None" "buildHPA ?off \<noteq> None"
    using exampleApp_valid by (simp_all add: validateSpec_def buildService_def serviceEnabled_def buildHPA_def exampleApp_def)
  moreover have "app_Namespace ?off = ''prod''" "app_Name ?off = ''shop''" "app_UID exampleApp = ''u1''"
    by (simp_all add: exampleApp_def)
  ultimately show ?thesis
    using exampleApp_builds(1)
    by (auto simp: Let_def AppReconcile_def exampleAppEnv_def reconcileDeployment_def reconcileService_def reconcileHPA_def
        createOrUpdate_def mutateDeployment_def mutateService_def mutateHPA_def claimOwner_def appUpdateStatus_def
        split: prod.splits)
qed

end
