(* ===== verification/Go_IO.thy ===== *)
theory Go_IO
  imports Go_Base
begin

text \<open>
  Sequences of file system calls with Go's error convention. A computation gives the list of the
  calls it makes that change the file system, in order, and a result or the error with which it stops.
  The operating system is the record \<open>host\<close>: for every call whether it succeeds, and what the calls that
  only read return. The code of this repository reads files it has been given and not files that it wrote
  earlier in the same run, so that reads do not depend on the calls made so far.
\<close>

type_synonym bytes = string

datatype fs_op =
    MkdirAll string
  | WriteFile string bytes
  | CopyFile string string
  | Chtimes string
  | ChtimesUnder string

text \<open>An archive as \<open>archive/tar\<close> delivers it: the entries, and whether the reader ended with an error.\<close>

datatype typeflag = TypeDir | TypeReg | TypeOther

record tar_entry =
  te_Name :: string
  te_Typeflag :: typeflag
  te_Content :: bytes

record host =
  h_ok :: "fs_op \<Rightarrow> bool"
  h_exists :: "string \<Rightarrow> bool"
  h_read :: "string \<Rightarrow> bytes option"
  h_tar :: "string \<Rightarrow> (tar_entry list \<times> bool) option"
  h_getenv :: "string \<Rightarrow> string"
  h_environ :: "string list"
  h_lookPath :: "string \<Rightarrow> string option"

type_synonym ('e, 'a) io = "fs_op list \<times> ('e + 'a)"

definition returnIO :: "'a \<Rightarrow> ('e, 'a) io" where
  "returnIO a = ([], Inr a)"

definition failIO :: "'e \<Rightarrow> ('e, 'a) io" where
  "failIO e = ([], Inl e)"

definition perform :: "host \<Rightarrow> (fs_op \<Rightarrow> 'e) \<Rightarrow> fs_op \<Rightarrow> ('e, unit) io" where
  "perform h err op = ([op], if h_ok h op then Inr () else Inl (err op))"

definition bindIO :: "('e, 'a) io \<Rightarrow> ('a \<Rightarrow> ('e, 'b) io) \<Rightarrow> ('e, 'b) io" where
  "bindIO m f = (case m of (ops, Inl e) \<Rightarrow> (ops, Inl e)
     | (ops, Inr a) \<Rightarrow> (case f a of (ops', r) \<Rightarrow> (ops @ ops', r)))"

definition thenIO :: "('e, unit) io \<Rightarrow> ('e, 'b) io \<Rightarrow> ('e, 'b) io" where
  "thenIO m k = bindIO m (\<lambda>_. k)"

definition whenIO :: "bool \<Rightarrow> ('e, unit) io \<Rightarrow> ('e, unit) io" where
  "whenIO b m = (if b then m else returnIO ())"

definition liftIO :: "'e + 'a \<Rightarrow> ('e, 'a) io" where
  "liftIO r = ([], r)"

named_theorems io_simps \<open>unfolding of the sequencing combinators\<close>

declare returnIO_def [io_simps] failIO_def [io_simps] perform_def [io_simps] bindIO_def [io_simps]
  thenIO_def [io_simps] whenIO_def [io_simps] liftIO_def [io_simps]

text \<open>The calls of a sequence and its result.\<close>

lemma fst_bindIO:
  "fst (bindIO m f) = fst m @ (case snd m of Inl e \<Rightarrow> [] | Inr a \<Rightarrow> fst (f a))"
  by (simp add: bindIO_def split: prod.split sum.split)

lemma snd_bindIO:
  "snd (bindIO m f) = (case snd m of Inl e \<Rightarrow> Inl e | Inr a \<Rightarrow> snd (f a))"
  by (simp add: bindIO_def split: prod.split sum.split)

lemma bindIO_Inr: "snd (bindIO m f) = Inr b \<longleftrightarrow> (\<exists>a. snd m = Inr a \<and> snd (f a) = Inr b)"
  by (auto simp: snd_bindIO split: sum.split)

lemma thenIO_Inr: "snd (thenIO m k) = Inr b \<longleftrightarrow> snd m = Inr () \<and> snd k = Inr b"
  by (simp add: thenIO_def bindIO_Inr)

lemma fst_thenIO: "fst (thenIO m k) = fst m @ (case snd m of Inl e \<Rightarrow> [] | Inr a \<Rightarrow> fst k)"
  by (simp add: thenIO_def fst_bindIO)

lemma set_bindIO:
  "op \<in> set (fst (bindIO m f)) \<longleftrightarrow> op \<in> set (fst m) \<or> (\<exists>a. snd m = Inr a \<and> op \<in> set (fst (f a)))"
  by (auto simp: fst_bindIO split: sum.split)

lemma set_thenIO:
  "op \<in> set (fst (thenIO m k)) \<longleftrightarrow> op \<in> set (fst m) \<or> snd m = Inr () \<and> op \<in> set (fst k)"
  by (auto simp: thenIO_def set_bindIO)

lemma set_whenIO: "op \<in> set (fst (whenIO b m)) \<longleftrightarrow> b \<and> op \<in> set (fst m)"
  by (simp add: whenIO_def returnIO_def)

lemma whenIO_Inr: "snd (whenIO b m) = Inr () \<longleftrightarrow> (b \<longrightarrow> snd m = Inr ())"
  by (simp add: whenIO_def returnIO_def)

lemma set_basicIO [simp]:
  "fst (returnIO a) = []" "fst (failIO e) = []" "fst (liftIO r) = []" "fst (perform h err op) = [op]"
  "snd (returnIO a) = Inr a" "snd (failIO e) = Inl e" "snd (liftIO r) = r"
  "snd (perform h err op) = Inr () \<longleftrightarrow> h_ok h op"
  by (simp_all add: io_simps)

lemma fst_thenIO_ok: "snd m = Inr () \<Longrightarrow> fst (thenIO m k) = fst m @ fst k"
  by (simp add: fst_thenIO)

lemmas io_ops = set_bindIO set_thenIO set_whenIO

lemmas io_ok = bindIO_Inr thenIO_Inr whenIO_Inr

section \<open>The parent directory of a cleaned path\<close>

lemma JoinWith_snoc: "xs \<noteq> [] \<Longrightarrow> JoinWith sep (xs @ [x]) = JoinWith sep xs @ sep @ x"
  by (induction sep xs rule: JoinWith.induct) auto

lemma Clean_comps: "p \<noteq> '''' \<Longrightarrow> Clean p = render_path (IsAbs p) (clean_comps p)"
  by (simp add: Clean_def)

text \<open>The shape of a cleaned path: \<open>..\<close> only at the start of a relative one.\<close>

definition stable :: "bool \<Rightarrow> string list \<Rightarrow> bool" where
  "stable r cs \<longleftrightarrow> (\<exists>k ds. cs = replicate k ''..'' @ ds \<and> (\<forall>c \<in> set ds. plain_comp c \<and> c \<noteq> ''..'') \<and> (r \<longrightarrow> k = 0))"

lemma stableI: "\<forall>c \<in> set ds. plain_comp c \<and> c \<noteq> ''..'' \<Longrightarrow> (r \<Longrightarrow> k = 0) \<Longrightarrow> stable r (replicate k ''..'' @ ds)"
  unfolding stable_def by blast

lemma stableE:
  assumes "stable r cs"
  obtains k ds where "cs = replicate k ''..'' @ ds" "\<forall>c \<in> set ds. plain_comp c \<and> c \<noteq> ''..''" "r \<longrightarrow> k = 0"
  using assms unfolding stable_def by blast

lemma stable_plain:
  assumes "stable r cs" and "c \<in> set cs" shows "plain_comp c"
proof -
  obtain k ds where k: "cs = replicate k ''..'' @ ds" "\<forall>c \<in> set ds. plain_comp c \<and> c \<noteq> ''..''"
    by (rule stableE [OF assms(1)])
  have "plain_comp ''..''" by (simp add: plain_comp_def)
  moreover have "c = ''..'' \<or> c \<in> set ds" using k(1) assms(2) by (metis Un_iff in_set_replicate set_append)
  ultimately show ?thesis using k(2) by metis
qed

lemma stable_snoc:
  assumes "stable r cs" and "plain_comp c" and "c \<noteq> ''..''" shows "stable r (cs @ [c])"
proof -
  obtain k ds where k: "cs = replicate k ''..'' @ ds" "\<forall>c \<in> set ds. plain_comp c \<and> c \<noteq> ''..''" "r \<longrightarrow> k = 0"
    by (rule stableE [OF assms(1)])
  have "\<forall>x \<in> set (ds @ [c]). plain_comp x \<and> x \<noteq> ''..''" using k(2) assms(2,3) by simp
  then have "stable r (replicate k ''..'' @ (ds @ [c]))" by (rule stableI) (use k(3) in simp)
  then show ?thesis by (simp add: k(1))
qed

lemma stable_butlast:
  assumes "stable r (cs @ [c])" shows "stable r cs"
proof -
  obtain k ds where k: "cs @ [c] = replicate k ''..'' @ ds" "\<forall>c \<in> set ds. plain_comp c \<and> c \<noteq> ''..''" "r \<longrightarrow> k = 0"
    using stableE [OF assms] by blast
  show ?thesis
  proof (cases "ds = []")
    case True
    then have "cs = replicate (k - 1) ''..'' @ []" using k(1) by (cases k) (auto simp: replicate_append_same [symmetric])
    then show ?thesis using k(3) stableI [of "[]" r "k - 1"] by simp
  next
    case False
    then have c: "cs = replicate k ''..'' @ butlast ds" using k(1) by (metis butlast_append butlast_snoc)
    have "\<forall>c \<in> set (butlast ds). plain_comp c \<and> c \<noteq> ''..''" using k(2) in_set_butlastD [of _ ds] by blast
    then show ?thesis unfolding c using k(3) by (intro stableI) auto
  qed
qed

lemma push_dotdot: "\<not> r \<Longrightarrow> foldl (clean_push r) [] (replicate k ''..'') = replicate k ''..''"
proof (induction k)
  case (Suc k)
  have "replicate (Suc k) ''..'' = replicate k ''..'' @ [''..'']" by (simp add: replicate_append_same)
  then have "foldl (clean_push r) [] (replicate (Suc k) ''..'') = clean_push r (replicate k ''..'') ''..''"
    using Suc by (simp del: replicate_Suc)
  moreover have "clean_push r (replicate k ''..'') ''..'' = replicate (Suc k) ''..''"
    using \<open>\<not> r\<close> by (cases k) (simp_all add: clean_push.simps)
  ultimately show ?case by simp
qed simp

lemma clean_stack_stable: "stable r cs \<Longrightarrow> clean_stack r [] cs = cs"
proof -
  assume "stable r cs"
  then obtain k ds where k: "cs = replicate k ''..'' @ ds" "\<forall>c \<in> set ds. plain_comp c \<and> c \<noteq> ''..''" "r \<longrightarrow> k = 0"
    using stableE by blast
  have "clean_stack r [] (replicate k ''..'') = replicate k ''..''"
    using k(3) push_dotdot [of r k] by (cases r) (auto simp: clean_stack_def)
  then show ?thesis
    using clean_stack_plain_id [OF k(2), of r "replicate k ''..''"] by (simp add: k(1) clean_stack_append)
qed

lemma stable_push:
  assumes "stable r (rev st)" and "slash \<notin> set c" shows "stable r (rev (clean_push r st c))"
proof (cases "c = '''' \<or> c = ''.''")
  case True
  then show ?thesis using assms by (simp add: clean_push.simps)
next
  case False
  show ?thesis
  proof (cases "c = ''..''")
    case False
    then show ?thesis
      using assms \<open>\<not> (c = '''' \<or> c = ''.'')\<close> stable_snoc [of r "rev st" c]
      by (simp add: clean_push.simps plain_comp_def)
  next
    case up: True
    show ?thesis
    proof (cases st)
      case Nil
      have "stable False [''..'']" unfolding stable_def by (rule exI [of _ 1]) simp
      moreover have "stable True []" by (simp add: stable_def)
      ultimately show ?thesis using Nil up by (cases r) (simp_all add: clean_push.simps)
    next
      case (Cons d ds)
      have s: "stable r (rev ds @ [d])" using assms(1) Cons by simp
      show ?thesis
      proof (cases "d = ''..''")
        case True
        obtain k es where k: "rev ds @ [d] = replicate k ''..'' @ es" "\<forall>c \<in> set es. plain_comp c \<and> c \<noteq> ''..''" "r \<longrightarrow> k = 0"
          using stableE [OF s] by blast
        have "es = []" using k(1,2) True by (metis append_is_Nil_conv last_appendR last_in_set last_snoc)
        moreover have "k \<noteq> 0" using k(1) calculation by (cases k) auto
        ultimately have "rev ds @ [d, ''..''] = replicate (Suc k) ''..'' @ [] \<and> \<not> r"
          using k by (simp add: replicate_append_same [symmetric])
        then have "stable r (rev ds @ [d, ''..''])" using stableI [of "[]" r "Suc k"] by auto
        then show ?thesis using Cons up True by (simp add: clean_push.simps)
      next
        case False
        then show ?thesis using Cons up stable_butlast [OF s] by (simp add: clean_push.simps)
      qed
    qed
  qed
qed

lemma clean_comps_stable: "stable (IsAbs p) (clean_comps p)"
proof -
  have "stable r (rev (foldl (clean_push r) st cs))" if "stable r (rev st)" "\<forall>c \<in> set cs. slash \<notin> set c" for r st cs
    using that by (induction cs arbitrary: st) (auto simp: stable_push)
  from this [of "IsAbs p" "[]" "SplitOn slash p"] show ?thesis
    by (auto simp: clean_comps_def clean_stack_def stable_def dest: SplitOn_elem)
qed

lemma clean_comps_render:
  assumes "stable r cs" shows "clean_comps (render_path r cs) = cs" "IsAbs (render_path r cs) = r"
proof -
  have pl: "\<forall>c \<in> set cs. plain_comp c" using stable_plain [OF assms] by blast
  have sp: "SplitOn slash (slash # JoinWith ''/'' cs) = '''' # (if cs = [] then [''''] else cs)"
    using JoinWith_SplitOn_path [OF _ pl] by simp
  have d: "clean_stack b st ['''', ''''] = rev st" "clean_stack b st [''.''] = rev st"
      "clean_stack b st ('''' # xs) = clean_stack b st xs" for b st xs
    by (simp_all add: clean_stack_def clean_push.simps)
  have na: "\<not> IsAbs (JoinWith ''/'' cs)" using JoinWith_not_abs [OF pl] .
  show "IsAbs (render_path r cs) = r"
    using na by (simp add: render_path_def) (simp add: IsAbs_def HasPrefix_def)
  then show "clean_comps (render_path r cs) = cs"
    using clean_stack_stable [OF assms] sp d na JoinWith_SplitOn_path [OF _ pl]
    by (auto simp: clean_comps_def render_path_def)
qed

lemma clean_comps_Clean [simp]: "clean_comps (Clean p) = clean_comps p"
proof (cases "p = ''''")
  case True
  then show ?thesis by (simp add: Clean_def clean_comps_def clean_stack_def clean_push.simps)
next
  case False
  then show ?thesis using clean_comps_render(1) [OF clean_comps_stable [of p]] by (simp add: Clean_comps)
qed

lemma Dir_render:
  assumes "stable r (cs @ [c])" shows "Dir (render_path r (cs @ [c])) = render_path r cs"
proof -
  have c: "slash \<notin> set c" using stable_plain [OF assms, of c] by (simp add: plain_comp_def)
  show ?thesis
  proof (cases "cs = []")
    case True
    have "Clean ''/'' = ''/''" "Clean '''' = ''.''" by code_simp+
    then show ?thesis
      using True c CutAtLast_append [OF c, of "''''"] CutAtLast_None [of slash c] by (cases r) (auto simp: Dir_def render_path_def)
  next
    case False
    let ?q = "render_path r cs"
    have s: "stable r cs" using stable_butlast [OF assms] .
    have "render_path r (cs @ [c]) = ?q @ slash # c"
      using False by (simp add: render_path_def JoinWith_snoc)
    then have "Dir (render_path r (cs @ [c])) = Clean (?q @ ''/'')"
      using CutAtLast_append [OF c, of ?q] by (simp add: Dir_def)
    moreover have "?q \<noteq> ''''"
      using False stable_plain [OF s] by (auto simp: render_path_def JoinWith_eq_Nil plain_comp_def)
    moreover have "clean_comps (?q @ slash # '''') = cs"
      using clean_comps_append [OF \<open>?q \<noteq> ''''\<close>, of "''''"] clean_comps_render [OF s]
      by (simp add: clean_stack_def clean_push.simps)
    ultimately show ?thesis using clean_comps_render(2) [OF s] by (simp add: Clean_comps)
  qed
qed

section \<open>Names inside a directory\<close>

lemma inside_refl [simp]: "inside d d"
  by (simp add: inside_def)

lemma inside_trans: "inside a b \<Longrightarrow> inside b c \<Longrightarrow> inside a c"
  unfolding inside_def by (metis append.assoc append_Nil2 hd_append2 self_append_conv2)

lemma plain_name_join:
  assumes "d \<noteq> ''''" and "plain_comp n" and "n \<noteq> ''..''"
  shows "PathJoin [d, n] = render_path (IsAbs d) (clean_comps d @ [n])" "stable (IsAbs d) (clean_comps d @ [n])"
proof -
  have n: "slash \<notin> set n" "n \<noteq> ''''" "n \<noteq> ''.''" using assms(2) by (auto simp: plain_comp_def)
  have "clean_comps (d @ slash # n) = clean_comps d @ [n]"
    using clean_comps_append [OF assms(1), of n] SplitOn_no_sep [OF n(1)] clean_stack_plain_id [of "[n]"] assms(2,3) by simp
  then show "PathJoin [d, n] = render_path (IsAbs d) (clean_comps d @ [n])"
    using assms(1) by (simp add: PathJoin2 Clean_comps)
  show "stable (IsAbs d) (clean_comps d @ [n])" using clean_comps_stable stable_snoc assms(2,3) by blast
qed

lemma inside_join:
  assumes "d \<noteq> ''''" and "plain_comp n" and "n \<noteq> ''..''" shows "inside d (PathJoin [d, n])"
  using plain_name_join [OF assms] clean_comps_render assms(3) by (auto simp: inside_def)

lemma Dir_join:
  assumes "d \<noteq> ''''" and "plain_comp n" and "n \<noteq> ''..''" shows "Dir (PathJoin [d, n]) = Clean d"
  using plain_name_join [OF assms] Dir_render assms(1) by (simp add: Clean_comps)

lemma PathJoin_Clean: "d \<noteq> '''' \<Longrightarrow> PathJoin [Clean d, n] = PathJoin [d, n]"
proof -
  assume d: "d \<noteq> ''''"
  have c: "Clean d \<noteq> ''''"
    using d clean_comps_plain [of _ d] by (auto simp: Clean_comps render_path_def JoinWith_eq_Nil plain_comp_def)
  have "clean_comps (Clean d @ slash # n) = clean_comps (d @ slash # n)"
    using clean_comps_append [OF d] clean_comps_append [OF c] by simp
  then show ?thesis using c d IsAbs_Clean [of d] by (simp add: PathJoin2 Clean_comps [of "_ @ _"])
qed

lemma parent_inside:
  assumes "d \<noteq> ''''" and "inside d (PathJoin [d, n])"
  shows "inside d (Dir (PathJoin [d, n])) \<or> Dir (PathJoin [d, n]) = Dir (Clean d)"
proof -
  let ?t = "d @ slash # n"
  have t: "PathJoin [d, n] = Clean ?t" "Clean ?t = render_path (IsAbs d) (clean_comps ?t)"
    using assms(1) by (simp_all add: PathJoin2 Clean_comps)
  obtain r where r: "clean_comps ?t = clean_comps d @ r" "r = [] \<or> hd r \<noteq> ''..''"
    using assms(2) t(1) clean_comps_Clean [of ?t] by (auto simp: inside_def)
  have st: "stable (IsAbs d) (clean_comps d @ r)" using clean_comps_stable [of ?t] r(1) assms(1) by simp
  show ?thesis
  proof (cases r rule: rev_cases)
    case Nil
    then show ?thesis using t r(1) assms(1) by (simp add: Clean_comps)
  next
    case (snoc r' x)
    have st': "stable (IsAbs d) ((clean_comps d @ r') @ [x])" using st snoc by simp
    have "Dir (PathJoin [d, n]) = render_path (IsAbs d) (clean_comps d @ r')"
      using t r(1) snoc Dir_render [OF st'] by simp
    moreover have "r' = [] \<or> hd r' \<noteq> ''..''" using r(2) snoc by (cases r') auto
    ultimately show ?thesis
      using clean_comps_render [OF stable_butlast [OF st']] by (auto simp: inside_def)
  qed
qed

lemma PathJoin_not_Nil: "d \<noteq> '''' \<Longrightarrow> plain_comp n \<Longrightarrow> n \<noteq> ''..'' \<Longrightarrow> PathJoin [d, n] \<noteq> ''''"
  using plain_name_join(1) [of d n] by (auto simp: render_path_def JoinWith_eq_Nil plain_comp_def)

definition plainName :: "string \<Rightarrow> bool" where
  "plainName n \<longleftrightarrow> n \<noteq> '''' \<and> n \<noteq> ''.'' \<and> n \<noteq> ''..'' \<and> slash \<notin> set n"

lemma plainName_comp: "plainName n \<longleftrightarrow> plain_comp n \<and> n \<noteq> ''..''"
  by (auto simp: plainName_def plain_comp_def)

lemma join_plain:
  assumes "ns \<noteq> []" and "\<forall>n \<in> set ns. plainName n"
  shows "PathJoin (d # ns) = render_path (IsAbs d) (clean_comps d @ ns)" "stable (IsAbs d) (clean_comps d @ ns)"
proof -
  have n: "\<forall>n \<in> set ns. plain_comp n \<and> n \<noteq> ''..''" "\<forall>n \<in> set ns. slash \<notin> set n" "'''' \<notin> set ns"
    using assms(2) by (auto simp: plainName_def plain_comp_def)
  have sp: "SplitOn slash (JoinWith ''/'' ns) = ns" using SplitOn_JoinWith [OF assms(1) n(2)] .
  have ne: "JoinWith ''/'' ns \<noteq> ''''" using assms(1) n(3) by (auto simp: JoinWith_eq_Nil)
  have na: "\<not> IsAbs (JoinWith ''/'' ns)" using n(1) JoinWith_not_abs by blast
  show st: "stable (IsAbs d) (clean_comps d @ ns)"
    using assms(2)
  proof (induction ns rule: rev_induct)
    case (snoc x xs)
    then show ?case using stable_snoc [of "IsAbs d" "clean_comps d @ xs" x] by (simp add: plainName_comp)
  qed (simp add: clean_comps_stable)
  show "PathJoin (d # ns) = render_path (IsAbs d) (clean_comps d @ ns)"
  proof (cases "d = ''''")
    case True
    have "dropWhile (\<lambda>e. e = '''') ns = ns" using assms(1) n(3) by (cases ns) auto
    then have "PathJoin (d # ns) = Clean (JoinWith ''/'' ns)" using True assms(1) by (cases ns) (simp_all add: PathJoin_def)
    moreover have "clean_comps (JoinWith ''/'' ns) = ns"
      using sp na clean_stack_plain_id [OF n(1), of False "[]"] by (simp add: clean_comps_def)
    moreover have "\<not> IsAbs ''''" by (simp add: IsAbs_def HasPrefix_def)
    ultimately show ?thesis using True ne na by (simp add: Clean_comps)
  next
    case False
    have j: "JoinWith ''/'' (d # ns) = d @ slash # JoinWith ''/'' ns" using JoinWith_Cons [OF assms(1)] by simp
    have "clean_comps (d @ slash # JoinWith ''/'' ns) = clean_comps d @ ns"
      using clean_comps_append [OF False] sp clean_stack_plain_id [OF n(1)] by simp
    then show ?thesis using False by (simp add: PathJoin_def j Clean_comps)
  qed
qed

end
