(* ===== verification/Launch_Config.thy ===== *)
theory Launch_Config
  imports Go_Base
begin

text \<open>
  The launch configuration of an application artifact and its validation
  (\<open>src/core/internal/artifact/artifact.go\<close>: \<open>JVMConfig\<close>, \<open>Entry\<close>, \<open>Validate\<close>, \<open>DecodeConfig\<close>, the launcher names).

  The messages of the errors are constructors of \<open>config_error\<close>. A Go map is an association list: \<open>Validate\<close>
  ranges over \<open>SystemProperties\<close> in no particular order, and its result does not depend on it. The JSON decoder
  (with unknown fields rejected) is the argument \<open>decode\<close>.
\<close>

section \<open>Data\<close>

record Entry =
  e_Mode :: string
  e_MainClass :: string
  e_ClassPath :: "string list"
  e_Module :: string
  e_ModulePath :: "string list"

record CDS =
  cds_Archive :: string
  cds_Mode :: string

record User =
  u_UID :: int
  u_GID :: int

record JVMConfig =
  cfg_SchemaVersion :: int
  cfg_MainJar :: string
  cfg_Entry :: Entry
  cfg_EnablePreview :: bool
  cfg_AddModules :: "string list"
  cfg_AddOpens :: "string list"
  cfg_AddExports :: "string list"
  cfg_SystemProperties :: stralist
  cfg_User :: "User option"
  cfg_Env :: stralist
  cfg_Arch :: "string list"
  cfg_CDS :: "CDS option"

datatype config_error =
    JarHasMainClass
  | JarHasClassPath
  | JarHasModule
  | ClasspathNeedsMainClass
  | ClasspathHasModule
  | ModuleNeedsModule
  | UnknownMode string
  | BlankAddModules
  | BlankAddOpens
  | BlankAddExports
  | BlankSystemProperty
  | UnknownArch string
  | DuplicateArch string
  | DanglingJar string string
  | EmptyArchive
  | ArchiveNotBare string
  | UnknownCDSMode string

definition KnownCDSModes :: "string list" where "KnownCDSModes = [''dynamic'', ''static'']"

definition KnownArches :: "string list" where "KnownArches = [''amd64'', ''arm64'']"

definition IsKnownArch :: "string \<Rightarrow> bool" where
  "IsKnownArch s = (s \<in> set KnownArches)"

definition vanillaName :: string where "vanillaName = ''java''"

definition IsVanillaLauncher :: "string \<Rightarrow> bool" where
  "IsVanillaLauncher name = (name = '''' \<or> name = vanillaName)"

definition LauncherName :: "string \<Rightarrow> string" where
  "LauncherName name = (if IsVanillaLauncher name then vanillaName else name)"

section \<open>Validation\<close>

definition isBareJarRef :: "string \<Rightarrow> bool" where
  "isBareJarRef entry = (if \<not> HasSuffix entry ''.jar'' then False else \<not> ContainsAny entry ''/*'')"

definition validateEntry :: "Entry \<Rightarrow> config_error option" where
  "validateEntry e =
     (if e_Mode e = '''' \<or> e_Mode e = ''jar'' then
        (if e_MainClass e \<noteq> '''' then Some JarHasMainClass
         else if length (e_ClassPath e) > 0 then Some JarHasClassPath
         else if e_Module e \<noteq> '''' \<or> length (e_ModulePath e) > 0 then Some JarHasModule
         else None)
      else if e_Mode e = ''classpath'' then
        (if e_MainClass e = '''' then Some ClasspathNeedsMainClass
         else if e_Module e \<noteq> '''' \<or> length (e_ModulePath e) > 0 then Some ClasspathHasModule
         else None)
      else if e_Mode e = ''module'' then
        (if e_Module e = '''' then Some ModuleNeedsModule else None)
      else Some (UnknownMode (e_Mode e)))"

fun validateArch :: "string set \<Rightarrow> string list \<Rightarrow> config_error option" where
  "validateArch seen [] = None"
| "validateArch seen (a # as) =
     (if \<not> IsKnownArch a then Some (UnknownArch a)
      else if a \<in> seen then Some (DuplicateArch a)
      else validateArch (insert a seen) as)"

fun validateJarRefs :: "string \<Rightarrow> string list \<Rightarrow> config_error option" where
  "validateJarRefs mainJar [] = None"
| "validateJarRefs mainJar (e # es) =
     (if isBareJarRef e \<and> e \<noteq> mainJar then Some (DanglingJar e mainJar) else validateJarRefs mainJar es)"

definition validateCDS :: "CDS \<Rightarrow> config_error option" where
  "validateCDS c =
     (let a = TrimSpace (cds_Archive c) in
      if a = '''' then Some EmptyArchive
      else if a \<noteq> cds_Archive c \<or> ContainsAny a ''/*'' \<or> a = ''..'' \<or> Contains a ''/'' then Some (ArchiveNotBare (cds_Archive c))
      else if cds_Mode c \<noteq> '''' \<and> cds_Mode c \<notin> set KnownCDSModes then Some (UnknownCDSMode (cds_Mode c))
      else None)"

definition blankToken :: "string \<Rightarrow> bool" where
  "blankToken v = (TrimSpace v = '''')"

definition Validate :: "JVMConfig \<Rightarrow> config_error option" where
  "Validate c =
     (case validateEntry (cfg_Entry c) of Some e \<Rightarrow> Some e
      | None \<Rightarrow>
        if list_ex blankToken (cfg_AddModules c) then Some BlankAddModules
        else if list_ex blankToken (cfg_AddOpens c) then Some BlankAddOpens
        else if list_ex blankToken (cfg_AddExports c) then Some BlankAddExports
        else if list_ex (\<lambda>(k, _). blankToken k) (cfg_SystemProperties c) then Some BlankSystemProperty
        else (case validateArch {} (cfg_Arch c) of Some e \<Rightarrow> Some e
          | None \<Rightarrow>
            (case (if cfg_MainJar c \<noteq> ''''
                   then validateJarRefs (cfg_MainJar c) (e_ClassPath (cfg_Entry c) @ e_ModulePath (cfg_Entry c))
                   else None) of Some e \<Rightarrow> Some e
             | None \<Rightarrow> (case cfg_CDS c of None \<Rightarrow> None | Some cds \<Rightarrow> validateCDS cds))))"

datatype decode_error = BadJSON | Invalid config_error

definition DecodeConfig :: "('b \<Rightarrow> JVMConfig option) \<Rightarrow> 'b \<Rightarrow> decode_error + JVMConfig" where
  "DecodeConfig decode b =
     (case decode b of None \<Rightarrow> Inl BadJSON
      | Some cfg \<Rightarrow> (case Validate cfg of Some e \<Rightarrow> Inl (Invalid e) | None \<Rightarrow> Inr cfg))"

section \<open>What a valid configuration is\<close>

definition entry_wf :: "Entry \<Rightarrow> bool" where
  "entry_wf e \<longleftrightarrow>
     e_Mode e \<in> {'''', ''jar''} \<and> e_MainClass e = '''' \<and> e_ClassPath e = [] \<and> e_Module e = '''' \<and> e_ModulePath e = [] \<or>
     e_Mode e = ''classpath'' \<and> e_MainClass e \<noteq> '''' \<and> e_Module e = '''' \<and> e_ModulePath e = [] \<or>
     e_Mode e = ''module'' \<and> e_Module e \<noteq> ''''"

definition bareName :: "string \<Rightarrow> bool" where
  "bareName a \<longleftrightarrow> a \<noteq> '''' \<and> a \<noteq> ''..'' \<and> TrimSpace a = a \<and> slash \<notin> set a \<and> CHR ''*'' \<notin> set a"

definition config_wf :: "JVMConfig \<Rightarrow> bool" where
  "config_wf c \<longleftrightarrow>
     entry_wf (cfg_Entry c) \<and>
     (\<forall>v \<in> set (cfg_AddModules c) \<union> set (cfg_AddOpens c) \<union> set (cfg_AddExports c) \<union> fst ` set (cfg_SystemProperties c).
        TrimSpace v \<noteq> '''') \<and>
     distinct (cfg_Arch c) \<and> set (cfg_Arch c) \<subseteq> {''amd64'', ''arm64''} \<and>
     (cfg_MainJar c \<noteq> '''' \<longrightarrow>
        (\<forall>e \<in> set (e_ClassPath (cfg_Entry c)) \<union> set (e_ModulePath (cfg_Entry c)). isBareJarRef e \<longrightarrow> e = cfg_MainJar c)) \<and>
     (\<forall>cds. cfg_CDS c = Some cds \<longrightarrow> bareName (cds_Archive cds) \<and> cds_Mode cds \<in> {'''', ''dynamic'', ''static''})"

lemma validateEntry_iff: "validateEntry e = None \<longleftrightarrow> entry_wf e"
  by (auto simp: validateEntry_def entry_wf_def)

lemma validateArch_iff:
  "validateArch seen as = None \<longleftrightarrow> distinct as \<and> set as \<subseteq> {''amd64'', ''arm64''} \<and> set as \<inter> seen = {}"
  by (induction seen as rule: validateArch.induct) (auto simp: IsKnownArch_def KnownArches_def)

lemma validateJarRefs_iff: "validateJarRefs j es = None \<longleftrightarrow> (\<forall>e \<in> set es. isBareJarRef e \<longrightarrow> e = j)"
  by (induction j es rule: validateJarRefs.induct) auto

lemma Contains_char: "Contains s [c] \<longleftrightarrow> c \<in> set s"
  by (induction s "[c]" rule: Contains.induct) (auto simp: HasPrefix_def)

lemma validateCDS_iff:
  "validateCDS c = None \<longleftrightarrow> bareName (cds_Archive c) \<and> cds_Mode c \<in> {'''', ''dynamic'', ''static''}"
proof -
  have "ContainsAny a ''/*'' \<longleftrightarrow> slash \<in> set a \<or> CHR ''*'' \<in> set a" for a
    by (auto simp: ContainsAny_def list_ex_iff)
  then show ?thesis
    by (auto simp: validateCDS_def bareName_def Let_def Contains_char KnownCDSModes_def)
qed

lemma blank_list: "list_ex blankToken xs \<longleftrightarrow> \<not> (\<forall>v \<in> set xs. TrimSpace v \<noteq> '''')"
  by (auto simp: list_ex_iff blankToken_def)

lemma blank_keys: "list_ex (\<lambda>(k, _). blankToken k) ps \<longleftrightarrow> \<not> (\<forall>v \<in> fst ` set ps. TrimSpace v \<noteq> '''')"
  by (force simp: list_ex_iff blankToken_def)

lemma Validate_None:
  "Validate c = None \<longleftrightarrow> validateEntry (cfg_Entry c) = None \<and> \<not> list_ex blankToken (cfg_AddModules c) \<and>
     \<not> list_ex blankToken (cfg_AddOpens c) \<and> \<not> list_ex blankToken (cfg_AddExports c) \<and>
     \<not> list_ex (\<lambda>(k, _). blankToken k) (cfg_SystemProperties c) \<and> validateArch {} (cfg_Arch c) = None \<and>
     (cfg_MainJar c \<noteq> '''' \<longrightarrow>
        validateJarRefs (cfg_MainJar c) (e_ClassPath (cfg_Entry c) @ e_ModulePath (cfg_Entry c)) = None) \<and>
     (\<forall>cds. cfg_CDS c = Some cds \<longrightarrow> validateCDS cds = None)"
  unfolding Validate_def by (simp split: option.split)

lemma Validate_config_wf: "Validate c = None \<longleftrightarrow> config_wf c"
  unfolding Validate_None config_wf_def validateEntry_iff blank_list blank_keys validateArch_iff validateJarRefs_iff validateCDS_iff
  by (simp add: ball_Un)

text \<open>The validation of a launch configuration is exact. \<open>Validate\<close> accepts a configuration if and only if its
  entry mode is known and the fields of the entry are those the mode owns, no module, open, export token
  or property key is blank, the architectures are known and listed once, a top-level JAR named on the
  class or module path is the main JAR, and an AppCDS archive is a bare file name with a known mode; the
  decoder gives a configuration exactly when the JSON decodes to one that is valid.\<close>

lemma Validate_exact:
  "(Validate c = None \<longleftrightarrow> config_wf c) \<and>
   (DecodeConfig decode b = Inr c \<longleftrightarrow> decode b = Some c \<and> config_wf c)"
  by (auto simp: DecodeConfig_def Validate_config_wf [symmetric] split: option.splits)

definition jarConfig :: JVMConfig where
  "jarConfig = \<lparr>cfg_SchemaVersion = 1, cfg_MainJar = ''orders.jar'',
     cfg_Entry = \<lparr>e_Mode = ''jar'', e_MainClass = '''', e_ClassPath = [], e_Module = '''', e_ModulePath = []\<rparr>,
     cfg_EnablePreview = False, cfg_AddModules = [], cfg_AddOpens = [], cfg_AddExports = [], cfg_SystemProperties = [],
     cfg_User = None, cfg_Env = [], cfg_Arch = [], cfg_CDS = None\<rparr>"

lemma jarConfig_valid: "Validate jarConfig = None"
  unfolding Validate_config_wf by (simp add: config_wf_def entry_wf_def jarConfig_def)

end
