(* ===== verification/Launch.thy ===== *)
theory Launch
  imports Go_IO Launch_Config
begin

text \<open>
  The launch core (\<open>src/core/internal/runtime/launch.go\<close>, \<open>cds_mtime.go\<close> and the argument builder of
  \<open>cds_train.go\<close>): the arguments of the JVM, the resolution of the JDK and the launcher, the extraction of
  dependency layers, the sandbox of the local run, and the quantities of a resource limit.
\<close>

section \<open>Arguments\<close>

definition sortedKeys :: "stralist \<Rightarrow> string list" where
  "sortedKeys m = sortedKeysOf m"

definition joinAppPaths :: "string list \<Rightarrow> string \<Rightarrow> string" where
  "joinAppPaths entries jarPath =
     (if length entries = 0 then jarPath
      else (let base = Dir jarPath in JoinWith '':'' (map (\<lambda>e. PathJoin [base, e]) entries)))"

definition classPath :: "JVMConfig \<Rightarrow> string \<Rightarrow> string" where
  "classPath cfg jarPath = joinAppPaths (e_ClassPath (cfg_Entry cfg)) jarPath"

definition modulePath :: "JVMConfig \<Rightarrow> string \<Rightarrow> string" where
  "modulePath cfg jarPath = joinAppPaths (e_ModulePath (cfg_Entry cfg)) jarPath"

text \<open>The flags both the launch and the training run derive from the configuration.\<close>

definition knobArgs :: "JVMConfig \<Rightarrow> string list" where
  "knobArgs cfg =
     (if cfg_EnablePreview cfg then [''--enable-preview''] else []) @
     (if length (cfg_AddModules cfg) > 0 then [''--add-modules'', JoinWith '','' (cfg_AddModules cfg)] else []) @
     concat (map (\<lambda>o'. [''--add-opens'', o']) (cfg_AddOpens cfg)) @
     concat (map (\<lambda>x. [''--add-exports'', x]) (cfg_AddExports cfg)) @
     map (\<lambda>k. ''-D'' @ k @ ''='' @ alget (cfg_SystemProperties cfg) k) (sortedKeys (cfg_SystemProperties cfg))"

definition entryArgs :: "JVMConfig \<Rightarrow> string \<Rightarrow> string list option" where
  "entryArgs cfg jarPath =
     (let e = cfg_Entry cfg in
      if e_Mode e = '''' \<or> e_Mode e = ''jar'' then Some [''-jar'', jarPath]
      else if e_Mode e = ''classpath'' then Some [''-cp'', classPath cfg jarPath, e_MainClass e]
      else if e_Mode e = ''module'' then
        Some ((if length (e_ClassPath e) > 0 then [''-cp'', classPath cfg jarPath] else []) @
          [''-p'', modulePath cfg jarPath, ''-m'',
           (if e_MainClass e \<noteq> '''' then e_Module e @ ''/'' @ e_MainClass e else e_Module e)])
      else None)"

definition cdsArgs :: "JVMConfig \<Rightarrow> string \<Rightarrow> bool \<Rightarrow> string list" where
  "cdsArgs cfg jarPath regenerateCDS =
     (case cfg_CDS cfg of
        Some cds \<Rightarrow> if \<not> regenerateCDS \<and> cds_Archive cds \<noteq> ''''
          then [''-Xshare:auto'', ''-XX:SharedArchiveFile='' @ PathJoin [Dir jarPath, cds_Archive cds]] else []
      | None \<Rightarrow> [])"

definition BuildJVMArgs :: "JVMConfig \<Rightarrow> string \<Rightarrow> string list \<Rightarrow> bool \<Rightarrow> config_error + string list" where
  "BuildJVMArgs cfg jarPath extraArgs regenerateCDS =
     (case Validate cfg of Some e \<Rightarrow> Inl e
      | None \<Rightarrow>
        (case entryArgs cfg jarPath of
           None \<Rightarrow> Inl (UnknownMode (e_Mode (cfg_Entry cfg)))
         | Some entry \<Rightarrow> Inr (cdsArgs cfg jarPath regenerateCDS @ knobArgs cfg @ extraArgs @ entry)))"

definition AppCDSTrainingArgs :: "JVMConfig \<Rightarrow> string \<Rightarrow> string \<Rightarrow> string list \<Rightarrow> string list option" where
  "AppCDSTrainingArgs cfg jarName archivePath trainingArgs =
     (if e_Mode (cfg_Entry cfg) \<noteq> '''' \<and> e_Mode (cfg_Entry cfg) \<noteq> ''jar'' then None
      else Some (knobArgs cfg @ [''-XX:ArchiveClassesAtExit='' @ archivePath, ''-jar'', jarName] @ trainingArgs))"

section \<open>JDK and launcher\<close>

datatype launch_error =
    ConfigError config_error
  | NoJavaUnder string
  | NoNodeJDK
  | LauncherMissing string
  | LauncherNotOnPath string
  | ReadFailed string
  | OpFailed fs_op
  | EscapesDestination string
  | BadTar string

definition resolveJDK :: "host \<Rightarrow> string \<Rightarrow> launch_error + string \<times> string" where
  "resolveJDK h jdkHome =
     (let jdkHome = (if jdkHome = '''' then h_getenv h ''BREWLET_JDK_HOME'' else jdkHome);
          jdkHome = (if jdkHome = '''' then h_getenv h ''JAVA_HOME'' else jdkHome)
      in if jdkHome \<noteq> '''' then
           (let bin = PathJoin [jdkHome, ''bin'', ''java''] in
            if h_exists h bin then Inr (bin, jdkHome) else Inl (NoJavaUnder jdkHome))
         else (case h_lookPath h ''java'' of None \<Rightarrow> Inl NoNodeJDK | Some bin \<Rightarrow> Inr (bin, Dir (Dir bin))))"

definition resolveLauncher :: "host \<Rightarrow> string \<Rightarrow> string \<Rightarrow> launch_error + string" where
  "resolveLauncher h launcherName jdkHome =
     (if IsVanillaLauncher launcherName then Inr (PathJoin [jdkHome, ''bin'', ''java''])
      else
        (let name = LauncherName launcherName in
         if IsAbs name then (if h_exists h name then Inr name else Inl (LauncherMissing name))
         else (case h_lookPath h name of None \<Rightarrow> Inl (LauncherNotOnPath name) | Some bin \<Rightarrow> Inr bin)))"

record Plan =
  pl_JavaBin :: string
  pl_JDKHome :: string
  pl_Args :: "string list"
  pl_Env :: "string list"
  pl_JarPath :: string

definition BuildPlan ::
  "host \<Rightarrow> JVMConfig \<Rightarrow> string \<Rightarrow> string \<Rightarrow> string \<Rightarrow> string list \<Rightarrow> bool \<Rightarrow> launch_error + Plan" where
  "BuildPlan h cfg jarPath jdkHome launcherName extraArgs regenerateCDS =
     (case resolveJDK h jdkHome of Inl e \<Rightarrow> Inl e
      | Inr (_, home) \<Rightarrow>
        (case resolveLauncher h launcherName home of Inl e \<Rightarrow> Inl e
         | Inr launcherBin \<Rightarrow>
           (case BuildJVMArgs cfg jarPath extraArgs regenerateCDS of Inl e \<Rightarrow> Inl (ConfigError e)
            | Inr args \<Rightarrow>
                Inr \<lparr>pl_JavaBin = launcherBin, pl_JDKHome = home, pl_Args = args,
                     pl_Env = h_environ h @ [''JAVA_HOME='' @ home] @ map (\<lambda>(n, v). n @ ''='' @ v) (cfg_Env cfg),
                     pl_JarPath = jarPath\<rparr>)))"

definition CommandLine :: "Plan \<Rightarrow> string" where
  "CommandLine p = pl_JavaBin p @ '' '' @ JoinWith '' '' (pl_Args p)"

section \<open>Layers\<close>

fun extractEntries :: "host \<Rightarrow> string \<Rightarrow> tar_entry list \<Rightarrow> (launch_error, unit) io" where
  "extractEntries h destDir [] = returnIO ()"
| "extractEntries h destDir (hdr # hdrs) =
     (let name = Clean (te_Name hdr) in
      if name = ''.'' then extractEntries h destDir hdrs
      else
        (let target = PathJoin [destDir, name] in
         if relEscapes (Rel destDir target) then failIO (EscapesDestination (te_Name hdr))
         else
           thenIO (case te_Typeflag hdr of
                     TypeDir \<Rightarrow> perform h OpFailed (MkdirAll target)
                   | TypeReg \<Rightarrow> thenIO (perform h OpFailed (MkdirAll (Dir target)))
                                 (perform h OpFailed (WriteFile target (te_Content hdr)))
                   | TypeOther \<Rightarrow> returnIO ())
             (extractEntries h destDir hdrs)))"

definition extractTar :: "host \<Rightarrow> string \<Rightarrow> string \<Rightarrow> (launch_error, unit) io" where
  "extractTar h tarPath destDir =
     (case h_tar h tarPath of
        None \<Rightarrow> failIO (ReadFailed tarPath)
      | Some (entries, bad) \<Rightarrow>
          thenIO (extractEntries h destDir entries) (if bad then failIO (BadTar tarPath) else returnIO ()))"

fun extractAll :: "host \<Rightarrow> string list \<Rightarrow> string \<Rightarrow> (launch_error, unit) io" where
  "extractAll h [] destDir = returnIO ()"
| "extractAll h (t # ts) destDir = thenIO (extractTar h t destDir) (extractAll h ts destDir)"

definition stageLayers :: "host \<Rightarrow> string list \<Rightarrow> string \<Rightarrow> (launch_error, unit) io" where
  "stageLayers h tars destDir =
     (if length tars = 0 then returnIO ()
      else thenIO (perform h OpFailed (MkdirAll destDir)) (extractAll h tars destDir))"

definition StageClasspathLayers :: "host \<Rightarrow> string list \<Rightarrow> string \<Rightarrow> (launch_error, unit) io" where
  "StageClasspathLayers h classpathTars libDir = stageLayers h classpathTars libDir"

definition StageModulepathLayers :: "host \<Rightarrow> string list \<Rightarrow> string \<Rightarrow> (launch_error, unit) io" where
  "StageModulepathLayers h modulepathTars modsDir = stageLayers h modulepathTars modsDir"

section \<open>Canonical modification times\<close>

definition pinCDSModTime :: "host \<Rightarrow> string \<Rightarrow> (launch_error, unit) io" where
  "pinCDSModTime h path = perform h OpFailed (Chtimes path)"

definition StageCDSJar :: "host \<Rightarrow> string \<Rightarrow> string \<Rightarrow> string \<Rightarrow> (launch_error, string) io" where
  "StageCDSJar h src dstDir name =
     thenIO (perform h OpFailed (MkdirAll dstDir))
       (let dst = PathJoin [dstDir, name] in
        thenIO (perform h OpFailed (CopyFile src dst))
          (thenIO (pinCDSModTime h dst) (returnIO dst)))"

text \<open>The walk stamps every regular file below a directory: one call for the tree. A missing directory is not an
  error.\<close>

definition PinCDSModTimesUnder :: "host \<Rightarrow> string \<Rightarrow> (launch_error, unit) io" where
  "PinCDSModTimesUnder h dir = perform h OpFailed (ChtimesUnder dir)"

definition shipsCDS :: "JVMConfig \<Rightarrow> bool" where
  "shipsCDS cfg = (cfg_CDS cfg \<noteq> None)"

section \<open>The sandbox of a local run\<close>

definition stageInto :: "host \<Rightarrow> bool \<Rightarrow> string list \<Rightarrow> string \<Rightarrow> (launch_error, unit) io" where
  "stageInto h pinMtime tars dir =
     whenIO (length tars > 0) (thenIO (stageLayers h tars dir) (whenIO pinMtime (PinCDSModTimesUnder h dir)))"

definition readFile :: "host \<Rightarrow> string \<Rightarrow> (launch_error, bytes) io" where
  "readFile h path = liftIO (case h_read h path of None \<Rightarrow> Inl (ReadFailed path) | Some b \<Rightarrow> Inr b)"

text \<open>\<open>tmp\<close> is the directory that \<open>MkdirTemp\<close> created, or \<open>None\<close> when it failed.\<close>

definition AssembleSandboxWithCDS ::
  "host \<Rightarrow> string option \<Rightarrow> JVMConfig \<Rightarrow> string \<Rightarrow> string list \<Rightarrow> string list \<Rightarrow> string \<Rightarrow> bool \<Rightarrow>
   (launch_error, string \<times> string) io" where
  "AssembleSandboxWithCDS h tmp cfg jarSrc classpathTars modulepathTars cdsSrc regenerate =
     (let pinMtime = shipsCDS cfg \<or> regenerate in
      case tmp of None \<Rightarrow> failIO (ReadFailed ''mkdirtemp'')
      | Some sandboxDir \<Rightarrow>
        (let appDir = PathJoin [sandboxDir, ''app''];
             main = (if cfg_MainJar cfg = '''' then ''app.jar'' else cfg_MainJar cfg);
             jarPath = PathJoin [appDir, main]
         in thenIO (perform h OpFailed (MkdirAll appDir))
              (bindIO (readFile h jarSrc) (\<lambda>data.
                 thenIO (perform h OpFailed (WriteFile jarPath data))
                 (thenIO (whenIO pinMtime (pinCDSModTime h jarPath))
                 (thenIO (stageInto h pinMtime classpathTars (PathJoin [appDir, ''lib'']))
                 (thenIO (stageInto h pinMtime modulepathTars (PathJoin [appDir, ''mods'']))
                 (case cfg_CDS cfg of
                    Some cds \<Rightarrow>
                      if cdsSrc \<noteq> '''' \<and> \<not> regenerate then
                        bindIO (readFile h cdsSrc) (\<lambda>cdsData.
                          thenIO (perform h OpFailed (WriteFile (PathJoin [appDir, cds_Archive cds]) cdsData))
                            (returnIO (sandboxDir, jarPath)))
                      else returnIO (sandboxDir, jarPath)
                  | None \<Rightarrow> returnIO (sandboxDir, jarPath)))))))))"

definition AssembleSandbox ::
  "host \<Rightarrow> string option \<Rightarrow> JVMConfig \<Rightarrow> string \<Rightarrow> string list \<Rightarrow> string list \<Rightarrow> (launch_error, string \<times> string) io" where
  "AssembleSandbox h tmp cfg jarSrc classpathTars modulepathTars =
     AssembleSandboxWithCDS h tmp cfg jarSrc classpathTars modulepathTars '''' False"

section \<open>Paths of the calls\<close>

fun op_path :: "fs_op \<Rightarrow> string" where
  "op_path (MkdirAll p) = p"
| "op_path (WriteFile p b) = p"
| "op_path (CopyFile s p) = p"
| "op_path (Chtimes p) = p"
| "op_path (ChtimesUnder p) = p"

section \<open>Extraction stays in its directory\<close>

lemma extractEntries_ops:
  assumes "destDir \<noteq> ''''" and "op \<in> set (fst (extractEntries h destDir hdrs))"
  shows "inside destDir (op_path op) \<or> op = MkdirAll (Dir (Clean destDir))"
  using assms(2)
proof (induction hdrs)
  case (Cons hdr hdrs)
  let ?t = "PathJoin [destDir, Clean (te_Name hdr)]"
  consider "op \<in> set (fst (extractEntries h destDir hdrs))"
    | "\<not> relEscapes (Rel destDir ?t)" "op = MkdirAll ?t \<or> op = MkdirAll (Dir ?t) \<or> op = WriteFile ?t (te_Content hdr)"
    using Cons.prems by (auto simp: io_ops Let_def split: if_splits typeflag.splits)
  then show ?case
  proof cases
    case 2
    then have i: "inside destDir ?t" by (simp add: relEscapes_iff)
    then show ?thesis using 2(2) parent_inside [OF assms(1) i] by auto
  qed (rule Cons.IH)
qed simp

lemma extractAll_ops:
  "destDir \<noteq> '''' \<Longrightarrow> op \<in> set (fst (extractAll h tars destDir)) \<Longrightarrow>
     inside destDir (op_path op) \<or> op = MkdirAll (Dir (Clean destDir))"
  by (induction tars) (auto simp: io_ops extractTar_def split: option.splits prod.splits if_splits dest: extractEntries_ops)

lemma stageLayers_ops:
  "destDir \<noteq> '''' \<Longrightarrow> op \<in> set (fst (stageLayers h tars destDir)) \<Longrightarrow>
     inside destDir (op_path op) \<or> op = MkdirAll (Dir (Clean destDir))"
  using extractAll_ops by (auto simp: stageLayers_def io_ops split: if_splits)

text \<open>The files an archive holds, in order, as calls that write them.\<close>

definition fileWrites :: "string \<Rightarrow> tar_entry list \<Rightarrow> fs_op list" where
  "fileWrites destDir hdrs =
     map (\<lambda>t. WriteFile (PathJoin [destDir, Clean (te_Name t)]) (te_Content t))
       (filter (\<lambda>t. te_Typeflag t = TypeReg \<and> Clean (te_Name t) \<noteq> ''.'') hdrs)"

fun is_write :: "fs_op \<Rightarrow> bool" where
  "is_write (WriteFile p b) = True"
| "is_write _ = False"

lemma extractEntries_writes:
  "snd (extractEntries h destDir hdrs) = Inr () \<Longrightarrow>
     filter is_write (fst (extractEntries h destDir hdrs)) = fileWrites destDir hdrs"
proof (induction hdrs)
  case (Cons hdr hdrs)
  then show ?case
    by (auto simp: Let_def fileWrites_def io_ok fst_thenIO_ok split: if_splits typeflag.splits)
qed (simp add: fileWrites_def)

text \<open>C13: layers cannot write outside their directory. Whatever entries a layer archive has, every call that
  extracting it makes is inside the destination directory (or recreates its parent), an entry that leads
  out of the directory stops the extraction with an error, and when the extraction succeeds it has
  written exactly the regular files of the archive, in order, with their contents.\<close>

theorem extractTar_confined:
  assumes "destDir \<noteq> ''''" and "h_tar h tarPath = Some (entries, bad)"
  shows "(\<forall>op \<in> set (fst (extractTar h tarPath destDir)).
            inside destDir (op_path op) \<or> op = MkdirAll (Dir (Clean destDir))) \<and>
    (snd (extractTar h tarPath destDir) = Inr () \<longrightarrow>
       \<not> bad \<and> filter is_write (fst (extractTar h tarPath destDir)) = fileWrites destDir entries \<and>
       (\<forall>t \<in> set entries. Clean (te_Name t) \<noteq> ''.'' \<longrightarrow> inside destDir (PathJoin [destDir, Clean (te_Name t)])))"
proof -
  have a: "\<forall>op \<in> set (fst (extractTar h tarPath destDir)).
            inside destDir (op_path op) \<or> op = MkdirAll (Dir (Clean destDir))"
    using assms extractEntries_ops by (auto simp: extractTar_def io_ops split: if_splits)
  have i: "inside destDir (PathJoin [destDir, Clean (te_Name t)])"
    if "snd (extractEntries h destDir es) = Inr ()" "t \<in> set es" "Clean (te_Name t) \<noteq> ''.''" for es t
    using that by (induction es) (auto simp: Let_def io_ok relEscapes_iff split: if_splits)
  have b: "\<not> bad \<and> snd (extractEntries h destDir entries) = Inr () \<and>
      fst (extractTar h tarPath destDir) = fst (extractEntries h destDir entries)"
    if "snd (extractTar h tarPath destDir) = Inr ()"
    using that assms(2) by (auto simp: extractTar_def io_ok fst_thenIO_ok split: if_splits)
  show ?thesis
  proof (intro conjI impI)
    assume ok: "snd (extractTar h tarPath destDir) = Inr ()"
    show "\<not> bad" "filter is_write (fst (extractTar h tarPath destDir)) = fileWrites destDir entries"
      using b [OF ok] extractEntries_writes by auto
    show "\<forall>t \<in> set entries. Clean (te_Name t) \<noteq> ''.'' \<longrightarrow> inside destDir (PathJoin [destDir, Clean (te_Name t)])"
      using i b [OF ok] by blast
  qed (rule a)
qed

section \<open>Arguments\<close>

lemma entryArgs_total: "config_wf cfg \<Longrightarrow> entryArgs cfg jarPath \<noteq> None"
  by (auto simp: config_wf_def entry_wf_def entryArgs_def Let_def)

lemma BuildJVMArgs_Inr:
  "BuildJVMArgs cfg jarPath extra regen = Inr args \<longleftrightarrow>
     config_wf cfg \<and> (\<exists>entry. entryArgs cfg jarPath = Some entry \<and>
       args = cdsArgs cfg jarPath regen @ knobArgs cfg @ extra @ entry)"
  using Validate_config_wf [of cfg]
  by (cases "Validate cfg"; cases "entryArgs cfg jarPath") (auto simp: BuildJVMArgs_def)

text \<open>A valid configuration always launches, and its entry point comes last. \<open>BuildJVMArgs\<close> succeeds exactly on
  the valid configurations (the mode check after the validation never fails); the arguments are the AppCDS
  flags, the flags of the configuration, the caller's arguments and the entry point, in this order, where
  the entry point is \<open>-jar\<close> with the JAR, \<open>-cp\<close> with the main class, or \<open>-p\<close> and \<open>-m\<close> with the module; the
  training run passes the same flags, so that it loads classes as the launch does.\<close>

lemma BuildJVMArgs_shape:
  "((\<exists>args. BuildJVMArgs cfg jarPath extra regen = Inr args) \<longleftrightarrow> config_wf cfg) \<and>
   (\<forall>args. BuildJVMArgs cfg jarPath extra regen = Inr args \<longrightarrow>
     (\<exists>pre entry. args = pre @ knobArgs cfg @ extra @ entry \<and>
        pre = (case cfg_CDS cfg of Some cds \<Rightarrow> if regen then []
                 else [''-Xshare:auto'', ''-XX:SharedArchiveFile='' @ PathJoin [Dir jarPath, cds_Archive cds]] | None \<Rightarrow> []) \<and>
        (entry = [''-jar'', jarPath] \<and> e_Mode (cfg_Entry cfg) \<in> {'''', ''jar''} \<or>
         entry = [''-cp'', classPath cfg jarPath, e_MainClass (cfg_Entry cfg)] \<and> e_MainClass (cfg_Entry cfg) \<noteq> '''' \<or>
         (\<exists>cp target. entry = cp @ [''-p'', modulePath cfg jarPath, ''-m'', target] \<and> HasPrefix target (e_Module (cfg_Entry cfg))
            \<and> e_Module (cfg_Entry cfg) \<noteq> ''''))) \<and>
     (\<forall>jar archive tr targs. AppCDSTrainingArgs cfg jar archive tr = Some targs \<longrightarrow>
        targs = knobArgs cfg @ [''-XX:ArchiveClassesAtExit='' @ archive, ''-jar'', jar] @ tr))"
proof -
  have s: "(\<exists>args. BuildJVMArgs cfg jarPath extra regen = Inr args) \<longleftrightarrow> config_wf cfg"
    using entryArgs_total [of cfg jarPath] by (auto simp: BuildJVMArgs_Inr)
  have p: "cdsArgs cfg jarPath regen = (case cfg_CDS cfg of Some cds \<Rightarrow> if regen then []
       else [''-Xshare:auto'', ''-XX:SharedArchiveFile='' @ PathJoin [Dir jarPath, cds_Archive cds]] | None \<Rightarrow> [])"
    if "config_wf cfg" using that by (auto simp: cdsArgs_def config_wf_def bareName_def split: option.splits)
  have e: "entry = [''-jar'', jarPath] \<and> e_Mode (cfg_Entry cfg) \<in> {'''', ''jar''} \<or>
       entry = [''-cp'', classPath cfg jarPath, e_MainClass (cfg_Entry cfg)] \<and> e_MainClass (cfg_Entry cfg) \<noteq> '''' \<or>
       (\<exists>cp target. entry = cp @ [''-p'', modulePath cfg jarPath, ''-m'', target] \<and> HasPrefix target (e_Module (cfg_Entry cfg))
          \<and> e_Module (cfg_Entry cfg) \<noteq> '''')"
    if "config_wf cfg" "entryArgs cfg jarPath = Some entry" for entry
    using that by (auto simp: config_wf_def entry_wf_def entryArgs_def Let_def HasPrefix_def split: if_splits)
  have t: "AppCDSTrainingArgs cfg jar archive tr = Some targs \<Longrightarrow>
      targs = knobArgs cfg @ [''-XX:ArchiveClassesAtExit='' @ archive, ''-jar'', jar] @ tr" for jar archive tr targs
    by (simp add: AppCDSTrainingArgs_def split: if_splits)
  show ?thesis
  proof (intro conjI allI impI)
    fix args assume "BuildJVMArgs cfg jarPath extra regen = Inr args"
    then obtain entry where a: "config_wf cfg" "entryArgs cfg jarPath = Some entry"
        "args = cdsArgs cfg jarPath regen @ knobArgs cfg @ extra @ entry"
      by (auto simp: BuildJVMArgs_Inr)
    show "\<exists>pre entry. args = pre @ knobArgs cfg @ extra @ entry \<and>
        pre = (case cfg_CDS cfg of Some cds \<Rightarrow> if regen then []
                 else [''-Xshare:auto'', ''-XX:SharedArchiveFile='' @ PathJoin [Dir jarPath, cds_Archive cds]] | None \<Rightarrow> []) \<and>
        (entry = [''-jar'', jarPath] \<and> e_Mode (cfg_Entry cfg) \<in> {'''', ''jar''} \<or>
         entry = [''-cp'', classPath cfg jarPath, e_MainClass (cfg_Entry cfg)] \<and> e_MainClass (cfg_Entry cfg) \<noteq> '''' \<or>
         (\<exists>cp target. entry = cp @ [''-p'', modulePath cfg jarPath, ''-m'', target] \<and> HasPrefix target (e_Module (cfg_Entry cfg))
            \<and> e_Module (cfg_Entry cfg) \<noteq> ''''))"
      by (intro exI conjI, rule a(3), rule p [OF a(1)], rule e [OF a(1,2)])
  qed (use s t in auto)
qed

lemma sortedKeys_cong:
  assumes "distinct (map fst ps)" and "distinct (map fst qs)" and "map_of ps = map_of (qs :: stralist)"
  shows "sortedKeys ps = sortedKeys qs"
proof -
  have "set (map fst ps) = set (map fst qs)" using assms(3) by (metis dom_map_of_conv_image_fst set_map)
  then have "sort (map fst ps) = sort (map fst qs)"
    using assms(1,2) by (metis distinct_sort set_sort sorted_distinct_set_unique sorted_sort)
  then show ?thesis by (simp add: sortedKeys_def sortedKeysOf_def)
qed

text \<open>The arguments do not depend on the order in which the map of the system properties is traversed. Two
  listings of the same map give the same result, error or arguments.\<close>

lemma BuildJVMArgs_deterministic:
  assumes "distinct (map fst ps)" and "distinct (map fst qs)" and "map_of ps = map_of qs"
  shows "BuildJVMArgs (cfg\<lparr>cfg_SystemProperties := ps\<rparr>) jarPath extra regen =
    BuildJVMArgs (cfg\<lparr>cfg_SystemProperties := qs\<rparr>) jarPath extra regen"
proof -
  let ?c = "\<lambda>ps. cfg\<lparr>cfg_SystemProperties := ps\<rparr>"
  have "list_ex (\<lambda>(k, _). blankToken k) ps = list_ex (\<lambda>(k, _). blankToken k) qs"
    using assms(3) blank_keys by (metis dom_map_of_conv_image_fst)
  then have v: "Validate (?c ps) = Validate (?c qs)" by (simp add: Validate_def cong: option.case_cong)
  have "knobArgs (?c ps) = knobArgs (?c qs)"
    using sortedKeys_cong [OF assms] assms(3) by (simp add: knobArgs_def alget_def)
  moreover have "entryArgs (?c ps) jarPath = entryArgs (?c qs) jarPath"
    by (simp add: entryArgs_def Let_def classPath_def modulePath_def)
  moreover have "cdsArgs (?c ps) jarPath regen = cdsArgs (?c qs) jarPath regen" by (simp add: cdsArgs_def)
  ultimately show ?thesis using v by (simp add: BuildJVMArgs_def cong: option.case_cong)
qed

section \<open>The sandbox\<close>

definition mainName :: "JVMConfig \<Rightarrow> string" where
  "mainName cfg = (if cfg_MainJar cfg = '''' then ''app.jar'' else cfg_MainJar cfg)"

lemma stageInto_ops:
  assumes "app \<noteq> ''''" and "plain_comp n" and "n \<noteq> ''..''"
    and "op \<in> set (fst (stageInto h pin tars (PathJoin [app, n])))"
  shows "inside app (op_path op)"
proof -
  let ?d = "PathJoin [app, n]"
  have i: "inside app ?d" using inside_join assms(1-3) by blast
  have "inside ?d (op_path op) \<or> op = MkdirAll (Dir (Clean ?d))"
    using assms(4) stageLayers_ops [OF PathJoin_not_Nil [OF assms(1-3)]]
    by (auto simp: stageInto_def io_ops PinCDSModTimesUnder_def)
  moreover have "Clean ?d = ?d"
    using plain_name_join [OF assms(1-3)] clean_comps_render PathJoin_not_Nil [OF assms(1-3)] by (simp add: Clean_comps)
  moreover have "inside app (Clean app)" by (simp add: inside_def)
  ultimately show ?thesis using i inside_trans Dir_join [OF assms(1-3)] by auto
qed

lemma app_dirs [simp]: "plain_comp ''app''" "plain_comp ''lib''" "plain_comp ''mods''"
  by (simp_all add: plain_comp_def)

lemma sandbox_ops:
  assumes "tmp \<noteq> ''''" and "plainName (mainName cfg)"
    and "\<forall>cds. cfg_CDS cfg = Some cds \<longrightarrow> plainName (cds_Archive cds)"
    and "op \<in> set (fst (AssembleSandboxWithCDS h (Some tmp) cfg jarSrc cps mps cdsSrc regen))"
  shows "inside (PathJoin [tmp, ''app'']) (op_path op)"
proof -
  let ?app = "PathJoin [tmp, ''app'']"
  have app: "?app \<noteq> ''''" using PathJoin_not_Nil [OF assms(1)] by simp
  have i: "inside ?app (PathJoin [?app, n])" if "plainName n" for n
    using inside_join [OF app] that by (auto simp: plainName_comp)
  have s: "inside ?app (op_path op)" if "op \<in> set (fst (stageInto h pin tars (PathJoin [?app, n])))" "n \<in> {''lib'', ''mods''}" for pin tars n
    using stageInto_ops [OF app, of n op h pin tars] that by auto
  show ?thesis
    using assms(4) i s assms(2,3)
    by (auto simp: AssembleSandboxWithCDS_def Let_def io_ops mainName_def pinCDSModTime_def readFile_def
        split: option.splits if_splits)
qed

lemma sandbox_result:
  assumes "snd (AssembleSandboxWithCDS h (Some tmp) cfg jarSrc cps mps cdsSrc regen) = Inr (sandbox, jarPath)"
  shows "sandbox = tmp" "jarPath = PathJoin [PathJoin [tmp, ''app''], mainName cfg]"
    "\<And>cds. cfg_CDS cfg = Some cds \<Longrightarrow> cdsSrc \<noteq> '''' \<Longrightarrow> \<not> regen \<Longrightarrow>
       \<exists>data. h_read h cdsSrc = Some data \<and>
         WriteFile (PathJoin [PathJoin [tmp, ''app''], cds_Archive cds]) data
           \<in> set (fst (AssembleSandboxWithCDS h (Some tmp) cfg jarSrc cps mps cdsSrc regen))"
  using assms
  by (auto simp: AssembleSandboxWithCDS_def Let_def io_ok io_ops mainName_def readFile_def split: option.splits if_splits)

text \<open>The local run is assembled where the JVM looks. If the main JAR and the archive are plain file names, every
  call that assembles the sandbox is inside its \<open>app\<close> directory; when it succeeds, the arguments built for the
  returned JAR path name, as the shared archive, exactly the file the shipped archive was written to.\<close>

lemma sandbox_matches_arguments:
  assumes "tmp \<noteq> ''''" and "plainName (mainName cfg)" and "cfg_CDS cfg = Some cds" and "plainName (cds_Archive cds)"
    and "cdsSrc \<noteq> ''''"
    and "AssembleSandboxWithCDS h (Some tmp) cfg jarSrc cps mps cdsSrc False = (ops, Inr (sandbox, jarPath))"
    and "BuildJVMArgs cfg jarPath extra False = Inr args"
  shows "(\<forall>op \<in> set ops. inside (PathJoin [tmp, ''app'']) (op_path op)) \<and>
    (\<exists>archive data. h_read h cdsSrc = Some data \<and> WriteFile archive data \<in> set ops \<and>
       ''-XX:SharedArchiveFile='' @ archive \<in> set args)"
proof -
  let ?app = "PathJoin [tmp, ''app'']"
  have app: "?app \<noteq> ''''" using PathJoin_not_Nil [OF assms(1)] by simp
  have r: "snd (AssembleSandboxWithCDS h (Some tmp) cfg jarSrc cps mps cdsSrc False) = Inr (sandbox, jarPath)"
    using assms(6) by simp
  have "Dir jarPath = Clean ?app"
    using sandbox_result(2) [OF r] Dir_join [OF app] assms(2) by (simp add: plainName_comp)
  then have "PathJoin [Dir jarPath, cds_Archive cds] = PathJoin [?app, cds_Archive cds]"
    using PathJoin_Clean [OF app] by simp
  moreover have "cds_Archive cds \<noteq> ''''" using assms(4) by (simp add: plainName_def)
  ultimately have "''-XX:SharedArchiveFile='' @ PathJoin [?app, cds_Archive cds] \<in> set args"
    using assms(3,7) by (auto simp: BuildJVMArgs_Inr cdsArgs_def)
  moreover have "inside ?app (op_path op)" if "op \<in> set ops" for op
    using sandbox_ops [OF assms(1,2), of op h jarSrc cps mps cdsSrc False] assms(3,4,6) that by simp
  ultimately show ?thesis using sandbox_result(3) [OF r assms(3,5)] assms(6) by auto
qed

text \<open>The main JAR name is not checked. A configuration that names its main JAR \<open>../../evil.jar\<close> is valid, and
  the sandbox assembled for it writes the JAR outside the sandbox directory.\<close>

lemma main_jar_escapes_sandbox:
  "let cfg = jarConfig\<lparr>cfg_MainJar := ''../../evil.jar''\<rparr>;
       h = \<lparr>h_ok = (\<lambda>_. True), h_exists = (\<lambda>_. False), h_read = (\<lambda>_. Some ''jar''), h_tar = (\<lambda>_. None),
            h_getenv = (\<lambda>_. ''''), h_environ = [], h_lookPath = (\<lambda>_. None)\<rparr>
   in Validate cfg = None \<and>
      WriteFile ''/tmp/evil.jar'' ''jar'' \<in> set (fst (AssembleSandbox h (Some ''/tmp/sandbox'') cfg ''a.jar'' [] [])) \<and>
      \<not> inside ''/tmp/sandbox'' ''/tmp/evil.jar''"
proof -
  have v: "config_wf (jarConfig\<lparr>cfg_MainJar := ''../../evil.jar''\<rparr>)"
    by (simp add: config_wf_def entry_wf_def jarConfig_def)
  have p: "PathJoin [PathJoin [''/tmp/sandbox'', ''app''], ''../../evil.jar''] = ''/tmp/evil.jar''" by code_simp
  have i: "relEscapes (Rel ''/tmp/sandbox'' ''/tmp/evil.jar'')" by code_simp
  show ?thesis
    using v p i
    by (auto simp: Let_def Validate_config_wf relEscapes_iff AssembleSandbox_def AssembleSandboxWithCDS_def io_ops readFile_def)
qed

section \<open>Quantities\<close>

text \<open>The floating-point steps are arguments: \<open>scaled num m\<close> is \<open>int64(n * float64(m))\<close> for the result \<open>n\<close> of
  \<open>ParseFloat num\<close>, or \<open>None\<close> when \<open>ParseFloat\<close> fails.\<close>

definition memorySuffixes :: "(string \<times> int) list" where
  "memorySuffixes =
     [(''Ki'', 2 ^ 10), (''Mi'', 2 ^ 20), (''Gi'', 2 ^ 30), (''Ti'', 2 ^ 40),
      (''K'', 1000), (''M'', 1000000), (''G'', 1000000000),
      (''k'', 1000), (''m'', 1000000), (''g'', 1000000000)]"

definition parseMemory :: "(string \<Rightarrow> int \<Rightarrow> int option) \<Rightarrow> string \<Rightarrow> int option" where
  "parseMemory scaled s =
     (let s = TrimSpace s in
      case find (\<lambda>(suf, _). HasSuffix s suf) memorySuffixes of
        Some (suf, mult) \<Rightarrow> scaled (TrimSuffix s suf) mult
      | None \<Rightarrow> Atoi s)"

definition parseCPU :: "(string \<Rightarrow> int \<Rightarrow> int option) \<Rightarrow> string \<Rightarrow> int option" where
  "parseCPU scaled s =
     (let s = TrimSpace s in
      if HasSuffix s ''m'' then Atoi (TrimSuffix s ''m'') else scaled s 1000)"

section \<open>Witnesses\<close>

definition quietHost :: host where
  "quietHost = \<lparr>h_ok = (\<lambda>_. True), h_exists = (\<lambda>_. False), h_read = (\<lambda>_. Some ''data''),
     h_tar = (\<lambda>_. Some ([\<lparr>te_Name = ''dep.jar'', te_Typeflag = TypeReg, te_Content = ''x''\<rparr>], False)),
     h_getenv = (\<lambda>_. ''''), h_environ = [], h_lookPath = (\<lambda>_. None)\<rparr>"

theorem extractTar_confined_witness:
  "filter is_write (fst (extractTar quietHost ''l.tar'' ''/app/lib'')) = [WriteFile ''/app/lib/dep.jar'' ''x'']"
proof -
  have t: "h_tar quietHost ''l.tar'' = Some ([\<lparr>te_Name = ''dep.jar'', te_Typeflag = TypeReg, te_Content = ''x''\<rparr>], False)"
    by (simp add: quietHost_def)
  have p: "Clean ''dep.jar'' = ''dep.jar''" "PathJoin [''/app/lib'', ''dep.jar''] = ''/app/lib/dep.jar''"
     "\<not> relEscapes (Rel ''/app/lib'' ''/app/lib/dep.jar'')" by code_simp+
  have "snd (extractTar quietHost ''l.tar'' ''/app/lib'') = Inr ()"
    using p by (simp add: extractTar_def t io_ok Let_def) (simp add: quietHost_def)
  with extractTar_confined [OF _ t, of "''/app/lib''"] p show ?thesis by (simp add: fileWrites_def)
qed

theorem BuildJVMArgs_shape_witness:
  "\<exists>args. BuildJVMArgs jarConfig ''/app/orders.jar'' [''-Xmx1g''] False = Inr args"
  using BuildJVMArgs_shape [of jarConfig "''/app/orders.jar''" "[''-Xmx1g'']" False] jarConfig_valid Validate_config_wf
  by blast

theorem BuildJVMArgs_deterministic_witness:
  "BuildJVMArgs (jarConfig\<lparr>cfg_SystemProperties := [(''a'', ''1''), (''b'', ''2'')]\<rparr>) ''/app/orders.jar'' [] False =
   BuildJVMArgs (jarConfig\<lparr>cfg_SystemProperties := [(''b'', ''2''), (''a'', ''1'')]\<rparr>) ''/app/orders.jar'' [] False"
  by (rule BuildJVMArgs_deterministic) (auto simp: fun_eq_iff)

definition cdsConfig :: JVMConfig where
  "cdsConfig = jarConfig\<lparr>cfg_CDS := Some \<lparr>cds_Archive = ''app.jsa'', cds_Mode = ''dynamic''\<rparr>\<rparr>"

lemma cdsConfig_wf: "config_wf cdsConfig"
proof -
  have "TrimSpace ''app.jsa'' = ''app.jsa''" by code_simp
  then show ?thesis by (simp add: config_wf_def entry_wf_def cdsConfig_def jarConfig_def bareName_def)
qed

theorem sandbox_matches_arguments_witness:
  "\<exists>archive ops r args. AssembleSandboxWithCDS quietHost (Some ''/tmp/s'') cdsConfig ''a.jar'' [] [] ''app.jsa'' False = (ops, r) \<and>
     WriteFile archive ''data'' \<in> set ops \<and>
     BuildJVMArgs cdsConfig ''/tmp/s/app/orders.jar'' [] False = Inr args \<and>
     ''-XX:SharedArchiveFile='' @ archive \<in> set args"
proof -
  obtain ops r where a: "AssembleSandboxWithCDS quietHost (Some ''/tmp/s'') cdsConfig ''a.jar'' [] [] ''app.jsa'' False = (ops, r)"
    by fastforce
  have j: "PathJoin [PathJoin [''/tmp/s'', ''app''], ''orders.jar''] = ''/tmp/s/app/orders.jar''" by code_simp
  have "snd (AssembleSandboxWithCDS quietHost (Some ''/tmp/s'') cdsConfig ''a.jar'' [] [] ''app.jsa'' False)
      = Inr (''/tmp/s'', ''/tmp/s/app/orders.jar'')"
    using j by (simp add: AssembleSandboxWithCDS_def Let_def io_ok readFile_def cdsConfig_def jarConfig_def quietHost_def
        shipsCDS_def pinCDSModTime_def stageInto_def)
  with a have a': "AssembleSandboxWithCDS quietHost (Some ''/tmp/s'') cdsConfig ''a.jar'' [] [] ''app.jsa'' False
      = (ops, Inr (''/tmp/s'', ''/tmp/s/app/orders.jar''))" by simp
  obtain args where args: "BuildJVMArgs cdsConfig ''/tmp/s/app/orders.jar'' [] False = Inr args"
    using cdsConfig_wf entryArgs_total [OF cdsConfig_wf] by (fastforce simp: BuildJVMArgs_Inr)
  have "plainName (mainName cdsConfig)" "cfg_CDS cdsConfig = Some \<lparr>cds_Archive = ''app.jsa'', cds_Mode = ''dynamic''\<rparr>"
      "plainName (cds_Archive \<lparr>cds_Archive = ''app.jsa'', cds_Mode = ''dynamic''\<rparr>)" "h_read quietHost ''app.jsa'' = Some ''data''"
    by (simp_all add: plainName_def mainName_def cdsConfig_def jarConfig_def quietHost_def)
  with sandbox_matches_arguments [OF _ this(1-3) _ a' args] a' args show ?thesis by auto
qed

end
