(* ===== verification/Cds_Regen.thy ===== *)
theory Cds_Regen
  imports Go_Base
begin

text \<open>
  Node-side regeneration of AppCDS archives (\<open>src/core/internal/runtime/cds_regen.go\<close>): the identity of a JDK,
  the key of the archive cache, eviction, the election of the process that writes an archive, and the
  decision how to launch.

  The cache directory is a map from file names to files (size and modification time); times and durations
  are integers. \<open>regen_world\<close> holds what the operating system answers. The election is modelled a second
  time as a step relation in which the system calls of several processes interleave.
\<close>

section \<open>JDK identity\<close>

definition leadingDigits :: "string \<Rightarrow> string" where
  "leadingDigits s = takeWhile is_digit s"

definition atoiOrZero :: "string \<Rightarrow> int" where
  "atoiOrZero s = (case Atoi s of Some n \<Rightarrow> n | None \<Rightarrow> 0)"

definition versionSep :: "char \<Rightarrow> bool" where
  "versionSep r = (r = CHR ''.'' \<or> r = CHR ''_'' \<or> r = CHR ''+'' \<or> r = CHR ''-'')"

definition parseFeature :: "string \<Rightarrow> int" where
  "parseFeature v =
     (let v = TrimChar (CHR 0x22) (TrimSpace v) in
      if v = '''' then 0
      else (case FieldsFunc versionSep v of
              [] \<Rightarrow> 0
            | c # cs \<Rightarrow>
                if c = ''1'' \<and> cs \<noteq> [] then atoiOrZero (leadingDigits (hd cs))
                else atoiOrZero (leadingDigits c)))"

definition parseFeatureFromInternal :: "string \<Rightarrow> int" where
  "parseFeatureFromInternal s =
     (case CutAt (CHR ''('') s of
        None \<Rightarrow> 0
      | Some (_, rest) \<Rightarrow>
          (case CutAt (CHR '')'') rest of None \<Rightarrow> parseFeature rest | Some (v, _) \<Rightarrow> parseFeature v))"

definition firstNonEmpty :: "string list \<Rightarrow> string" where
  "firstNonEmpty vals = (case find (\<lambda>v. v \<noteq> '''') vals of Some v \<Rightarrow> v | None \<Rightarrow> '''')"

text \<open>\<open>bufio.Scanner\<close>: the lines of a file without their line ends; a line of 64 KiB or more is an error.\<close>

definition scanLines :: "string \<Rightarrow> string list option" where
  "scanLines content =
     (let ls = SplitOn (CHR 0x0A) content;
          ls = (if last ls = '''' then butlast ls else ls)
      in if list_ex (\<lambda>l. 65536 \<le> length l) ls then None
         else Some (map (\<lambda>l. TrimSuffix l [CHR 0x0D]) ls))"

fun releaseKV :: "string list \<Rightarrow> strmap \<Rightarrow> strmap" where
  "releaseKV [] kv = kv"
| "releaseKV (l # ls) kv =
     (case CutAt (CHR ''='') (TrimSpace l) of
        None \<Rightarrow> releaseKV ls kv
      | Some (k, v) \<Rightarrow> releaseKV ls (kv(TrimSpace k \<mapsto> TrimChar (CHR 0x22) (TrimSpace v))))"

definition parseReleaseFile :: "string option \<Rightarrow> strmap option" where
  "parseReleaseFile content =
     (case content of None \<Rightarrow> None
      | Some c \<Rightarrow> (case scanLines c of None \<Rightarrow> None | Some ls \<Rightarrow> Some (releaseKV ls Map.empty)))"

definition releaseIdentity :: "strmap \<Rightarrow> (int \<times> string) option" where
  "releaseIdentity kv =
     (let jv = mget kv ''JAVA_VERSION''; f = parseFeature jv in
      if f > 0 then
        Some (f, JoinWith ''|'' [mget kv ''IMPLEMENTOR'', mget kv ''IMPLEMENTOR_VERSION'',
                   firstNonEmpty [mget kv ''JAVA_RUNTIME_VERSION'', jv], mget kv ''OS_ARCH''])
      else None)"

text \<open>\<open>release\<close> is the content of the release file and \<open>internal\<close> the output of \<open>java -Xinternalversion\<close>, \<open>None\<close> on
  an error.\<close>

definition readJDKIdentity :: "string option \<Rightarrow> string option \<Rightarrow> (int \<times> string) option" where
  "readJDKIdentity release internal =
     (case (case parseReleaseFile release of None \<Rightarrow> None | Some kv \<Rightarrow> releaseIdentity kv) of
        Some r \<Rightarrow> Some r
      | None \<Rightarrow>
          (case internal of None \<Rightarrow> None
           | Some out \<Rightarrow>
               (let ident = TrimSpace out; f = parseFeatureFromInternal ident in
                if f = 0 then None else Some (f, ident))))"

definition minRegenFeature :: int where "minRegenFeature = 19"

definition SupportsCDSRegen :: "string option \<Rightarrow> string option \<Rightarrow> bool" where
  "SupportsCDSRegen release internal =
     (case readJDKIdentity release internal of None \<Rightarrow> False | Some (feature, _) \<Rightarrow> minRegenFeature \<le> feature)"

text \<open>\<open>sha256hex\<close> is the hexadecimal SHA-256 of a string.\<close>

definition regenKey :: "(string \<Rightarrow> string) \<Rightarrow> string \<Rightarrow> string \<Rightarrow> string" where
  "regenKey sha256hex artifactKey buildID = take 32 (sha256hex (artifactKey @ [CHR 0x00] @ buildID))"

section \<open>The cache directory\<close>

record cfile =
  f_size :: int
  f_mtime :: int

type_synonym cache = "string \<rightharpoonup> cfile"

definition writerMarkerSuffix :: string where "writerMarkerSuffix = ''.writer''"

definition evictable :: "cache \<Rightarrow> string \<Rightarrow> int \<Rightarrow> int \<Rightarrow> string \<Rightarrow> bool" where
  "evictable dir keepKey ttl now name =
     (HasSuffix name ''.jsa'' \<and> TrimSuffix name ''.jsa'' \<noteq> keepKey \<and>
      (case dir name of None \<Rightarrow> False | Some info \<Rightarrow> \<not> now - f_mtime info \<le> ttl))"

fun evictLoop :: "string list \<Rightarrow> string \<Rightarrow> int \<Rightarrow> int \<Rightarrow> cache \<Rightarrow> cache" where
  "evictLoop [] keepKey ttl now dir = dir"
| "evictLoop (name # names) keepKey ttl now dir =
     evictLoop names keepKey ttl now
       (if evictable dir keepKey ttl now name
        then dir(name := None, name @ writerMarkerSuffix := None) else dir)"

text \<open>\<open>listing\<close> is the reply of \<open>ReadDir\<close>, \<open>None\<close> on an error.\<close>

definition evictStaleArchives :: "string list option \<Rightarrow> string \<Rightarrow> int \<Rightarrow> int \<Rightarrow> cache \<Rightarrow> cache" where
  "evictStaleArchives listing keepKey ttl now dir =
     (case listing of None \<Rightarrow> dir | Some names \<Rightarrow> evictLoop names keepKey ttl now dir)"

section \<open>Writer election, one process at a time\<close>

record regen_world =
  rw_release :: "string option"
  rw_internal :: "string option"
  rw_mkdirOK :: bool
  rw_listing :: "string list option"
  rw_createOK :: bool
  rw_chtimesOK :: bool
  rw_seed :: "cfile option"

definition claimWriter :: "regen_world \<Rightarrow> string \<Rightarrow> int \<Rightarrow> int \<Rightarrow> cache \<Rightarrow> bool \<times> cache" where
  "claimWriter w marker now ttl dir =
     (case dir marker of
        None \<Rightarrow> if rw_createOK w then (True, dir(marker \<mapsto> \<lparr>f_size = 1, f_mtime = now\<rparr>)) else (False, dir)
      | Some fi \<Rightarrow>
          if now - f_mtime fi \<le> ttl then (False, dir)
          else if rw_chtimesOK w then (True, dir(marker \<mapsto> fi\<lparr>f_mtime := now\<rparr>))
          else (False, dir))"

definition seedArchive :: "cfile option \<Rightarrow> string \<Rightarrow> int \<Rightarrow> cache \<Rightarrow> cache" where
  "seedArchive src dst now dir =
     (case dir dst of Some _ \<Rightarrow> dir
      | None \<Rightarrow> (case src of None \<Rightarrow> dir | Some f \<Rightarrow> dir(dst \<mapsto> f\<lparr>f_mtime := now\<rparr>)))"

section \<open>The decision\<close>

datatype RegenRole = RegenSkip | RegenConsume | RegenWrite | RegenDefer

definition DefaultCDSCacheDir :: string where "DefaultCDSCacheDir = ''/opt/brewlet/cds''"

definition InSandboxCDSDir :: string where "InSandboxCDSDir = ''/run/brewlet/cds''"

definition DefaultWriterTTL :: int where "DefaultWriterTTL = 10 * 60 * 1000000000"

definition DefaultEvictTTL :: int where "DefaultEvictTTL = 14 * 24 * 3600 * 1000000000"

record RegenParams =
  rp_CacheDir :: string
  rp_JDKRoot :: string
  rp_ArtifactKey :: string
  rp_SeedArchive :: string
  rp_ArchiveArgDir :: string
  rp_Now :: int
  rp_LockTTL :: int
  rp_EvictTTL :: int

record RegenDecision =
  rd_Role :: RegenRole
  rd_Key :: string
  rd_HostArchive :: string
  rd_ArgArchive :: string
  rd_Args :: "string list"
  rd_MountRW :: bool

definition decision :: "RegenRole \<Rightarrow> string \<Rightarrow> RegenDecision" where
  "decision role key = \<lparr>rd_Role = role, rd_Key = key, rd_HostArchive = '''', rd_ArgArchive = '''', rd_Args = [], rd_MountRW = False\<rparr>"

definition DecideCDSRegen ::
  "(string \<Rightarrow> string) \<Rightarrow> regen_world \<Rightarrow> RegenParams \<Rightarrow> cache \<Rightarrow> RegenDecision option \<times> cache" where
  "DecideCDSRegen sha256hex w p dir =
     (if rp_JDKRoot p = '''' \<or> rp_ArtifactKey p = '''' then (None, dir)
      else
        (let now = rp_Now p;
             cacheDir = (if rp_CacheDir p = '''' then DefaultCDSCacheDir else rp_CacheDir p);
             lockTTL = (if rp_LockTTL p \<le> 0 then DefaultWriterTTL else rp_LockTTL p);
             evictTTL = (if rp_EvictTTL p \<le> 0 then DefaultEvictTTL else rp_EvictTTL p)
         in case readJDKIdentity (rw_release w) (rw_internal w) of
              None \<Rightarrow> (Some (decision RegenSkip ''''), dir)
            | Some (feature, buildID) \<Rightarrow>
                if feature < minRegenFeature then (Some (decision RegenSkip ''''), dir)
                else
                  (let key = regenKey sha256hex (rp_ArtifactKey p) buildID;
                       name = key @ ''.jsa'';
                       hostArchive = PathJoin [cacheDir, name];
                       argArchive = (if rp_ArchiveArgDir p \<noteq> ''''
                                     then TrimRightChar slash (rp_ArchiveArgDir p) @ ''/'' @ name else hostArchive)
                   in if \<not> rw_mkdirOK w then (Some (decision RegenSkip ''''), dir)
                      else
                        (let dir1 = evictStaleArchives (rw_listing w) key evictTTL now dir in
                         if (case dir1 name of Some fi \<Rightarrow> 0 < f_size fi | None \<Rightarrow> False)
                         then (Some \<lparr>rd_Role = RegenConsume, rd_Key = key, rd_HostArchive = hostArchive, rd_ArgArchive = argArchive,
                                 rd_Args = [''-Xshare:auto'', ''-XX:SharedArchiveFile='' @ argArchive], rd_MountRW = False\<rparr>, dir1)
                         else
                           (case claimWriter w (name @ writerMarkerSuffix) now lockTTL dir1 of
                              (True, dir2) \<Rightarrow>
                                (Some \<lparr>rd_Role = RegenWrite, rd_Key = key, rd_HostArchive = hostArchive, rd_ArgArchive = argArchive,
                                   rd_Args = [''-XX:+AutoCreateSharedArchive'', ''-XX:SharedArchiveFile='' @ argArchive, ''-Xshare:auto''],
                                   rd_MountRW = True\<rparr>,
                                 if rp_SeedArchive p \<noteq> '''' then seedArchive (rw_seed w) name now dir2 else dir2)
                            | (False, dir2) \<Rightarrow> (Some (decision RegenDefer key), dir2))))))"

section \<open>Eviction\<close>

lemma marker_not_archive: "\<not> HasSuffix (m @ writerMarkerSuffix) ''.jsa''"
  by (simp add: HasSuffix_def writerMarkerSuffix_def)

lemma archive_not_marker: "k @ ''.jsa'' \<noteq> m @ writerMarkerSuffix"
proof
  assume "k @ ''.jsa'' = m @ writerMarkerSuffix"
  then have "rev (k @ ''.jsa'') = rev (m @ writerMarkerSuffix)" by simp
  then show False by (simp add: writerMarkerSuffix_def)
qed

lemma evictable_marker: "\<not> evictable dir k ttl now (m @ writerMarkerSuffix)"
  by (simp add: evictable_def marker_not_archive)

lemma evictable_step:
  assumes "evictable dir k ttl now m"
  shows "evictable (dir(m := None, m @ writerMarkerSuffix := None)) k ttl now n \<longleftrightarrow> evictable dir k ttl now n \<and> n \<noteq> m"
  using assms evictable_marker [of dir k ttl now m] by (auto simp: evictable_def marker_not_archive)

lemma evictLoop_exact:
  "evictLoop names k ttl now dir n =
     (if \<exists>m \<in> set names. evictable dir k ttl now m \<and> (n = m \<or> n = m @ writerMarkerSuffix) then None else dir n)"
proof (induction names arbitrary: dir)
  case (Cons m names)
  show ?case
  proof (cases "evictable dir k ttl now m")
    case True
    have "evictLoop (m # names) k ttl now dir n =
        (if \<exists>x \<in> set names. (evictable dir k ttl now x \<and> x \<noteq> m) \<and> (n = x \<or> n = x @ writerMarkerSuffix) then None
         else (dir(m := None, m @ writerMarkerSuffix := None)) n)"
      by (simp only: evictLoop.simps True if_True Cons.IH evictable_step [OF True])
    also have "\<dots> = (if \<exists>x \<in> set (m # names). evictable dir k ttl now x \<and> (n = x \<or> n = x @ writerMarkerSuffix)
        then None else dir n)"
    proof (cases "n = m \<or> n = m @ writerMarkerSuffix")
      case hit: True
      then have "(dir(m := None, m @ writerMarkerSuffix := None)) n = None" by auto
      moreover have "\<exists>x \<in> set (m # names). evictable dir k ttl now x \<and> (n = x \<or> n = x @ writerMarkerSuffix)"
        using hit True by auto
      ultimately show ?thesis by simp
    next
      case miss: False
      then have "(dir(m := None, m @ writerMarkerSuffix := None)) n = dir n" by simp
      moreover have "(\<exists>x \<in> set names. (evictable dir k ttl now x \<and> x \<noteq> m) \<and> (n = x \<or> n = x @ writerMarkerSuffix)) \<longleftrightarrow>
          (\<exists>x \<in> set (m # names). evictable dir k ttl now x \<and> (n = x \<or> n = x @ writerMarkerSuffix))"
        using miss by auto
      ultimately show ?thesis by (simp only:)
    qed
    finally show ?thesis .
  next
    case False
    then show ?thesis using Cons.IH by auto
  qed
qed simp

lemma evict_keeps_key:
  "evictStaleArchives l k ttl now dir (k @ ''.jsa'') = dir (k @ ''.jsa'')"
  "evictStaleArchives l k ttl now dir (k @ ''.jsa'' @ writerMarkerSuffix) = dir (k @ ''.jsa'' @ writerMarkerSuffix)"
proof -
  have k: "\<not> evictable dir k ttl now (k @ ''.jsa'')"
    using TrimSuffix_append [of k "''.jsa''"] by (simp add: evictable_def)
  then show "evictStaleArchives l k ttl now dir (k @ ''.jsa'') = dir (k @ ''.jsa'')"
    using archive_not_marker [of k] by (auto simp: evictStaleArchives_def evictLoop_exact split: option.split)
  have "m = k @ ''.jsa''" if "k @ ''.jsa'' @ writerMarkerSuffix = m @ writerMarkerSuffix" for m
    using that by (metis append.assoc append_same_eq)
  then show "evictStaleArchives l k ttl now dir (k @ ''.jsa'' @ writerMarkerSuffix) = dir (k @ ''.jsa'' @ writerMarkerSuffix)"
    using k evictable_marker [of dir k ttl now "k @ ''.jsa''"]
    by (auto simp: evictStaleArchives_def evictLoop_exact split: option.split)
qed

text \<open>Eviction removes exactly the stale archives of other keys. After it, a file is gone if and only if it is a
  listed archive older than the limit whose key is not the one in use, or the writer marker of such an
  archive; every other file is untouched, whatever the order of the listing.\<close>

lemma evictStaleArchives_exact:
  "evictStaleArchives (Some names) keepKey ttl now dir n =
     (if \<exists>key. key \<noteq> keepKey \<and> key @ ''.jsa'' \<in> set names \<and>
          (\<exists>f. dir (key @ ''.jsa'') = Some f \<and> ttl < now - f_mtime f) \<and>
          (n = key @ ''.jsa'' \<or> n = key @ ''.jsa'' @ writerMarkerSuffix)
      then None else dir n)"
proof -
  have e: "evictable dir keepKey ttl now m \<longleftrightarrow>
      (\<exists>key. m = key @ ''.jsa'' \<and> key \<noteq> keepKey \<and> (\<exists>f. dir m = Some f \<and> ttl < now - f_mtime f))" for m
    by (auto simp: evictable_def HasSuffix_iff split: option.splits)
  show ?thesis unfolding evictStaleArchives_def option.case evictLoop_exact e append_assoc [symmetric]
    by (rule if_cong) blast+
qed

section \<open>Decisions\<close>

lemma claimWriter_cases:
  assumes "claimWriter w m now ttl dir = (b, dir')"
  shows "b \<Longrightarrow> \<exists>f. dir' m = Some f \<and> f_mtime f = now" "\<not> b \<Longrightarrow> dir' = dir" "n \<noteq> m \<Longrightarrow> dir' n = dir n"
    "\<lbrakk>dir m = Some f; now - f_mtime f \<le> ttl\<rbrakk> \<Longrightarrow> \<not> b"
  using assms by (auto simp: claimWriter_def split: option.splits if_splits)

text \<open>The identity, the key and the lock time of a run.\<close>

definition runKey :: "(string \<Rightarrow> string) \<Rightarrow> regen_world \<Rightarrow> RegenParams \<Rightarrow> string option" where
  "runKey sha w p =
     (case readJDKIdentity (rw_release w) (rw_internal w) of
        Some (f, b) \<Rightarrow> if minRegenFeature \<le> f then Some (regenKey sha (rp_ArtifactKey p) b) else None
      | None \<Rightarrow> None)"

definition lockTTLOf :: "RegenParams \<Rightarrow> int" where
  "lockTTLOf p = (if rp_LockTTL p \<le> 0 then DefaultWriterTTL else rp_LockTTL p)"

lemma DecideCDSRegen_cases:
  assumes "DecideCDSRegen sha w p dir = (Some d, dir')"
  obtains (skip) "rd_Role d = RegenSkip" "d = decision RegenSkip ''''" "dir' = dir"
  | (consume) key f ttl where "rd_Role d = RegenConsume" "runKey sha w p = Some key" "rd_Key d = key"
      "dir (key @ ''.jsa'') = Some f" "0 < f_size f" "\<not> rd_MountRW d"
      "rd_Args d = [''-Xshare:auto'', ''-XX:SharedArchiveFile='' @ rd_ArgArchive d]"
      "dir' = evictStaleArchives (rw_listing w) key ttl (rp_Now p) dir"
  | (elect) key dir2 ttl where "rd_Role d = RegenWrite" "runKey sha w p = Some key" "rd_Key d = key"
      "\<forall>f. dir (key @ ''.jsa'') = Some f \<longrightarrow> f_size f \<le> 0" "rd_MountRW d"
      "rd_Args d = [''-XX:+AutoCreateSharedArchive'', ''-XX:SharedArchiveFile='' @ rd_ArgArchive d, ''-Xshare:auto'']"
      "claimWriter w (key @ ''.jsa'' @ writerMarkerSuffix) (rp_Now p) (lockTTLOf p)
         (evictStaleArchives (rw_listing w) key ttl (rp_Now p) dir) = (True, dir2)"
      "dir' = (if rp_SeedArchive p \<noteq> '''' then seedArchive (rw_seed w) (key @ ''.jsa'') (rp_Now p) dir2 else dir2)"
  | (later) key ttl where "rd_Role d = RegenDefer" "runKey sha w p = Some key" "d = decision RegenDefer key"
      "\<forall>f. dir (key @ ''.jsa'') = Some f \<longrightarrow> f_size f \<le> 0"
      "dir' = evictStaleArchives (rw_listing w) key ttl (rp_Now p) dir"
proof -
  obtain id where id: "readJDKIdentity (rw_release w) (rw_internal w) = id" by simp
  show thesis
  proof (cases "\<exists>f b. id = Some (f, b) \<and> minRegenFeature \<le> f \<and> rw_mkdirOK w")
    case False
    then have "d = decision RegenSkip '''' \<and> dir' = dir"
      using assms id by (auto simp: DecideCDSRegen_def Let_def split: option.splits if_splits)
    then show thesis using skip by (simp add: decision_def)
  next
    case True
    then obtain f b where fb: "id = Some (f, b)" "minRegenFeature \<le> f" "rw_mkdirOK w" by blast
    define key where "key = regenKey sha (rp_ArtifactKey p) b"
    define ttl where "ttl = (if rp_EvictTTL p \<le> 0 then DefaultEvictTTL else rp_EvictTTL p)"
    define dir1 where "dir1 = evictStaleArchives (rw_listing w) key ttl (rp_Now p) dir"
    have k: "runKey sha w p = Some key" using id fb by (simp add: runKey_def key_def)
    have e: "dir1 (key @ ''.jsa'') = dir (key @ ''.jsa'')" unfolding dir1_def by (rule evict_keeps_key)
    obtain c dir2 where c: "claimWriter w (key @ ''.jsa'' @ writerMarkerSuffix) (rp_Now p) (lockTTLOf p) dir1 = (c, dir2)"
      by fastforce
    note D = assms [unfolded DecideCDSRegen_def Let_def id fb option.case prod.case key_def [symmetric] ttl_def [symmetric]
        dir1_def [symmetric]]
    show thesis
    proof (cases "\<exists>f. dir1 (key @ ''.jsa'') = Some f \<and> 0 < f_size f")
      case True
      then obtain g where g: "dir1 (key @ ''.jsa'') = Some g" "0 < f_size g" by blast
      show thesis using consume [OF _ k, of g ttl] D g e fb by (auto simp: dir1_def [symmetric] split: if_splits)
    next
      case False
      then have z: "\<forall>f. dir (key @ ''.jsa'') = Some f \<longrightarrow> f_size f \<le> 0" using e by force
      show thesis
      proof (cases c)
        case True
        then show thesis
          using elect [OF _ k _ z, of ttl dir2] D False c fb
          by (auto simp: dir1_def [symmetric] lockTTLOf_def split: if_splits option.splits)
      next
        case False': False
        then show thesis
          using later [OF _ k _ z, of ttl] D False c fb claimWriter_cases(2) [OF c]
          by (auto simp: dir1_def [symmetric] lockTTLOf_def decision_def split: if_splits option.splits)
      qed
    qed
  qed
qed

lemma DecideCDSRegen_total:
  assumes "rp_JDKRoot p \<noteq> ''''" and "rp_ArtifactKey p \<noteq> ''''"
  shows "\<exists>d dir'. DecideCDSRegen sha w p dir = (Some d, dir')"
proof (cases "readJDKIdentity (rw_release w) (rw_internal w)")
  case None
  then show ?thesis using assms by (simp add: DecideCDSRegen_def)
next
  case (Some fb)
  let ?P = "\<lambda>x. \<exists>d (dir' :: cache). x = (Some (d :: RegenDecision), dir')"
  have i: "?P x \<Longrightarrow> ?P y \<Longrightarrow> ?P (if b then x else y)" for b x y by simp
  have c: "?P (case r of (True, dir2) \<Rightarrow> (Some x, y dir2) | (False, dir2) \<Rightarrow> (Some z, dir2))" for r x y z
    by (simp split: prod.split bool.split)
  have s: "?P (Some x, y)" for x y by blast
  show ?thesis
    unfolding DecideCDSRegen_def Let_def Some option.case
    by (cases fb) (simp only: assms simp_thms if_False prod.case, intro i s c)
qed

text \<open>Regeneration never fails a launch and never emits a flag the JDK does not know. The decision is missing
  only when the JDK root or the artifact key is empty; a decision has launch arguments exactly when it
  consumes or writes an archive, which requires a JDK of feature 19 or later; only the writer uses
  \<open>AutoCreateSharedArchive\<close> and a writable mount; and an archive is consumed only if the cache holds a
  non-empty file for the key of this artifact and JDK build.\<close>

lemma DecideCDSRegen_safe:
  "(fst (DecideCDSRegen sha w p dir) = None \<longleftrightarrow> rp_JDKRoot p = '''' \<or> rp_ArtifactKey p = '''') \<and>
   (\<forall>d dir'. DecideCDSRegen sha w p dir = (Some d, dir') \<longrightarrow>
      (rd_MountRW d \<longleftrightarrow> rd_Role d = RegenWrite) \<and>
      (''-XX:+AutoCreateSharedArchive'' \<in> set (rd_Args d) \<longleftrightarrow> rd_Role d = RegenWrite) \<and>
      (rd_Args d \<noteq> [] \<longleftrightarrow> rd_Role d \<in> {RegenConsume, RegenWrite}) \<and>
      (rd_Args d \<noteq> [] \<longrightarrow> (\<exists>f b. readJDKIdentity (rw_release w) (rw_internal w) = Some (f, b) \<and> 19 \<le> f \<and>
         rd_Key d = regenKey sha (rp_ArtifactKey p) b \<and> ''-XX:SharedArchiveFile='' @ rd_ArgArchive d \<in> set (rd_Args d))) \<and>
      (rd_Role d = RegenConsume \<longrightarrow> (\<exists>f. dir (rd_Key d @ ''.jsa'') = Some f \<and> 0 < f_size f)))"
proof -
  have k: "\<exists>f b. readJDKIdentity (rw_release w) (rw_internal w) = Some (f, b) \<and> 19 \<le> f \<and> key = regenKey sha (rp_ArtifactKey p) b"
    if "runKey sha w p = Some key" for key
    using that by (auto simp: runKey_def minRegenFeature_def split: option.splits if_splits)
  have n: "fst (DecideCDSRegen sha w p dir) = None \<longleftrightarrow> rp_JDKRoot p = '''' \<or> rp_ArtifactKey p = ''''"
  proof (cases "rp_JDKRoot p = '''' \<or> rp_ArtifactKey p = ''''")
    case True
    then show ?thesis by (simp add: DecideCDSRegen_def)
  next
    case False
    then obtain d dir' where "DecideCDSRegen sha w p dir = (Some d, dir')" using DecideCDSRegen_total by blast
    then show ?thesis using False by simp
  qed
  show ?thesis
  proof (intro conjI allI impI)
    fix d dir' assume D: "DecideCDSRegen sha w p dir = (Some d, dir')"
    show "rd_MountRW d \<longleftrightarrow> rd_Role d = RegenWrite" using D by (cases rule: DecideCDSRegen_cases) (simp_all add: decision_def)
    show "''-XX:+AutoCreateSharedArchive'' \<in> set (rd_Args d) \<longleftrightarrow> rd_Role d = RegenWrite"
      using D by (cases rule: DecideCDSRegen_cases) (simp_all add: decision_def)
    show "rd_Args d \<noteq> [] \<longleftrightarrow> rd_Role d \<in> {RegenConsume, RegenWrite}"
      using D by (cases rule: DecideCDSRegen_cases) (simp_all add: decision_def)
    show "\<exists>f. dir (rd_Key d @ ''.jsa'') = Some f \<and> 0 < f_size f" if "rd_Role d = RegenConsume"
      using D that by (cases rule: DecideCDSRegen_cases) auto
    show "\<exists>f b. readJDKIdentity (rw_release w) (rw_internal w) = Some (f, b) \<and> 19 \<le> f \<and>
         rd_Key d = regenKey sha (rp_ArtifactKey p) b \<and> ''-XX:SharedArchiveFile='' @ rd_ArgArchive d \<in> set (rd_Args d)"
      if "rd_Args d \<noteq> []"
      using D that k by (cases rule: DecideCDSRegen_cases) (auto simp: decision_def)
  qed (rule n)
qed

lemma seedArchive_other: "n \<noteq> dst \<Longrightarrow> seedArchive src dst now dir n = dir n"
  by (simp add: seedArchive_def split: option.split)

lemma writer_leaves_marker:
  assumes "DecideCDSRegen sha w p dir = (Some d, dir')" and "rd_Role d = RegenWrite" and "runKey sha w p = Some key"
  shows "\<exists>f. dir' (key @ ''.jsa'' @ writerMarkerSuffix) = Some f \<and> f_mtime f = rp_Now p"
  using assms(1)
proof (cases rule: DecideCDSRegen_cases)
  case (elect key' dir2 ttl)
  have "key' = key" using elect(2) assms(3) by simp
  moreover have "key @ ''.jsa'' @ writerMarkerSuffix \<noteq> key @ ''.jsa''" by (simp add: writerMarkerSuffix_def)
  ultimately show ?thesis
    using claimWriter_cases(1) [OF elect(7)] elect(8) seedArchive_other by auto
qed (use assms(2) in \<open>simp_all add: decision_def\<close>)

lemma no_second_writer:
  assumes "DecideCDSRegen sha w p dir = (Some d, dir')" and "runKey sha w p = Some key"
    and "dir (key @ ''.jsa'' @ writerMarkerSuffix) = Some f" and "rp_Now p - f_mtime f \<le> lockTTLOf p"
  shows "rd_Role d \<noteq> RegenWrite"
  using assms(1)
proof (cases rule: DecideCDSRegen_cases)
  case (elect key' dir2 ttl)
  have "key' = key" using elect(2) assms(2) by simp
  then show ?thesis using claimWriter_cases(4) [OF elect(7)] evict_keeps_key(2) assms(3,4) by simp
qed simp_all

text \<open>One writer at a time. If a launch was elected writer, then a later launch of the same artifact on the same
  JDK build, run on the cache the first one left and within the lock time, is not elected: it consumes,
  defers or skips.\<close>

lemma single_writer_sequential:
  assumes "DecideCDSRegen sha w p dir = (Some d, dir')" and "rd_Role d = RegenWrite"
    and "DecideCDSRegen sha w' p' dir' = (Some d', dir'')"
    and "runKey sha w' p' = runKey sha w p" and "rp_Now p' - rp_Now p \<le> lockTTLOf p'"
  shows "rd_Role d' \<in> {RegenConsume, RegenDefer, RegenSkip}"
proof -
  obtain key where key: "runKey sha w p = Some key"
    using assms(1) by (cases rule: DecideCDSRegen_cases) (use assms(2) in auto)
  obtain f where f: "dir' (key @ ''.jsa'' @ writerMarkerSuffix) = Some f" "f_mtime f = rp_Now p"
    using writer_leaves_marker [OF assms(1,2) key] by blast
  have "rd_Role d' \<noteq> RegenWrite" using no_second_writer [OF assms(3) _ f(1)] assms(4,5) key f(2) by simp
  then show ?thesis by (cases "rd_Role d'") auto
qed

text \<open>A seed is final. If a launch was elected writer and its non-empty seed was copied into an empty cache entry,
  then no later launch of this artifact on this JDK build is ever elected writer again, however much time
  passes: it maps the seed as it is (or regeneration is skipped), also when the writer never produced an
  archive of its own.\<close>

lemma seeded_archive_is_final:
  assumes "DecideCDSRegen sha w p dir = (Some d, dir')" and "rd_Role d = RegenWrite"
    and "rp_SeedArchive p \<noteq> ''''" and "rw_seed w = Some s" and "0 < f_size s"
    and "runKey sha w p = Some key" and "dir (key @ ''.jsa'') = None"
    and "DecideCDSRegen sha w' p' dir' = (Some d', dir'')" and "runKey sha w' p' = Some key"
  shows "rd_Role d' \<in> {RegenConsume, RegenSkip} \<and> dir'' (key @ ''.jsa'') = dir' (key @ ''.jsa'')"
proof -
  have s: "\<exists>f. dir' (key @ ''.jsa'') = Some f \<and> 0 < f_size f"
    using assms(1)
  proof (cases rule: DecideCDSRegen_cases)
    case (elect key' dir2 ttl)
    have e: "key' = key" using elect(2) assms(6) by simp
    have "key @ ''.jsa'' \<noteq> key @ ''.jsa'' @ writerMarkerSuffix" by (simp add: writerMarkerSuffix_def)
    then have "dir2 (key @ ''.jsa'') = None"
      using claimWriter_cases(3) [OF elect(7), of "key @ ''.jsa''"] e evict_keeps_key(1) assms(7) by simp
    then show ?thesis using elect(8) e assms(3,4,5) by (simp add: seedArchive_def)
  qed (use assms(2) in \<open>simp_all add: decision_def\<close>)
  from assms(8) show ?thesis
    by (cases rule: DecideCDSRegen_cases) (use s assms(9) evict_keeps_key(1) in auto)
qed

section \<open>Writer election with several processes\<close>

text \<open>The system calls of \<open>claimWriter\<close> as atomic steps of processes that share the marker of one key: the exclusive
  creation, the \<open>stat\<close> of an existing marker, and the \<open>chtimes\<close> that reclaims a stale one. Process \<open>i\<close> reads its
  clock once, when it starts. The marker is its modification time; the clock of the node only moves
  forward.\<close>

datatype pc = Idle | Opening | Existing | Reclaim | Won | Lost

record election =
  el_marker :: "int option"
  el_clock :: int
  el_pc :: "nat \<Rightarrow> pc"
  el_now :: "nat \<Rightarrow> int"

abbreviation goto :: "nat \<Rightarrow> pc \<Rightarrow> election \<Rightarrow> election" where
  "goto i c s \<equiv> s\<lparr>el_pc := (el_pc s)(i := c)\<rparr>"

inductive elect_step :: "int \<Rightarrow> election \<Rightarrow> election \<Rightarrow> bool" for ttl :: int where
  tick: "elect_step ttl s (s\<lparr>el_clock := el_clock s + 1\<rparr>)"
| start: "el_pc s i = Idle \<Longrightarrow> elect_step ttl s (goto i Opening (s\<lparr>el_now := (el_now s)(i := el_clock s)\<rparr>))"
| create: "el_pc s i = Opening \<Longrightarrow> el_marker s = None \<Longrightarrow> elect_step ttl s (goto i Won (s\<lparr>el_marker := Some (el_clock s)\<rparr>))"
| exists: "el_pc s i = Opening \<Longrightarrow> el_marker s = Some m \<Longrightarrow> elect_step ttl s (goto i Existing s)"
| stat_live: "el_pc s i = Existing \<Longrightarrow> el_marker s = Some m \<Longrightarrow> el_now s i - m \<le> ttl \<Longrightarrow> elect_step ttl s (goto i Lost s)"
| stat_stale: "el_pc s i = Existing \<Longrightarrow> el_marker s = Some m \<Longrightarrow> \<not> el_now s i - m \<le> ttl \<Longrightarrow> elect_step ttl s (goto i Reclaim s)"
| chtimes: "el_pc s i = Reclaim \<Longrightarrow> elect_step ttl s (goto i Won (s\<lparr>el_marker := Some (el_now s i)\<rparr>))"

definition elect_init :: "int option \<Rightarrow> int \<Rightarrow> election" where
  "elect_init m t = \<lparr>el_marker = m, el_clock = t, el_pc = (\<lambda>_. Idle), el_now = (\<lambda>_. 0)\<rparr>"

text \<open>The steps of one process alone are the sequential function.\<close>

lemma solo_run:
  assumes "el_pc s i = Opening" and "rw_createOK w" and "rw_chtimesOK w"
    and "el_now s i = el_clock s" and "el_marker s = map_option f_mtime (dir mk)"
  shows "\<exists>s'. (elect_step ttl)\<^sup>*\<^sup>* s s' \<and> (el_pc s' i = Won \<longleftrightarrow> fst (claimWriter w mk (el_now s i) ttl dir)) \<and>
     el_pc s' i \<in> {Won, Lost} \<and> el_marker s' = map_option f_mtime (snd (claimWriter w mk (el_now s i) ttl dir) mk)"
proof (cases "dir mk")
  case None
  let ?s1 = "goto i Won (s\<lparr>el_marker := Some (el_clock s)\<rparr>)"
  have "elect_step ttl s ?s1" using None assms by (intro elect_step.create) auto
  then have "(elect_step ttl)\<^sup>*\<^sup>* s ?s1" by (rule r_into_rtranclp)
  then show ?thesis using None assms by (intro exI [of _ ?s1] conjI) (auto simp: claimWriter_def)
next
  case (Some fi)
  let ?s1 = "goto i Existing s"
  have m: "el_marker s = Some (f_mtime fi)" using Some assms(5) by simp
  have 1: "elect_step ttl s ?s1" using assms(1) m by (rule elect_step.exists)
  show ?thesis
  proof (cases "el_now s i - f_mtime fi \<le> ttl")
    case True
    have "elect_step ttl ?s1 (goto i Lost ?s1)" using True m by (intro elect_step.stat_live) auto
    with 1 have "(elect_step ttl)\<^sup>*\<^sup>* s (goto i Lost ?s1)" by (meson converse_rtranclp_into_rtranclp r_into_rtranclp)
    then show ?thesis using True Some m by (intro exI [of _ "goto i Lost ?s1"] conjI) (simp_all add: claimWriter_def)
  next
    case False
    let ?s2 = "goto i Reclaim ?s1" and ?s3 = "goto i Won (goto i Reclaim ?s1\<lparr>el_marker := Some (el_now s i)\<rparr>)"
    have "elect_step ttl ?s1 ?s2" using False m by (intro elect_step.stat_stale) auto
    moreover have "elect_step ttl ?s2 ?s3" using elect_step.chtimes [of ?s2 i ttl] by simp
    ultimately have "(elect_step ttl)\<^sup>*\<^sup>* s ?s3" using 1 by (meson converse_rtranclp_into_rtranclp r_into_rtranclp)
    then show ?thesis using False Some assms(3) by (intro exI [of _ ?s3] conjI) (simp_all add: claimWriter_def)
  qed
qed

text \<open>The invariant while no marker can be stale.\<close>

definition elect_inv :: "int \<Rightarrow> int \<Rightarrow> election \<Rightarrow> bool" where
  "elect_inv t0 ttl s \<longleftrightarrow>
     t0 \<le> el_clock s \<and> (\<forall>m. el_marker s = Some m \<longrightarrow> t0 \<le> m) \<and>
     (\<forall>i. el_pc s i \<noteq> Idle \<longrightarrow> el_now s i \<le> el_clock s) \<and>
     (el_clock s \<le> t0 + ttl \<longrightarrow>
        (\<forall>i. el_pc s i \<noteq> Reclaim) \<and>
        (\<forall>i j. el_pc s i = Won \<longrightarrow> el_pc s j = Won \<longrightarrow> i = j) \<and>
        (el_marker s = None \<longrightarrow> (\<forall>i. el_pc s i \<noteq> Won)))"

lemma elect_inv_step:
  assumes "elect_inv t0 ttl s" and "elect_step ttl s s'" and "el_clock s' \<le> t0 + ttl" shows "elect_inv t0 ttl s'"
  using assms(2,1,3)
proof (induction rule: elect_step.induct)
  case (stat_stale s i m)
  then have "t0 \<le> m" "el_now s i \<le> el_clock s" by (auto simp: elect_inv_def)
  then have "el_now s i - m \<le> ttl" using stat_stale by simp
  then show ?case using stat_stale by blast
next
  case (chtimes s i)
  then have "el_pc s i \<noteq> Reclaim" by (simp add: elect_inv_def)
  then show ?case using chtimes by blast
qed (auto simp: elect_inv_def split: if_splits)

lemma clock_mono: "(elect_step ttl)\<^sup>*\<^sup>* s s' \<Longrightarrow> el_clock s \<le> el_clock s'"
proof (induction rule: rtranclp_induct)
  case (step y z)
  from step(2) have "el_clock y \<le> el_clock z" by (induction rule: elect_step.induct) auto
  then show ?case using step by simp
qed simp

lemma elect_inv_reach:
  assumes "(elect_step ttl)\<^sup>*\<^sup>* (elect_init None t0) s" and "el_clock s \<le> t0 + ttl" shows "elect_inv t0 ttl s"
  using assms
proof (induction rule: rtranclp_induct)
  case base
  then show ?case by (simp add: elect_inv_def elect_init_def)
next
  case (step y z)
  have "el_clock y \<le> el_clock z" using clock_mono step(2) by blast
  then show ?case using step elect_inv_step by fastforce
qed

text \<open>C14: the election is exclusive while the lock is fresh. If no marker exists when the first process starts, then in
  every interleaving of any number of processes at most one has become the writer as long as the lock time
  has not passed since then.\<close>

theorem election_exclusive:
  assumes "(elect_step ttl)\<^sup>*\<^sup>* (elect_init None t0) s" and "el_clock s \<le> t0 + ttl"
    and "el_pc s i = Won" and "el_pc s j = Won"
  shows "i = j"
  using elect_inv_reach [OF assms(1,2)] assms(2-4) by (simp add: elect_inv_def)

text \<open>Reclaiming a stale marker is not exclusive. From a marker older than the lock time there is an interleaving of
  two processes in which both become the writer of the same archive.\<close>

lemma stale_reclaim_is_not_exclusive:
  "\<exists>s. (elect_step 10)\<^sup>*\<^sup>* (elect_init (Some 0) 100) s \<and> el_pc s 0 = Won \<and> el_pc s 1 = Won"
proof -
  define s0 where "s0 = elect_init (Some 0) 100"
  define s1 where "s1 = goto 0 Opening (s0\<lparr>el_now := (el_now s0)(0 := el_clock s0)\<rparr>)"
  define s2 where "s2 = goto 1 Opening (s1\<lparr>el_now := (el_now s1)(1 := el_clock s1)\<rparr>)"
  define s3 where "s3 = goto 0 Existing s2"
  define s4 where "s4 = goto 1 Existing s3"
  define s5 where "s5 = goto 0 Reclaim s4"
  define s6 where "s6 = goto 1 Reclaim s5"
  define s7 where "s7 = goto 0 Won (s6\<lparr>el_marker := Some (el_now s6 0)\<rparr>)"
  define s8 where "s8 = goto 1 Won (s7\<lparr>el_marker := Some (el_now s7 1)\<rparr>)"
  note d = s0_def s1_def s2_def s3_def s4_def s5_def s6_def s7_def s8_def elect_init_def
  have a: "elect_step 10 s0 s1" unfolding s1_def by (rule elect_step.start) (simp add: d)
  have b: "elect_step 10 s1 s2" unfolding s2_def by (rule elect_step.start) (simp add: d)
  have c: "elect_step 10 s2 s3" unfolding s3_def by (rule elect_step.exists [of _ _ 0]) (simp_all add: d)
  have e: "elect_step 10 s3 s4" unfolding s4_def by (rule elect_step.exists [of _ _ 0]) (simp_all add: d)
  have f: "elect_step 10 s4 s5" unfolding s5_def by (rule elect_step.stat_stale [of _ _ 0]) (simp_all add: d)
  have g: "elect_step 10 s5 s6" unfolding s6_def by (rule elect_step.stat_stale [of _ _ 0]) (simp_all add: d)
  have h: "elect_step 10 s6 s7" unfolding s7_def by (rule elect_step.chtimes) (simp add: d)
  have i: "elect_step 10 s7 s8" unfolding s8_def by (rule elect_step.chtimes) (simp add: d)
  have "(elect_step 10)\<^sup>*\<^sup>* s0 s8" using a b c e f g h i by (meson rtranclp.rtrancl_into_rtrancl rtranclp.rtrancl_refl)
  then show ?thesis by (intro exI [of _ s8] conjI) (simp_all add: d)
qed

section \<open>Witnesses\<close>

definition exampleWorld :: regen_world where
  "exampleWorld = \<lparr>rw_release = None, rw_internal = Some ''VM (21.0.5+11-LTS) for linux'', rw_mkdirOK = True,
     rw_listing = Some [], rw_createOK = True, rw_chtimesOK = True, rw_seed = Some \<lparr>f_size = 5, f_mtime = 0\<rparr>\<rparr>"

definition exampleParams :: "string \<Rightarrow> int \<Rightarrow> RegenParams" where
  "exampleParams seed now = \<lparr>rp_CacheDir = '''', rp_JDKRoot = ''/opt/jdk'', rp_ArtifactKey = ''sha256:ab'', rp_SeedArchive = seed,
     rp_ArchiveArgDir = InSandboxCDSDir, rp_Now = now, rp_LockTTL = 10, rp_EvictTTL = 0\<rparr>"

lemma example_identity:
  "readJDKIdentity (rw_release exampleWorld) (rw_internal exampleWorld) = Some (21, ''VM (21.0.5+11-LTS) for linux'')"
  by code_simp

definition idHash :: "string \<Rightarrow> string" where "idHash s = s"

definition exampleKey :: string where "exampleKey = regenKey idHash ''sha256:ab'' ''VM (21.0.5+11-LTS) for linux''"

lemma example_key: "runKey idHash exampleWorld (exampleParams s now) = Some exampleKey"
  by (simp add: runKey_def example_identity minRegenFeature_def exampleKey_def exampleParams_def)

lemma example_root: "rp_JDKRoot (exampleParams s now) \<noteq> ''''"
  by (simp add: exampleParams_def)

lemma example_artifact: "rp_ArtifactKey (exampleParams s now) \<noteq> ''''"
  by (simp add: exampleParams_def)

lemma example_writes:
  "\<exists>d dir'. DecideCDSRegen idHash exampleWorld (exampleParams s now) Map.empty = (Some d, dir') \<and> rd_Role d = RegenWrite"
proof -
  have "exampleWorld = exampleWorld\<lparr>rw_mkdirOK := True, rw_createOK := True, rw_listing := Some []\<rparr>" by (simp add: exampleWorld_def)
  then have w: "rw_mkdirOK exampleWorld" "rw_createOK exampleWorld" "rw_listing exampleWorld = Some []" by (simp_all add: exampleWorld_def)
  show ?thesis
    unfolding DecideCDSRegen_def Let_def example_identity
    by (simp add: w exampleParams_def minRegenFeature_def evictStaleArchives_def claimWriter_def)
qed

theorem DecideCDSRegen_safe_witness:
  "\<exists>d dir'. DecideCDSRegen idHash exampleWorld (exampleParams '''' 0) Map.empty = (Some d, dir') \<and>
     ''-XX:+AutoCreateSharedArchive'' \<in> set (rd_Args d)"
proof -
  obtain d dir' where D: "DecideCDSRegen idHash exampleWorld (exampleParams '''' 0) Map.empty = (Some d, dir')" "rd_Role d = RegenWrite"
    using example_writes by blast
  with DecideCDSRegen_safe [of idHash exampleWorld "exampleParams '''' 0" Map.empty] show ?thesis by blast
qed

theorem single_writer_sequential_witness:
  "\<exists>d dir' d' dir''. DecideCDSRegen idHash exampleWorld (exampleParams '''' 0) Map.empty = (Some d, dir') \<and>
     DecideCDSRegen idHash exampleWorld (exampleParams '''' 5) dir' = (Some d', dir'') \<and> rd_Role d' \<noteq> RegenWrite"
proof -
  obtain d dir' where D: "DecideCDSRegen idHash exampleWorld (exampleParams '''' 0) Map.empty = (Some d, dir')" "rd_Role d = RegenWrite"
    using example_writes by blast
  obtain d' dir'' where D': "DecideCDSRegen idHash exampleWorld (exampleParams '''' 5) dir' = (Some d', dir'')"
    using DecideCDSRegen_total [OF example_root example_artifact] by blast
  have "rd_Role d' \<in> {RegenConsume, RegenDefer, RegenSkip}"
    using single_writer_sequential [OF D D'] by (simp add: example_key) (simp add: exampleParams_def lockTTLOf_def)
  with D D' show ?thesis by auto
qed

theorem seeded_archive_is_final_witness:
  "\<exists>d dir' d' dir''. DecideCDSRegen idHash exampleWorld (exampleParams ''app.jsa'' 0) Map.empty = (Some d, dir') \<and>
     DecideCDSRegen idHash exampleWorld (exampleParams ''app.jsa'' 1000000) dir' = (Some d', dir'') \<and>
     rd_Role d' \<in> {RegenConsume, RegenSkip}"
proof -
  obtain d dir' where D: "DecideCDSRegen idHash exampleWorld (exampleParams ''app.jsa'' 0) Map.empty = (Some d, dir')" "rd_Role d = RegenWrite"
    using example_writes by blast
  obtain d' dir'' where D': "DecideCDSRegen idHash exampleWorld (exampleParams ''app.jsa'' 1000000) dir' = (Some d', dir'')"
    using DecideCDSRegen_total [OF example_root example_artifact] by blast
  have s: "rp_SeedArchive (exampleParams ''app.jsa'' 0) \<noteq> ''''" "rw_seed exampleWorld = Some \<lparr>f_size = 5, f_mtime = 0\<rparr>"
    by (simp_all add: exampleParams_def exampleWorld_def)
  have "rd_Role d' \<in> {RegenConsume, RegenSkip}"
    using seeded_archive_is_final [OF D s _ example_key _ D' example_key] by simp
  with D D' show ?thesis by auto
qed

theorem election_exclusive_witness:
  "\<exists>s. (elect_step 10)\<^sup>*\<^sup>* (elect_init None 0) s \<and> el_pc s 3 = Won \<and> (\<forall>j. el_pc s j = Won \<longrightarrow> j = 3)"
proof -
  define s1 where "s1 = goto 3 Opening ((elect_init None 0)\<lparr>el_now := (el_now (elect_init None 0))(3 := el_clock (elect_init None 0))\<rparr>)"
  define s2 where "s2 = goto 3 Won (s1\<lparr>el_marker := Some (el_clock s1)\<rparr>)"
  have "elect_step 10 (elect_init None 0) s1" unfolding s1_def by (rule elect_step.start) (simp add: elect_init_def)
  moreover have "elect_step 10 s1 s2" unfolding s2_def by (rule elect_step.create) (simp_all add: s1_def elect_init_def)
  ultimately have r: "(elect_step 10)\<^sup>*\<^sup>* (elect_init None 0) s2" by (meson converse_rtranclp_into_rtranclp r_into_rtranclp)
  have w: "el_pc s2 3 = Won" "el_clock s2 \<le> 0 + 10" by (simp_all add: s2_def s1_def elect_init_def)
  have "j = 3" if "el_pc s2 j = Won" for j using election_exclusive [OF r w(2) that w(1)] .
  with r w(1) show ?thesis by blast
qed

end
