(* ===== verification/Bundle.thy ===== *)
theory Bundle
  imports Launch Cds_Regen "HOL-Library.Word"
begin

text \<open>
  Generation of an OCI runtime bundle (\<open>src/core/internal/runtime/bundle.go\<close>): the runtime specification that
  runs an application on a node-resident JDK, with its mounts, environment, user and cgroup limits, and the
  files staged for it. The JSON encoder is the argument \<open>marshal\<close>; \<open>regen_env\<close> holds what the regeneration
  decision reads from the node.
\<close>

section \<open>The runtime specification\<close>

type_synonym uint32 = "32 word"

record ociMount =
  mt_Destination :: string
  mt_Type :: string
  mt_Source :: string
  mt_Options :: "string list"

record ociCPU =
  cpu_Quota :: int
  cpu_Period :: int

record ociResources =
  res_MemoryLimit :: "int option"
  res_CPU :: "ociCPU option"

record ociSpec =
  oci_Version :: string
  oci_UID :: uint32
  oci_GID :: uint32
  oci_Args :: "string list"
  oci_Env :: "string list"
  oci_Cwd :: string
  oci_RootPath :: string
  oci_RootReadonly :: bool
  oci_Hostname :: string
  oci_Mounts :: "ociMount list"
  oci_Namespaces :: "string list"
  oci_Resources :: ociResources

record Resources =
  lim_CPU :: string
  lim_Memory :: string

record CDSRegenOptions =
  ro_Regenerate :: bool
  ro_ArtifactKey :: string
  ro_CacheDir :: string

text \<open>The floating-point steps (see \<open>parseMemory\<close>), with \<open>quota\<close> for the rounding of the CPU quota, and the inputs of
  a regeneration decision.\<close>

record float_ops =
  fl_scaled :: "string \<Rightarrow> int \<Rightarrow> int option"
  fl_quota :: "int \<Rightarrow> int"

record regen_env =
  re_sha :: "string \<Rightarrow> string"
  re_world :: regen_world
  re_now :: int

definition nonEmpty :: "string \<Rightarrow> string \<Rightarrow> string" where
  "nonEmpty s def = (if s = '''' then def else s)"

definition buildResources :: "float_ops \<Rightarrow> Resources \<Rightarrow> ociResources" where
  "buildResources fl res =
     \<lparr>res_MemoryLimit = (if lim_Memory res \<noteq> '''' then parseMemory (fl_scaled fl) (lim_Memory res) else None),
      res_CPU = (if lim_CPU res \<noteq> ''''
        then (case parseCPU (fl_scaled fl) (lim_CPU res) of None \<Rightarrow> None
              | Some millis \<Rightarrow> Some \<lparr>cpu_Quota = fl_quota fl millis, cpu_Period = 100000\<rparr>)
        else None)\<rparr>"

definition bindRO :: "string \<Rightarrow> string \<Rightarrow> ociMount" where
  "bindRO dst src = \<lparr>mt_Destination = dst, mt_Type = ''bind'', mt_Source = src, mt_Options = [''rbind'', ''ro'']\<rparr>"

text \<open>The mounts every bundle has besides the JDK and the JAR.\<close>

definition systemMounts :: "ociMount list" where
  "systemMounts =
    [\<lparr>mt_Destination = ''/proc'', mt_Type = ''proc'', mt_Source = ''proc'', mt_Options = []\<rparr>,
     \<lparr>mt_Destination = ''/dev'', mt_Type = ''tmpfs'', mt_Source = ''tmpfs'', mt_Options = [''nosuid'', ''strictatime'', ''mode=755'', ''size=65536k'']\<rparr>,
     \<lparr>mt_Destination = ''/dev/pts'', mt_Type = ''devpts'', mt_Source = ''devpts'',
      mt_Options = [''nosuid'', ''noexec'', ''newinstance'', ''ptmxmode=0666'', ''mode=0620'']\<rparr>,
     \<lparr>mt_Destination = ''/dev/shm'', mt_Type = ''tmpfs'', mt_Source = ''shm'', mt_Options = [''nosuid'', ''noexec'', ''nodev'', ''mode=1777'', ''size=65536k'']\<rparr>,
     \<lparr>mt_Destination = ''/dev/mqueue'', mt_Type = ''mqueue'', mt_Source = ''mqueue'', mt_Options = [''nosuid'', ''noexec'', ''nodev'']\<rparr>,
     \<lparr>mt_Destination = ''/sys'', mt_Type = ''sysfs'', mt_Source = ''sysfs'', mt_Options = [''nosuid'', ''noexec'', ''nodev'', ''ro'']\<rparr>,
     \<lparr>mt_Destination = ''/sys/fs/cgroup'', mt_Type = ''cgroup'', mt_Source = ''cgroup'', mt_Options = [''nosuid'', ''noexec'', ''nodev'', ''relatime'', ''ro'']\<rparr>,
     \<lparr>mt_Destination = ''/tmp'', mt_Type = ''tmpfs'', mt_Source = ''tmpfs'', mt_Options = [''nosuid'', ''nodev'']\<rparr>]"

section \<open>Regeneration\<close>

text \<open>The seed, the decision and the mount of the archive cache. Both the bundle and the shim compute them this
  way.\<close>

definition seedOf :: "JVMConfig \<Rightarrow> string \<Rightarrow> string" where
  "seedOf cfg cdsHostPath =
     (case cfg_CDS cfg of
        Some cds \<Rightarrow> if cdsHostPath \<noteq> '''' \<and> cds_Archive cds \<noteq> '''' then cdsHostPath else ''''
      | None \<Rightarrow> '''')"

definition regenParams :: "string \<Rightarrow> string \<Rightarrow> string \<Rightarrow> string \<Rightarrow> int \<Rightarrow> RegenParams" where
  "regenParams cacheDir jdkRoot artifactKey seed now =
     \<lparr>rp_CacheDir = cacheDir, rp_JDKRoot = jdkRoot, rp_ArtifactKey = artifactKey, rp_SeedArchive = seed,
      rp_ArchiveArgDir = InSandboxCDSDir, rp_Now = now, rp_LockTTL = 0, rp_EvictTTL = 0\<rparr>"

definition decideRegen ::
  "regen_env \<Rightarrow> bool \<Rightarrow> string \<Rightarrow> string \<Rightarrow> string \<Rightarrow> string \<Rightarrow> cache \<Rightarrow> RegenDecision option \<times> cache" where
  "decideRegen re regenerate artifactKey cacheDir jdkRoot seed dir =
     (if regenerate \<and> artifactKey \<noteq> ''''
      then DecideCDSRegen (re_sha re) (re_world re) (regenParams cacheDir jdkRoot artifactKey seed (re_now re)) dir
      else (Some (decision RegenSkip ''''), dir))"

definition cacheMount :: "RegenDecision \<Rightarrow> string \<Rightarrow> ociMount list" where
  "cacheMount dec cacheDir =
     (if rd_Role dec = RegenConsume \<or> rd_Role dec = RegenWrite
      then [\<lparr>mt_Destination = InSandboxCDSDir, mt_Type = ''bind'', mt_Source = cacheDir,
             mt_Options = [''rbind'', if rd_MountRW dec then ''rw'' else ''ro'']\<rparr>]
      else [])"

section \<open>The bundle\<close>

definition layerMount :: "string list \<Rightarrow> string \<Rightarrow> string \<Rightarrow> ociMount list" where
  "layerMount tars dst src = (if length tars > 0 then [bindRO dst src] else [])"

definition archiveMount :: "JVMConfig \<Rightarrow> bool \<Rightarrow> string \<Rightarrow> ociMount list" where
  "archiveMount cfg regenerate cdsHostPath =
     (case cfg_CDS cfg of
        Some cds \<Rightarrow> if \<not> regenerate \<and> cdsHostPath \<noteq> '''' \<and> cds_Archive cds \<noteq> ''''
          then [bindRO (''/app/'' @ cds_Archive cds) cdsHostPath] else []
      | None \<Rightarrow> [])"

definition launcherMount :: "string \<Rightarrow> string \<Rightarrow> ociMount list" where
  "launcherMount launcherName launcherRoot =
     (if \<not> IsVanillaLauncher launcherName \<and> launcherRoot \<noteq> '''' then [bindRO ''/opt/brewlet/launcher'' launcherRoot] else [])"

definition launchPath :: "string \<Rightarrow> string \<Rightarrow> string" where
  "launchPath launcherName launcherRoot =
     (if \<not> IsVanillaLauncher launcherName \<and> launcherRoot \<noteq> ''''
      then ''/opt/brewlet/launcher/bin:'' @ ''/opt/jdk/bin:/usr/bin:/bin'' else ''/opt/jdk/bin:/usr/bin:/bin'')"

definition launchEnv :: "JVMConfig \<Rightarrow> string \<Rightarrow> string \<Rightarrow> string list" where
  "launchEnv cfg launcherName launcherRoot =
     [''PATH='' @ launchPath launcherName launcherRoot, ''JAVA_HOME=/opt/jdk''] @ map (\<lambda>(n, v). n @ ''='' @ v) (cfg_Env cfg)"

definition bundleSpec ::
  "float_ops \<Rightarrow> JVMConfig \<Rightarrow> string \<Rightarrow> string \<Rightarrow> string \<Rightarrow> string list \<Rightarrow> string list \<Rightarrow> string \<Rightarrow> string \<Rightarrow> Resources \<Rightarrow>
   CDSRegenOptions \<Rightarrow> string list \<Rightarrow> RegenDecision \<Rightarrow> string \<Rightarrow> ociSpec" where
  "bundleSpec fl cfg jdkRoot launcherRoot launcherName classpathTars modulepathTars cdsHostPath outDir res regen jvmArgs dec jarSource =
     (let inSandboxJar = ''/app/'' @ nonEmpty (cfg_MainJar cfg) ''app.jar'';
          cacheDir = (if ro_CacheDir regen = '''' then DefaultCDSCacheDir else ro_CacheDir regen)
      in \<lparr>oci_Version = ''1.1.0'',
          oci_UID = (case cfg_User cfg of None \<Rightarrow> 0 | Some u \<Rightarrow> word_of_int (u_UID u)),
          oci_GID = (case cfg_User cfg of None \<Rightarrow> 0 | Some u \<Rightarrow> word_of_int (u_GID u)),
          oci_Args = LauncherName launcherName # rd_Args dec @ jvmArgs,
          oci_Env = launchEnv cfg launcherName launcherRoot,
          oci_Cwd = ''/app'', oci_RootPath = ''rootfs'', oci_RootReadonly = True, oci_Hostname = ''brewlet'',
          oci_Mounts = [bindRO ''/opt/jdk'' jdkRoot, bindRO inSandboxJar jarSource] @ systemMounts @
            layerMount classpathTars ''/app/lib'' (PathJoin [outDir, ''lib'']) @
            layerMount modulepathTars ''/app/mods'' (PathJoin [outDir, ''mods'']) @
            archiveMount cfg (ro_Regenerate regen) cdsHostPath @ cacheMount dec cacheDir @
            launcherMount launcherName launcherRoot,
          oci_Namespaces = [''pid'', ''ipc'', ''uts'', ''mount'', ''cgroup''],
          oci_Resources = buildResources fl res\<rparr>)"

definition GenerateBundleWithRegen ::
  "host \<Rightarrow> float_ops \<Rightarrow> (ociSpec \<Rightarrow> bytes) \<Rightarrow> regen_env \<Rightarrow> JVMConfig \<Rightarrow> string \<Rightarrow> string \<Rightarrow> string \<Rightarrow> string \<Rightarrow>
   string list \<Rightarrow> string list \<Rightarrow> string \<Rightarrow> string \<Rightarrow> Resources \<Rightarrow> string list \<Rightarrow> CDSRegenOptions \<Rightarrow> cache \<Rightarrow>
   (launch_error, ociSpec) io \<times> cache" where
  "GenerateBundleWithRegen h fl marshal re cfg jdkRoot launcherRoot launcherName jarHostPath classpathTars modulepathTars
     cdsHostPath outDir res extraArgs regen dir =
     (let mk = MkdirAll (PathJoin [outDir, ''rootfs'']);
          main = nonEmpty (cfg_MainJar cfg) ''app.jar''
      in if \<not> h_ok h mk then (([mk], Inl (OpFailed mk)), dir)
         else
           (case BuildJVMArgs cfg (''/app/'' @ main) extraArgs (ro_Regenerate regen) of
              Inl e \<Rightarrow> (([mk], Inl (ConfigError e)), dir)
            | Inr jvmArgs \<Rightarrow>
                (let cacheDir = (if ro_CacheDir regen = '''' then DefaultCDSCacheDir else ro_CacheDir regen) in
                 case decideRegen re (ro_Regenerate regen) (ro_ArtifactKey regen) cacheDir jdkRoot (seedOf cfg cdsHostPath) dir of
                   (None, dir') \<Rightarrow> (([mk], Inl (ReadFailed ''cds regen'')), dir')
                 | (Some dec, dir') \<Rightarrow>
                     (let pinMtime = shipsCDS cfg \<or> ro_Regenerate regen in
                      (thenIO (perform h OpFailed mk)
                       (thenIO (stageInto h pinMtime classpathTars (PathJoin [outDir, ''lib'']))
                       (thenIO (stageInto h pinMtime modulepathTars (PathJoin [outDir, ''mods'']))
                       (bindIO (if pinMtime then StageCDSJar h jarHostPath (PathJoin [outDir, ''brewlet-app'']) main
                                else returnIO jarHostPath) (\<lambda>jarSource.
                          (let spec = bundleSpec fl cfg jdkRoot launcherRoot launcherName classpathTars modulepathTars cdsHostPath
                                 outDir res regen jvmArgs dec jarSource
                           in thenIO (perform h OpFailed (WriteFile (PathJoin [outDir, ''config.json'']) (marshal spec)))
                                (returnIO spec)))))),
                       dir')))))"

text \<open>The entry points for a bundle without regeneration, without an archive and without a launcher layer.\<close>

definition GenerateBundleWithCDS ::
  "host \<Rightarrow> float_ops \<Rightarrow> (ociSpec \<Rightarrow> bytes) \<Rightarrow> regen_env \<Rightarrow> JVMConfig \<Rightarrow> string \<Rightarrow> string \<Rightarrow> string \<Rightarrow> string \<Rightarrow>
   string list \<Rightarrow> string list \<Rightarrow> string \<Rightarrow> string \<Rightarrow> Resources \<Rightarrow> string list \<Rightarrow> cache \<Rightarrow> (launch_error, ociSpec) io \<times> cache" where
  "GenerateBundleWithCDS h fl marshal re cfg jdkRoot launcherRoot launcherName jarHostPath classpathTars modulepathTars
     cdsHostPath outDir res extraArgs dir =
     GenerateBundleWithRegen h fl marshal re cfg jdkRoot launcherRoot launcherName jarHostPath classpathTars modulepathTars
       cdsHostPath outDir res extraArgs \<lparr>ro_Regenerate = False, ro_ArtifactKey = '''', ro_CacheDir = ''''\<rparr> dir"

definition GenerateBundleWithLauncher ::
  "host \<Rightarrow> float_ops \<Rightarrow> (ociSpec \<Rightarrow> bytes) \<Rightarrow> regen_env \<Rightarrow> JVMConfig \<Rightarrow> string \<Rightarrow> string \<Rightarrow> string \<Rightarrow> string \<Rightarrow>
   string list \<Rightarrow> string list \<Rightarrow> string \<Rightarrow> Resources \<Rightarrow> string list \<Rightarrow> cache \<Rightarrow> (launch_error, ociSpec) io \<times> cache" where
  "GenerateBundleWithLauncher h fl marshal re cfg jdkRoot launcherRoot launcherName jarHostPath classpathTars modulepathTars
     outDir res extraArgs dir =
     GenerateBundleWithCDS h fl marshal re cfg jdkRoot launcherRoot launcherName jarHostPath classpathTars modulepathTars ''''
       outDir res extraArgs dir"

definition GenerateBundle ::
  "host \<Rightarrow> float_ops \<Rightarrow> (ociSpec \<Rightarrow> bytes) \<Rightarrow> regen_env \<Rightarrow> JVMConfig \<Rightarrow> string \<Rightarrow> string \<Rightarrow> string \<Rightarrow> Resources \<Rightarrow> string list \<Rightarrow>
   cache \<Rightarrow> (launch_error, ociSpec) io \<times> cache" where
  "GenerateBundle h fl marshal re cfg jdkRoot jarHostPath outDir res extraArgs dir =
     GenerateBundleWithLauncher h fl marshal re cfg jdkRoot '''' '''' jarHostPath [] [] outDir res extraArgs dir"

section \<open>What a generated bundle holds\<close>

lemma DecideCDSRegen_archive:
  assumes "DecideCDSRegen sha w p dir = (Some d, dir')" and "rp_ArchiveArgDir p \<noteq> ''''" and "rd_Args d \<noteq> []"
  shows "rd_ArgArchive d = TrimRightChar slash (rp_ArchiveArgDir p) @ ''/'' @ rd_Key d @ ''.jsa''"
proof -
  let ?Q = "\<lambda>d :: RegenDecision. rd_Args d \<noteq> [] \<longrightarrow> rd_ArgArchive d = TrimRightChar slash (rp_ArchiveArgDir p) @ ''/'' @ rd_Key d @ ''.jsa''"
  let ?P = "\<lambda>x :: RegenDecision option \<times> cache. \<forall>d dir'. x = (Some d, dir') \<longrightarrow> ?Q d"
  have i: "?P x \<Longrightarrow> ?P y \<Longrightarrow> ?P (if b then x else y)" for b x y by simp
  have c: "?Q x \<Longrightarrow> ?Q z \<Longrightarrow> ?P (case r of (True, dir2) \<Rightarrow> (Some x, y dir2) | (False, dir2) \<Rightarrow> (Some z, dir2))" for r x y z
    by (simp split: prod.split bool.split)
  have s: "?Q x \<Longrightarrow> ?P (Some x, y)" for x y by simp
  have n: "?P (None, y)" for y by simp
  have o: "?P x \<Longrightarrow> (\<And>f b. ?P (g f b)) \<Longrightarrow> ?P (case r of None \<Rightarrow> x | Some (f, b) \<Rightarrow> g f b)" for r :: "(int \<times> string) option" and x g
    by (simp split: option.split prod.split)
  have "?P (DecideCDSRegen sha w p dir)"
    unfolding DecideCDSRegen_def Let_def
    by (intro i s c n o) (simp_all add: decision_def assms(2))
  then show ?thesis using assms by blast
qed

text \<open>The parts of a successful run.\<close>

lemma GenerateBundle_success:
  assumes "fst (GenerateBundleWithRegen h fl marshal re cfg jdkRoot lroot lname jar cps mps cds outDir res extra regen dir)
     = (ops, Inr spec)"
  obtains jvmArgs dec dir' jarSource where
    "BuildJVMArgs cfg (''/app/'' @ nonEmpty (cfg_MainJar cfg) ''app.jar'') extra (ro_Regenerate regen) = Inr jvmArgs"
    "decideRegen re (ro_Regenerate regen) (ro_ArtifactKey regen) (if ro_CacheDir regen = '''' then DefaultCDSCacheDir else ro_CacheDir regen)
       jdkRoot (seedOf cfg cds) dir = (Some dec, dir')"
    "spec = bundleSpec fl cfg jdkRoot lroot lname cps mps cds outDir res regen jvmArgs dec jarSource"
    "if shipsCDS cfg \<or> ro_Regenerate regen
     then jarSource = PathJoin [PathJoin [outDir, ''brewlet-app''], nonEmpty (cfg_MainJar cfg) ''app.jar''] \<and> Chtimes jarSource \<in> set ops
     else jarSource = jar"
    "WriteFile (PathJoin [outDir, ''config.json'']) (marshal spec) \<in> set ops"
    "shipsCDS cfg \<or> ro_Regenerate regen \<Longrightarrow> cps \<noteq> [] \<Longrightarrow> ChtimesUnder (PathJoin [outDir, ''lib'']) \<in> set ops"
    "shipsCDS cfg \<or> ro_Regenerate regen \<Longrightarrow> mps \<noteq> [] \<Longrightarrow> ChtimesUnder (PathJoin [outDir, ''mods'']) \<in> set ops"
proof -
  let ?main = "nonEmpty (cfg_MainJar cfg) ''app.jar''"
  let ?cache = "if ro_CacheDir regen = '''' then DefaultCDSCacheDir else ro_CacheDir regen"
  let ?pin = "shipsCDS cfg \<or> ro_Regenerate regen"
  let ?mk = "MkdirAll (PathJoin [outDir, ''rootfs''])"
  obtain jvmArgs where a: "h_ok h ?mk"
      "BuildJVMArgs cfg (''/app/'' @ ?main) extra (ro_Regenerate regen) = Inr jvmArgs"
    using assms by (auto simp: GenerateBundleWithRegen_def Let_def split: if_splits sum.splits)
  obtain dec dir' where d: "decideRegen re (ro_Regenerate regen) (ro_ArtifactKey regen) ?cache jdkRoot (seedOf cfg cds) dir = (Some dec, dir')"
    using assms a by (auto simp: GenerateBundleWithRegen_def Let_def split: prod.splits option.splits)
  let ?stage = "if ?pin then StageCDSJar h jar (PathJoin [outDir, ''brewlet-app'']) ?main else returnIO jar"
  let ?spec = "\<lambda>j. bundleSpec fl cfg jdkRoot lroot lname cps mps cds outDir res regen jvmArgs dec j"
  define run where "run = thenIO (perform h OpFailed ?mk) (thenIO (stageInto h ?pin cps (PathJoin [outDir, ''lib'']))
     (thenIO (stageInto h ?pin mps (PathJoin [outDir, ''mods'']))
     (bindIO ?stage (\<lambda>j. thenIO (perform h OpFailed (WriteFile (PathJoin [outDir, ''config.json'']) (marshal (?spec j)))) (returnIO (?spec j))))))"
  have r: "run = (ops, Inr spec)" using assms a d by (simp add: GenerateBundleWithRegen_def Let_def run_def)
  then have ok: "snd run = Inr spec" and ops: "fst run = ops" by simp_all
  obtain j where j: "snd ?stage = Inr j" "spec = ?spec j"
      "snd (stageInto h ?pin cps (PathJoin [outDir, ''lib''])) = Inr ()"
      "snd (stageInto h ?pin mps (PathJoin [outDir, ''mods''])) = Inr ()"
    using ok a(1) unfolding run_def by (auto simp: io_ok)
  have jar: "if ?pin then j = PathJoin [PathJoin [outDir, ''brewlet-app''], ?main] \<and> Chtimes j \<in> set (fst ?stage) else j = jar"
    using j(1) by (auto simp: StageCDSJar_def pinCDSModTime_def io_ok io_ops Let_def)
  have o: "op \<in> set ops" if "op \<in> set (fst ?stage) \<or> op \<in> set (fst (stageInto h ?pin cps (PathJoin [outDir, ''lib'']))) \<or>
      op \<in> set (fst (stageInto h ?pin mps (PathJoin [outDir, ''mods'']))) \<or>
      op = WriteFile (PathJoin [outDir, ''config.json'']) (marshal spec)" for op
    using that j a(1) unfolding ops [symmetric] run_def by (auto simp: io_ops)
  have u: "ChtimesUnder p \<in> set (fst (stageInto h True ts p))" if "snd (stageInto h True ts p) = Inr ()" "ts \<noteq> []" for ts p
    using that by (simp add: stageInto_def io_ops io_ok PinCDSModTimesUnder_def)
  show thesis
  proof (rule that [OF a(2) d j(2)])
    show "if ?pin then j = PathJoin [PathJoin [outDir, ''brewlet-app''], ?main] \<and> Chtimes j \<in> set ops else j = jar"
      using jar o by (auto split: if_splits)
    show "WriteFile (PathJoin [outDir, ''config.json'']) (marshal spec) \<in> set ops" using o by blast
    show "ChtimesUnder (PathJoin [outDir, ''lib'']) \<in> set ops" if "?pin" "cps \<noteq> []"
      using u [of cps] j(3) that o by simp
    show "ChtimesUnder (PathJoin [outDir, ''mods'']) \<in> set ops" if "?pin" "mps \<noteq> []"
      using u [of mps] j(4) that o by simp
  qed
qed

lemma app_archive_path:
  assumes "plainName main" and "plainName a" shows "PathJoin [Dir (''/app/'' @ main), a] = ''/app/'' @ a"
proof -
  have j: "PathJoin [''/app'', n] = ''/app/'' @ n" if "plainName n" for n
  proof -
    have c: "clean_comps ''/app'' = [''app'']" "IsAbs ''/app''" by code_simp+
    have n: "plain_comp n" "n \<noteq> ''..''" using that by (auto simp: plainName_comp)
    show ?thesis using plain_name_join(1) [of "''/app''" n] n c by (simp add: render_path_def)
  qed
  have "Clean ''/app'' = ''/app''" by code_simp
  then have "Dir (''/app/'' @ main) = ''/app''"
    using Dir_join [of "''/app''" main] j [OF assms(1)] assms(1) by (simp add: plainName_comp)
  then show ?thesis using j [OF assms(2)] by simp
qed

lemma TrimRight_cdsDir: "TrimRightChar slash InSandboxCDSDir = InSandboxCDSDir"
  by code_simp

lemma decideRegen_roles:
  assumes "decideRegen re r k cdir jdk seed dir = (Some dec, dir')"
  shows "rd_MountRW dec \<longleftrightarrow> rd_Role dec = RegenWrite"
    "rd_Role dec \<in> {RegenConsume, RegenWrite} \<Longrightarrow>
       ''-XX:SharedArchiveFile='' @ InSandboxCDSDir @ ''/'' @ rd_Key dec @ ''.jsa'' \<in> set (rd_Args dec)"
proof -
  show "rd_MountRW dec \<longleftrightarrow> rd_Role dec = RegenWrite"
    using assms by (auto simp: decideRegen_def decision_def split: if_splits elim: DecideCDSRegen_cases)
  assume role: "rd_Role dec \<in> {RegenConsume, RegenWrite}"
  then have D: "DecideCDSRegen (re_sha re) (re_world re) (regenParams cdir jdk k seed (re_now re)) dir = (Some dec, dir')"
    using assms by (auto simp: decideRegen_def decision_def split: if_splits)
  have args: "''-XX:SharedArchiveFile='' @ rd_ArgArchive dec \<in> set (rd_Args dec)"
    using D by (cases rule: DecideCDSRegen_cases) (use role in auto)
  then have "rd_Args dec \<noteq> []" by auto
  then have "rd_ArgArchive dec = InSandboxCDSDir @ ''/'' @ rd_Key dec @ ''.jsa''"
    using DecideCDSRegen_archive [OF D] TrimRight_cdsDir by (simp add: regenParams_def InSandboxCDSDir_def)
  then show "''-XX:SharedArchiveFile='' @ InSandboxCDSDir @ ''/'' @ rd_Key dec @ ''.jsa'' \<in> set (rd_Args dec)"
    using args by simp
qed

lemma fixed_mounts_ro:
  "m \<in> set systemMounts \<Longrightarrow> mt_Type m \<noteq> ''bind''" "''rw'' \<notin> set (mt_Options (bindRO d s))"
  by (auto simp: systemMounts_def bindRO_def)


section \<open>Witness\<close>

definition noRegen :: CDSRegenOptions where
  "noRegen = \<lparr>ro_Regenerate = False, ro_ArtifactKey = '''', ro_CacheDir = ''''\<rparr>"

definition exactFloats :: float_ops where
  "exactFloats = \<lparr>fl_scaled = (\<lambda>s m. map_option (\<lambda>n. n * m) (Atoi s)), fl_quota = (\<lambda>n. n * 100)\<rparr>"

definition exampleRegenEnv :: regen_env where
  "exampleRegenEnv = \<lparr>re_sha = idHash, re_world = exampleWorld, re_now = 0\<rparr>"

lemma quiet_ok [simp]: "h_ok quietHost op"
  by (simp add: quietHost_def)

definition noLimits :: Resources where "noLimits = \<lparr>lim_CPU = '''', lim_Memory = ''''\<rparr>"

lemma example_bundle:
  "\<exists>ops spec. fst (GenerateBundleWithRegen quietHost exactFloats (\<lambda>_. '''') exampleRegenEnv cdsConfig ''/jdk'' '''' '''' ''/a.jar'' [] []
     ''/app.jsa'' ''/out'' noLimits [] noRegen Map.empty) = (ops, Inr spec)"
proof -
  obtain args where args: "BuildJVMArgs cdsConfig (''/app/'' @ nonEmpty (cfg_MainJar cdsConfig) ''app.jar'') [] False = Inr args"
    using cdsConfig_wf entryArgs_total [OF cdsConfig_wf] by (fastforce simp: BuildJVMArgs_Inr)
  have r: "ro_Regenerate noRegen = False" by (simp add: noRegen_def)
  let ?run = "fst (GenerateBundleWithRegen quietHost exactFloats (\<lambda>_. '''') exampleRegenEnv cdsConfig ''/jdk'' '''' '''' ''/a.jar'' [] []
     ''/app.jsa'' ''/out'' noLimits [] noRegen Map.empty)"
  have "\<exists>spec. snd ?run = Inr spec"
    unfolding GenerateBundleWithRegen_def Let_def r args
    by (simp add: decideRegen_def io_ok stageInto_def StageCDSJar_def Let_def pinCDSModTime_def)
  then show ?thesis by (metis prod.collapse)
qed


end
