(* ===== verification/Jdk_Select.thy ===== *)
theory Jdk_Select
  imports Launch_Config Go_IO
begin

text \<open>
  How the node picks the JDK and the launcher of a workload
  (\<open>src/core/shim/cmd/containerd-shim-brewlet-v2/bundle_prepare.go\<close>): the request on the pod, the active
  inventory, the Java home inside an installed root, and the launcher layer. The node's file system is the
  record \<open>node_fs\<close>; \<open>filepath.EvalSymlinks\<close> depends on it and is one of its fields.
\<close>

section \<open>Data\<close>

datatype file_reply = FileMissing | FileError | FileData string

record node_fs =
  nf_read :: "string \<Rightarrow> file_reply"
  nf_evalSymlinks :: "string \<Rightarrow> string option"
  nf_exists :: "string \<Rightarrow> bool"
  nf_readDir :: "string \<Rightarrow> string list option"

datatype select_error =
    JDKNotActive string
  | NoSuchJDK string
  | RootsUnreadable string
  | NoJDKFeature int
  | InventoryUnreadable
  | HomeMetadataInvalid string
  | HomeMetadataUnreadable string
  | RootUnresolved string
  | HomeUnresolved string
  | HomeOutsideRoot string
  | JavaMissing string
  | NoLauncherRoots string
  | LauncherNotInstalled string

definition jdkHomeMetadata :: string where "jdkHomeMetadata = ''.brewlet-java-home''"

definition jdkActiveInventory :: string where "jdkActiveInventory = ''.brewlet-active''"

section \<open>The request\<close>

definition parseJDKRequest :: "string \<Rightarrow> string \<times> int" where
  "parseJDKRequest request =
     (let request = TrimSpace request;
          bare = (case Atoi request of Some n \<Rightarrow> if n > 0 then ('''', n) else ('''', 21) | None \<Rightarrow> ('''', 21))
      in if request = '''' then ('''', 21)
         else (case CutAtLast (CHR ''-'') request of
                 Some (d, f) \<Rightarrow>
                   if d \<noteq> '''' \<and> f \<noteq> '''' then
                     (case Atoi f of Some n \<Rightarrow> if n > 0 then (d, n) else bare | None \<Rightarrow> bare)
                   else bare
               | None \<Rightarrow> bare))"

definition firstNonEmptyStr :: "string list \<Rightarrow> string" where
  "firstNonEmptyStr vals = (case find (\<lambda>v. v \<noteq> '''') vals of Some v \<Rightarrow> v | None \<Rightarrow> '''')"

section \<open>Installed JDKs\<close>

text \<open>\<open>None\<close> is Go's nil map: without an inventory file every root is active.\<close>

definition activeJDKs :: "node_fs \<Rightarrow> string \<Rightarrow> select_error + string list option" where
  "activeJDKs fs rootsDir =
     (case nf_read fs (PathJoin [rootsDir, jdkActiveInventory]) of
        FileMissing \<Rightarrow> Inr None
      | FileError \<Rightarrow> Inl InventoryUnreadable
      | FileData d \<Rightarrow> Inr (Some (Fields d)))"

definition isActive :: "string list option \<Rightarrow> string \<Rightarrow> bool" where
  "isActive active name = (case active of None \<Rightarrow> True | Some names \<Rightarrow> name \<in> set names)"

definition jdkHomeOf :: "node_fs \<Rightarrow> string \<Rightarrow> select_error + string" where
  "jdkHomeOf fs root =
     (case nf_read fs (PathJoin [root, jdkHomeMetadata]) of
        FileMissing \<Rightarrow> Inr root
      | FileError \<Rightarrow> Inl (HomeMetadataUnreadable root)
      | FileData d \<Rightarrow>
          (let inRoot = TrimSpace d in
           if inRoot = '''' \<or> \<not> IsAbs inRoot \<or> Clean inRoot \<noteq> inRoot \<or> inRoot = ''/'' then Inl (HomeMetadataInvalid root)
           else Inr (PathJoin [root, TrimPrefix inRoot ''/''])))"

definition resolveJDKHome :: "node_fs \<Rightarrow> string \<Rightarrow> select_error + string" where
  "resolveJDKHome fs root =
     (case jdkHomeOf fs root of Inl e \<Rightarrow> Inl e
      | Inr home \<Rightarrow>
        (case nf_evalSymlinks fs root of None \<Rightarrow> Inl (RootUnresolved root)
         | Some resolvedRoot \<Rightarrow>
           (case nf_evalSymlinks fs home of None \<Rightarrow> Inl (HomeUnresolved home)
            | Some resolvedHome \<Rightarrow>
                if relEscapes (Rel resolvedRoot resolvedHome) then Inl (HomeOutsideRoot home)
                else if \<not> nf_exists fs (PathJoin [resolvedHome, ''bin'', ''java'']) then Inl (JavaMissing resolvedHome)
                else Inr resolvedHome)))"

definition installed :: "node_fs \<Rightarrow> string \<Rightarrow> string \<Rightarrow> bool" where
  "installed fs rootsDir name = (\<exists>home. resolveJDKHome fs (PathJoin [rootsDir, name]) = Inr home)"

lemma installed_code [code]:
  "installed fs rootsDir name = (case resolveJDKHome fs (PathJoin [rootsDir, name]) of Inl _ \<Rightarrow> False | Inr _ \<Rightarrow> True)"
  by (simp add: installed_def split: sum.split)

definition selectJDK :: "node_fs \<Rightarrow> string \<Rightarrow> string \<Rightarrow> select_error + string" where
  "selectJDK fs rootsDir request =
     (case parseJDKRequest request of (dist, feature) \<Rightarrow>
        (case activeJDKs fs rootsDir of Inl e \<Rightarrow> Inl e
         | Inr active \<Rightarrow>
             if dist \<noteq> '''' then
               (let name = dist @ ''-'' @ Itoa feature in
                if \<not> isActive active name then Inl (JDKNotActive name)
                else if installed fs rootsDir name then Inr (PathJoin [rootsDir, name])
                else Inl (NoSuchJDK name))
             else
               (case nf_readDir fs rootsDir of None \<Rightarrow> Inl (RootsUnreadable rootsDir)
                | Some entries \<Rightarrow>
                    (case sort (filter (\<lambda>name. isActive active name \<and> HasSuffix name (''-'' @ Itoa feature) \<and>
                                               installed fs rootsDir name) entries) of
                       [] \<Rightarrow> Inl (NoJDKFeature feature)
                     | m # _ \<Rightarrow> Inr (PathJoin [rootsDir, m])))))"

section \<open>Launchers and blobs\<close>

definition selectLauncher :: "node_fs \<Rightarrow> string \<Rightarrow> string \<Rightarrow> select_error + string" where
  "selectLauncher fs rootsDir launcherName =
     (if IsVanillaLauncher launcherName then Inr ''''
      else
        (let name = LauncherName launcherName in
         if rootsDir = '''' then Inl (NoLauncherRoots name)
         else
           (let root = PathJoin [rootsDir, name] in
            if nf_exists fs (PathJoin [root, ''bin'', name]) then Inr root else Inl (LauncherNotInstalled name))))"

definition contentBlobPath :: "string \<Rightarrow> string \<Rightarrow> string" where
  "contentBlobPath root digest =
     (case CutAt (CHR '':'') digest of
        Some (algo, hex) \<Rightarrow> PathJoin [root, ''blobs'', algo, hex]
      | None \<Rightarrow> PathJoin [root, ''blobs'', ''sha256'', digest])"

section \<open>Correctness\<close>

lemma resolveJDKHome_Inr:
  "resolveJDKHome fs root = Inr home \<longleftrightarrow>
     (\<exists>h r. jdkHomeOf fs root = Inr h \<and> nf_evalSymlinks fs root = Some r \<and> nf_evalSymlinks fs h = Some home \<and>
        inside r home \<and> nf_exists fs (PathJoin [home, ''bin'', ''java'']))"
  by (auto simp: resolveJDKHome_def relEscapes_iff split: sum.splits option.splits if_splits)


text \<open>The names a request for a feature may select.\<close>

definition eligible :: "node_fs \<Rightarrow> string \<Rightarrow> string list option \<Rightarrow> string list \<Rightarrow> int \<Rightarrow> string set" where
  "eligible fs rootsDir active entries feature =
     {name \<in> set entries. isActive active name \<and> HasSuffix name (''-'' @ Itoa feature) \<and> installed fs rootsDir name}"

lemma sort_hd_Min:
  assumes "sort xs = m # ms" shows "m \<in> set xs" "\<forall>x \<in> set xs. m \<le> x"
proof -
  have "set xs = set (m # ms)" "sorted (m # ms)" using assms by (metis set_sort, metis sorted_sort)
  then show "m \<in> set xs" "\<forall>x \<in> set xs. m \<le> x" by auto
qed

text \<open>C16: JDK selection is exact and deterministic. A request that names a distribution selects that distribution and
  no other: its root, if it is active and installed, and an error otherwise. A request for a bare feature
  selects the lexically first active and installed root of this feature, whatever the order of the
  directory listing, and fails exactly when there is none.\<close>

theorem selectJDK_exact:
  assumes "parseJDKRequest request = (dist, feature)" and "activeJDKs fs rootsDir = Inr active"
    and "nf_readDir fs rootsDir = Some entries"
  shows "(dist \<noteq> '''' \<longrightarrow>
      (\<forall>root. selectJDK fs rootsDir request = Inr root \<longleftrightarrow>
         root = PathJoin [rootsDir, dist @ ''-'' @ Itoa feature] \<and> isActive active (dist @ ''-'' @ Itoa feature) \<and>
         installed fs rootsDir (dist @ ''-'' @ Itoa feature))) \<and>
    (dist = '''' \<longrightarrow>
      (\<forall>root. selectJDK fs rootsDir request = Inr root \<longleftrightarrow>
         (\<exists>name \<in> eligible fs rootsDir active entries feature.
            (\<forall>other \<in> eligible fs rootsDir active entries feature. name \<le> other) \<and> root = PathJoin [rootsDir, name])))"
proof -
  let ?P = "\<lambda>name. isActive active name \<and> HasSuffix name (''-'' @ Itoa feature) \<and> installed fs rootsDir name"
  let ?xs = "filter ?P entries"
  have xs: "set ?xs = eligible fs rootsDir active entries feature" by (auto simp: eligible_def)
  have a: "selectJDK fs rootsDir request = Inr root \<longleftrightarrow>
         root = PathJoin [rootsDir, dist @ ''-'' @ Itoa feature] \<and> isActive active (dist @ ''-'' @ Itoa feature) \<and>
         installed fs rootsDir (dist @ ''-'' @ Itoa feature)" if "dist \<noteq> ''''" for root
    using that assms by (auto simp: selectJDK_def Let_def)
  have b: "selectJDK fs rootsDir request = Inr root \<longleftrightarrow>
      (\<exists>name \<in> eligible fs rootsDir active entries feature.
         (\<forall>other \<in> eligible fs rootsDir active entries feature. name \<le> other) \<and> root = PathJoin [rootsDir, name])"
    if "dist = ''''" for root
  proof (cases "sort ?xs")
    case Nil
    have "eligible fs rootsDir active entries feature = set (sort ?xs)" unfolding set_sort xs ..
    then have e: "eligible fs rootsDir active entries feature = {}" unfolding Nil by simp
    have "selectJDK fs rootsDir request = Inl (NoJDKFeature feature)"
      using that assms Nil by (simp add: selectJDK_def)
    then show ?thesis using e by simp
  next
    case (Cons m ms)
    then have s: "selectJDK fs rootsDir request = Inr (PathJoin [rootsDir, m])"
      using that assms by (simp add: selectJDK_def)
    have m: "m \<in> eligible fs rootsDir active entries feature" "\<forall>x \<in> eligible fs rootsDir active entries feature. m \<le> x"
      using sort_hd_Min [OF Cons] unfolding xs by auto
    then show ?thesis using s by (metis Inr_inject order_antisym)
  qed
  show ?thesis using a b by blast
qed

section \<open>The request on the pod\<close>

lemma Itoa_no_dash:
  assumes "0 < n" shows "CHR ''-'' \<notin> set (Itoa n)"
proof
  assume "CHR ''-'' \<in> set (Itoa n)"
  then have "CHR ''-'' \<in> set (dec_digits (nat n))" using Itoa_pos [of n] assms by simp
  then have "is_digit (CHR ''-'')" by (rule dec_digits_chars)
  then show False using is_digit_not by blast
qed

lemma parse_feature_only:
  assumes "0 < n" and "in_int64 n" shows "parseJDKRequest (Itoa n) = ('''', n)"
proof -
  have "CutAtLast (CHR ''-'') (Itoa n) = None" using Itoa_no_dash [OF assms(1)] by (simp add: CutAtLast_None)
  then show ?thesis using assms Atoi_Itoa [of n] by (simp add: parseJDKRequest_def Itoa_no_space)
qed

lemma TrimSpace_trimmed: "s \<noteq> '''' \<Longrightarrow> \<not> is_space (hd s) \<Longrightarrow> \<not> is_space (last s) \<Longrightarrow> TrimSpace s = s"
proof -
  assume s: "s \<noteq> ''''" "\<not> is_space (hd s)" "\<not> is_space (last s)"
  have "dropWhile is_space s = s" using s(1,2) by (cases s) auto
  moreover have "dropWhile is_space (rev s) = rev s" using s(1,3) by (cases s rule: rev_cases) auto
  ultimately show ?thesis by (simp add: TrimSpace_def)
qed

lemma trimmed_hd:
  assumes "TrimSpace d = d" and "d \<noteq> ''''" shows "\<not> is_space (hd d)"
proof -
  have "length d = length (dropWhile is_space (rev (dropWhile is_space d)))"
    using assms(1) by (metis TrimSpace_def length_rev)
  also have "\<dots> \<le> length (dropWhile is_space d)" using length_dropWhile_le by (metis length_rev)
  finally have "dropWhile is_space d = d"
    by (metis append_eq_conv_conj drop0 length_append length_dropWhile_le le_antisym takeWhile_dropWhile_id
        append_self_conv2 length_0_conv add_cancel_left_left)
  then show ?thesis using dropWhile_hd [of is_space d] assms(2) by simp
qed

lemma parse_dist_feature:
  assumes "0 < n" and "in_int64 n" and "TrimSpace d = d" and "d \<noteq> ''''"
  shows "parseJDKRequest (d @ ''-'' @ Itoa n) = (d, n)"
proof -
  note n = Itoa_no_dash [OF assms(1)]
  have l: "\<not> is_space (last (d @ ''-'' @ Itoa n))"
    using Itoa_chars [of "last (Itoa n)" n] by (auto simp: is_space_def dest: is_digit_not)
  have "TrimSpace (d @ ''-'' @ Itoa n) = d @ ''-'' @ Itoa n"
    using TrimSpace_trimmed [OF _ _ l] trimmed_hd [OF assms(3,4)] assms(4) by simp
  moreover have "CutAtLast (CHR ''-'') (d @ CHR ''-'' # Itoa n) = Some (d, Itoa n)" using CutAtLast_append [OF n] .
  ultimately show ?thesis using assms Atoi_Itoa [of n] by (simp add: parseJDKRequest_def)
qed

section \<open>Witnesses\<close>

definition oneJDK :: node_fs where
  "oneJDK = \<lparr>nf_read = (\<lambda>_. FileMissing), nf_evalSymlinks = (\<lambda>p. Some p),
     nf_exists = (\<lambda>p. p = ''/jdks/temurin-21/bin/java''), nf_readDir = (\<lambda>_. Some [''temurin-21'', ''microsoft-21''])\<rparr>"

lemma oneJDK_home: "resolveJDKHome oneJDK ''/jdks/temurin-21'' = Inr ''/jdks/temurin-21''"
  by code_simp


theorem selectJDK_exact_witness: "selectJDK oneJDK ''/jdks'' ''temurin-21'' = Inr ''/jdks/temurin-21''"
proof -
  have p: "parseJDKRequest ''temurin-21'' = (''temurin'', 21)" "activeJDKs oneJDK ''/jdks'' = Inr None"
     "nf_readDir oneJDK ''/jdks'' = Some [''temurin-21'', ''microsoft-21'']" "Itoa 21 = ''21''"
     "PathJoin [''/jdks'', ''temurin-21''] = ''/jdks/temurin-21''"
    by code_simp+
  have "installed oneJDK ''/jdks'' ''temurin-21''" using oneJDK_home p(5) by (auto simp: installed_def)
  with selectJDK_exact [OF p(1-3)] p(4,5) show ?thesis by (simp add: isActive_def)
qed

end
