(* ===== verification/Json.thy ===== *)
theory Json
  imports Go_Base "HOL-Library.Multiset"
begin

text \<open>
  The part of Go's \<open>encoding/json\<close> that the artifact formats use: the values of a document, the encoder
  (\<open>Marshal\<close> and \<open>MarshalIndent\<close>, with the escapes Go writes), the scanner and the rules by which a
  document is decoded into a struct (a missing or null member leaves the zero value, the last of several
  members with one name counts, names are compared without regard to ASCII case, a value of the wrong kind
  is an error). A name that an object has twice is modelled only as this last value: that Go decodes the second
  into what the first left, and that a null after a value keeps it, is outside the model. A number is kept as its literal. A string is a list of bytes: the encoder passes a byte
  above 127 through, as Go does for valid UTF-8, so that a document with invalid UTF-8 or with one of the
  two Unicode line separators is outside the model, as is a document nested deeper than Go's limit.
\<close>

section \<open>Documents\<close>

datatype json =
    JNull
  | JBool bool
  | JNum string
  | JStr string
  | JArr "json list"
  | JObj "(string \<times> json) list"

abbreviation quoteMark :: char where "quoteMark \<equiv> CHR 0x22"
abbreviation backslash :: char where "backslash \<equiv> CHR 0x5C"

definition json_ws :: "char \<Rightarrow> bool" where
  "json_ws c = (c = CHR '' '' \<or> c = CHR 0x09 \<or> c = CHR 0x0A \<or> c = CHR 0x0D)"

definition skipWs :: "string \<Rightarrow> string" where
  "skipWs s = dropWhile json_ws s"

section \<open>Strings\<close>

definition hexDigit :: "nat \<Rightarrow> char" where
  "hexDigit n = (if n < 10 then digit_char n else char_of (n + 87))"

definition hexVal :: "char \<Rightarrow> nat option" where
  "hexVal c =
     (let n = (of_char c :: nat) in
      if is_digit c then Some (n - 48)
      else if 97 \<le> n \<and> n \<le> 102 then Some (n - 87)
      else if 65 \<le> n \<and> n \<le> 70 then Some (n - 55)
      else None)"

definition uEscape :: "char \<Rightarrow> string" where
  "uEscape c = [backslash, CHR ''u'', CHR ''0'', CHR ''0'', hexDigit (of_char c div 16), hexDigit (of_char c mod 16)]"

definition htmlChar :: "char \<Rightarrow> bool" where
  "htmlChar c = (c = CHR ''<'' \<or> c = CHR ''>'' \<or> c = CHR ''&'')"

definition quoteChar :: "char \<Rightarrow> string" where
  "quoteChar c =
     (if c = quoteMark then [backslash, quoteMark]
      else if c = backslash then [backslash, backslash]
      else if c = CHR 0x08 then [backslash, CHR ''b'']
      else if c = CHR 0x0C then [backslash, CHR ''f'']
      else if c = CHR 0x0A then [backslash, CHR ''n'']
      else if c = CHR 0x0D then [backslash, CHR ''r'']
      else if c = CHR 0x09 then [backslash, CHR ''t'']
      else if of_char c < (32 :: nat) \<or> htmlChar c then uEscape c
      else [c])"

definition quoteBody :: "string \<Rightarrow> string" where
  "quoteBody s = concat (map quoteChar s)"

definition quoteStr :: "string \<Rightarrow> string" where
  "quoteStr s = [quoteMark] @ quoteBody s @ [quoteMark]"

definition hex4 :: "string \<Rightarrow> (nat \<times> string) option" where
  "hex4 s =
     (case map hexVal (take 4 s) of
        [Some a, Some b, Some c, Some d] \<Rightarrow> Some (4096 * a + 256 * b + 16 * c + d, drop 4 s)
      | _ \<Rightarrow> None)"

definition utf8 :: "nat \<Rightarrow> string" where
  "utf8 n =
     (if n < 128 then [char_of n]
      else if n < 2048 then [char_of (192 + n div 64), char_of (128 + n mod 64)]
      else if n < 65536 then [char_of (224 + n div 4096), char_of (128 + n div 64 mod 64), char_of (128 + n mod 64)]
      else [char_of (240 + n div 262144), char_of (128 + n div 4096 mod 64), char_of (128 + n div 64 mod 64), char_of (128 + n mod 64)])"

text \<open>A \<open>\u\<close> escape. A surrogate must be followed by its partner; a lone one is replaced.\<close>

definition unicodeEscape :: "string \<Rightarrow> (string \<times> string) option" where
  "unicodeEscape s =
     (case hex4 s of None \<Rightarrow> None
      | Some (n, r) \<Rightarrow>
          if n < 55296 \<or> 57343 < n then Some (utf8 n, r)
          else
            (case (if n < 56320 \<and> take 2 r = [backslash, CHR ''u''] then hex4 (drop 2 r) else None) of
               Some (m, r') \<Rightarrow>
                 if 56320 \<le> m \<and> m \<le> 57343 then Some (utf8 (65536 + (n - 55296) * 1024 + (m - 56320)), r')
                 else Some (utf8 65533, r)
             | None \<Rightarrow> Some (utf8 65533, r)))"

definition unescape :: "string \<Rightarrow> (string \<times> string) option" where
  "unescape s =
     (case s of [] \<Rightarrow> None
      | e # r \<Rightarrow>
          if e = quoteMark \<or> e = backslash \<or> e = slash then Some ([e], r)
          else if e = CHR ''b'' then Some ([CHR 0x08], r)
          else if e = CHR ''f'' then Some ([CHR 0x0C], r)
          else if e = CHR ''n'' then Some ([CHR 0x0A], r)
          else if e = CHR ''r'' then Some ([CHR 0x0D], r)
          else if e = CHR ''t'' then Some ([CHR 0x09], r)
          else if e = CHR ''u'' then unicodeEscape r
          else None)"

text \<open>The rest of a string after its opening quote. An escape always consumes input, so the guard on the length is
  true; it makes the recursion terminate.\<close>

fun scanStr :: "string \<Rightarrow> (string \<times> string) option" where
  "scanStr [] = None"
| "scanStr (c # cs) =
     (if c = quoteMark then Some ([], cs)
      else if c = backslash then
        (case unescape cs of None \<Rightarrow> None
         | Some (out, r) \<Rightarrow>
             if length r \<le> length cs then map_option (\<lambda>(s, t). (out @ s, t)) (scanStr r) else None)
      else if of_char c < (32 :: nat) then None
      else map_option (\<lambda>(s, t). (c # s, t)) (scanStr cs))"

section \<open>Numbers\<close>

definition numChar :: "char \<Rightarrow> bool" where
  "numChar c = (is_digit c \<or> c = CHR ''-'' \<or> c = CHR ''+'' \<or> c = CHR ''.'' \<or> c = CHR ''e'' \<or> c = CHR ''E'')"

definition validExp :: "string \<Rightarrow> bool" where
  "validExp s =
     (case s of [] \<Rightarrow> True
      | e # r \<Rightarrow>
          (e = CHR ''e'' \<or> e = CHR ''E'') \<and>
          (let ds = (case r of [] \<Rightarrow> [] | x # xs \<Rightarrow> if x = CHR ''+'' \<or> x = CHR ''-'' then xs else r)
           in ds \<noteq> [] \<and> list_all is_digit ds))"

definition validFrac :: "string \<Rightarrow> bool" where
  "validFrac s =
     (case s of [] \<Rightarrow> True
      | p # r \<Rightarrow>
          if p = CHR ''.'' then takeWhile is_digit r \<noteq> [] \<and> validExp (dropWhile is_digit r)
          else validExp s)"

definition validNum :: "string \<Rightarrow> bool" where
  "validNum lit =
     (let s = TrimPrefix lit ''-''; ip = takeWhile is_digit s
      in ip \<noteq> [] \<and> (hd ip = CHR ''0'' \<longrightarrow> length ip = 1) \<and> validFrac (dropWhile is_digit s))"

section \<open>Encoder\<close>

text \<open>\<open>nl d\<close> is written before a member at depth \<open>d\<close> and \<open>col\<close> between a name and its value: nothing and a colon in
  \<open>Marshal\<close>, a line break with two spaces per level and a colon with a space in
  \<open>MarshalIndent(v, "", "  ")\<close>.\<close>

fun printJson :: "(nat \<Rightarrow> string) \<Rightarrow> string \<Rightarrow> nat \<Rightarrow> json \<Rightarrow> string"
  and printItems :: "(nat \<Rightarrow> string) \<Rightarrow> string \<Rightarrow> nat \<Rightarrow> json list \<Rightarrow> string"
  and printMembers :: "(nat \<Rightarrow> string) \<Rightarrow> string \<Rightarrow> nat \<Rightarrow> (string \<times> json) list \<Rightarrow> string" where
  "printJson nl col d JNull = ''null''"
| "printJson nl col d (JBool b) = (if b then ''true'' else ''false'')"
| "printJson nl col d (JNum lit) = lit"
| "printJson nl col d (JStr s) = quoteStr s"
| "printJson nl col d (JArr xs) = (if xs = [] then ''[]'' else ''['' @ printItems nl col (Suc d) xs @ nl d @ '']'')"
| "printJson nl col d (JObj fs) = (if fs = [] then ''{}'' else ''{'' @ printMembers nl col (Suc d) fs @ nl d @ ''}'')"
| "printItems nl col d [] = ''''"
| "printItems nl col d (x # xs) =
     nl d @ printJson nl col d x @ (if xs = [] then '''' else '','' @ printItems nl col d xs)"
| "printMembers nl col d [] = ''''"
| "printMembers nl col d ((k, v) # fs) =
     nl d @ quoteStr k @ col @ printJson nl col d v @ (if fs = [] then '''' else '','' @ printMembers nl col d fs)"

definition Marshal :: "json \<Rightarrow> string" where
  "Marshal j = printJson (\<lambda>_. '''') '':'' 0 j"

definition MarshalIndent :: "json \<Rightarrow> string" where
  "MarshalIndent j = printJson (\<lambda>d. CHR 0x0A # concat (replicate d ''  '')) '': '' 0 j"

section \<open>Scanner\<close>

lemma skipWs_shorter: "skipWs s = c # cs \<Longrightarrow> length cs < length s"
  using length_dropWhile_le [of json_ws s] by (simp add: skipWs_def)

text \<open>One value from the start of the input, with the rest. As in \<open>scanStr\<close> the guards on the length are always
  true and only serve termination.\<close>

function (sequential) scanValue :: "string \<Rightarrow> (json \<times> string) option"
  and scanItems :: "string \<Rightarrow> (json list \<times> string) option"
  and scanMembers :: "string \<Rightarrow> ((string \<times> json) list \<times> string) option" where
  "scanValue s =
     (case skipWs s of [] \<Rightarrow> None
      | c # cs \<Rightarrow>
          if c = CHR ''['' then
            (if take 1 (skipWs cs) = '']'' then Some (JArr [], tl (skipWs cs))
             else map_option (\<lambda>(xs, r). (JArr xs, r)) (scanItems cs))
          else if c = CHR ''{'' then
            (if take 1 (skipWs cs) = ''}'' then Some (JObj [], tl (skipWs cs))
             else map_option (\<lambda>(fs, r). (JObj fs, r)) (scanMembers cs))
          else if c = quoteMark then map_option (\<lambda>(t, r). (JStr t, r)) (scanStr cs)
          else if HasPrefix (c # cs) ''null'' then Some (JNull, drop 3 cs)
          else if HasPrefix (c # cs) ''true'' then Some (JBool True, drop 3 cs)
          else if HasPrefix (c # cs) ''false'' then Some (JBool False, drop 4 cs)
          else if validNum (takeWhile numChar (c # cs)) then Some (JNum (takeWhile numChar (c # cs)), dropWhile numChar (c # cs))
          else None)"
| "scanItems s =
     (case scanValue s of None \<Rightarrow> None
      | Some (v, r) \<Rightarrow>
          (case skipWs r of [] \<Rightarrow> None
           | c # cs \<Rightarrow>
               if c = CHR '']'' then Some ([v], cs)
               else if c = CHR '','' \<and> length cs < length s then map_option (\<lambda>(vs, t). (v # vs, t)) (scanItems cs)
               else None))"
| "scanMembers s =
     (case skipWs s of [] \<Rightarrow> None
      | q # ks \<Rightarrow>
          if q \<noteq> quoteMark then None
          else
            (case scanStr ks of None \<Rightarrow> None
             | Some (k, r) \<Rightarrow>
                 (case skipWs r of [] \<Rightarrow> None
                  | c # vs \<Rightarrow>
                      if c \<noteq> CHR '':'' \<or> \<not> length vs < length s then None
                      else
                        (case scanValue vs of None \<Rightarrow> None
                         | Some (v, r') \<Rightarrow>
                             (case skipWs r' of [] \<Rightarrow> None
                              | e # es \<Rightarrow>
                                  if e = CHR ''}'' then Some ([(k, v)], es)
                                  else if e = CHR '','' \<and> length es < length s then
                                    map_option (\<lambda>(fs, t). ((k, v) # fs, t)) (scanMembers es)
                                  else None)))))"
  by pat_completeness auto

termination
  by (relation "measure (\<lambda>x. case x of Inl s \<Rightarrow> 2 * length s
        | Inr y \<Rightarrow> (case y of Inl s \<Rightarrow> Suc (2 * length s) | Inr s \<Rightarrow> Suc (2 * length s)))")
    (auto dest: skipWs_shorter)

declare scanValue.simps [simp del] scanItems.simps [simp del] scanMembers.simps [simp del]

text \<open>\<open>Unmarshal\<close> takes a whole document; \<open>Decoder.Decode\<close> takes the first value and leaves what follows it.\<close>

definition parseJson :: "string \<Rightarrow> json option" where
  "parseJson s = (case scanValue s of Some (j, r) \<Rightarrow> if skipWs r = '''' then Some j else None | None \<Rightarrow> None)"

definition decodeFirst :: "string \<Rightarrow> json option" where
  "decodeFirst s = map_option fst (scanValue s)"

section \<open>What the encoder writes the scanner reads\<close>

text \<open>A document is well formed if its number literals are numbers.\<close>

fun json_wf :: "json \<Rightarrow> bool" where
  "json_wf JNull = True"
| "json_wf (JBool b) = True"
| "json_wf (JNum lit) = validNum lit"
| "json_wf (JStr s) = True"
| "json_wf (JArr xs) = list_all json_wf xs"
| "json_wf (JObj fs) = list_all (\<lambda>(_, v). json_wf v) fs"

lemma hexVal_hexDigit: "n < 16 \<Longrightarrow> hexVal (hexDigit n) = Some n"
  by (auto simp: hexVal_def hexDigit_def digit_char_def is_digit_def Let_def)

lemma hexVal_zero [simp]: "hexVal (CHR ''0'') = Some 0"
  by (simp add: hexVal_def is_digit_def)

lemma unescape_uEscape:
  assumes "of_char c < (128 :: nat)"
  shows "unescape (tl (uEscape c) @ r) = Some ([c], r)"
proof -
  let ?n = "of_char c :: nat"
  have "hex4 (CHR ''0'' # CHR ''0'' # hexDigit (?n div 16) # hexDigit (?n mod 16) # r) = Some (?n, r)"
    using assms by (simp add: hex4_def hexVal_hexDigit)
  then show ?thesis using assms by (simp add: unescape_def uEscape_def unicodeEscape_def utf8_def)
qed

lemma scanStr_quoteChar:
  "scanStr (quoteChar c @ s) = map_option (\<lambda>(t, r). (c # t, r)) (scanStr s)"
proof (cases "of_char c < (32 :: nat) \<or> htmlChar c")
  case True
  then have c: "of_char c < (128 :: nat)" by (auto simp: htmlChar_def)
  have u: "scanStr (uEscape c @ s) = map_option (\<lambda>(t, r). (c # t, r)) (scanStr s)"
    using unescape_uEscape [OF c, of s] by (simp add: uEscape_def)
  have q: "c \<noteq> quoteMark \<and> c \<noteq> backslash" using True by (auto simp: htmlChar_def)
  have "quoteChar c = uEscape c \<or> c = CHR 0x08 \<or> c = CHR 0x0C \<or> c = CHR 0x0A \<or> c = CHR 0x0D \<or> c = CHR 0x09"
    using True q by (simp add: quoteChar_def)
  then consider "quoteChar c = uEscape c" | "c = CHR 0x08" | "c = CHR 0x0C" | "c = CHR 0x0A" | "c = CHR 0x0D" | "c = CHR 0x09"
    by blast
  then show ?thesis
  proof cases
    case 1
    then show ?thesis using u by simp
  qed (simp_all add: quoteChar_def unescape_def)
next
  case False
  then have n: "\<not> of_char c < (32 :: nat)" by simp
  show ?thesis
  proof (cases "c = quoteMark \<or> c = backslash")
    case True
    then show ?thesis by (auto simp: quoteChar_def unescape_def)
  next
    case q: False
    have "c \<noteq> CHR 0x08 \<and> c \<noteq> CHR 0x0C \<and> c \<noteq> CHR 0x0A \<and> c \<noteq> CHR 0x0D \<and> c \<noteq> CHR 0x09" using n by auto
    then have "quoteChar c = [c]" using False q by (simp add: quoteChar_def)
    then show ?thesis using n q by simp
  qed
qed

lemma scanStr_quoteBody: "scanStr (quoteBody s @ quoteMark # r) = Some (s, r)"
  by (induction s) (simp_all add: quoteBody_def scanStr_quoteChar)

lemma skipWs_append: "list_all json_ws w \<Longrightarrow> skipWs (w @ s) = skipWs s"
  by (induction w) (auto simp: skipWs_def)

lemma skipWs_Cons: "\<not> json_ws c \<Longrightarrow> skipWs (c # s) = c # s"
  by (simp add: skipWs_def)

lemma json_ws_simps [simp]:
  "\<not> json_ws quoteMark" "\<not> json_ws (CHR '','')" "\<not> json_ws (CHR '':'')" "\<not> json_ws (CHR '']'')" "\<not> json_ws (CHR ''}'')"
  "\<not> json_ws (CHR ''['')" "\<not> json_ws (CHR ''{'')" "\<not> json_ws (CHR ''n'')" "\<not> json_ws (CHR ''t'')" "\<not> json_ws (CHR ''f'')"
  by (simp_all add: json_ws_def)

lemma numChar_not_ws: "numChar c \<Longrightarrow> \<not> json_ws c"
  by (auto simp: numChar_def json_ws_def is_digit_def)

lemma numChar_not: "numChar c \<Longrightarrow> c \<noteq> CHR '']'' \<and> c \<noteq> CHR ''}'' \<and> c \<noteq> CHR ''['' \<and> c \<noteq> CHR ''{'' \<and> c \<noteq> quoteMark \<and>
    c \<noteq> CHR ''n'' \<and> c \<noteq> CHR ''t'' \<and> c \<noteq> CHR ''f''"
  by (auto simp: numChar_def is_digit_def)

lemma takeWhile_dropWhile_all: "list_all p (takeWhile p s)"
  by (induction s) auto

lemma validExp_chars: "validExp s \<Longrightarrow> list_all numChar s"
proof (cases s)
  case (Cons e r)
  have d: "list_all is_digit ds \<Longrightarrow> list_all numChar ds" for ds by (auto simp: list_all_iff numChar_def)
  assume "validExp s"
  then show ?thesis using Cons d by (auto simp: validExp_def Let_def numChar_def split: list.splits if_splits)
qed simp

lemma digits_numChars: "list_all numChar (takeWhile is_digit s)"
  using takeWhile_dropWhile_all [of is_digit s] by (auto simp: list_all_iff numChar_def)

lemma list_all_parts: "list_all p (takeWhile q s) \<Longrightarrow> list_all p (dropWhile q s) \<Longrightarrow> list_all p s"
  by (metis list_all_append takeWhile_dropWhile_id)

lemma validFrac_chars:
  assumes "validFrac s" shows "list_all numChar s"
proof (cases s)
  case (Cons p r)
  show ?thesis
  proof (cases "p = CHR ''.''")
    case True
    then have "list_all numChar (dropWhile is_digit r)" using assms Cons validExp_chars by (simp add: validFrac_def)
    then have "list_all numChar r" using digits_numChars [of r] list_all_parts by blast
    then show ?thesis using Cons True by (simp add: numChar_def)
  next
    case False
    then show ?thesis using assms Cons validExp_chars [of s] by (simp add: validFrac_def)
  qed
qed simp

lemma validNum_chars:
  assumes "validNum lit" shows "list_all numChar lit" "lit \<noteq> ''''" "numChar (hd lit)"
proof -
  let ?s = "TrimPrefix lit ''-''"
  have "list_all numChar (dropWhile is_digit ?s)" using assms validFrac_chars by (simp add: validNum_def Let_def)
  then have s: "list_all numChar ?s" using digits_numChars [of ?s] list_all_parts by blast
  have "lit = ?s \<or> lit = CHR ''-'' # ?s"
  proof (cases "HasPrefix lit ''-''")
    case True
    then obtain r where "lit = ''-'' @ r" unfolding HasPrefix_iff by blast
    then show ?thesis using TrimPrefix_append [of "''-''" r] by simp
  qed (simp add: TrimPrefix_def)
  moreover have "list_all numChar (CHR ''-'' # ?s)" using s by (simp add: numChar_def)
  ultimately show l: "list_all numChar lit" using s by metis
  show n: "lit \<noteq> ''''" using assms by (auto simp: validNum_def TrimPrefix_def HasPrefix_def)
  show "numChar (hd lit)" using l n by (cases lit) auto
qed

text \<open>A number ends where the next byte cannot belong to one.\<close>

definition stopsNumber :: "string \<Rightarrow> bool" where
  "stopsNumber r = (r = '''' \<or> \<not> numChar (hd r))"

lemma takeWhile_stop: "list_all numChar lit \<Longrightarrow> stopsNumber r \<Longrightarrow> takeWhile numChar (lit @ r) = lit"
  by (induction lit) (auto simp: stopsNumber_def split: list.split, metis takeWhile_eq_Nil_iff)

lemma dropWhile_stop: "list_all numChar lit \<Longrightarrow> stopsNumber r \<Longrightarrow> dropWhile numChar (lit @ r) = r"
  by (induction lit) (auto simp: stopsNumber_def, metis dropWhile_eq_self_iff)

lemma stopsNumber_simps [simp]:
  "stopsNumber (CHR '','' # r)" "stopsNumber (CHR '']'' # r)" "stopsNumber (CHR ''}'' # r)" "stopsNumber []"
  by (simp_all add: stopsNumber_def numChar_def is_digit_def)

lemma stopsNumber_ws:
  assumes "list_all json_ws w" and "stopsNumber r" shows "stopsNumber (w @ r)"
proof (cases w)
  case (Cons c cs)
  then have "\<not> numChar c" using assms(1) numChar_not_ws by auto
  then show ?thesis using Cons by (simp add: stopsNumber_def)
qed (use assms in simp)

lemma printJson_start:
  assumes "json_wf j"
  shows "\<exists>c cs. printJson nl col d j = c # cs \<and> \<not> json_ws c \<and> c \<noteq> CHR '']'' \<and> c \<noteq> CHR ''}''"
proof (cases j)
  case (JNum lit)
  then obtain c cs where l: "lit = c # cs" "numChar c" using assms validNum_chars [of lit] by (cases lit) auto
  then show ?thesis using JNum l(1) numChar_not_ws [OF l(2)] numChar_not [OF l(2)] by simp
next
  case (JArr xs)
  then show ?thesis by (cases "xs = []") simp_all
next
  case (JObj fs)
  then show ?thesis by (cases "fs = []") simp_all
qed (simp_all add: quoteStr_def)

lemma scanValue_start:
  assumes "list_all json_ws w" and "\<not> json_ws c"
  shows "scanValue (w @ c # cs) = scanValue (c # cs)"
  using skipWs_append [OF assms(1)] skipWs_Cons [OF assms(2)] by (simp add: scanValue.simps)

lemma scanValue_num:
  assumes "validNum lit" and "stopsNumber r"
  shows "scanValue (lit @ r) = Some (JNum lit, r)"
proof -
  note l = validNum_chars [OF assms(1)]
  obtain c cs where lc: "lit = c # cs" "numChar c" using l(2,3) by (cases lit) auto
  have s: "takeWhile numChar (c # cs @ r) = lit" "dropWhile numChar (c # cs @ r) = r"
    using takeWhile_stop [OF l(1) assms(2)] dropWhile_stop [OF l(1) assms(2)] lc(1) by simp_all
  have p: "\<not> HasPrefix (c # cs @ r) ''null'' \<and> \<not> HasPrefix (c # cs @ r) ''true'' \<and> \<not> HasPrefix (c # cs @ r) ''false''"
    using numChar_not [OF lc(2)] by (simp add: HasPrefix_def)
  show ?thesis
    unfolding lc(1) using numChar_not [OF lc(2)] numChar_not_ws [OF lc(2)] p s assms(1)
    by (simp add: scanValue.simps skipWs_Cons lc(1) del: takeWhile.simps dropWhile.simps)
qed

text \<open>The two ways of writing a document put white space between the tokens; what the scanner reads back does not
  depend on it. \<open>Marshal\<close> and \<open>MarshalIndent\<close> are instances.\<close>

locale json_layout =
  fixes nl :: "nat \<Rightarrow> string" and col :: string
  assumes nl_ws: "list_all json_ws (nl d)"
    and col_ws: "\<exists>cw. col = CHR '':'' # cw \<and> list_all json_ws cw"
begin

lemma start_item:
  assumes "json_wf j"
  shows "take 1 (skipWs (nl d @ printJson nl col e j @ r)) \<noteq> '']''"
    and "list_all json_ws w \<Longrightarrow> scanValue (w @ printJson nl col e j @ r) = scanValue (printJson nl col e j @ r)"
proof -
  obtain c cs where c: "printJson nl col e j = c # cs" "\<not> json_ws c" "c \<noteq> CHR '']''"
    using printJson_start [OF assms] by blast
  show "take 1 (skipWs (nl d @ printJson nl col e j @ r)) \<noteq> '']''"
    using c skipWs_append [OF nl_ws] skipWs_Cons [OF c(2)] by simp
  show "list_all json_ws w \<Longrightarrow> scanValue (w @ printJson nl col e j @ r) = scanValue (printJson nl col e j @ r)"
    using scanValue_start [OF _ c(2)] c(1) by simp
qed

lemma scan_items_Cons:
  assumes x: "json_wf x" "\<And>r. stopsNumber r \<Longrightarrow> scanValue (printJson nl col d x @ r) = Some (x, r)"
    and w: "list_all json_ws w"
    and xs: "xs \<noteq> [] \<Longrightarrow> scanItems (printItems nl col d xs @ w @ CHR '']'' # r) = Some (xs, r)"
  shows "scanItems (printItems nl col d (x # xs) @ w @ CHR '']'' # r) = Some (x # xs, r)"
proof (cases "xs = []")
  case True
  have "scanValue (nl d @ printJson nl col d x @ w @ CHR '']'' # r) = Some (x, w @ CHR '']'' # r)"
    using start_item(2) [OF x(1) nl_ws] x(2) stopsNumber_ws [OF w] by simp
  then show ?thesis using True skipWs_append [OF w] by (simp add: scanItems.simps skipWs_Cons)
next
  case False
  let ?t = "printItems nl col d xs @ w @ CHR '']'' # r"
  have "scanValue (nl d @ printJson nl col d x @ CHR '','' # ?t) = Some (x, CHR '','' # ?t)"
    using start_item(2) [OF x(1) nl_ws] x(2) by simp
  then show ?thesis using False xs by (simp add: scanItems.simps [of "nl d @ printJson nl col d x @ CHR '','' # ?t"] skipWs_Cons)
qed

lemma scan_members_Cons:
  assumes v: "json_wf v" "\<And>r. stopsNumber r \<Longrightarrow> scanValue (printJson nl col d v @ r) = Some (v, r)"
    and w: "list_all json_ws w"
    and fs: "fs \<noteq> [] \<Longrightarrow> scanMembers (printMembers nl col d fs @ w @ CHR ''}'' # r) = Some (fs, r)"
  shows "scanMembers (printMembers nl col d ((k, v) # fs) @ w @ CHR ''}'' # r) = Some ((k, v) # fs, r)"
proof -
  obtain cw where cw: "col = CHR '':'' # cw" "list_all json_ws cw" using col_ws by blast
  define t where "t = (if fs = [] then w @ CHR ''}'' # r else CHR '','' # printMembers nl col d fs @ w @ CHR ''}'' # r)"
  define u where "u = cw @ printJson nl col d v @ t"
  define s where "s = nl d @ quoteMark # quoteBody k @ quoteMark # CHR '':'' # u"
  have s: "printMembers nl col d ((k, v) # fs) @ w @ CHR ''}'' # r = s"
    by (simp add: s_def t_def u_def quoteStr_def cw(1))
  have "stopsNumber t" using stopsNumber_ws [OF w] by (simp add: t_def)
  then have sv: "scanValue u = Some (v, t)" using start_item(2) [OF v(1) cw(2)] v(2) by (simp add: u_def)
  have "skipWs s = quoteMark # quoteBody k @ quoteMark # CHR '':'' # u"
    using skipWs_append [OF nl_ws] by (simp add: s_def skipWs_Cons)
  moreover have "length u < length s" by (simp add: s_def)
  ultimately have "scanMembers s = (case skipWs t of [] \<Rightarrow> None
      | e # es \<Rightarrow> if e = CHR ''}'' then Some ([(k, v)], es)
          else if e = CHR '','' \<and> length es < length s then map_option (\<lambda>(fs, t). ((k, v) # fs, t)) (scanMembers es) else None)"
    by (simp add: scanMembers.simps [of s] scanStr_quoteBody skipWs_Cons sv)
  moreover have "length t < length s" by (simp add: s_def u_def)
  ultimately have "scanMembers s = Some ((k, v) # fs, r)"
    using fs skipWs_append [OF w] by (cases "fs = []") (simp_all add: t_def skipWs_Cons)
  then show ?thesis by (simp only: s)
qed

end

lemma scan_print:
  "json_layout nl col \<Longrightarrow> json_wf j \<Longrightarrow> stopsNumber r \<Longrightarrow> scanValue (printJson nl col d j @ r) = Some (j, r)"
  "json_layout nl col \<Longrightarrow> list_all json_wf xs \<Longrightarrow> xs \<noteq> [] \<Longrightarrow> list_all json_ws w \<Longrightarrow>
     scanItems (printItems nl col d xs @ w @ CHR '']'' # r) = Some (xs, r)"
  "json_layout nl col \<Longrightarrow> list_all (\<lambda>(_, v). json_wf v) fs \<Longrightarrow> fs \<noteq> [] \<Longrightarrow> list_all json_ws w \<Longrightarrow>
     scanMembers (printMembers nl col d fs @ w @ CHR ''}'' # r) = Some (fs, r)"
proof (induction nl col d j and nl col d xs and nl col d fs arbitrary: r and w r and w r
    rule: printJson_printItems_printMembers.induct)
  case (1 nl col d)
  show ?case by (simp add: scanValue.simps skipWs_Cons HasPrefix_def)
next
  case (2 nl col d b)
  show ?case by (simp add: scanValue.simps skipWs_Cons HasPrefix_def)
next
  case (3 nl col d lit)
  then show ?case using scanValue_num by simp
next
  case (4 nl col d s)
  show ?case by (simp add: scanValue.simps quoteStr_def skipWs_Cons scanStr_quoteBody)
next
  case (5 nl col d xs)
  show ?case
  proof (cases xs)
    case Nil
    then show ?thesis by (simp add: scanValue.simps skipWs_Cons)
  next
    case (Cons y ys)
    have "take 1 (skipWs (printItems nl col (Suc d) xs @ nl d @ CHR '']'' # r)) \<noteq> '']''"
      using json_layout.start_item(1) [OF 5(2), of y "Suc d" "Suc d"] 5(3) Cons by simp
    then show ?thesis
      using 5 Cons json_layout.nl_ws [OF 5(2), of d] by (simp add: scanValue.simps skipWs_Cons)
  qed
next
  case (6 nl col d fs)
  show ?case
  proof (cases fs)
    case Nil
    then show ?thesis by (simp add: scanValue.simps skipWs_Cons)
  next
    case (Cons y ys)
    obtain k v where y: "y = (k, v)" by (cases y)
    have "take 1 (skipWs (printMembers nl col (Suc d) fs @ nl d @ CHR ''}'' # r)) = [quoteMark]"
      using skipWs_append [OF json_layout.nl_ws [OF 6(2)]] by (simp add: Cons y quoteStr_def skipWs_Cons)
    then show ?thesis
      using 6 Cons json_layout.nl_ws [OF 6(2), of d] by (simp add: scanValue.simps skipWs_Cons)
  qed
next
  case (8 nl col d x xs)
  have "scanItems (printItems nl col d (x # xs) @ w @ CHR '']'' # r) = Some (x # xs, r)"
    by (rule json_layout.scan_items_Cons) (use 8 in auto)
  then show ?case .
next
  case (10 nl col d k v fs)
  have "scanMembers (printMembers nl col d ((k, v) # fs) @ w @ CHR ''}'' # r) = Some ((k, v) # fs, r)"
    by (rule json_layout.scan_members_Cons) (use 10 in auto)
  then show ?case .
qed simp_all

interpretation compact: json_layout "\<lambda>_. ''''" "'':''"
  by unfold_locales simp_all

interpretation indented: json_layout "\<lambda>d. CHR 0x0A # concat (replicate d ''  '')" "'': ''"
  by unfold_locales (auto simp: list_all_iff json_ws_def)

lemma parse_Marshal: "json_wf j \<Longrightarrow> parseJson (Marshal j) = Some j"
  using scan_print(1) [OF compact.json_layout_axioms, of j "[]" 0] by (simp add: parseJson_def Marshal_def skipWs_def)

lemma parse_MarshalIndent: "json_wf j \<Longrightarrow> parseJson (MarshalIndent j) = Some j"
  using scan_print(1) [OF indented.json_layout_axioms, of j "[]" 0] by (simp add: parseJson_def MarshalIndent_def skipWs_def)

lemma parseJson_decodeFirst: "parseJson s = Some j \<Longrightarrow> decodeFirst s = Some j"
  by (auto simp: parseJson_def decodeFirst_def split: option.splits prod.splits if_splits)

section \<open>Decoding into a struct\<close>

definition lowerChar :: "char \<Rightarrow> char" where
  "lowerChar c = (if 65 \<le> (of_char c :: nat) \<and> (of_char c :: nat) \<le> 90 then char_of ((of_char c :: nat) + 32) else c)"

definition foldName :: "string \<Rightarrow> string" where
  "foldName s = map lowerChar s"

type_synonym members = "(string \<times> json) list"

definition member :: "members \<Rightarrow> string \<Rightarrow> json" where
  "member fs k = (case find (\<lambda>(n, _). foldName n = foldName k) (rev fs) of Some (_, v) \<Rightarrow> v | None \<Rightarrow> JNull)"

text \<open>\<open>DisallowUnknownFields\<close>, for one struct.\<close>

definition knownMembers :: "bool \<Rightarrow> string list \<Rightarrow> members \<Rightarrow> bool" where
  "knownMembers strict names fs = (strict \<longrightarrow> list_all (\<lambda>(n, _). foldName n \<in> foldName ` set names) fs)"

fun asMembers :: "json \<Rightarrow> members option" where
  "asMembers JNull = Some []"
| "asMembers (JObj fs) = Some fs"
| "asMembers _ = None"

fun asString :: "json \<Rightarrow> string option" where
  "asString JNull = Some ''''"
| "asString (JStr s) = Some s"
| "asString _ = None"

fun asInt :: "json \<Rightarrow> int option" where
  "asInt JNull = Some 0"
| "asInt (JNum lit) = Atoi lit"
| "asInt _ = None"

fun asBool :: "json \<Rightarrow> bool option" where
  "asBool JNull = Some False"
| "asBool (JBool b) = Some b"
| "asBool _ = None"

fun allSome :: "'a option list \<Rightarrow> 'a list option" where
  "allSome [] = Some []"
| "allSome (None # xs) = None"
| "allSome (Some x # xs) = map_option ((#) x) (allSome xs)"

fun asList :: "(json \<Rightarrow> 'a option) \<Rightarrow> json \<Rightarrow> 'a list option" where
  "asList f JNull = Some []"
| "asList f (JArr xs) = allSome (map f xs)"
| "asList f _ = None"

fun asPtr :: "(json \<Rightarrow> 'a option) \<Rightarrow> json \<Rightarrow> 'a option option" where
  "asPtr f JNull = Some None"
| "asPtr f j = map_option Some (f j)"

fun lastWins :: "('a \<times> 'b) list \<Rightarrow> ('a \<times> 'b) list" where
  "lastWins [] = []"
| "lastWins ((k, v) # kvs) = (if k \<in> fst ` set kvs then lastWins kvs else (k, v) # lastWins kvs)"

text \<open>A decoded map in canonical form: the order of the members of the document is lost.\<close>

definition goMap :: "('a :: linorder \<times> 'b) list \<Rightarrow> ('a \<times> 'b) list" where
  "goMap kvs = sort_key fst (lastWins kvs)"

fun asStrMap :: "json \<Rightarrow> stralist option" where
  "asStrMap JNull = Some []"
| "asStrMap (JObj fs) = map_option goMap (allSome (map (\<lambda>(k, v). map_option (Pair k) (asString v)) fs))"
| "asStrMap _ = None"

section \<open>Encoding a struct\<close>

definition omitStr :: "string \<Rightarrow> string \<Rightarrow> members" where
  "omitStr n s = (if s = '''' then [] else [(n, JStr s)])"

definition omitBool :: "string \<Rightarrow> bool \<Rightarrow> members" where
  "omitBool n b = (if b then [(n, JBool b)] else [])"

definition omitList :: "string \<Rightarrow> ('a \<Rightarrow> json) \<Rightarrow> 'a list \<Rightarrow> members" where
  "omitList n f xs = (if xs = [] then [] else [(n, JArr (map f xs))])"

definition omitPtr :: "string \<Rightarrow> ('a \<Rightarrow> json) \<Rightarrow> 'a option \<Rightarrow> members" where
  "omitPtr n f p = (case p of None \<Rightarrow> [] | Some x \<Rightarrow> [(n, f x)])"

definition strMap :: "stralist \<Rightarrow> json" where
  "strMap m = JObj (map (\<lambda>k. (k, JStr (alget m k))) (sortedKeysOf m))"

definition omitMap :: "string \<Rightarrow> stralist \<Rightarrow> members" where
  "omitMap n m = (if m = [] then [] else [(n, strMap m)])"

definition jint :: "int \<Rightarrow> json" where
  "jint n = JNum (Itoa n)"

text \<open>A Go map in its canonical form: every key once, in order.\<close>

definition canonical :: "stralist \<Rightarrow> bool" where
  "canonical m = (sorted_wrt (<) (map fst m))"

section \<open>Members survive a round trip\<close>

named_theorems json_simps \<open>encoding and decoding of members\<close>

lemma allSome_map: "(\<And>x. x \<in> set xs \<Longrightarrow> f (g x) = Some x) \<Longrightarrow> allSome (map f (map g xs)) = Some xs"
  by (induction xs) auto

lemma asList_JArr [json_simps]: "(\<And>x. x \<in> set xs \<Longrightarrow> f (g x) = Some x) \<Longrightarrow> asList f (JArr (map g xs)) = Some xs"
  using allSome_map [of xs f g] by simp

declare asList.simps(2) [simp del]

lemma asList_JArr_strings [json_simps]: "asList asString (JArr (map JStr xs)) = Some xs"
  by (rule asList_JArr) simp

lemma lastWins_distinct: "distinct (map fst kvs) \<Longrightarrow> lastWins kvs = kvs"
  by (induction kvs rule: lastWins.induct) auto

lemma canonical_distinct: "canonical m \<longleftrightarrow> distinct (map fst m) \<and> sorted (map fst m)"
  unfolding canonical_def by (metis strict_sorted_iff)

lemma fst_lastWins: "fst ` set (lastWins kvs) = fst ` set kvs"
  by (induction kvs rule: lastWins.induct) auto

lemma distinct_lastWins: "distinct (map fst (lastWins kvs))"
proof (induction kvs rule: lastWins.induct)
  case (2 k v kvs)
  then show ?case using fst_lastWins [of kvs] by (simp add: image_iff)
qed simp

lemma canonical_goMap [simp]: "canonical (goMap kvs)"
proof -
  have "mset (goMap kvs) = mset (lastWins kvs)" by (simp add: goMap_def)
  then have "mset (map fst (goMap kvs)) = mset (map fst (lastWins kvs))" by simp
  then have "distinct (map fst (goMap kvs))" using distinct_lastWins mset_eq_imp_distinct_iff by blast
  then show ?thesis by (simp add: canonical_distinct goMap_def)
qed

lemma goMap_canonical: "canonical m \<Longrightarrow> goMap m = m"
  by (simp add: goMap_def canonical_distinct lastWins_distinct sorted_sort_id sort_key_id_if_sorted)

lemma asStrMap_canonical: "asStrMap j = Some m \<Longrightarrow> canonical m"
  by (cases j) (auto simp: canonical_def [of "[]"])

lemma strMap_canonical: "canonical m \<Longrightarrow> strMap m = JObj (map (\<lambda>(k, v). (k, JStr v)) m)"
proof -
  assume "canonical m"
  then have d: "distinct (map fst m)" "sorted (map fst m)" by (simp_all add: canonical_distinct)
  then have "sortedKeysOf m = map fst m" by (simp add: sortedKeysOf_def sorted_sort_id)
  moreover have "alget m k = v" if "(k, v) \<in> set m" for k v
    using map_of_is_SomeI [OF d(1) that] by (simp add: alget_def mget_def)
  ultimately show ?thesis by (auto simp: strMap_def)
qed

lemma asStrMap_strMap [json_simps]: "canonical m \<Longrightarrow> asStrMap (strMap m) = Some m"
proof -
  assume c: "canonical m"
  have "allSome (map (\<lambda>(k, v). map_option (Pair k) (asString v)) (map (\<lambda>(k, v). (k, JStr v)) m)) = Some m"
    by (rule allSome_map) auto
  then show ?thesis using goMap_canonical [OF c] by (simp add: strMap_canonical [OF c] comp_def)
qed

lemma asInt_jint [json_simps]: "in_int64 n \<Longrightarrow> asInt (jint n) = Some n"
  by (simp add: jint_def Atoi_Itoa)

lemma dec_digits_leading: "dec_digits n = CHR ''0'' # cs \<Longrightarrow> cs = []"
proof (induction n arbitrary: cs rule: dec_digits.induct)
  case (1 n)
  show ?case
  proof (cases "n < 10")
    case True
    then show ?thesis using 1(2) by (simp add: dec_digits.simps [of n])
  next
    case False
    then obtain d ds where d: "dec_digits (n div 10) = d # ds" by (metis dec_digits_not_Nil neq_Nil_conv)
    have "d = CHR ''0''" "cs = ds @ [digit_char (n mod 10)]" using False 1(2) d by (simp_all add: dec_digits.simps [of n])
    then have "ds = []" using 1(1) [OF False] d by simp
    then have "dec_val 0 (dec_digits (n div 10)) = 0" using d \<open>d = CHR ''0''\<close> by (simp add: digit_val_def)
    then show ?thesis using False by (simp add: dec_val_dec_digits)
  qed
qed

lemma validNum_Itoa: "validNum (Itoa n)"
proof -
  have d: "takeWhile is_digit (dec_digits m) = dec_digits m" "dropWhile is_digit (dec_digits m) = []" for m
    using dec_digits_digits [of m] by (auto simp: list_all_iff takeWhile_eq_all_conv)
  have m: "\<not> HasPrefix (dec_digits m) ''-''" for m
    using is_digit_not [of "CHR ''-''"] dec_digits_chars [of "CHR ''-''" m] by (cases "dec_digits m") (auto simp: HasPrefix_def)
  have t: "TrimPrefix (Itoa n) ''-'' = dec_digits (nat \<bar>n\<bar>)"
    using m TrimPrefix_append [of "''-''" "dec_digits (nat (- n))"] by (simp add: Itoa_def TrimPrefix_def HasPrefix_def)
  have h: "hd (dec_digits m) = CHR ''0'' \<longrightarrow> length (dec_digits m) = 1" for m
    using dec_digits_leading [of m] by (cases "dec_digits m") auto
  show ?thesis unfolding validNum_def Let_def t d using h by (simp add: validFrac_def)
qed

lemma json_wf_simps [json_simps]:
  "json_wf (jint n)" "json_wf (strMap m)"
  by (auto simp: jint_def validNum_Itoa strMap_def list_all_iff)

definition hasMember :: "members \<Rightarrow> string \<Rightarrow> bool" where
  "hasMember fs k = list_ex (\<lambda>(n, _). foldName n = foldName k) fs"

lemma hasMember_simps [json_simps]:
  "hasMember [] k = False"
  "hasMember ((n, v) # fs) k = (foldName n = foldName k \<or> hasMember fs k)"
  "hasMember (xs @ ys) k = (hasMember xs k \<or> hasMember ys k)"
  "hasMember (omitStr n s) k = (foldName n = foldName k \<and> s \<noteq> '''')"
  "hasMember (omitBool n b) k = (foldName n = foldName k \<and> b)"
  "hasMember (omitList n f xs') k = (foldName n = foldName k \<and> xs' \<noteq> [])"
  "hasMember (omitPtr n g p) k = (foldName n = foldName k \<and> p \<noteq> None)"
  "hasMember (omitMap n m) k = (foldName n = foldName k \<and> m \<noteq> [])"
  by (auto simp: hasMember_def omitStr_def omitBool_def omitList_def omitPtr_def omitMap_def split: option.split)

lemma find_append: "find p (xs @ ys) = (case find p xs of None \<Rightarrow> find p ys | Some x \<Rightarrow> Some x)"
  by (induction xs) auto

lemma find_None_member: "find (\<lambda>(n, _). foldName n = foldName k) (rev ys) = None \<longleftrightarrow> \<not> hasMember ys k"
  by (auto simp: hasMember_def find_None_iff list_ex_iff)

lemma member_append: "member (xs @ ys) k = (if hasMember ys k then member ys k else member xs k)"
  using find_None_member [of k ys] by (auto simp: member_def find_append split: option.split)

lemma member_absent: "\<not> hasMember xs k \<Longrightarrow> member xs k = JNull"
  using find_None_member [of k xs] by (simp add: member_def)

text \<open>Looking up a name in a list of members: a part with another name is skipped, the part with the name is the result
  if no later part has it.\<close>

lemma member_skip [json_simps]:
  assumes "foldName n \<noteq> foldName k"
  shows "member ((n, v) # ys) k = member ys k" "member (omitStr n s @ ys) k = member ys k" "member (omitBool n b @ ys) k = member ys k"
    "member (omitList n f xs @ ys) k = member ys k" "member (omitPtr n g p @ ys) k = member ys k" "member (omitMap n m @ ys) k = member ys k"
    "member (omitStr n s) k = JNull" "member (omitBool n b) k = JNull" "member (omitList n f xs) k = JNull"
    "member (omitPtr n g p) k = JNull" "member (omitMap n m) k = JNull"
  using assms member_append [of "[(n, v)]" ys k] member_absent [of ys k]
  by (simp_all add: member_append member_absent hasMember_simps)

lemma member_hit [json_simps]:
  assumes "foldName n = foldName k"
  shows "\<not> hasMember ys k \<Longrightarrow> member ((n, v) # ys) k = v"
    "member (omitStr n s) k = (if s = '''' then JNull else JStr s)" "member (omitBool n b) k = (if b then JBool True else JNull)"
    "member (omitList n f xs) k = (if xs = [] then JNull else JArr (map f xs))"
    "member (omitPtr n g p) k = (case p of None \<Rightarrow> JNull | Some x \<Rightarrow> g x)"
    "member (omitMap n m) k = (if m = [] then JNull else strMap m)"
  using assms member_append [of "[(n, v)]" ys k]
  by (auto simp: member_def omitStr_def omitBool_def omitList_def omitPtr_def omitMap_def split: option.split)

lemma member_hit_append [json_simps]:
  assumes "foldName n = foldName k" and "\<not> hasMember ys k"
  shows "member (omitStr n s @ ys) k = (if s = '''' then JNull else JStr s)"
    "member (omitBool n b @ ys) k = (if b then JBool True else JNull)"
    "member (omitList n f xs @ ys) k = (if xs = [] then JNull else JArr (map f xs))"
    "member (omitPtr n g p @ ys) k = (case p of None \<Rightarrow> JNull | Some x \<Rightarrow> g x)"
    "member (omitMap n m @ ys) k = (if m = [] then JNull else strMap m)"
  using assms by (simp_all add: member_append member_hit)

lemma member_Nil [json_simps]: "member [] k = JNull"
  by (simp add: member_def)

lemma knownMembers_simps [json_simps]:
  "knownMembers b ns []"
  "knownMembers b ns ((n, v) # fs) \<longleftrightarrow> (b \<longrightarrow> foldName n \<in> foldName ` set ns) \<and> knownMembers b ns fs"
  "knownMembers b ns (xs @ ys) \<longleftrightarrow> knownMembers b ns xs \<and> knownMembers b ns ys"
  by (auto simp: knownMembers_def)

lemma knownMembers_omit [json_simps]:
  assumes "n \<in> set ns"
  shows "knownMembers b ns (omitStr n s)" "knownMembers b ns (omitBool n c)" "knownMembers b ns (omitList n f xs)"
    "knownMembers b ns (omitPtr n g p)" "knownMembers b ns (omitMap n m)"
  using assms by (auto simp: knownMembers_def omitStr_def omitBool_def omitList_def omitPtr_def omitMap_def split: option.split)

text \<open>The simplifier turns a condition \<open>s \<noteq> []\<close> around; the rules have the form it leaves.\<close>

lemma as_omitted [json_simps]:
  "asString (if s = '''' then JNull else JStr s) = Some s"
  "asBool (if b then JBool True else JNull) = Some b"
  "canonical m \<Longrightarrow> asStrMap (if m = [] then JNull else strMap m) = Some m"
  by (auto simp: asStrMap_strMap)

lemma asList_omitted [json_simps]:
  "(\<And>x. x \<in> set xs \<Longrightarrow> f (g x) = Some x) \<Longrightarrow> asList f (if xs = [] then JNull else JArr (map g xs)) = Some xs"
  using asList_JArr [of xs f g] by (cases xs) auto

lemma asList_strings [json_simps]: "asList asString (if xs = [] then JNull else JArr (map JStr xs)) = Some xs"
  by (rule asList_omitted) simp

lemma asPtr_omitted [json_simps]:
  "(\<And>x. p = Some x \<Longrightarrow> g x \<noteq> JNull \<and> f (g x) = Some x) \<Longrightarrow> asPtr f (case p of None \<Rightarrow> JNull | Some x \<Rightarrow> g x) = Some p"
  by (cases p; cases "g (the p)") auto

lemma json_wf_omit [json_simps]:
  "list_all (\<lambda>(_, v). json_wf v) (omitStr n s)" "list_all (\<lambda>(_, v). json_wf v) (omitBool n b)"
  "list_all (\<lambda>(_, v). json_wf v) (omitMap n m)"
  "(\<And>x. x \<in> set xs \<Longrightarrow> json_wf (f x)) \<Longrightarrow> list_all (\<lambda>(_, v). json_wf v) (omitList n f xs)"
  "(\<And>x. p = Some x \<Longrightarrow> json_wf (g x)) \<Longrightarrow> list_all (\<lambda>(_, v). json_wf v) (omitPtr n g p)"
  by (auto simp: omitStr_def omitBool_def omitMap_def omitList_def omitPtr_def list_all_iff json_wf_simps split: option.split)

end
