(* ===== verification/Oci_Model.thy ===== *)
theory Oci_Model
  imports Json Launch_Config
begin

text \<open>
  The documents of an OCI layout (\<open>src/core/internal/artifact/artifact.go\<close>, \<open>image.go\<close>): descriptors, manifests,
  image indexes and the launch configuration, with the JSON the struct tags give them. An annotation map is
  an association list in canonical form (see \<open>canonical\<close>); a nil slice and an empty one are the same list.
\<close>

section \<open>Vocabulary\<close>

definition ArtifactType :: string where "ArtifactType = ''application/vnd.brewlet.app.v1+json''"
definition ConfigMediaType :: string where "ConfigMediaType = ''application/vnd.brewlet.jvm.config.v1+json''"
definition JarLayerMediaType :: string where "JarLayerMediaType = ''application/vnd.brewlet.jar.layer.v1+jar''"
definition ClasspathLayerMediaType :: string where "ClasspathLayerMediaType = ''application/vnd.brewlet.classpath.layer.v1+tar''"
definition ModulepathLayerMediaType :: string where "ModulepathLayerMediaType = ''application/vnd.brewlet.modulepath.layer.v1+tar''"
definition CDSLayerMediaType :: string where "CDSLayerMediaType = ''application/vnd.brewlet.cds.layer.v1+jsa''"
definition ociManifestMediaType :: string where "ociManifestMediaType = ''application/vnd.oci.image.manifest.v1+json''"
definition refNameAnnotation :: string where "refNameAnnotation = ''org.opencontainers.image.ref.name''"
definition titleAnnotation :: string where "titleAnnotation = ''org.opencontainers.image.title''"
definition OCIImageConfigMediaType :: string where "OCIImageConfigMediaType = ''application/vnd.oci.image.config.v1+json''"
definition OCIImageIndexMediaType :: string where "OCIImageIndexMediaType = ''application/vnd.oci.image.index.v1+json''"
definition OCILayerGzipMediaType :: string where "OCILayerGzipMediaType = ''application/vnd.oci.image.layer.v1.tar+gzip''"
definition JVMConfigAnnotation :: string where "JVMConfigAnnotation = ''brewlet.sh/jvm-config''"
definition LayerRoleAnnotation :: string where "LayerRoleAnnotation = ''brewlet.sh/layer''"
definition LayerRoleApp :: string where "LayerRoleApp = ''app''"
definition LayerRoleClasspath :: string where "LayerRoleClasspath = ''classpath''"
definition LayerRoleModulepath :: string where "LayerRoleModulepath = ''modulepath''"

named_theorems oci_names \<open>media types, annotation keys and layer roles\<close>

declare ArtifactType_def [oci_names] ConfigMediaType_def [oci_names] JarLayerMediaType_def [oci_names]
  ClasspathLayerMediaType_def [oci_names] ModulepathLayerMediaType_def [oci_names] CDSLayerMediaType_def [oci_names]
  ociManifestMediaType_def [oci_names] refNameAnnotation_def [oci_names] titleAnnotation_def [oci_names]
  OCIImageConfigMediaType_def [oci_names] OCIImageIndexMediaType_def [oci_names] OCILayerGzipMediaType_def [oci_names]
  JVMConfigAnnotation_def [oci_names] LayerRoleAnnotation_def [oci_names] LayerRoleApp_def [oci_names]
  LayerRoleClasspath_def [oci_names] LayerRoleModulepath_def [oci_names]

section \<open>Data\<close>

record Platform =
  pf_OS :: string
  pf_Architecture :: string

record Descriptor =
  d_MediaType :: string
  d_ArtifactType :: string
  d_Digest :: string
  d_Size :: int
  d_Platform :: "Platform option"
  d_Annotations :: stralist

record Manifest =
  m_SchemaVersion :: int
  m_MediaType :: string
  m_ArtifactType :: string
  m_Subject :: "Descriptor option"
  m_Config :: Descriptor
  m_Layers :: "Descriptor list"
  m_Annotations :: stralist

record Index =
  x_SchemaVersion :: int
  x_MediaType :: string
  x_Manifests :: "Descriptor list"
  x_Annotations :: stralist

section \<open>Encoding\<close>

definition encodePlatform :: "Platform \<Rightarrow> json" where
  "encodePlatform p = JObj [(''os'', JStr (pf_OS p)), (''architecture'', JStr (pf_Architecture p))]"

definition encodeDescriptor :: "Descriptor \<Rightarrow> json" where
  "encodeDescriptor d =
     JObj ([(''mediaType'', JStr (d_MediaType d))] @ omitStr ''artifactType'' (d_ArtifactType d) @
       [(''digest'', JStr (d_Digest d)), (''size'', jint (d_Size d))] @
       omitPtr ''platform'' encodePlatform (d_Platform d) @ omitMap ''annotations'' (d_Annotations d))"

definition encodeManifest :: "Manifest \<Rightarrow> json" where
  "encodeManifest m =
     JObj ([(''schemaVersion'', jint (m_SchemaVersion m)), (''mediaType'', JStr (m_MediaType m))] @
       omitStr ''artifactType'' (m_ArtifactType m) @ omitPtr ''subject'' encodeDescriptor (m_Subject m) @
       [(''config'', encodeDescriptor (m_Config m)), (''layers'', JArr (map encodeDescriptor (m_Layers m)))] @
       omitMap ''annotations'' (m_Annotations m))"

definition encodeIndex :: "Index \<Rightarrow> json" where
  "encodeIndex x =
     JObj ([(''schemaVersion'', jint (x_SchemaVersion x)), (''mediaType'', JStr (x_MediaType x)),
       (''manifests'', JArr (map encodeDescriptor (x_Manifests x)))] @ omitMap ''annotations'' (x_Annotations x))"

definition encodeEntry :: "Entry \<Rightarrow> json" where
  "encodeEntry e =
     JObj ([(''mode'', JStr (e_Mode e))] @ omitStr ''mainClass'' (e_MainClass e) @ omitList ''classPath'' JStr (e_ClassPath e) @
       omitStr ''module'' (e_Module e) @ omitList ''modulePath'' JStr (e_ModulePath e))"

definition encodeCDS :: "CDS \<Rightarrow> json" where
  "encodeCDS c = JObj ([(''archive'', JStr (cds_Archive c))] @ omitStr ''mode'' (cds_Mode c))"

definition encodeUser :: "User \<Rightarrow> json" where
  "encodeUser u = JObj [(''uid'', jint (u_UID u)), (''gid'', jint (u_GID u))]"

definition encodeEnvVar :: "string \<times> string \<Rightarrow> json" where
  "encodeEnvVar e = JObj [(''name'', JStr (fst e)), (''value'', JStr (snd e))]"

definition encodeConfig :: "JVMConfig \<Rightarrow> json" where
  "encodeConfig c =
     JObj ([(''schemaVersion'', jint (cfg_SchemaVersion c)), (''mainJar'', JStr (cfg_MainJar c)), (''entry'', encodeEntry (cfg_Entry c))] @
       omitBool ''enablePreview'' (cfg_EnablePreview c) @ omitList ''addModules'' JStr (cfg_AddModules c) @
       omitList ''addOpens'' JStr (cfg_AddOpens c) @ omitList ''addExports'' JStr (cfg_AddExports c) @
       omitMap ''systemProperties'' (cfg_SystemProperties c) @ omitPtr ''user'' encodeUser (cfg_User c) @
       omitList ''env'' encodeEnvVar (cfg_Env c) @ omitList ''arch'' JStr (cfg_Arch c) @ omitPtr ''cds'' encodeCDS (cfg_CDS c))"

section \<open>Decoding\<close>

text \<open>\<open>strict\<close> is the decoder's \<open>DisallowUnknownFields\<close>, which holds for the nested structs too.\<close>

definition decodePlatform :: "bool \<Rightarrow> json \<Rightarrow> Platform option" where
  "decodePlatform strict j =
     Option.bind (asMembers j) (\<lambda>fs.
     if \<not> knownMembers strict [''os'', ''architecture''] fs then None
     else Option.bind (asString (member fs ''os'')) (\<lambda>os.
          Option.bind (asString (member fs ''architecture'')) (\<lambda>arch.
          Some \<lparr>pf_OS = os, pf_Architecture = arch\<rparr>)))"

definition descriptorNames :: "string list" where
  "descriptorNames = [''mediaType'', ''artifactType'', ''digest'', ''size'', ''platform'', ''annotations'']"

definition decodeDescriptor :: "bool \<Rightarrow> json \<Rightarrow> Descriptor option" where
  "decodeDescriptor strict j =
     Option.bind (asMembers j) (\<lambda>fs.
     if \<not> knownMembers strict descriptorNames fs then None
     else Option.bind (asString (member fs ''mediaType'')) (\<lambda>mt.
          Option.bind (asString (member fs ''artifactType'')) (\<lambda>at.
          Option.bind (asString (member fs ''digest'')) (\<lambda>dg.
          Option.bind (asInt (member fs ''size'')) (\<lambda>sz.
          Option.bind (asPtr (decodePlatform strict) (member fs ''platform'')) (\<lambda>pf.
          Option.bind (asStrMap (member fs ''annotations'')) (\<lambda>an.
          Some \<lparr>d_MediaType = mt, d_ArtifactType = at, d_Digest = dg, d_Size = sz, d_Platform = pf, d_Annotations = an\<rparr>)))))))"

definition manifestNames :: "string list" where
  "manifestNames = [''schemaVersion'', ''mediaType'', ''artifactType'', ''subject'', ''config'', ''layers'', ''annotations'']"

definition decodeManifest :: "bool \<Rightarrow> json \<Rightarrow> Manifest option" where
  "decodeManifest strict j =
     Option.bind (asMembers j) (\<lambda>fs.
     if \<not> knownMembers strict manifestNames fs then None
     else Option.bind (asInt (member fs ''schemaVersion'')) (\<lambda>sv.
          Option.bind (asString (member fs ''mediaType'')) (\<lambda>mt.
          Option.bind (asString (member fs ''artifactType'')) (\<lambda>at.
          Option.bind (asPtr (decodeDescriptor strict) (member fs ''subject'')) (\<lambda>su.
          Option.bind (decodeDescriptor strict (member fs ''config'')) (\<lambda>co.
          Option.bind (asList (decodeDescriptor strict) (member fs ''layers'')) (\<lambda>la.
          Option.bind (asStrMap (member fs ''annotations'')) (\<lambda>an.
          Some \<lparr>m_SchemaVersion = sv, m_MediaType = mt, m_ArtifactType = at, m_Subject = su, m_Config = co,
                m_Layers = la, m_Annotations = an\<rparr>))))))))"

text \<open>An index is decoded into a value that may already have a version and a media type; a document that does not
  give them leaves them.\<close>

definition decodeIndexInto :: "int \<Rightarrow> string \<Rightarrow> json \<Rightarrow> Index option" where
  "decodeIndexInto sv0 mt0 j =
     Option.bind (asMembers j) (\<lambda>fs.
     Option.bind (if member fs ''schemaVersion'' = JNull then Some sv0 else asInt (member fs ''schemaVersion'')) (\<lambda>sv.
     Option.bind (if member fs ''mediaType'' = JNull then Some mt0 else asString (member fs ''mediaType'')) (\<lambda>mt.
     Option.bind (asList (decodeDescriptor False) (member fs ''manifests'')) (\<lambda>ms.
     Option.bind (asStrMap (member fs ''annotations'')) (\<lambda>an.
     Some \<lparr>x_SchemaVersion = sv, x_MediaType = mt, x_Manifests = ms, x_Annotations = an\<rparr>)))))"

definition decodeIndex :: "json \<Rightarrow> Index option" where
  "decodeIndex j = decodeIndexInto 0 '''' j"

definition decodeEntry :: "json \<Rightarrow> Entry option" where
  "decodeEntry j =
     Option.bind (asMembers j) (\<lambda>fs.
     if \<not> knownMembers True [''mode'', ''mainClass'', ''classPath'', ''module'', ''modulePath''] fs then None
     else Option.bind (asString (member fs ''mode'')) (\<lambda>mo.
          Option.bind (asString (member fs ''mainClass'')) (\<lambda>mc.
          Option.bind (asList asString (member fs ''classPath'')) (\<lambda>cp.
          Option.bind (asString (member fs ''module'')) (\<lambda>md.
          Option.bind (asList asString (member fs ''modulePath'')) (\<lambda>mp.
          Some \<lparr>e_Mode = mo, e_MainClass = mc, e_ClassPath = cp, e_Module = md, e_ModulePath = mp\<rparr>))))))"

definition decodeCDS :: "json \<Rightarrow> CDS option" where
  "decodeCDS j =
     Option.bind (asMembers j) (\<lambda>fs.
     if \<not> knownMembers True [''archive'', ''mode''] fs then None
     else Option.bind (asString (member fs ''archive'')) (\<lambda>a.
          Option.bind (asString (member fs ''mode'')) (\<lambda>m.
          Some \<lparr>cds_Archive = a, cds_Mode = m\<rparr>)))"

definition decodeUser :: "json \<Rightarrow> User option" where
  "decodeUser j =
     Option.bind (asMembers j) (\<lambda>fs.
     if \<not> knownMembers True [''uid'', ''gid''] fs then None
     else Option.bind (asInt (member fs ''uid'')) (\<lambda>u.
          Option.bind (asInt (member fs ''gid'')) (\<lambda>g.
          Some \<lparr>u_UID = u, u_GID = g\<rparr>)))"

definition decodeEnvVar :: "json \<Rightarrow> (string \<times> string) option" where
  "decodeEnvVar j =
     Option.bind (asMembers j) (\<lambda>fs.
     if \<not> knownMembers True [''name'', ''value''] fs then None
     else Option.bind (asString (member fs ''name'')) (\<lambda>n.
          Option.bind (asString (member fs ''value'')) (\<lambda>v.
          Some (n, v))))"

definition configNames :: "string list" where
  "configNames = [''schemaVersion'', ''mainJar'', ''entry'', ''enablePreview'', ''addModules'', ''addOpens'', ''addExports'',
     ''systemProperties'', ''user'', ''env'', ''arch'', ''cds'']"

definition decodeConfig :: "json \<Rightarrow> JVMConfig option" where
  "decodeConfig j =
     Option.bind (asMembers j) (\<lambda>fs.
     if \<not> knownMembers True configNames fs then None
     else Option.bind (asInt (member fs ''schemaVersion'')) (\<lambda>sv.
          Option.bind (asString (member fs ''mainJar'')) (\<lambda>mj.
          Option.bind (decodeEntry (member fs ''entry'')) (\<lambda>en.
          Option.bind (asBool (member fs ''enablePreview'')) (\<lambda>ep.
          Option.bind (asList asString (member fs ''addModules'')) (\<lambda>am.
          Option.bind (asList asString (member fs ''addOpens'')) (\<lambda>ao.
          Option.bind (asList asString (member fs ''addExports'')) (\<lambda>ae.
          Option.bind (asStrMap (member fs ''systemProperties'')) (\<lambda>sp.
          Option.bind (asPtr decodeUser (member fs ''user'')) (\<lambda>us.
          Option.bind (asList decodeEnvVar (member fs ''env'')) (\<lambda>ev.
          Option.bind (asList asString (member fs ''arch'')) (\<lambda>ar.
          Option.bind (asPtr decodeCDS (member fs ''cds'')) (\<lambda>cd.
          Some \<lparr>cfg_SchemaVersion = sv, cfg_MainJar = mj, cfg_Entry = en, cfg_EnablePreview = ep, cfg_AddModules = am,
                cfg_AddOpens = ao, cfg_AddExports = ae, cfg_SystemProperties = sp, cfg_User = us, cfg_Env = ev,
                cfg_Arch = ar, cfg_CDS = cd\<rparr>)))))))))))))"

text \<open>The decoder of a launch configuration reads the first value of its input and ignores what follows.\<close>

definition DecodeConfigBytes :: "string \<Rightarrow> decode_error + JVMConfig" where
  "DecodeConfigBytes b = DecodeConfig (\<lambda>s. Option.bind (decodeFirst s) decodeConfig) b"

section \<open>Round trips\<close>

lemma foldNames [json_simps]:
  "foldName ''os'' = ''os''" "foldName ''architecture'' = ''architecture''" "foldName ''mediaType'' = ''mediatype''"
  "foldName ''artifactType'' = ''artifacttype''" "foldName ''digest'' = ''digest''" "foldName ''size'' = ''size''"
  "foldName ''platform'' = ''platform''" "foldName ''annotations'' = ''annotations''" "foldName ''schemaVersion'' = ''schemaversion''"
  "foldName ''subject'' = ''subject''" "foldName ''config'' = ''config''" "foldName ''layers'' = ''layers''"
  "foldName ''manifests'' = ''manifests''" "foldName ''mode'' = ''mode''" "foldName ''mainClass'' = ''mainclass''"
  "foldName ''classPath'' = ''classpath''" "foldName ''module'' = ''module''" "foldName ''modulePath'' = ''modulepath''"
  "foldName ''archive'' = ''archive''" "foldName ''uid'' = ''uid''" "foldName ''gid'' = ''gid''" "foldName ''name'' = ''name''"
  "foldName ''value'' = ''value''" "foldName ''mainJar'' = ''mainjar''" "foldName ''entry'' = ''entry''"
  "foldName ''enablePreview'' = ''enablepreview''" "foldName ''addModules'' = ''addmodules''" "foldName ''addOpens'' = ''addopens''"
  "foldName ''addExports'' = ''addexports''" "foldName ''systemProperties'' = ''systemproperties''" "foldName ''user'' = ''user''"
  "foldName ''env'' = ''env''" "foldName ''arch'' = ''arch''" "foldName ''cds'' = ''cds''"
  by code_simp+

lemma decode_encode_Platform: "decodePlatform b (encodePlatform p) = Some p"
  by (simp add: decodePlatform_def encodePlatform_def json_simps)

definition descriptor_ok :: "Descriptor \<Rightarrow> bool" where
  "descriptor_ok d \<longleftrightarrow> in_int64 (d_Size d) \<and> canonical (d_Annotations d)"

definition manifest_ok :: "Manifest \<Rightarrow> bool" where
  "manifest_ok m \<longleftrightarrow> in_int64 (m_SchemaVersion m) \<and> canonical (m_Annotations m) \<and> descriptor_ok (m_Config m) \<and>
     list_all descriptor_ok (m_Layers m) \<and> pred_option descriptor_ok (m_Subject m)"

definition index_ok :: "Index \<Rightarrow> bool" where
  "index_ok x \<longleftrightarrow> in_int64 (x_SchemaVersion x) \<and> canonical (x_Annotations x) \<and> list_all descriptor_ok (x_Manifests x)"

definition config_ok :: "JVMConfig \<Rightarrow> bool" where
  "config_ok c \<longleftrightarrow> in_int64 (cfg_SchemaVersion c) \<and> canonical (cfg_SystemProperties c) \<and>
     pred_option (\<lambda>u. in_int64 (u_UID u) \<and> in_int64 (u_GID u)) (cfg_User c)"

lemma decode_encode_Descriptor:
  assumes "descriptor_ok d" shows "decodeDescriptor b (encodeDescriptor d) = Some d"
proof -
  have "asPtr (decodePlatform b) (case d_Platform d of None \<Rightarrow> JNull | Some p \<Rightarrow> encodePlatform p) = Some (d_Platform d)"
    by (rule asPtr_omitted) (simp add: decode_encode_Platform, simp add: encodePlatform_def)
  then show ?thesis
    using assms by (simp add: decodeDescriptor_def encodeDescriptor_def descriptorNames_def descriptor_ok_def json_simps split del: if_split)
qed

lemma encodeDescriptor_not_null [simp]: "encodeDescriptor d \<noteq> JNull"
  by (simp add: encodeDescriptor_def)

lemma decode_encode_Manifest:
  assumes "manifest_ok m" shows "decodeManifest b (encodeManifest m) = Some m"
proof -
  have s: "asPtr (decodeDescriptor b) (case m_Subject m of None \<Rightarrow> JNull | Some d \<Rightarrow> encodeDescriptor d) = Some (m_Subject m)"
    by (rule asPtr_omitted) (use assms in \<open>simp add: manifest_ok_def decode_encode_Descriptor\<close>)
  have l: "asList (decodeDescriptor b) (JArr (map encodeDescriptor (m_Layers m))) = Some (m_Layers m)"
    by (rule asList_JArr) (use assms in \<open>simp add: manifest_ok_def decode_encode_Descriptor list_all_iff\<close>)
  show ?thesis
    using assms s l
    by (simp add: decodeManifest_def encodeManifest_def manifestNames_def manifest_ok_def decode_encode_Descriptor json_simps split del: if_split)
qed

lemma decode_encode_Index:
  assumes "index_ok x" shows "decodeIndexInto sv mt (encodeIndex x) = Some x"
proof -
  have l: "asList (decodeDescriptor False) (JArr (map encodeDescriptor (x_Manifests x))) = Some (x_Manifests x)"
    by (rule asList_JArr) (use assms in \<open>simp add: index_ok_def decode_encode_Descriptor list_all_iff\<close>)
  show ?thesis
    using assms l by (simp add: decodeIndexInto_def encodeIndex_def index_ok_def json_simps jint_def [of "x_SchemaVersion x"] Atoi_Itoa)
qed

lemma decode_encode_Entry: "decodeEntry (encodeEntry e) = Some e"
  by (simp add: decodeEntry_def encodeEntry_def json_simps split del: if_split)

lemma decode_encode_CDS: "decodeCDS (encodeCDS c) = Some c"
  by (simp add: decodeCDS_def encodeCDS_def json_simps)

lemma decode_encode_User: "in_int64 (u_UID u) \<Longrightarrow> in_int64 (u_GID u) \<Longrightarrow> decodeUser (encodeUser u) = Some u"
  by (simp add: decodeUser_def encodeUser_def json_simps)

lemma decode_encode_EnvVar: "decodeEnvVar (encodeEnvVar e) = Some e"
  by (simp add: decodeEnvVar_def encodeEnvVar_def json_simps)

lemma decode_encode_Config:
  assumes "config_ok c" shows "decodeConfig (encodeConfig c) = Some c"
proof -
  have u: "asPtr decodeUser (case cfg_User c of None \<Rightarrow> JNull | Some u \<Rightarrow> encodeUser u) = Some (cfg_User c)"
    by (rule asPtr_omitted) (use assms in \<open>simp add: config_ok_def decode_encode_User\<close>, simp add: encodeUser_def)
  have d: "asPtr decodeCDS (case cfg_CDS c of None \<Rightarrow> JNull | Some u \<Rightarrow> encodeCDS u) = Some (cfg_CDS c)"
    by (rule asPtr_omitted) (simp add: decode_encode_CDS, simp add: encodeCDS_def)
  have e: "asList decodeEnvVar (if cfg_Env c = [] then JNull else JArr (map encodeEnvVar (cfg_Env c))) = Some (cfg_Env c)"
    by (rule asList_omitted) (simp add: decode_encode_EnvVar)
  show ?thesis
    using assms u d e
    by (simp add: decodeConfig_def encodeConfig_def configNames_def config_ok_def decode_encode_Entry json_simps split del: if_split)
qed

section \<open>What is decoded is well formed\<close>

lemma asInt_range: "asInt j = Some n \<Longrightarrow> in_int64 n"
proof (cases j)
  case (JNum lit)
  assume "asInt j = Some n"
  then show ?thesis using JNum by (auto simp: Atoi_def Let_def split: option.splits if_splits list.splits prod.splits)
qed (auto simp: in_int64_def min_int64_def max_int64_def)

lemma allSome_elem: "allSome ys = Some xs \<Longrightarrow> x \<in> set xs \<Longrightarrow> Some x \<in> set ys"
  by (induction ys arbitrary: xs rule: allSome.induct) auto

lemma asList_elem: "asList f j = Some xs \<Longrightarrow> x \<in> set xs \<Longrightarrow> \<exists>y. f y = Some x"
proof (cases j)
  case (JArr ys)
  assume "asList f j = Some xs" "x \<in> set xs"
  then have "Some x \<in> set (map f ys)" using JArr allSome_elem [of "map f ys" xs x] by (simp add: asList.simps(2))
  then show ?thesis by (auto simp: image_iff)
qed auto

lemma asPtr_elem: "asPtr f j = Some (Some x) \<Longrightarrow> f j = Some x"
  by (cases j) auto

lemma decodeDescriptor_ok: "decodeDescriptor b j = Some d \<Longrightarrow> descriptor_ok d"
  by (auto simp: decodeDescriptor_def descriptor_ok_def bind_eq_Some_conv split: if_splits
      dest: asInt_range asStrMap_canonical)

lemma decodeIndexInto_ok:
  assumes "decodeIndexInto sv mt j = Some x" and "in_int64 sv" shows "index_ok x"
proof -
  obtain fs ms an where x: "asList (decodeDescriptor False) (member fs ''manifests'') = Some ms"
      "asStrMap (member fs ''annotations'') = Some an" "x_Manifests x = ms" "x_Annotations x = an" "in_int64 (x_SchemaVersion x)"
    using assms by (auto simp: decodeIndexInto_def bind_eq_Some_conv dest: asInt_range split: if_splits)
  have "descriptor_ok d" if "d \<in> set ms" for d using asList_elem [OF x(1) that] decodeDescriptor_ok by blast
  then show ?thesis using x asStrMap_canonical [OF x(2)] by (simp add: index_ok_def list_all_iff)
qed

section \<open>Documents as text\<close>

lemma json_wf_encode [simp]:
  "json_wf (encodeDescriptor d)" "json_wf (encodeManifest m)" "json_wf (encodeIndex x)" "json_wf (encodeConfig c)"
proof -
  show d: "json_wf (encodeDescriptor d)" for d
    by (simp add: encodeDescriptor_def encodePlatform_def json_simps)
  then have l: "list_all json_wf (map encodeDescriptor ds)" for ds by (induction ds) simp_all
  show "json_wf (encodeManifest m)" "json_wf (encodeIndex x)"
    using d l by (simp_all add: encodeManifest_def encodeIndex_def json_simps)
  show "json_wf (encodeConfig c)"
    by (simp add: encodeConfig_def encodeEntry_def encodeUser_def encodeEnvVar_def encodeCDS_def json_simps)
qed

lemma DecodeConfigBytes_encode:
  assumes "config_ok c" and "Validate c = None"
  shows "DecodeConfigBytes (MarshalIndent (encodeConfig c)) = Inr c" "DecodeConfigBytes (Marshal (encodeConfig c)) = Inr c"
  using assms parseJson_decodeFirst [OF parse_MarshalIndent] parseJson_decodeFirst [OF parse_Marshal]
  by (simp_all add: DecodeConfigBytes_def DecodeConfig_def decode_encode_Config)

text \<open>A launch configuration survives publication. The document that a publisher writes for a valid configuration,
  in the indented form of a config blob or in the compact form of an image annotation, is decoded at launch to
  the same configuration, unknown fields being rejected and the result validated again.\<close>

lemma launch_config_roundtrip:
  assumes "config_ok c" and "Validate c = None"
  shows "DecodeConfigBytes (MarshalIndent (encodeConfig c)) = Inr c \<and> DecodeConfigBytes (Marshal (encodeConfig c)) = Inr c"
  using DecodeConfigBytes_encode [OF assms] by blast

text \<open>The decoder is less strict than it looks: text after the document is ignored.\<close>

lemma trailing_text_is_ignored:
  assumes "config_ok c" and "Validate c = None" and "stopsNumber junk"
  shows "DecodeConfigBytes (MarshalIndent (encodeConfig c) @ junk) = Inr c"
proof -
  have "decodeFirst (MarshalIndent (encodeConfig c) @ junk) = Some (encodeConfig c)"
    using scan_print(1) [OF indented.json_layout_axioms json_wf_encode(4) assms(3)]
    by (simp add: decodeFirst_def MarshalIndent_def)
  then show ?thesis using assms by (simp add: DecodeConfigBytes_def DecodeConfig_def decode_encode_Config)
qed

lemma jarConfig_ok: "config_ok jarConfig"
  by (simp add: config_ok_def jarConfig_def in_int64_def min_int64_def max_int64_def canonical_def)

theorem launch_config_roundtrip_witness:
  "DecodeConfigBytes (MarshalIndent (encodeConfig jarConfig)) = Inr jarConfig \<and> length (Marshal (encodeConfig jarConfig)) = 65"
proof -
  have "length (Marshal (encodeConfig jarConfig)) = 65" by code_simp
  then show ?thesis using launch_config_roundtrip [OF jarConfig_ok jarConfig_valid] by blast
qed

end
