(* ===== verification/Go_FS.thy ===== *)
theory Go_FS
  imports Go_IO
begin

text \<open>
  Computations that read back what they wrote: a state is the content of the files, by cleaned path, and a
  computation gives a result or an error together with the state it leaves, in both cases. A write can
  succeed, fail before the file is opened, or fail after the file was truncated and leave any content
  (\<open>os.WriteFile\<close> opens with \<open>O_TRUNC\<close>); which of these happens at which path is the record \<open>disk\<close>.
  Directories are not represented: creating one succeeds or fails.
\<close>

type_synonym fsys = "string \<Rightarrow> bytes option"

datatype write_outcome = Written | NotOpened | Truncated bytes

record disk =
  dk_write :: "string \<Rightarrow> write_outcome"
  dk_mkdir :: "string \<Rightarrow> bool"

type_synonym ('e, 'a) fsm = "fsys \<Rightarrow> ('e + 'a) \<times> fsys"

definition retF :: "'a \<Rightarrow> ('e, 'a) fsm" where
  "retF a fs = (Inr a, fs)"

definition failF :: "'e \<Rightarrow> ('e, 'a) fsm" where
  "failF e fs = (Inl e, fs)"

definition bindF :: "('e, 'a) fsm \<Rightarrow> ('a \<Rightarrow> ('e, 'b) fsm) \<Rightarrow> ('e, 'b) fsm" where
  "bindF m f fs = (case m fs of (Inl e, fs') \<Rightarrow> (Inl e, fs') | (Inr a, fs') \<Rightarrow> f a fs')"

definition thenF :: "('e, unit) fsm \<Rightarrow> ('e, 'b) fsm \<Rightarrow> ('e, 'b) fsm" where
  "thenF m k = bindF m (\<lambda>_. k)"

definition liftF :: "'e + 'a \<Rightarrow> ('e, 'a) fsm" where
  "liftF r fs = (r, fs)"

definition mapErrF :: "('e \<Rightarrow> 'f) \<Rightarrow> ('e, 'a) fsm \<Rightarrow> ('f, 'a) fsm" where
  "mapErrF g m fs = (case m fs of (Inl e, fs') \<Rightarrow> (Inl (g e), fs') | (Inr a, fs') \<Rightarrow> (Inr a, fs'))"

definition getF :: "(fsys \<Rightarrow> 'a) \<Rightarrow> ('e, 'a) fsm" where
  "getF f fs = (Inr (f fs), fs)"

definition fileAt :: "fsys \<Rightarrow> string \<Rightarrow> bytes option" where
  "fileAt fs p = fs (Clean p)"

definition readF :: "(string \<Rightarrow> 'e) \<Rightarrow> string \<Rightarrow> ('e, bytes) fsm" where
  "readF err p fs = (case fileAt fs p of None \<Rightarrow> (Inl (err p), fs) | Some b \<Rightarrow> (Inr b, fs))"

definition writeF :: "disk \<Rightarrow> (string \<Rightarrow> 'e) \<Rightarrow> string \<Rightarrow> bytes \<Rightarrow> ('e, unit) fsm" where
  "writeF dk err p b fs =
     (case dk_write dk p of
        Written \<Rightarrow> (Inr (), fs(Clean p \<mapsto> b))
      | NotOpened \<Rightarrow> (Inl (err p), fs)
      | Truncated b' \<Rightarrow> (Inl (err p), fs(Clean p \<mapsto> b')))"

definition mkdirF :: "disk \<Rightarrow> (string \<Rightarrow> 'e) \<Rightarrow> string \<Rightarrow> ('e, unit) fsm" where
  "mkdirF dk err p fs = (if dk_mkdir dk p then (Inr (), fs) else (Inl (err p), fs))"

named_theorems fsm_ok \<open>successful runs\<close>

lemma retF_ok [fsm_ok]: "retF a fs = (Inr b, fs') \<longleftrightarrow> b = a \<and> fs' = fs"
  by (auto simp: retF_def)

lemma failF_ok [fsm_ok]: "failF e fs = (Inr b, fs') \<longleftrightarrow> False"
  by (simp add: failF_def)

lemma bindF_ok [fsm_ok]: "bindF m f fs = (Inr b, fs') \<longleftrightarrow> (\<exists>a fs1. m fs = (Inr a, fs1) \<and> f a fs1 = (Inr b, fs'))"
  by (auto simp: bindF_def split: prod.split sum.split)

lemma thenF_ok [fsm_ok]: "thenF m k fs = (Inr b, fs') \<longleftrightarrow> (\<exists>fs1. m fs = (Inr (), fs1) \<and> k fs1 = (Inr b, fs'))"
  by (simp add: thenF_def bindF_ok)

lemma liftF_ok [fsm_ok]: "liftF r fs = (Inr b, fs') \<longleftrightarrow> r = Inr b \<and> fs' = fs"
  by (auto simp: liftF_def)

lemma mapErrF_ok [fsm_ok]: "mapErrF g m fs = (Inr b, fs') \<longleftrightarrow> m fs = (Inr b, fs')"
  by (auto simp: mapErrF_def split: prod.split sum.split)

lemma getF_ok [fsm_ok]: "getF f fs = (Inr b, fs') \<longleftrightarrow> b = f fs \<and> fs' = fs"
  by (auto simp: getF_def)

lemma readF_ok [fsm_ok]: "readF err p fs = (Inr b, fs') \<longleftrightarrow> fileAt fs p = Some b \<and> fs' = fs"
  by (auto simp: readF_def split: option.split)

lemma writeF_ok [fsm_ok]: "writeF dk err p b fs = (Inr u, fs') \<longleftrightarrow> dk_write dk p = Written \<and> fs' = fs(Clean p \<mapsto> b)"
  by (auto simp: writeF_def split: write_outcome.split)

lemma mkdirF_ok [fsm_ok]: "mkdirF dk err p fs = (Inr u, fs') \<longleftrightarrow> dk_mkdir dk p \<and> fs' = fs"
  by (auto simp: mkdirF_def)

section \<open>What a computation may change\<close>

text \<open>\<open>keepsF K m\<close>: whatever the result, \<open>m\<close> leaves every file whose cleaned path satisfies \<open>K\<close> as it was.\<close>

definition keepsF :: "(string \<Rightarrow> bool) \<Rightarrow> ('e, 'a) fsm \<Rightarrow> bool" where
  "keepsF K m \<longleftrightarrow> (\<forall>fs p. K p \<longrightarrow> snd (m fs) p = fs p)"

lemma keepsFD: "keepsF K m \<Longrightarrow> K p \<Longrightarrow> snd (m fs) p = fs p"
  by (simp add: keepsF_def)

lemma keepsF_bind [intro]:
  assumes "keepsF K m" and "\<And>a. keepsF K (f a)" shows "keepsF K (bindF m f)"
  unfolding keepsF_def
proof (intro allI impI)
  fix fs p assume K: "K p"
  obtain r fs1 where m: "m fs = (r, fs1)" by fastforce
  have 1: "fs1 p = fs p" using keepsFD [OF assms(1) K, of fs] m by simp
  show "snd (bindF m f fs) p = fs p"
  proof (cases r)
    case (Inr a)
    then show ?thesis using keepsFD [OF assms(2) K, of a fs1] 1 m by (simp add: bindF_def)
  qed (use 1 m in \<open>simp add: bindF_def\<close>)
qed

lemma keepsF_basic [intro, simp]:
  "keepsF K (retF a)" "keepsF K (failF e)" "keepsF K (liftF r)" "keepsF K (getF f)" "keepsF K (readF err p)"
  "keepsF K (mkdirF dk err p)"
  by (auto simp: keepsF_def retF_def failF_def liftF_def getF_def readF_def mkdirF_def split: option.split)

lemma keepsF_mapErr [intro]: "keepsF K m \<Longrightarrow> keepsF K (mapErrF g m)"
proof -
  assume m: "keepsF K m"
  have "snd (mapErrF g m fs) = snd (m fs)" for fs by (auto simp: mapErrF_def split: prod.split sum.split)
  then show ?thesis using m by (simp add: keepsF_def)
qed

lemma keepsF_then [intro]: "keepsF K m \<Longrightarrow> keepsF K k \<Longrightarrow> keepsF K (thenF m k)"
  unfolding thenF_def by (rule keepsF_bind)

lemma keepsF_write [intro]: "\<not> K (Clean p) \<Longrightarrow> keepsF K (writeF dk err p b)"
  by (auto simp: keepsF_def writeF_def split: write_outcome.split)

end
