(* ===== verification/Artifact_Store.thy ===== *)
theory Artifact_Store
  imports Oci_Model Go_FS
begin

text \<open>
  The OCI layout on disk and its two halves: publishing a native artifact
  (\<open>src/core/internal/artifact/artifact.go\<close>: \<open>Store\<close>, \<open>PushWithCDS\<close>, the tag index) and resolving a reference
  to files (\<open>artifact.go\<close>, \<open>blobs.go\<close>, \<open>image.go\<close>: \<open>Resolve\<close>, \<open>ResolveBlobs\<close>, \<open>ResolveNativeBlobs\<close>, the
  verified reads of \<open>dependency_bundle.go\<close>). SHA-256 is the argument \<open>sha\<close>, which gives the hexadecimal digits;
  \<open>goarch\<close> is \<open>runtime.GOARCH\<close>.
\<close>

section \<open>Errors and the layout\<close>

datatype store_error =
    StoreIO string
  | BadLaunchConfig config_error
  | ArchiveNotProvided string
  | ArchiveNotDeclared
  | ArchiveNameMismatch string string
  | RefNotFound string
  | BadIndexDocument
  | BadManifestDocument string
  | BadConfigDocument decode_error
  | NoJarLayer
  | BlobUnavailable string
  | BlobSizeMismatch string
  | BlobDigestMismatch string
  | EmptyImageIndex string
  | DigestTooShort string
  | NoConfigAnnotation
  | NoAppLayer
  | LayerUnreadable string
  | EntryEscapes string
  | JarNotInLayer string
  | ArchiveNotInLayer string
  | NotBrewletArtifact string
  | NoManifestDigest
  | UnknownBackend string
  | TarNotBuilt
  | ManagedLayersExclusive
  | ManagedNeedsClasspathMode
  | ManagedClassPathIncomplete
  | ManagedLayerInvalid
  | ManagedLayerUnavailable string

definition blobsDir :: "string \<Rightarrow> string" where
  "blobsDir root = PathJoin [root, ''blobs'', ''sha256'']"

definition digestOf :: "(bytes \<Rightarrow> string) \<Rightarrow> bytes \<Rightarrow> string" where
  "digestOf sha b = ''sha256:'' @ sha b"

definition emptyDescriptor :: Descriptor where
  "emptyDescriptor = \<lparr>d_MediaType = '''', d_ArtifactType = '''', d_Digest = '''', d_Size = 0, d_Platform = None, d_Annotations = []\<rparr>"

definition writeBlob :: "(bytes \<Rightarrow> string) \<Rightarrow> disk \<Rightarrow> string \<Rightarrow> bytes \<Rightarrow> (store_error, Descriptor) fsm" where
  "writeBlob sha dk root b =
     thenF (mkdirF dk StoreIO (blobsDir root))
       (let d = digestOf sha b in
        thenF (writeF dk StoreIO (PathJoin [blobsDir root, drop (length ''sha256:'') d]) b)
          (retF (emptyDescriptor\<lparr>d_Digest := d, d_Size := int (length b)\<rparr>)))"

text \<open>A source of blobs gives the path of a digest. \<open>None\<close> is the run-time panic of \<open>digest[len("sha256:"):]\<close> on a
  string that is too short.\<close>

type_synonym blob_path = "string \<Rightarrow> string option"

definition BlobPath :: "string \<Rightarrow> blob_path" where
  "BlobPath root digest =
     (if length digest < length ''sha256:'' then None
      else Some (PathJoin [blobsDir root, drop (length ''sha256:'') digest]))"

definition ReadBlob :: "blob_path \<Rightarrow> fsys \<Rightarrow> string \<Rightarrow> store_error + bytes" where
  "ReadBlob bp fs digest =
     (case bp digest of None \<Rightarrow> Inl (DigestTooShort digest)
      | Some p \<Rightarrow> (case fileAt fs p of None \<Rightarrow> Inl (StoreIO p) | Some b \<Rightarrow> Inr b))"

definition readVerifiedBlob :: "(bytes \<Rightarrow> string) \<Rightarrow> blob_path \<Rightarrow> fsys \<Rightarrow> Descriptor \<Rightarrow> store_error + bytes" where
  "readVerifiedBlob sha bp fs desc =
     (case ReadBlob bp fs (d_Digest desc) of Inl e \<Rightarrow> Inl e
      | Inr raw \<Rightarrow>
          if int (length raw) \<noteq> d_Size desc then Inl (BlobSizeMismatch (d_Digest desc))
          else if digestOf sha raw \<noteq> d_Digest desc then Inl (BlobDigestMismatch (d_Digest desc))
          else Inr raw)"

section \<open>The tag index\<close>

definition indexPath :: "string \<Rightarrow> string" where
  "indexPath root = PathJoin [root, ''index.json'']"

definition emptyIndex :: Index where
  "emptyIndex = \<lparr>x_SchemaVersion = 2, x_MediaType = OCIImageIndexMediaType, x_Manifests = [], x_Annotations = []\<rparr>"

definition parseIndexInto :: "int \<Rightarrow> string \<Rightarrow> bytes \<Rightarrow> Index option" where
  "parseIndexInto sv mt b = Option.bind (parseJson b) (decodeIndexInto sv mt)"

definition readIndex :: "string \<Rightarrow> fsys \<Rightarrow> store_error + Index" where
  "readIndex root fs =
     (case fileAt fs (indexPath root) of None \<Rightarrow> Inl (StoreIO (indexPath root))
      | Some b \<Rightarrow> (case parseIndexInto 2 OCIImageIndexMediaType b of None \<Rightarrow> Inl BadIndexDocument | Some x \<Rightarrow> Inr x))"

definition refOf :: "Descriptor \<Rightarrow> string" where
  "refOf d = alget (d_Annotations d) refNameAnnotation"

definition DescriptorByRef :: "string \<Rightarrow> fsys \<Rightarrow> string \<Rightarrow> store_error + Descriptor" where
  "DescriptorByRef root fs ref =
     (case readIndex root fs of Inl e \<Rightarrow> Inl e
      | Inr idx \<Rightarrow> (case find (\<lambda>d. refOf d = ref) (x_Manifests idx) of None \<Rightarrow> Inl (RefNotFound ref) | Some d \<Rightarrow> Inr d))"

text \<open>\<open>appendIndex\<close> refuses an index it cannot decode; \<open>upsertIndex\<close> ignores the error of the decoder and starts from an
  empty one. (A document in which only some members have the wrong kind is decoded in part by Go; such a
  document is outside the model.)\<close>

definition appendIndex :: "disk \<Rightarrow> string \<Rightarrow> Descriptor \<Rightarrow> (store_error, unit) fsm" where
  "appendIndex dk root desc =
     bindF (getF (\<lambda>fs. fileAt fs (indexPath root))) (\<lambda>content.
     bindF (liftF (case content of None \<Rightarrow> Inr emptyIndex
            | Some b \<Rightarrow> (case parseIndexInto 2 OCIImageIndexMediaType b of None \<Rightarrow> Inl BadIndexDocument | Some x \<Rightarrow> Inr x))) (\<lambda>idx.
     if list_ex (\<lambda>d. d_Digest d = d_Digest desc) (x_Manifests idx) then retF ()
     else writeF dk StoreIO (indexPath root)
            (MarshalIndent (encodeIndex (idx\<lparr>x_Manifests := x_Manifests idx @ [desc]\<rparr>)))))"

definition currentIndex :: "string \<Rightarrow> fsys \<Rightarrow> Index" where
  "currentIndex root fs =
     (case fileAt fs (indexPath root) of None \<Rightarrow> emptyIndex
      | Some b \<Rightarrow> (case parseIndexInto 2 OCIImageIndexMediaType b of None \<Rightarrow> emptyIndex | Some x \<Rightarrow> x))"

definition tagIndex :: "Descriptor \<Rightarrow> Index \<Rightarrow> Index" where
  "tagIndex desc idx = idx\<lparr>x_Manifests := filter (\<lambda>m. refOf m \<noteq> refOf desc) (x_Manifests idx) @ [desc]\<rparr>"

definition upsertIndex :: "disk \<Rightarrow> string \<Rightarrow> Descriptor \<Rightarrow> (store_error, unit) fsm" where
  "upsertIndex dk root desc =
     bindF (getF (currentIndex root)) (\<lambda>idx.
     writeF dk StoreIO (indexPath root) (MarshalIndent (encodeIndex (tagIndex desc idx))))"

text \<open>The marker is the version object followed by a line break.\<close>

definition layoutMarker :: bytes where
  "layoutMarker = Marshal (JObj [(''imageLayoutVersion'', JStr ''1.0.0'')]) @ [CHR 0x0A]"

definition writeLayoutMarker :: "disk \<Rightarrow> string \<Rightarrow> (store_error, unit) fsm" where
  "writeLayoutMarker dk root = writeF dk StoreIO (PathJoin [root, ''oci-layout'']) layoutMarker"

section \<open>Publishing\<close>

definition validateCDSPairing :: "JVMConfig \<Rightarrow> string \<Rightarrow> store_error option" where
  "validateCDSPairing cfg cdsArchivePath =
     (if cdsArchivePath = '''' then
        (case cfg_CDS cfg of Some cds \<Rightarrow> Some (ArchiveNotProvided (cds_Archive cds)) | None \<Rightarrow> None)
      else
        (case cfg_CDS cfg of None \<Rightarrow> Some ArchiveNotDeclared
         | Some cds \<Rightarrow>
             if Base cdsArchivePath \<noteq> cds_Archive cds then Some (ArchiveNameMismatch (Base cdsArchivePath) (cds_Archive cds))
             else None))"

fun appendTarLayers ::
  "(bytes \<Rightarrow> string) \<Rightarrow> disk \<Rightarrow> string \<Rightarrow> Descriptor list \<Rightarrow> string list \<Rightarrow> string \<Rightarrow> (store_error, Descriptor list) fsm" where
  "appendTarLayers sha dk root layers [] mediaType = retF layers"
| "appendTarLayers sha dk root layers (tarPath # tars) mediaType =
     bindF (readF StoreIO tarPath) (\<lambda>tarBytes.
     bindF (writeBlob sha dk root tarBytes) (\<lambda>d.
     appendTarLayers sha dk root
       (layers @ [d\<lparr>d_MediaType := mediaType, d_Annotations := [(titleAnnotation, Base tarPath)]\<rparr>]) tars mediaType))"

definition appendCDSLayer ::
  "(bytes \<Rightarrow> string) \<Rightarrow> disk \<Rightarrow> string \<Rightarrow> Descriptor list \<Rightarrow> string \<Rightarrow> (store_error, Descriptor list) fsm" where
  "appendCDSLayer sha dk root layers cdsArchivePath =
     (if cdsArchivePath \<noteq> '''' then
        bindF (readF StoreIO cdsArchivePath) (\<lambda>cdsBytes.
        bindF (writeBlob sha dk root cdsBytes) (\<lambda>d.
        retF (layers @ [d\<lparr>d_MediaType := CDSLayerMediaType, d_Annotations := [(titleAnnotation, Base cdsArchivePath)]\<rparr>])))
      else retF layers)"

definition nativeManifest :: "Descriptor \<Rightarrow> Descriptor list \<Rightarrow> Manifest" where
  "nativeManifest cfgDesc layers =
     \<lparr>m_SchemaVersion = 2, m_MediaType = ociManifestMediaType, m_ArtifactType = ArtifactType, m_Subject = None,
      m_Config = cfgDesc, m_Layers = layers, m_Annotations = []\<rparr>"

text \<open>Writing a manifest and tagging it, the end of every push.\<close>

definition tagManifest ::
  "(bytes \<Rightarrow> string) \<Rightarrow> disk \<Rightarrow> string \<Rightarrow> string \<Rightarrow> bytes \<Rightarrow> string \<Rightarrow> string \<Rightarrow> (store_error, Descriptor) fsm" where
  "tagManifest sha dk root ref raw mediaType artifactType =
     bindF (writeBlob sha dk root raw) (\<lambda>mDesc0.
     (let mDesc = mDesc0\<lparr>d_MediaType := mediaType, d_ArtifactType := artifactType, d_Annotations := [(refNameAnnotation, ref)]\<rparr>
      in thenF (upsertIndex dk root mDesc) (thenF (writeLayoutMarker dk root) (retF mDesc))))"

definition PushWithCDS ::
  "(bytes \<Rightarrow> string) \<Rightarrow> disk \<Rightarrow> string \<Rightarrow> string \<Rightarrow> JVMConfig \<Rightarrow> string \<Rightarrow> string list \<Rightarrow> string list \<Rightarrow> string \<Rightarrow>
   (store_error, Descriptor) fsm" where
  "PushWithCDS sha dk root ref cfg jarPath classpathTars modulepathTars cdsArchivePath =
     (case Validate cfg of Some e \<Rightarrow> failF (BadLaunchConfig e)
      | None \<Rightarrow>
        (case validateCDSPairing cfg cdsArchivePath of Some e \<Rightarrow> failF e
         | None \<Rightarrow>
             bindF (writeBlob sha dk root (MarshalIndent (encodeConfig cfg))) (\<lambda>cfgDesc.
             bindF (readF StoreIO jarPath) (\<lambda>jarBytes.
             bindF (writeBlob sha dk root jarBytes) (\<lambda>jarDesc.
             bindF (appendTarLayers sha dk root
                     [jarDesc\<lparr>d_MediaType := JarLayerMediaType, d_Annotations := [(titleAnnotation, cfg_MainJar cfg)]\<rparr>]
                     classpathTars ClasspathLayerMediaType) (\<lambda>layers1.
             bindF (appendTarLayers sha dk root layers1 modulepathTars ModulepathLayerMediaType) (\<lambda>layers2.
             bindF (appendCDSLayer sha dk root layers2 cdsArchivePath) (\<lambda>layers.
             tagManifest sha dk root ref
               (MarshalIndent (encodeManifest (nativeManifest (cfgDesc\<lparr>d_MediaType := ConfigMediaType\<rparr>) layers)))
               ociManifestMediaType ArtifactType))))))))"

definition PushWithTypedLayers ::
  "(bytes \<Rightarrow> string) \<Rightarrow> disk \<Rightarrow> string \<Rightarrow> string \<Rightarrow> JVMConfig \<Rightarrow> string \<Rightarrow> string list \<Rightarrow> string list \<Rightarrow>
   (store_error, Descriptor) fsm" where
  "PushWithTypedLayers sha dk root ref cfg jarPath classpathTars modulepathTars =
     PushWithCDS sha dk root ref cfg jarPath classpathTars modulepathTars ''''"

definition PushWithLayers ::
  "(bytes \<Rightarrow> string) \<Rightarrow> disk \<Rightarrow> string \<Rightarrow> string \<Rightarrow> JVMConfig \<Rightarrow> string \<Rightarrow> string list \<Rightarrow> (store_error, Descriptor) fsm" where
  "PushWithLayers sha dk root ref cfg jarPath classpathTars = PushWithTypedLayers sha dk root ref cfg jarPath classpathTars []"

definition Push :: "(bytes \<Rightarrow> string) \<Rightarrow> disk \<Rightarrow> string \<Rightarrow> string \<Rightarrow> JVMConfig \<Rightarrow> string \<Rightarrow> (store_error, Descriptor) fsm" where
  "Push sha dk root ref cfg jarPath = PushWithLayers sha dk root ref cfg jarPath []"

section \<open>Reading a manifest\<close>

definition layersOf :: "Manifest \<Rightarrow> string \<Rightarrow> Descriptor list" where
  "layersOf m mediaType = filter (\<lambda>l. d_MediaType l = mediaType) (m_Layers m)"

definition JarLayer :: "Manifest \<Rightarrow> Descriptor option" where
  "JarLayer m = find (\<lambda>l. d_MediaType l = JarLayerMediaType) (m_Layers m)"

definition ClasspathLayers :: "Manifest \<Rightarrow> Descriptor list" where
  "ClasspathLayers m = layersOf m ClasspathLayerMediaType"

definition ModulepathLayers :: "Manifest \<Rightarrow> Descriptor list" where
  "ModulepathLayers m = layersOf m ModulepathLayerMediaType"

definition CDSLayer :: "Manifest \<Rightarrow> Descriptor option" where
  "CDSLayer m = find (\<lambda>l. d_MediaType l = CDSLayerMediaType) (m_Layers m)"

definition parseManifest :: "bytes \<Rightarrow> Manifest option" where
  "parseManifest b = Option.bind (parseJson b) (decodeManifest False)"

definition Resolve :: "string \<Rightarrow> fsys \<Rightarrow> string \<Rightarrow> store_error + Manifest \<times> JVMConfig" where
  "Resolve root fs ref =
     (case fileAt fs (indexPath root) of None \<Rightarrow> Inl (StoreIO (indexPath root))
      | Some b \<Rightarrow>
        (case parseIndexInto 0 '''' b of None \<Rightarrow> Inl BadIndexDocument
         | Some idx \<Rightarrow>
           (case find (\<lambda>d. refOf d = ref) (x_Manifests idx) of None \<Rightarrow> Inl (RefNotFound ref)
            | Some m \<Rightarrow>
              (case ReadBlob (BlobPath root) fs (d_Digest m) of Inl e \<Rightarrow> Inl e
               | Inr mb \<Rightarrow>
                 (case parseManifest mb of None \<Rightarrow> Inl (BadManifestDocument (d_Digest m))
                  | Some man \<Rightarrow>
                    (case ReadBlob (BlobPath root) fs (d_Digest (m_Config man)) of Inl e \<Rightarrow> Inl e
                     | Inr cb \<Rightarrow>
                       (case DecodeConfigBytes cb of Inl e \<Rightarrow> Inl (BadConfigDocument e) | Inr cfg \<Rightarrow> Inr (man, cfg))))))))"

definition IsIndexBlob :: "bytes \<Rightarrow> bool" where
  "IsIndexBlob raw =
     (case Option.bind (parseJson raw) (\<lambda>j.
             Option.bind (asMembers j) (\<lambda>fs.
             Option.bind (asString (member fs ''mediaType'')) (\<lambda>mt.
             Option.bind (asList (decodeDescriptor False) (member fs ''manifests'')) (\<lambda>ms.
             Some (mt, ms))))) of
        None \<Rightarrow> False
      | Some (mt, ms) \<Rightarrow> mt = OCIImageIndexMediaType \<or> length ms > 0)"

definition SelectPlatformManifest :: "string \<Rightarrow> Index \<Rightarrow> string \<Rightarrow> Descriptor option" where
  "SelectPlatformManifest goarch idx arch0 =
     (let arch = (if arch0 = '''' then goarch else arch0) in
      case find (\<lambda>m. case d_Platform m of Some p \<Rightarrow> pf_Architecture p = arch | None \<Rightarrow> False) (x_Manifests idx) of
        Some m \<Rightarrow> Some m
      | None \<Rightarrow> (case x_Manifests idx of m # _ \<Rightarrow> Some m | [] \<Rightarrow> None))"

text \<open>The two readers of a manifest differ in the read: the local store verifies size and digest
  (\<open>readVerifiedBlob\<close>), the content store does not (\<open>ReadBlob\<close>).\<close>

definition followIndex ::
  "string \<Rightarrow> (Descriptor \<Rightarrow> store_error + bytes) \<Rightarrow> Descriptor \<Rightarrow> store_error + Manifest \<times> string" where
  "followIndex goarch readDesc desc =
     (let parse = (\<lambda>digest raw. case parseManifest raw of None \<Rightarrow> Inl (BadManifestDocument digest) | Some man \<Rightarrow> Inr (man, digest))
      in case readDesc desc of Inl e \<Rightarrow> Inl e
         | Inr raw \<Rightarrow>
             if IsIndexBlob raw then
               (case parseIndexInto 0 '''' raw of None \<Rightarrow> Inl BadIndexDocument
                | Some idx \<Rightarrow>
                  (case SelectPlatformManifest goarch idx '''' of None \<Rightarrow> Inl (EmptyImageIndex (d_Digest desc))
                   | Some sel \<Rightarrow> (case readDesc sel of Inl e \<Rightarrow> Inl e | Inr raw' \<Rightarrow> parse (d_Digest sel) raw')))
             else parse (d_Digest desc) raw)"

definition readManifestFollowingIndex ::
  "(bytes \<Rightarrow> string) \<Rightarrow> string \<Rightarrow> string \<Rightarrow> fsys \<Rightarrow> Descriptor \<Rightarrow> store_error + Manifest \<times> string" where
  "readManifestFollowingIndex sha goarch root fs desc =
     followIndex goarch (readVerifiedBlob sha (BlobPath root) fs) desc"

definition ResolveManifestFollowingIndex ::
  "string \<Rightarrow> blob_path \<Rightarrow> fsys \<Rightarrow> string \<Rightarrow> store_error + Manifest \<times> string" where
  "ResolveManifestFollowingIndex goarch bp fs digest =
     followIndex goarch (\<lambda>d. ReadBlob bp fs (d_Digest d)) (emptyDescriptor\<lparr>d_Digest := digest\<rparr>)"

definition ResolveManifestByRef ::
  "(bytes \<Rightarrow> string) \<Rightarrow> string \<Rightarrow> string \<Rightarrow> fsys \<Rightarrow> string \<Rightarrow> store_error + Manifest \<times> string" where
  "ResolveManifestByRef sha goarch root fs ref =
     (case fileAt fs (indexPath root) of None \<Rightarrow> Inl (StoreIO (indexPath root))
      | Some b \<Rightarrow>
        (case parseIndexInto 0 '''' b of None \<Rightarrow> Inl BadIndexDocument
         | Some idx \<Rightarrow>
           (case find (\<lambda>d. refOf d = ref) (x_Manifests idx) of None \<Rightarrow> Inl (RefNotFound ref)
            | Some tagged \<Rightarrow> readManifestFollowingIndex sha goarch root fs tagged)))"

section \<open>Files of a native artifact\<close>

record ResolvedBlobs =
  rb_Config :: JVMConfig
  rb_JarHostPath :: string
  rb_ClasspathHostPaths :: "string list"
  rb_ModulepathHostPaths :: "string list"
  rb_CDSHostPath :: string
  rb_Format :: string

definition blobFile :: "blob_path \<Rightarrow> fsys \<Rightarrow> string \<Rightarrow> store_error + string" where
  "blobFile bp fs digest =
     (case bp digest of None \<Rightarrow> Inl (DigestTooShort digest)
      | Some p \<Rightarrow> if fileAt fs p = None then Inl (BlobUnavailable digest) else Inr p)"

fun existingBlobPaths :: "blob_path \<Rightarrow> fsys \<Rightarrow> Descriptor list \<Rightarrow> store_error + string list" where
  "existingBlobPaths bp fs [] = Inr []"
| "existingBlobPaths bp fs (l # ls) =
     (case blobFile bp fs (d_Digest l) of Inl e \<Rightarrow> Inl e
      | Inr p \<Rightarrow> (case existingBlobPaths bp fs ls of Inl e \<Rightarrow> Inl e | Inr ps \<Rightarrow> Inr (p # ps)))"

definition ResolveNativeBlobs :: "blob_path \<Rightarrow> fsys \<Rightarrow> Manifest \<Rightarrow> store_error + ResolvedBlobs" where
  "ResolveNativeBlobs bp fs man =
     (case ReadBlob bp fs (d_Digest (m_Config man)) of Inl e \<Rightarrow> Inl e
      | Inr cb \<Rightarrow>
     (case DecodeConfigBytes cb of Inl e \<Rightarrow> Inl (BadConfigDocument e)
      | Inr cfg \<Rightarrow>
     (case JarLayer man of None \<Rightarrow> Inl NoJarLayer
      | Some layer \<Rightarrow>
     (case blobFile bp fs (d_Digest layer) of Inl e \<Rightarrow> Inl e
      | Inr jarPath \<Rightarrow>
     (case existingBlobPaths bp fs (ClasspathLayers man) of Inl e \<Rightarrow> Inl e
      | Inr cpPaths \<Rightarrow>
     (case existingBlobPaths bp fs (ModulepathLayers man) of Inl e \<Rightarrow> Inl e
      | Inr mpPaths \<Rightarrow>
     (case (case CDSLayer man of None \<Rightarrow> Inr '''' | Some l \<Rightarrow> blobFile bp fs (d_Digest l)) of Inl e \<Rightarrow> Inl e
      | Inr cdsPath \<Rightarrow>
          Inr \<lparr>rb_Config = cfg, rb_JarHostPath = jarPath, rb_ClasspathHostPaths = cpPaths, rb_ModulepathHostPaths = mpPaths,
               rb_CDSHostPath = cdsPath, rb_Format = ''native''\<rparr>)))))))"

definition IsRunnableImage :: "Manifest \<Rightarrow> bool" where
  "IsRunnableImage m =
     (if alget (m_Annotations m) JVMConfigAnnotation = '''' then False
      else d_MediaType (m_Config m) = OCIImageConfigMediaType \<or> d_MediaType (m_Config m) = '''')"

section \<open>Paths of the layout\<close>

text \<open>What a SHA-256 digest looks like.\<close>

definition lowerHexChar :: "char \<Rightarrow> bool" where
  "lowerHexChar c = (is_digit c \<or> (97 \<le> (of_char c :: nat) \<and> (of_char c :: nat) \<le> 102))"

definition hex64 :: "string \<Rightarrow> bool" where
  "hex64 h = (length h = 64 \<and> list_all lowerHexChar h)"

definition sha256Digest :: "string \<Rightarrow> bool" where
  "sha256Digest d = (\<exists>h. d = ''sha256:'' @ h \<and> hex64 h)"

lemma hex64_plain: "hex64 h \<Longrightarrow> plainName h"
proof -
  assume h: "hex64 h"
  have "slash \<notin> set h" using h by (auto simp: hex64_def list_all_iff lowerHexChar_def is_digit_def)
  then show ?thesis using h by (auto simp: plainName_def hex64_def)
qed

definition blobKey :: "string \<Rightarrow> string \<Rightarrow> string" where
  "blobKey root h = Clean (PathJoin [blobsDir root, h])"

definition indexKey :: "string \<Rightarrow> string" where
  "indexKey root = Clean (indexPath root)"

definition markerKey :: "string \<Rightarrow> string" where
  "markerKey root = Clean (PathJoin [root, ''oci-layout''])"

lemma plain_dirs [simp]: "plainName ''blobs''" "plainName ''sha256''" "plainName ''index.json''" "plainName ''oci-layout''"
  by (simp_all add: plainName_def)

lemma blobsDir_comps:
  "clean_comps (blobsDir root) = clean_comps root @ [''blobs'', ''sha256'']" "IsAbs (blobsDir root) = IsAbs root"
  unfolding blobsDir_def
  using join_plain [of "[''blobs'', ''sha256'']" root] clean_comps_render [of "IsAbs root" "clean_comps root @ [''blobs'', ''sha256'']"] by simp_all

lemma blob_comps:
  assumes "plainName h"
  shows "clean_comps (blobKey root h) = clean_comps root @ [''blobs'', ''sha256'', h]"
  unfolding blobKey_def
  using join_plain [of "[h]" "blobsDir root"] clean_comps_render [of "IsAbs (blobsDir root)" "clean_comps (blobsDir root) @ [h]"] assms
  by (simp add: blobsDir_comps)

lemma key_comps:
  "clean_comps (indexKey root) = clean_comps root @ [''index.json'']" "clean_comps (markerKey root) = clean_comps root @ [''oci-layout'']"
  unfolding indexKey_def markerKey_def indexPath_def
  using join_plain [of "[''index.json'']" root] clean_comps_render [of "IsAbs root" "clean_comps root @ [''index.json'']"]
    join_plain [of "[''oci-layout'']" root] clean_comps_render [of "IsAbs root" "clean_comps root @ [''oci-layout'']"]
  by simp_all

lemma keys_distinct [simp]:
  "plainName h \<Longrightarrow> plainName h' \<Longrightarrow> blobKey root h = blobKey root h' \<longleftrightarrow> h = h'"
  "plainName h \<Longrightarrow> blobKey root h \<noteq> indexKey root" "plainName h \<Longrightarrow> indexKey root \<noteq> blobKey root h"
  "plainName h \<Longrightarrow> blobKey root h \<noteq> markerKey root" "plainName h \<Longrightarrow> markerKey root \<noteq> blobKey root h"
  "indexKey root \<noteq> markerKey root" "markerKey root \<noteq> indexKey root"
proof -
  have ne: "p \<noteq> q" if "clean_comps p \<noteq> clean_comps q" for p q using that by blast
  show "blobKey root h = blobKey root h' \<longleftrightarrow> h = h'" if "plainName h" "plainName h'"
    using ne [of "blobKey root h" "blobKey root h'"] that by (auto simp: blob_comps)
  show "blobKey root h \<noteq> indexKey root" "blobKey root h \<noteq> markerKey root" if "plainName h"
    using that by (auto intro!: ne simp: blob_comps key_comps)
  then show "indexKey root \<noteq> blobKey root h" "markerKey root \<noteq> blobKey root h" if "plainName h" using that by metis+
  show "indexKey root \<noteq> markerKey root" by (rule ne) (simp add: key_comps)
  then show "markerKey root \<noteq> indexKey root" by metis
qed

section \<open>A source of blobs\<close>

text \<open>What the readers rely on: a digest has a path, and two digests have different ones. The local layout
  (\<open>BlobPath\<close>) and containerd's content store (\<open>contentBlobPath\<close>, in the theory of the shim) are instances.\<close>

locale blob_source =
  fixes bp :: blob_path
  assumes path_exists: "sha256Digest d \<Longrightarrow> \<exists>p. bp d = Some p"
    and path_inj: "sha256Digest d \<Longrightarrow> sha256Digest d' \<Longrightarrow> bp d = Some p \<Longrightarrow> bp d' = Some p' \<Longrightarrow> Clean p = Clean p' \<Longrightarrow> d = d'"
begin

lemma read_written:
  assumes "bp d = Some p" shows "ReadBlob bp (fs(Clean p \<mapsto> b)) d = Inr b"
  using assms by (simp add: ReadBlob_def fileAt_def)

lemma read_other:
  assumes "sha256Digest d" and "sha256Digest d'" and "d \<noteq> d'" and "bp d = Some p"
  shows "ReadBlob bp (fs(Clean p \<mapsto> b)) d' = ReadBlob bp fs d'"
proof -
  obtain p' where p': "bp d' = Some p'" using path_exists [OF assms(2)] by blast
  then have "Clean p' \<noteq> Clean p" using path_inj [OF assms(1,2,4) p'] assms(3) by auto
  then show ?thesis using p' by (simp add: ReadBlob_def fileAt_def)
qed

lemma verified_content:
  assumes "readVerifiedBlob sha bp fs desc = Inr raw"
  shows "digestOf sha raw = d_Digest desc" "int (length raw) = d_Size desc"
  using assms by (auto simp: readVerifiedBlob_def split: sum.splits if_splits)

end

lemma BlobPath_digest: "BlobPath root (''sha256:'' @ h) = Some (PathJoin [blobsDir root, h])"
  by (simp add: BlobPath_def)

interpretation layout: blob_source "BlobPath root" for root
proof
  show "\<exists>p. BlobPath root d = Some p" if "sha256Digest d" for d
    using that BlobPath_digest unfolding sha256Digest_def by blast
  show "d = d'" if "sha256Digest d" "sha256Digest d'" "BlobPath root d = Some p" "BlobPath root d' = Some p'" "Clean p = Clean p'"
    for d d' p p'
  proof -
    note t = that
    obtain h h' where h: "d = ''sha256:'' @ h" "hex64 h" "d' = ''sha256:'' @ h'" "hex64 h'"
      using t(1,2) unfolding sha256Digest_def by blast
    have "p = PathJoin [blobsDir root, h]" "p' = PathJoin [blobsDir root, h']"
      using t(3,4) BlobPath_digest [of root h] BlobPath_digest [of root h'] unfolding h by simp_all
    then have "blobKey root h = blobKey root h'" using t(5) by (simp add: blobKey_def)
    then show ?thesis using h hex64_plain by simp
  qed
qed

section \<open>The effect of a push\<close>

definition putBlobs :: "(bytes \<Rightarrow> string) \<Rightarrow> string \<Rightarrow> bytes list \<Rightarrow> fsys \<Rightarrow> fsys" where
  "putBlobs sha root bs fs = foldl (\<lambda>fs b. fs(blobKey root (sha b) \<mapsto> b)) fs bs"

lemma putBlobs_simps [simp]:
  "putBlobs sha root [] fs = fs" "putBlobs sha root (b # bs) fs = putBlobs sha root bs (fs(blobKey root (sha b) \<mapsto> b))"
  "putBlobs sha root (as @ bs) fs = putBlobs sha root bs (putBlobs sha root as fs)"
  by (simp_all add: putBlobs_def)

lemma putBlobs_other: "p \<notin> blobKey root ` sha ` set bs \<Longrightarrow> putBlobs sha root bs fs p = fs p"
  by (induction bs arbitrary: fs) auto

lemma putBlobs_written:
  assumes sha: "\<And>b. plainName (sha b)" and "b \<in> set bs" and "inj_on sha (set bs)"
  shows "putBlobs sha root bs fs (blobKey root (sha b)) = Some b"
  using assms(2,3)
proof (induction bs arbitrary: fs)
  case (Cons a as)
  show ?case
  proof (cases "b \<in> set as")
    case True
    then show ?thesis using Cons by simp
  next
    case False
    then have "b = a" using Cons.prems by simp
    moreover have "blobKey root (sha a) \<notin> blobKey root ` sha ` set as"
      using False \<open>b = a\<close> Cons.prems sha by (auto dest: inj_onD)
    ultimately show ?thesis by (simp add: putBlobs_other)
  qed
qed simp

lemma writeBlob_ok:
  "writeBlob sha dk root b fs = (Inr d, fs') \<Longrightarrow>
     d = emptyDescriptor\<lparr>d_Digest := digestOf sha b, d_Size := int (length b)\<rparr> \<and> fs' = putBlobs sha root [b] fs"
  by (auto simp: writeBlob_def Let_def fsm_ok blobKey_def digestOf_def)

definition layerDesc :: "(bytes \<Rightarrow> string) \<Rightarrow> string \<Rightarrow> string \<Rightarrow> bytes \<Rightarrow> Descriptor" where
  "layerDesc sha mediaType title b =
     \<lparr>d_MediaType = mediaType, d_ArtifactType = '''', d_Digest = digestOf sha b, d_Size = int (length b), d_Platform = None,
      d_Annotations = [(titleAnnotation, title)]\<rparr>"

text \<open>The input files are read while blobs are being written, so they must not be blobs themselves.\<close>

definition outsideBlobs :: "string \<Rightarrow> string \<Rightarrow> bool" where
  "outsideBlobs root p \<longleftrightarrow> \<not> inside (blobsDir root) p"

lemma outside_not_blob: "outsideBlobs root p \<Longrightarrow> plainName h \<Longrightarrow> Clean p \<noteq> blobKey root h"
proof
  assume o: "outsideBlobs root p" "plainName h" and e: "Clean p = blobKey root h"
  have a: "IsAbs p = IsAbs (blobsDir root)"
    using arg_cong [OF e, of IsAbs] join_plain [of "[h]" "blobsDir root"] o(2)
      clean_comps_render(2) [of "IsAbs (blobsDir root)" "clean_comps (blobsDir root) @ [h]"] by (simp add: blobKey_def)
  have c: "clean_comps p = clean_comps (blobsDir root) @ [h]"
    using arg_cong [OF e, of clean_comps] blob_comps [OF o(2), of root] by (simp add: blobsDir_comps)
  then have "inside (blobsDir root) p" using a o(2) unfolding inside_def plainName_def by auto
  then show False using o(1) by (simp add: outsideBlobs_def)
qed

lemma read_outside:
  assumes "\<And>b. plainName (sha b)" and "outsideBlobs root p"
  shows "fileAt (putBlobs sha root bs fs) p = fileAt fs p"
  unfolding fileAt_def by (rule putBlobs_other) (use outside_not_blob [OF assms(2)] assms(1) in auto)

lemma appendTarLayers_ok:
  assumes "appendTarLayers sha dk root layers tars mediaType fs = (Inr layers', fs')"
    and sha: "\<And>b. plainName (sha b)" and "\<forall>t \<in> set tars. outsideBlobs root t"
  shows "\<exists>bs. map (fileAt fs) tars = map Some bs \<and> fs' = putBlobs sha root bs fs \<and>
     layers' = layers @ map2 (\<lambda>t b. layerDesc sha mediaType (Base t) b) tars bs"
  using assms(1,3)
proof (induction tars arbitrary: layers fs)
  case Nil
  then show ?case by (simp add: fsm_ok)
next
  case (Cons t ts)
  obtain b d fs1 where 1: "fileAt fs t = Some b" "writeBlob sha dk root b fs = (Inr d, fs1)"
      "appendTarLayers sha dk root (layers @ [d\<lparr>d_MediaType := mediaType, d_Annotations := [(titleAnnotation, Base t)]\<rparr>]) ts mediaType fs1
         = (Inr layers', fs')"
    using Cons.prems(1) by (auto simp: fsm_ok)
  have w: "fs1 = putBlobs sha root [b] fs" "d\<lparr>d_MediaType := mediaType, d_Annotations := [(titleAnnotation, Base t)]\<rparr> = layerDesc sha mediaType (Base t) b"
    using writeBlob_ok [OF 1(2)] by (simp_all add: layerDesc_def emptyDescriptor_def)
  obtain bs where 2: "map (fileAt fs1) ts = map Some bs" "fs' = putBlobs sha root bs fs1"
      "layers' = (layers @ [layerDesc sha mediaType (Base t) b]) @ map2 (\<lambda>t b. layerDesc sha mediaType (Base t) b) ts bs"
    using Cons.IH [OF 1(3)] Cons.prems(2) unfolding w(2) by auto
  have "map (fileAt fs) ts = map Some bs"
    using 2(1) read_outside [where sha = sha, OF sha, of root] Cons.prems(2) unfolding w(1) by (metis (no_types, lifting) list.set_intros(2) map_eq_conv)
  then have "map (fileAt fs) (t # ts) = map Some (b # bs) \<and> fs' = putBlobs sha root (b # bs) fs \<and>
      layers' = layers @ map2 (\<lambda>t b. layerDesc sha mediaType (Base t) b) (t # ts) (b # bs)"
    using 1(1) 2 w(1) by simp
  then show ?case by blast
qed

lemma appendTarLayers_after:
  assumes run: "appendTarLayers sha dk root layers tars mediaType (putBlobs sha root as fs) = (Inr layers', fs')"
    and sha: "\<And>b. plainName (sha b)" and out: "\<forall>t \<in> set tars. outsideBlobs root t"
  obtains bs where "map (fileAt fs) tars = map Some bs" "fs' = putBlobs sha root (as @ bs) fs"
    "layers' = layers @ map2 (\<lambda>t b. layerDesc sha mediaType (Base t) b) tars bs"
proof -
  obtain bs where bs: "map (fileAt (putBlobs sha root as fs)) tars = map Some bs" "fs' = putBlobs sha root bs (putBlobs sha root as fs)"
      "layers' = layers @ map2 (\<lambda>t b. layerDesc sha mediaType (Base t) b) tars bs"
    using appendTarLayers_ok [OF run sha out] by blast
  have "map (fileAt (putBlobs sha root as fs)) tars = map (fileAt fs) tars"
    using read_outside [where sha = sha, OF sha, of root] out by simp
  then show thesis using that [of bs] bs by simp
qed

definition cdsPaths :: "string \<Rightarrow> string list" where
  "cdsPaths p = (if p = '''' then [] else [p])"

lemma appendCDSLayer_tars:
  "appendCDSLayer sha dk root layers p = appendTarLayers sha dk root layers (cdsPaths p) CDSLayerMediaType"
  by (simp add: appendCDSLayer_def cdsPaths_def)

text \<open>The manifest a push writes, as a function of the contents of its input files.\<close>

definition pushedManifest ::
  "(bytes \<Rightarrow> string) \<Rightarrow> JVMConfig \<Rightarrow> bytes \<Rightarrow> (string \<times> bytes) list \<Rightarrow> (string \<times> bytes) list \<Rightarrow> (string \<times> bytes) list \<Rightarrow> Manifest" where
  "pushedManifest sha cfg jar cps mps cds =
     nativeManifest ((layerDesc sha ConfigMediaType '''' (MarshalIndent (encodeConfig cfg)))\<lparr>d_Annotations := []\<rparr>)
       (layerDesc sha JarLayerMediaType (cfg_MainJar cfg) jar #
        map (\<lambda>(t, b). layerDesc sha ClasspathLayerMediaType (Base t) b) cps @
        map (\<lambda>(t, b). layerDesc sha ModulepathLayerMediaType (Base t) b) mps @
        map (\<lambda>(t, b). layerDesc sha CDSLayerMediaType (Base t) b) cds)"

definition manifestDesc :: "(bytes \<Rightarrow> string) \<Rightarrow> string \<Rightarrow> string \<Rightarrow> string \<Rightarrow> bytes \<Rightarrow> Descriptor" where
  "manifestDesc sha mediaType artifactType ref b =
     \<lparr>d_MediaType = mediaType, d_ArtifactType = artifactType, d_Digest = digestOf sha b, d_Size = int (length b),
      d_Platform = None, d_Annotations = [(refNameAnnotation, ref)]\<rparr>"

definition filesRead :: "fsys \<Rightarrow> string list \<Rightarrow> (string \<times> bytes) list \<Rightarrow> bool" where
  "filesRead fs ps kvs \<longleftrightarrow> map fst kvs = ps \<and> (\<forall>(p, b) \<in> set kvs. fileAt fs p = Some b)"

lemma filesRead_zip: "map (fileAt fs) ps = map Some bs \<Longrightarrow> filesRead fs ps (zip ps bs) \<and> map snd (zip ps bs) = bs"
proof -
  assume m: "map (fileAt fs) ps = map Some bs"
  then have l: "length ps = length bs" by (metis length_map)
  have "fileAt fs (ps ! i) = Some (bs ! i)" if "i < length bs" for i using m that l by (metis nth_map)
  then show ?thesis using l by (auto simp: filesRead_def set_zip)
qed

text \<open>The state after a manifest was tagged, on top of the blobs.\<close>

definition tagged :: "(bytes \<Rightarrow> string) \<Rightarrow> string \<Rightarrow> bytes list \<Rightarrow> Descriptor \<Rightarrow> fsys \<Rightarrow> fsys" where
  "tagged sha root bs desc fs =
     (putBlobs sha root bs fs)(indexKey root \<mapsto> MarshalIndent (encodeIndex (tagIndex desc (currentIndex root fs))),
                               markerKey root \<mapsto> layoutMarker)"

lemma currentIndex_putBlobs:
  assumes "\<And>b. plainName (sha b)" shows "currentIndex root (putBlobs sha root bs fs) = currentIndex root fs"
proof -
  have "putBlobs sha root bs fs (indexKey root) = fs (indexKey root)" by (rule putBlobs_other) (use assms in auto)
  then show ?thesis by (simp add: currentIndex_def fileAt_def indexKey_def)
qed

lemma tagManifest_ok:
  assumes run: "tagManifest sha dk root ref raw mt at (putBlobs sha root bs fs) = (Inr desc, fs')" and sha: "\<And>b. plainName (sha b)"
  shows "desc = manifestDesc sha mt at ref raw \<and> fs' = tagged sha root (bs @ [raw]) desc fs"
proof -
  obtain d0 fs1 where w: "writeBlob sha dk root raw (putBlobs sha root bs fs) = (Inr d0, fs1)"
      "desc = d0\<lparr>d_MediaType := mt, d_ArtifactType := at, d_Annotations := [(refNameAnnotation, ref)]\<rparr>"
      "fs' = fs1(indexKey root \<mapsto> MarshalIndent (encodeIndex (tagIndex desc (currentIndex root fs1))), markerKey root \<mapsto> layoutMarker)"
    using run by (auto simp: tagManifest_def Let_def fsm_ok upsertIndex_def writeLayoutMarker_def indexKey_def markerKey_def)
  have f: "fs1 = putBlobs sha root (bs @ [raw]) fs" and d: "d0 = emptyDescriptor\<lparr>d_Digest := digestOf sha raw, d_Size := int (length raw)\<rparr>"
    using writeBlob_ok [OF w(1)] by simp_all
  show ?thesis
    unfolding w(3) f tagged_def currentIndex_putBlobs [where sha = sha, OF sha]
    using w(2) d by (simp add: manifestDesc_def emptyDescriptor_def)
qed

lemma PushWithCDS_ok:
  assumes run: "PushWithCDS sha dk root ref cfg jarPath cpTars mpTars cdsPath fs = (Inr desc, fs')"
    and sha: "\<And>b. plainName (sha b)"
    and out: "\<forall>p \<in> set (jarPath # cpTars @ mpTars @ cdsPaths cdsPath). outsideBlobs root p"
  obtains jar cps mps cds where
    "Validate cfg = None" "validateCDSPairing cfg cdsPath = None" "fileAt fs jarPath = Some jar" "filesRead fs cpTars cps"
    "filesRead fs mpTars mps" "filesRead fs (cdsPaths cdsPath) cds"
    "desc = manifestDesc sha ociManifestMediaType ArtifactType ref (MarshalIndent (encodeManifest (pushedManifest sha cfg jar cps mps cds)))"
    "fs' = tagged sha root (MarshalIndent (encodeConfig cfg) # jar # map snd cps @ map snd mps @ map snd cds @
             [MarshalIndent (encodeManifest (pushedManifest sha cfg jar cps mps cds))]) desc fs"
proof -
  let ?c = "MarshalIndent (encodeConfig cfg)"
  have v: "Validate cfg = None" "validateCDSPairing cfg cdsPath = None"
    using run by (auto simp: PushWithCDS_def fsm_ok split: option.splits)
  define jl where "jl = (\<lambda>b. layerDesc sha JarLayerMediaType (cfg_MainJar cfg) b)"
  obtain cd fs1 jar jd fs2 l1 fs3 l2 fs4 l3 fs5 where r:
      "writeBlob sha dk root ?c fs = (Inr cd, fs1)" "fileAt fs1 jarPath = Some jar" "writeBlob sha dk root jar fs1 = (Inr jd, fs2)"
      "appendTarLayers sha dk root [jd\<lparr>d_MediaType := JarLayerMediaType, d_Annotations := [(titleAnnotation, cfg_MainJar cfg)]\<rparr>]
         cpTars ClasspathLayerMediaType fs2 = (Inr l1, fs3)"
      "appendTarLayers sha dk root l1 mpTars ModulepathLayerMediaType fs3 = (Inr l2, fs4)"
      "appendTarLayers sha dk root l2 (cdsPaths cdsPath) CDSLayerMediaType fs4 = (Inr l3, fs5)"
      "tagManifest sha dk root ref (MarshalIndent (encodeManifest (nativeManifest (cd\<lparr>d_MediaType := ConfigMediaType\<rparr>) l3)))
         ociManifestMediaType ArtifactType fs5 = (Inr desc, fs')"
    using run v by (auto simp: PushWithCDS_def fsm_ok appendCDSLayer_tars)
  note rd = read_outside [where sha = sha, OF sha, of root]
  have c: "cd\<lparr>d_MediaType := ConfigMediaType\<rparr> = (layerDesc sha ConfigMediaType '''' ?c)\<lparr>d_Annotations := []\<rparr>" "fs1 = putBlobs sha root [?c] fs"
    using writeBlob_ok [OF r(1)] by (simp_all add: layerDesc_def emptyDescriptor_def)
  have j: "jd\<lparr>d_MediaType := JarLayerMediaType, d_Annotations := [(titleAnnotation, cfg_MainJar cfg)]\<rparr> = jl jar" "fs2 = putBlobs sha root [?c, jar] fs"
    using writeBlob_ok [OF r(3)] c(2) by (simp_all add: layerDesc_def emptyDescriptor_def jl_def)
  have "outsideBlobs root jarPath" using out by simp
  then have fj: "fileAt fs jarPath = Some jar" using r(2) rd unfolding c(2) by metis
  have outs: "\<forall>t \<in> set cpTars. outsideBlobs root t" "\<forall>t \<in> set mpTars. outsideBlobs root t" "\<forall>t \<in> set (cdsPaths cdsPath). outsideBlobs root t"
    using out by auto

  obtain cb where cb: "map (fileAt fs) cpTars = map Some cb" "fs3 = putBlobs sha root ([?c, jar] @ cb) fs"
      "l1 = [jl jar] @ map2 (\<lambda>t b. layerDesc sha ClasspathLayerMediaType (Base t) b) cpTars cb"
    by (rule appendTarLayers_after [OF r(4) [unfolded j] sha outs(1)])
  obtain mb where mb: "map (fileAt fs) mpTars = map Some mb" "fs4 = putBlobs sha root (([?c, jar] @ cb) @ mb) fs"
      "l2 = l1 @ map2 (\<lambda>t b. layerDesc sha ModulepathLayerMediaType (Base t) b) mpTars mb"
    by (rule appendTarLayers_after [OF r(5) [unfolded cb(2)] sha outs(2)])
  obtain db where db: "map (fileAt fs) (cdsPaths cdsPath) = map Some db" "fs5 = putBlobs sha root ((([?c, jar] @ cb) @ mb) @ db) fs"
      "l3 = l2 @ map2 (\<lambda>t b. layerDesc sha CDSLayerMediaType (Base t) b) (cdsPaths cdsPath) db"
    by (rule appendTarLayers_after [OF r(6) [unfolded mb(2)] sha outs(3)])
  let ?cps = "zip cpTars cb" and ?mps = "zip mpTars mb" and ?cds = "zip (cdsPaths cdsPath) db"
  have m: "nativeManifest (cd\<lparr>d_MediaType := ConfigMediaType\<rparr>) l3 = pushedManifest sha cfg jar ?cps ?mps ?cds"
    by (simp add: pushedManifest_def c(1) cb(3) mb(3) db(3) jl_def)
  note z = filesRead_zip [OF cb(1)] filesRead_zip [OF mb(1)] filesRead_zip [OF db(1)]
  show thesis
    by (rule that [OF v fj, of ?cps ?mps ?cds])
      (use z tagManifest_ok [OF r(7) [unfolded m db(2)] sha] in auto)
qed

section \<open>Resolving what was pushed\<close>

lemma parseIndex_print: "index_ok x \<Longrightarrow> parseIndexInto sv mt (MarshalIndent (encodeIndex x)) = Some x"
  by (simp add: parseIndexInto_def parse_MarshalIndent decode_encode_Index)

lemma currentIndex_ok: "index_ok (currentIndex root fs)"
proof -
  have "index_ok emptyIndex" by (simp add: index_ok_def emptyIndex_def in_int64_def min_int64_def max_int64_def canonical_def)
  moreover have "index_ok x" if "parseIndexInto 2 OCIImageIndexMediaType b = Some x" for x b
    using that decodeIndexInto_ok [of 2] by (auto simp: parseIndexInto_def bind_eq_Some_conv in_int64_def min_int64_def max_int64_def)
  ultimately show ?thesis by (auto simp: currentIndex_def split: option.split)
qed

lemma tagIndex_ok: "index_ok x \<Longrightarrow> descriptor_ok d \<Longrightarrow> index_ok (tagIndex d x)"
  by (auto simp: index_ok_def tagIndex_def list_all_iff)

lemma canonical_single [simp]: "canonical [(k, v)]" "canonical []"
  by (simp_all add: canonical_def)

lemma find_tagged: "refOf desc = ref \<Longrightarrow> find (\<lambda>d. refOf d = ref) (x_Manifests (tagIndex desc idx)) = Some desc"
proof -
  assume r: "refOf desc = ref"
  have "find (\<lambda>d. refOf d = ref) (filter (\<lambda>m. refOf m \<noteq> refOf desc) ms) = None" for ms
    using r by (simp add: find_None_iff)
  then show ?thesis using r by (simp add: tagIndex_def find_append)
qed

lemma find_other:
  "refOf desc \<noteq> ref \<Longrightarrow> find (\<lambda>d. refOf d = ref) (x_Manifests (tagIndex desc idx)) = find (\<lambda>d. refOf d = ref) (x_Manifests idx)"
proof -
  assume r: "refOf desc \<noteq> ref"
  have "find (\<lambda>d. refOf d = ref) (filter (\<lambda>m. refOf m \<noteq> refOf desc) ms) = find (\<lambda>d. refOf d = ref) ms" for ms
    using r by (induction ms) auto
  then show ?thesis using r by (simp add: tagIndex_def find_append split: option.split)
qed

definition smallFile :: "bytes \<Rightarrow> bool" where
  "smallFile b = (int (length b) \<le> max_int64)"

lemma descriptor_ok_simps [simp]:
  "smallFile b \<Longrightarrow> descriptor_ok (manifestDesc sha mt at ref b)" "smallFile b \<Longrightarrow> descriptor_ok (layerDesc sha mt title b)"
  by (simp_all add: descriptor_ok_def manifestDesc_def layerDesc_def smallFile_def in_int64_def min_int64_def)

lemma refOf_manifestDesc [simp]: "refOf (manifestDesc sha mt at ref b) = ref"
  by (simp add: refOf_def manifestDesc_def alget_def mget_def)

lemma digest_simps [simp]:
  "d_Digest (manifestDesc sha mt at ref b) = digestOf sha b" "d_Digest (layerDesc sha mt title b) = digestOf sha b"
  by (simp_all add: manifestDesc_def layerDesc_def)

lemma tagged_index:
  assumes "descriptor_ok desc"
  shows "fileAt (tagged sha root bs desc fs) (indexPath root) = Some (MarshalIndent (encodeIndex (tagIndex desc (currentIndex root fs))))"
    and "parseIndexInto sv mt (MarshalIndent (encodeIndex (tagIndex desc (currentIndex root fs)))) = Some (tagIndex desc (currentIndex root fs))"
  using parseIndex_print [OF tagIndex_ok [OF currentIndex_ok assms]]
  by (simp_all add: tagged_def fileAt_def indexKey_def [symmetric])

definition stored :: "(bytes \<Rightarrow> string) \<Rightarrow> string \<Rightarrow> fsys \<Rightarrow> bytes \<Rightarrow> bool" where
  "stored sha root fs b \<longleftrightarrow> fs (blobKey root (sha b)) = Some b"

lemma tagged_blob:
  assumes "\<And>b. plainName (sha b)" and "b \<in> set bs" and "inj_on sha (set bs)"
  shows "stored sha root (tagged sha root bs desc fs) b"
  using putBlobs_written [where sha = sha, OF assms] assms(1) by (simp add: tagged_def stored_def)

definition blobPathOf :: "(bytes \<Rightarrow> string) \<Rightarrow> string \<Rightarrow> bytes \<Rightarrow> string" where
  "blobPathOf sha root b = PathJoin [blobsDir root, sha b]"

lemma BlobPath_digestOf [simp]: "BlobPath root (digestOf sha b) = Some (blobPathOf sha root b)"
  by (simp add: digestOf_def BlobPath_def blobPathOf_def)

lemma blob_reads:
  assumes "stored sha root fs b"
  shows "ReadBlob (BlobPath root) fs (digestOf sha b) = Inr b" "blobFile (BlobPath root) fs (digestOf sha b) = Inr (blobPathOf sha root b)"
    "fileAt fs (blobPathOf sha root b) = Some b"
  using assms by (simp_all add: stored_def ReadBlob_def blobFile_def fileAt_def blobPathOf_def blobKey_def)

lemma existingBlobPaths_ok:
  assumes "\<forall>(t, b) \<in> set kvs. stored sha root fs b"
  shows "existingBlobPaths (BlobPath root) fs (map (\<lambda>(t, b). layerDesc sha mt (Base t) b) kvs) = Inr (map (\<lambda>(t, b). blobPathOf sha root b) kvs)"
  using assms by (induction kvs) (auto simp: blob_reads)

lemma IsIndexBlob_manifest:
  "m_MediaType m \<noteq> OCIImageIndexMediaType \<Longrightarrow> \<not> IsIndexBlob (MarshalIndent (encodeManifest m))"
proof -
  assume m: "m_MediaType m \<noteq> OCIImageIndexMediaType"
  have "parseJson (MarshalIndent (encodeManifest m)) = Some (encodeManifest m)" by (simp add: parse_MarshalIndent)
  then show ?thesis using m by (simp add: IsIndexBlob_def encodeManifest_def json_simps split del: if_split)
qed

lemma find_layers:
  "mt \<noteq> mt' \<Longrightarrow> filter (\<lambda>l. d_MediaType l = mt) (map (\<lambda>(t, b). layerDesc sha mt' (Base t) b) kvs) = []"
  "filter (\<lambda>l. d_MediaType l = mt) (map (\<lambda>(t, b). layerDesc sha mt (Base t) b) kvs) = map (\<lambda>(t, b). layerDesc sha mt (Base t) b) kvs"
  by (induction kvs) (auto simp: layerDesc_def)

lemma find_filter: "find P xs = (case filter P xs of [] \<Rightarrow> None | x # _ \<Rightarrow> Some x)"
  by (induction xs) auto

lemma pushed_layers:
  "JarLayer (pushedManifest sha cfg jar cps mps cds) = Some (layerDesc sha JarLayerMediaType (cfg_MainJar cfg) jar)"
  "ClasspathLayers (pushedManifest sha cfg jar cps mps cds) = map (\<lambda>(t, b). layerDesc sha ClasspathLayerMediaType (Base t) b) cps"
  "ModulepathLayers (pushedManifest sha cfg jar cps mps cds) = map (\<lambda>(t, b). layerDesc sha ModulepathLayerMediaType (Base t) b) mps"
  "CDSLayer (pushedManifest sha cfg jar cps mps cds) =
     (case cds of [] \<Rightarrow> None | (t, b) # _ \<Rightarrow> Some (layerDesc sha CDSLayerMediaType (Base t) b))"
proof -
  have j: "d_MediaType (layerDesc sha mt x b) = mt" for mt x b by (simp add: layerDesc_def)
  have ne: "distinct [JarLayerMediaType, ClasspathLayerMediaType, ModulepathLayerMediaType, CDSLayerMediaType]"
    by (simp add: oci_names)
  then have nes: "JarLayerMediaType \<noteq> ClasspathLayerMediaType" "JarLayerMediaType \<noteq> ModulepathLayerMediaType" "JarLayerMediaType \<noteq> CDSLayerMediaType"
    "ClasspathLayerMediaType \<noteq> ModulepathLayerMediaType" "ClasspathLayerMediaType \<noteq> CDSLayerMediaType" "ModulepathLayerMediaType \<noteq> CDSLayerMediaType"
    by simp_all
  show "JarLayer (pushedManifest sha cfg jar cps mps cds) = Some (layerDesc sha JarLayerMediaType (cfg_MainJar cfg) jar)"
    "ClasspathLayers (pushedManifest sha cfg jar cps mps cds) = map (\<lambda>(t, b). layerDesc sha ClasspathLayerMediaType (Base t) b) cps"
    "ModulepathLayers (pushedManifest sha cfg jar cps mps cds) = map (\<lambda>(t, b). layerDesc sha ModulepathLayerMediaType (Base t) b) mps"
    "CDSLayer (pushedManifest sha cfg jar cps mps cds) =
       (case cds of [] \<Rightarrow> None | (t, b) # _ \<Rightarrow> Some (layerDesc sha CDSLayerMediaType (Base t) b))"
    by (simp_all add: JarLayer_def ClasspathLayers_def ModulepathLayers_def CDSLayer_def layersOf_def pushedManifest_def nativeManifest_def
        find_filter find_layers j nes nes [THEN not_sym] split: list.split)
qed

section \<open>Round trip through the layout\<close>

text \<open>Everything a push writes below \<open>blobs/\<close>, in order.\<close>

definition pushBlobs ::
  "(bytes \<Rightarrow> string) \<Rightarrow> JVMConfig \<Rightarrow> bytes \<Rightarrow> (string \<times> bytes) list \<Rightarrow> (string \<times> bytes) list \<Rightarrow> (string \<times> bytes) list \<Rightarrow> bytes list" where
  "pushBlobs sha cfg jar cps mps cds =
     MarshalIndent (encodeConfig cfg) # jar # map snd cps @ map snd mps @ map snd cds @
     [MarshalIndent (encodeManifest (pushedManifest sha cfg jar cps mps cds))]"

lemma filesRead_unique:
  assumes "filesRead fs ps kvs" and "filesRead fs ps kvs'" shows "kvs = kvs'"
proof -
  have "map snd xs = map (\<lambda>p. the (fileAt fs p)) ps" if "filesRead fs ps xs" for xs
    using that by (force simp: filesRead_def)
  then have "map snd kvs = map snd kvs'" using assms by metis
  then show ?thesis using assms unfolding filesRead_def by (metis zip_map_fst_snd)
qed

lemma PushWithCDS_effect:
  assumes run: "PushWithCDS sha dk root ref cfg jarPath cpTars mpTars cdsPath fs = (Inr desc, fs')"
    and sha: "\<And>b. plainName (sha b)"
    and out: "\<forall>p \<in> set (jarPath # cpTars @ mpTars @ cdsPaths cdsPath). outsideBlobs root p"
    and files: "fileAt fs jarPath = Some jar" "filesRead fs cpTars cps" "filesRead fs mpTars mps" "filesRead fs (cdsPaths cdsPath) cds"
  shows "Validate cfg = None \<and>
    desc = manifestDesc sha ociManifestMediaType ArtifactType ref (MarshalIndent (encodeManifest (pushedManifest sha cfg jar cps mps cds))) \<and>
    fs' = tagged sha root (pushBlobs sha cfg jar cps mps cds) desc fs"
proof (rule PushWithCDS_ok [OF run sha out])
  fix jar' cps' mps' cds'
  assume f: "fileAt fs jarPath = Some jar'" "filesRead fs cpTars cps'" "filesRead fs mpTars mps'" "filesRead fs (cdsPaths cdsPath) cds'"
    and v: "Validate cfg = None"
    and d: "desc = manifestDesc sha ociManifestMediaType ArtifactType ref (MarshalIndent (encodeManifest (pushedManifest sha cfg jar' cps' mps' cds')))"
    and t: "fs' = tagged sha root (MarshalIndent (encodeConfig cfg) # jar' # map snd cps' @ map snd mps' @ map snd cds' @
             [MarshalIndent (encodeManifest (pushedManifest sha cfg jar' cps' mps' cds'))]) desc fs"
  have "jar' = jar" "cps' = cps" "mps' = mps" "cds' = cds"
    using f files filesRead_unique by (auto dest: filesRead_unique)
  then show ?thesis using v d t by (simp only: pushBlobs_def)
qed

lemma pushedManifest_ok:
  assumes "list_all smallFile (pushBlobs sha cfg jar cps mps cds)"
  shows "manifest_ok (pushedManifest sha cfg jar cps mps cds)"
proof -
  have "descriptor_ok ((layerDesc sha ConfigMediaType '''' c)\<lparr>d_Annotations := []\<rparr>)" if "smallFile c" for c
    using that by (simp add: descriptor_ok_def layerDesc_def smallFile_def in_int64_def min_int64_def)
  moreover have "list_all descriptor_ok (map (\<lambda>(t, b). layerDesc sha mt (Base t) b) kvs)" if "list_all smallFile (map snd kvs)" for mt kvs
    using that by (auto simp: list_all_iff)
  ultimately show ?thesis
    using assms
    by (simp add: manifest_ok_def pushedManifest_def nativeManifest_def pushBlobs_def in_int64_def min_int64_def max_int64_def)
qed

lemma parseManifest_print: "manifest_ok m \<Longrightarrow> parseManifest (MarshalIndent (encodeManifest m)) = Some m"
  by (simp add: parseManifest_def parse_MarshalIndent decode_encode_Manifest)

lemma pushed_simps [simp]:
  "m_MediaType (pushedManifest sha cfg jar cps mps cds) = ociManifestMediaType"
  "d_Digest (m_Config (pushedManifest sha cfg jar cps mps cds)) = digestOf sha (MarshalIndent (encodeConfig cfg))"
  "\<not> IsRunnableImage (pushedManifest sha cfg jar cps mps cds)"
  by (simp_all add: pushedManifest_def nativeManifest_def layerDesc_def IsRunnableImage_def alget_def mget_def)

lemma readVerified_manifestDesc:
  assumes "stored sha root fs b"
  shows "readVerifiedBlob sha (BlobPath root) fs (manifestDesc sha mt at ref b) = Inr b"
  using blob_reads(1) [OF assms] by (simp add: readVerifiedBlob_def) (simp add: manifestDesc_def)

lemma resolve_tagged_manifest:
  assumes m: "manifest_ok m" "m_MediaType m = ociManifestMediaType" and small: "smallFile (MarshalIndent (encodeManifest m))"
    and desc: "desc = manifestDesc sha mt at ref (MarshalIndent (encodeManifest m))"
    and fs': "fs' = tagged sha root bs desc fs"
    and blob: "stored sha root fs' (MarshalIndent (encodeManifest m))"
  shows "ResolveManifestByRef sha goarch root fs' ref = Inr (m, d_Digest desc)"
proof -
  have d: "descriptor_ok desc" "refOf desc = ref" using small by (simp_all add: desc)
  have i: "\<not> IsIndexBlob (MarshalIndent (encodeManifest m))" by (rule IsIndexBlob_manifest) (simp add: m(2) oci_names)
  have "readManifestFollowingIndex sha goarch root fs' desc = Inr (m, d_Digest desc)"
    using readVerified_manifestDesc [OF blob] i parseManifest_print [OF m(1)]
    by (simp add: readManifestFollowingIndex_def followIndex_def desc)
  then show ?thesis
    using tagged_index [OF d(1)] find_tagged [OF d(2)] by (simp add: ResolveManifestByRef_def fs')
qed

lemma Resolve_tagged_manifest:
  assumes m: "manifest_ok m" and small: "smallFile (MarshalIndent (encodeManifest m))"
    and desc: "desc = manifestDesc sha mt at ref (MarshalIndent (encodeManifest m))"
    and fs': "fs' = tagged sha root bs desc fs"
    and blobs: "stored sha root fs' (MarshalIndent (encodeManifest m))" "stored sha root fs' (MarshalIndent (encodeConfig cfg))"
    and cfg: "d_Digest (m_Config m) = digestOf sha (MarshalIndent (encodeConfig cfg))" "config_ok cfg" "Validate cfg = None"
  shows "Resolve root fs' ref = Inr (m, cfg)"
proof -
  have d: "descriptor_ok desc" "refOf desc = ref" using small by (simp_all add: desc)
  have "ReadBlob (BlobPath root) fs' (d_Digest desc) = Inr (MarshalIndent (encodeManifest m))"
    using blob_reads(1) [OF blobs(1)] by (simp add: desc)
  then show ?thesis
    using tagged_index [OF d(1)] find_tagged [OF d(2)] blob_reads(1) [OF blobs(2)] parseManifest_print [OF m]
      DecodeConfigBytes_encode [OF cfg(2,3)]
    by (simp add: Resolve_def fs' cfg(1))
qed

definition nativeFiles ::
  "(bytes \<Rightarrow> string) \<Rightarrow> string \<Rightarrow> JVMConfig \<Rightarrow> bytes \<Rightarrow> (string \<times> bytes) list \<Rightarrow> (string \<times> bytes) list \<Rightarrow> (string \<times> bytes) list \<Rightarrow> ResolvedBlobs" where
  "nativeFiles sha root cfg jar cps mps cds =
     \<lparr>rb_Config = cfg, rb_JarHostPath = blobPathOf sha root jar,
      rb_ClasspathHostPaths = map (\<lambda>(t, b). blobPathOf sha root b) cps, rb_ModulepathHostPaths = map (\<lambda>(t, b). blobPathOf sha root b) mps,
      rb_CDSHostPath = (case cds of [] \<Rightarrow> '''' | (t, b) # _ \<Rightarrow> blobPathOf sha root b), rb_Format = ''native''\<rparr>"

lemma ResolveNativeBlobs_pushed:
  assumes st: "list_all (stored sha root fs) (pushBlobs sha cfg jar cps mps cds)" and cfg: "config_ok cfg" "Validate cfg = None"
  shows "ResolveNativeBlobs (BlobPath root) fs (pushedManifest sha cfg jar cps mps cds) = Inr (nativeFiles sha root cfg jar cps mps cds)"
proof -
  have s: "stored sha root fs (MarshalIndent (encodeConfig cfg))" "stored sha root fs jar"
      "\<forall>(t, b) \<in> set cps. stored sha root fs b" "\<forall>(t, b) \<in> set mps. stored sha root fs b" "\<forall>(t, b) \<in> set cds. stored sha root fs b"
    using st by (simp_all add: pushBlobs_def list.pred_map list_all_iff case_prod_unfold)
  have c: "(case CDSLayer (pushedManifest sha cfg jar cps mps cds) of None \<Rightarrow> Inr '''' | Some l \<Rightarrow> blobFile (BlobPath root) fs (d_Digest l))
      = Inr (case cds of [] \<Rightarrow> '''' | (t, b) # _ \<Rightarrow> blobPathOf sha root b)"
    using s(5) by (auto simp: pushed_layers blob_reads split: list.split)
  show ?thesis
    unfolding ResolveNativeBlobs_def c
    by (simp add: blob_reads(1) [OF s(1)] DecodeConfigBytes_encode [OF cfg] pushed_layers blob_reads(2) [OF s(2)]
        existingBlobPaths_ok [OF s(3)] existingBlobPaths_ok [OF s(4)] nativeFiles_def)
qed

lemma pushed_artifact_resolves:
  assumes sha: "\<And>b. hex64 (sha b)"
    and files: "fileAt fs jarPath = Some jar" "filesRead fs cpTars cps" "filesRead fs mpTars mps" "filesRead fs (cdsPaths cdsPath) cds"
    and out: "\<forall>p \<in> set (jarPath # cpTars @ mpTars @ cdsPaths cdsPath). outsideBlobs root p"
    and inj: "inj_on sha (set (pushBlobs sha cfg jar cps mps cds))" and small: "list_all smallFile (pushBlobs sha cfg jar cps mps cds)"
    and cfg: "config_ok cfg"
    and run: "PushWithCDS sha dk root ref cfg jarPath cpTars mpTars cdsPath fs = (Inr desc, fs')"
  shows "\<exists>man rb.
     ResolveManifestByRef sha goarch root fs' ref = Inr (man, d_Digest desc) \<and> \<not> IsRunnableImage man \<and>
     Resolve root fs' ref = Inr (man, cfg) \<and>
     ResolveNativeBlobs (BlobPath root) fs' man = Inr rb \<and> rb_Config rb = cfg \<and>
     fileAt fs' (rb_JarHostPath rb) = Some jar \<and>
     map (fileAt fs') (rb_ClasspathHostPaths rb) = map (fileAt fs) cpTars \<and>
     map (fileAt fs') (rb_ModulepathHostPaths rb) = map (fileAt fs) mpTars \<and>
     (if cdsPath = '''' then rb_CDSHostPath rb = '''' else fileAt fs' (rb_CDSHostPath rb) = fileAt fs cdsPath)"
proof -
  let ?m = "pushedManifest sha cfg jar cps mps cds" and ?rb = "nativeFiles sha root cfg jar cps mps cds"
  have plain: "\<And>b. plainName (sha b)" using hex64_plain sha by blast
  note eff = PushWithCDS_effect [OF run plain out files]
  then have v: "Validate cfg = None" and desc: "desc = manifestDesc sha ociManifestMediaType ArtifactType ref (MarshalIndent (encodeManifest ?m))"
      and fs': "fs' = tagged sha root (pushBlobs sha cfg jar cps mps cds) desc fs" by blast+
  have st: "list_all (stored sha root fs') (pushBlobs sha cfg jar cps mps cds)"
    using tagged_blob [OF plain _ inj] by (simp add: fs' list_all_iff)
  then have sm: "stored sha root fs' (MarshalIndent (encodeManifest ?m))" "stored sha root fs' (MarshalIndent (encodeConfig cfg))"
    by (simp_all add: pushBlobs_def)
  have mok: "manifest_ok ?m" by (rule pushedManifest_ok [OF small])
  have sf: "smallFile (MarshalIndent (encodeManifest ?m))" using small by (simp add: pushBlobs_def)
  have 1: "ResolveManifestByRef sha goarch root fs' ref = Inr (?m, d_Digest desc)"
    by (rule resolve_tagged_manifest [OF mok _ sf desc fs' sm(1)]) simp
  have 2: "Resolve root fs' ref = Inr (?m, cfg)"
    by (rule Resolve_tagged_manifest [OF mok sf desc fs' sm _ cfg v]) simp
  have 3: "ResolveNativeBlobs (BlobPath root) fs' ?m = Inr ?rb" by (rule ResolveNativeBlobs_pushed [OF st cfg v])
  have paths: "map (fileAt fs') (map (\<lambda>(t, b). blobPathOf sha root b) kvs) = map (fileAt fs) ps"
    if "filesRead fs ps kvs" "list_all (stored sha root fs') (map snd kvs)" for ps kvs
    using that by (force simp: filesRead_def list_all_iff blob_reads(3))
  have 4: "fileAt fs' (rb_JarHostPath ?rb) = Some jar" "map (fileAt fs') (rb_ClasspathHostPaths ?rb) = map (fileAt fs) cpTars"
      "map (fileAt fs') (rb_ModulepathHostPaths ?rb) = map (fileAt fs) mpTars"
    using st blob_reads(3) paths [OF files(2)] paths [OF files(3)] by (auto simp: nativeFiles_def pushBlobs_def)
  have 5: "if cdsPath = '''' then rb_CDSHostPath ?rb = '''' else fileAt fs' (rb_CDSHostPath ?rb) = fileAt fs cdsPath"
    using paths [OF files(4)] st files(4) by (auto simp: nativeFiles_def pushBlobs_def cdsPaths_def filesRead_def split: list.split)
  show ?thesis using 1 2 3 4 5 by (intro exI [of _ ?m] exI [of _ ?rb]) (simp add: nativeFiles_def)
qed

text \<open>C18: Publishing a native artifact and resolving its reference is the identity on what was published: after
  \<open>PushWithCDS\<close> succeeds the reference resolves (with verified digests) to the pushed manifest under the digest the push
  returned, the manifest is not taken for a runnable image, its decoded launch configuration is the pushed one, and
  the resolved host paths hold exactly the jar, the classpath layers, the module-path layers and the CDS archive, in
  the order given, whatever the layout held before.\<close>

theorem push_then_resolve:
  assumes sha: "\<And>b. hex64 (sha b)"
    and files: "fileAt fs jarPath = Some jar" "filesRead fs cpTars cps" "filesRead fs mpTars mps" "filesRead fs (cdsPaths cdsPath) cds"
    and out: "\<forall>p \<in> set (jarPath # cpTars @ mpTars @ cdsPaths cdsPath). outsideBlobs root p"
    and inj: "inj_on sha (set (pushBlobs sha cfg jar cps mps cds))" and small: "list_all smallFile (pushBlobs sha cfg jar cps mps cds)"
    and cfg: "config_ok cfg"
    and run: "PushWithCDS sha dk root ref cfg jarPath cpTars mpTars cdsPath fs = (Inr desc, fs')"
  shows "\<exists>man rb.
     ResolveManifestByRef sha goarch root fs' ref = Inr (man, d_Digest desc) \<and> \<not> IsRunnableImage man \<and>
     Resolve root fs' ref = Inr (man, cfg) \<and>
     ResolveNativeBlobs (BlobPath root) fs' man = Inr rb \<and> rb_Config rb = cfg \<and>
     fileAt fs' (rb_JarHostPath rb) = Some jar \<and>
     map (fileAt fs') (rb_ClasspathHostPaths rb) = map (fileAt fs) cpTars \<and>
     map (fileAt fs') (rb_ModulepathHostPaths rb) = map (fileAt fs) mpTars \<and>
     (if cdsPath = '''' then rb_CDSHostPath rb = '''' else fileAt fs' (rb_CDSHostPath rb) = fileAt fs cdsPath)"
  by (rule pushed_artifact_resolves [OF sha files out inj small cfg run])

text \<open>A concrete publication: one jar, no layers, a hash that counts bytes modulo 64.\<close>

definition countSha :: "bytes \<Rightarrow> string" where
  "countSha b = replicate (64 - length b mod 64) (CHR ''0'') @ replicate (length b mod 64) (CHR ''1'')"

text \<open>The lengths of a list of blobs decide whether the hash keeps them apart.\<close>

lemma countSha_lengths:
  assumes "map length bs = ns" and "distinct (map (\<lambda>n. n mod 64) ns)" and "list_all (\<lambda>n. n \<le> 4096) ns"
  shows "inj_on countSha (set bs)" "list_all smallFile bs"
proof -
  have inj: "m mod 64 = n mod 64"
    if "replicate (64 - m mod 64) (CHR ''0'') @ replicate (m mod 64) (CHR ''1'') = replicate (64 - n mod 64) (CHR ''0'') @ replicate (n mod 64) (CHR ''1'')" for m n :: nat
    using arg_cong [OF that, of "\<lambda>x. length (filter (\<lambda>c. c = CHR ''1'') x)"] by simp
  have "distinct (map (\<lambda>b. length b mod 64) bs)" using assms(1,2) by (auto simp: comp_def)
  then have "inj_on (\<lambda>b. length b mod 64) (set bs)" by (simp only: distinct_map)
  then show "inj_on countSha (set bs)" unfolding inj_on_def countSha_def using inj by blast
  show "list_all smallFile bs" using assms(1,3) by (fastforce simp: list_all_iff smallFile_def max_int64_def)
qed

definition workingDisk :: disk where
  "workingDisk = \<lparr>dk_write = (\<lambda>p. Written), dk_mkdir = (\<lambda>p. True)\<rparr>"

definition jarOnly :: fsys where
  "jarOnly = [''/in/app.jar'' \<mapsto> ''PK'']"

lemma countSha_hex: "hex64 (countSha b)"
proof -
  have "length b mod 64 \<le> 64" using mod_less_divisor [of 64 "length b"] by linarith
  then show ?thesis by (auto simp: hex64_def countSha_def lowerHexChar_def is_digit_def list_all_iff)
qed

lemma jar_push_lengths: "map length (pushBlobs countSha jarConfig ''PK'' [] [] []) = [87, 2, 616]"
  by code_simp

lemma jar_push_blobs:
  "inj_on countSha (set (pushBlobs countSha jarConfig ''PK'' [] [] []))" "list_all smallFile (pushBlobs countSha jarConfig ''PK'' [] [] [])"
  by (rule countSha_lengths [OF jar_push_lengths]; simp)+

lemma jar_outside: "outsideBlobs ''/store'' ''/in/app.jar''"
proof -
  have "clean_comps ''/in/app.jar'' = [''in'', ''app.jar'']" "clean_comps (blobsDir ''/store'') = [''store'', ''blobs'', ''sha256'']"
    by code_simp+
  then show ?thesis by (simp add: outsideBlobs_def inside_def)
qed

lemma jarOnly_jar: "fileAt jarOnly ''/in/app.jar'' = Some ''PK''"
  by code_simp

lemma jar_push_succeeds:
  assumes jar: "fileAt fs ''/in/app.jar'' = Some ''PK''"
  shows "\<exists>desc fs'. PushWithCDS countSha workingDisk ''/store'' ''hello:1'' jarConfig ''/in/app.jar'' [] [] '''' fs = (Inr desc, fs')"
proof -
  have w: "\<exists>d fs'. writeBlob countSha workingDisk ''/store'' b fs = (Inr d, fs')" for b fs
    by (auto simp: writeBlob_def Let_def fsm_ok workingDisk_def)
  have t: "\<exists>d fs'. tagManifest countSha workingDisk ''/store'' ref raw mt at fs = (Inr d, fs')" for ref raw mt at fs
    using w [of raw fs] by (auto simp: tagManifest_def Let_def fsm_ok upsertIndex_def writeLayoutMarker_def workingDisk_def)
  obtain cd fs1 where 1: "writeBlob countSha workingDisk ''/store'' (MarshalIndent (encodeConfig jarConfig)) fs = (Inr cd, fs1)"
    using w by blast
  have 2: "fileAt fs1 ''/in/app.jar'' = Some ''PK''"
    using jar writeBlob_ok [OF 1] read_outside [where sha = countSha, OF hex64_plain [OF countSha_hex] jar_outside] by metis
  obtain jd fs2 where 3: "writeBlob countSha workingDisk ''/store'' ''PK'' fs1 = (Inr jd, fs2)" using w by blast
  have "validateCDSPairing jarConfig '''' = None" by (simp add: validateCDSPairing_def jarConfig_def)
  then show ?thesis using jarConfig_valid 1 2 3 t by (auto simp: PushWithCDS_def fsm_ok appendCDSLayer_def)
qed

theorem push_then_resolve_witness:
  "\<exists>desc fs' man rb.
     PushWithCDS countSha workingDisk ''/store'' ''hello:1'' jarConfig ''/in/app.jar'' [] [] '''' jarOnly = (Inr desc, fs') \<and>
     ResolveManifestByRef countSha ''amd64'' ''/store'' fs' ''hello:1'' = Inr (man, d_Digest desc) \<and>
     ResolveNativeBlobs (BlobPath ''/store'') fs' man = Inr rb \<and> rb_Config rb = jarConfig \<and> fileAt fs' (rb_JarHostPath rb) = Some ''PK''"
proof -
  obtain desc fs' where run:
      "PushWithCDS countSha workingDisk ''/store'' ''hello:1'' jarConfig ''/in/app.jar'' [] [] '''' jarOnly = (Inr desc, fs')"
    using jar_push_succeeds [OF jarOnly_jar] by blast
  have f: "filesRead jarOnly [] []" "filesRead jarOnly (cdsPaths '''') []" by (simp_all add: filesRead_def cdsPaths_def)
  have o: "\<forall>p \<in> set (''/in/app.jar'' # [] @ [] @ cdsPaths ''''). outsideBlobs ''/store'' p"
    using jar_outside by (simp add: cdsPaths_def)
  show ?thesis
    using push_then_resolve [OF countSha_hex jarOnly_jar f(1,1,2) o jar_push_blobs jarConfig_ok run, of "''amd64''"] run by blast
qed

section \<open>What a push leaves alone\<close>

lemma readIndex_currentIndex: "readIndex root fs = Inr idx \<Longrightarrow> currentIndex root fs = idx"
  by (auto simp: readIndex_def currentIndex_def split: option.splits)

text \<open>A push moves exactly one tag. In a layout whose index can be read, after a successful push the new reference
  names the pushed descriptor and every other reference names what it named before (or is still missing).\<close>

lemma push_moves_one_tag:
  assumes sha: "\<And>b. hex64 (sha b)"
    and files: "fileAt fs jarPath = Some jar" "filesRead fs cpTars cps" "filesRead fs mpTars mps" "filesRead fs (cdsPaths cdsPath) cds"
    and out: "\<forall>p \<in> set (jarPath # cpTars @ mpTars @ cdsPaths cdsPath). outsideBlobs root p"
    and small: "list_all smallFile (pushBlobs sha cfg jar cps mps cds)"
    and idx: "readIndex root fs = Inr idx"
    and run: "PushWithCDS sha dk root ref cfg jarPath cpTars mpTars cdsPath fs = (Inr desc, fs')"
  shows "DescriptorByRef root fs' r = (if r = ref then Inr desc else DescriptorByRef root fs r)"
proof -
  have plain: "\<And>b. plainName (sha b)" using hex64_plain sha by blast
  note eff = PushWithCDS_effect [OF run plain out files]
  have d: "descriptor_ok desc" "refOf desc = ref" using eff small by (simp_all add: pushBlobs_def)
  have r: "readIndex root fs' = Inr (tagIndex desc idx)"
    using eff tagged_index(1) [OF d(1), of sha root _ fs] tagged_index(2) [OF d(1), of _ _ root fs] readIndex_currentIndex [OF idx]
    by (auto simp: readIndex_def)
  show ?thesis
    using idx r find_tagged [OF d(2), of idx] find_other [of desc r idx] d(2) by (auto simp: DescriptorByRef_def)
qed

lemma keepsF_writeBlob [intro]: "(\<And>h. plainName h \<Longrightarrow> \<not> K (blobKey root h)) \<Longrightarrow> (\<And>b. plainName (sha b)) \<Longrightarrow> keepsF K (writeBlob sha dk root b)"
  unfolding writeBlob_def Let_def digestOf_def blobKey_def by (intro keepsF_then keepsF_write keepsF_basic) simp

lemma keepsF_appendTarLayers [intro]:
  assumes "\<And>h. plainName h \<Longrightarrow> \<not> K (blobKey root h)" and "\<And>b. plainName (sha b)"
  shows "keepsF K (appendTarLayers sha dk root layers tars mt)"
  by (induction tars arbitrary: layers) (auto intro!: keepsF_bind keepsF_writeBlob assms)

text \<open>A computation that fails safely: unless the error is about the index or the layout marker, the index is as before.\<close>

definition failsSafely :: "string \<Rightarrow> (store_error, 'a) fsm \<Rightarrow> bool" where
  "failsSafely root m \<longleftrightarrow> (\<forall>fs e fs'. m fs = (Inl e, fs') \<longrightarrow>
     e = StoreIO (indexPath root) \<or> e = StoreIO (PathJoin [root, ''oci-layout'']) \<or> fs' (indexKey root) = fs (indexKey root))"

lemma failsSafely_bind:
  assumes "keepsF (\<lambda>p. p = indexKey root) m" and "\<And>a. failsSafely root (f a)"
  shows "failsSafely root (bindF m f)"
  unfolding failsSafely_def
proof (intro allI impI)
  fix fs e fs' assume run: "bindF m f fs = (Inl e, fs')"
  obtain r fs1 where m: "m fs = (r, fs1)" by fastforce
  have k: "fs1 (indexKey root) = fs (indexKey root)" using keepsFD [OF assms(1), of "indexKey root" fs] m by simp
  show "e = StoreIO (indexPath root) \<or> e = StoreIO (PathJoin [root, ''oci-layout'']) \<or> fs' (indexKey root) = fs (indexKey root)"
  proof (cases r)
    case (Inr a)
    then have "f a fs1 = (Inl e, fs')" using run m by (simp add: bindF_def)
    then show ?thesis using assms(2) [of a] k unfolding failsSafely_def by metis
  qed (use run m k in \<open>simp add: bindF_def\<close>)
qed

lemma failsSafely_write: "p = indexPath root \<or> p = PathJoin [root, ''oci-layout''] \<Longrightarrow> failsSafely root (writeF dk StoreIO p b)"
  by (auto simp: failsSafely_def writeF_def split: write_outcome.splits)

lemma failsSafely_tag:
  assumes "\<And>b. plainName (sha b)" shows "failsSafely root (tagManifest sha dk root ref raw mt at)"
proof -
  have "failsSafely root (thenF (upsertIndex dk root d) (thenF (writeLayoutMarker dk root) (retF d)))" for d
    using failsSafely_write [of "indexPath root" root dk] failsSafely_write [of "PathJoin [root, ''oci-layout'']" root dk]
    unfolding failsSafely_def upsertIndex_def writeLayoutMarker_def thenF_def bindF_def getF_def retF_def
    by (auto split: prod.splits sum.splits) (auto simp: writeF_def split: write_outcome.splits)
  then show ?thesis unfolding tagManifest_def Let_def by (intro failsSafely_bind keepsF_writeBlob) (use assms in simp_all)
qed

lemma failsSafely_fail: "failsSafely root (failF e)"
  by (simp add: failsSafely_def failF_def)

text \<open>C19: A push that fails publishes nothing and unpublishes nothing: whatever step fails (an invalid configuration, an
  unreadable jar or layer, a blob that cannot be written), the index has the bytes it had, and so every
  reference still names what it named. The only exceptions are a failure of the write of the index itself and of the
  marker written after it.\<close>

theorem failed_push_keeps_index:
  assumes sha: "\<And>b. hex64 (sha b)"
    and run: "PushWithCDS sha dk root ref cfg jarPath cpTars mpTars cdsPath fs = (Inl e, fs')"
    and e: "e \<noteq> StoreIO (indexPath root)" "e \<noteq> StoreIO (PathJoin [root, ''oci-layout''])"
  shows "fileAt fs' (indexPath root) = fileAt fs (indexPath root) \<and> (\<forall>r. DescriptorByRef root fs' r = DescriptorByRef root fs r)"
proof -
  have plain: "\<And>b. plainName (sha b)" using hex64_plain sha by blast
  have "failsSafely root (PushWithCDS sha dk root ref cfg jarPath cpTars mpTars cdsPath)"
    unfolding PushWithCDS_def appendCDSLayer_tars using plain
    by (auto split: option.split intro!: failsSafely_fail failsSafely_bind failsSafely_tag keepsF_writeBlob keepsF_appendTarLayers)
  then have "fs' (indexKey root) = fs (indexKey root)" using run e unfolding failsSafely_def by blast
  then have "fileAt fs' (indexPath root) = fileAt fs (indexPath root)" by (simp add: fileAt_def indexKey_def)
  then show ?thesis by (simp add: DescriptorByRef_def readIndex_def)
qed

theorem failed_push_keeps_index_witness:
  "\<exists>fs'. PushWithCDS countSha workingDisk ''/store'' ''hello:1'' jarConfig ''/in/missing.jar'' [] [] '''' jarOnly
       = (Inl (StoreIO ''/in/missing.jar''), fs') \<and> fileAt fs' (indexPath ''/store'') = None"
proof -
  obtain r fs' where run: "PushWithCDS countSha workingDisk ''/store'' ''hello:1'' jarConfig ''/in/missing.jar'' [] [] '''' jarOnly = (r, fs')"
    by fastforce
  have "fst (PushWithCDS countSha workingDisk ''/store'' ''hello:1'' jarConfig ''/in/missing.jar'' [] [] '''' jarOnly)
      = Inl (StoreIO ''/in/missing.jar'')" by code_simp
  then have r: "r = Inl (StoreIO ''/in/missing.jar'')" using run by simp
  have ne: "StoreIO ''/in/missing.jar'' \<noteq> StoreIO (indexPath ''/store'')" "StoreIO ''/in/missing.jar'' \<noteq> StoreIO (PathJoin [''/store'', ''oci-layout''])"
    by code_simp+
  have "fileAt jarOnly (indexPath ''/store'') = None" by code_simp
  then show ?thesis using failed_push_keeps_index [OF countSha_hex run [unfolded r] ne] run r by auto
qed

text \<open>A layout with one tag.\<close>

definition oneTag :: fsys where
  "oneTag = jarOnly(''/store/index.json'' \<mapsto>
     MarshalIndent (encodeIndex (emptyIndex\<lparr>x_Manifests := [manifestDesc countSha ociManifestMediaType ArtifactType ''other:1'' ''x'']\<rparr>)))"

theorem push_moves_one_tag_witness:
  "\<exists>desc fs'. PushWithCDS countSha workingDisk ''/store'' ''hello:1'' jarConfig ''/in/app.jar'' [] [] '''' oneTag = (Inr desc, fs') \<and>
     DescriptorByRef ''/store'' fs' ''hello:1'' = Inr desc \<and>
     DescriptorByRef ''/store'' fs' ''other:1'' = Inr (manifestDesc countSha ociManifestMediaType ArtifactType ''other:1'' ''x'') \<and>
     DescriptorByRef ''/store'' fs' ''third:1'' = Inl (RefNotFound ''third:1'')"
proof -
  let ?x = "emptyIndex\<lparr>x_Manifests := [manifestDesc countSha ociManifestMediaType ArtifactType ''other:1'' ''x'']\<rparr>"
  have j: "fileAt oneTag ''/in/app.jar'' = Some ''PK''" by code_simp
  have p: "Clean (indexPath ''/store'') = ''/store/index.json''" by code_simp
  have "index_ok ?x" by code_simp
  then have idx: "readIndex ''/store'' oneTag = Inr ?x"
    using parseIndex_print [of ?x] by (simp add: readIndex_def fileAt_def p oneTag_def)
  obtain desc fs' where run:
      "PushWithCDS countSha workingDisk ''/store'' ''hello:1'' jarConfig ''/in/app.jar'' [] [] '''' oneTag = (Inr desc, fs')"
    using jar_push_succeeds [OF j] by blast
  have f: "filesRead oneTag [] []" "filesRead oneTag (cdsPaths '''') []" by (simp_all add: filesRead_def cdsPaths_def)
  have o: "\<forall>p \<in> set (''/in/app.jar'' # [] @ [] @ cdsPaths ''''). outsideBlobs ''/store'' p" using jar_outside by (simp add: cdsPaths_def)
  have "DescriptorByRef ''/store'' fs' r = (if r = ''hello:1'' then Inr desc else DescriptorByRef ''/store'' oneTag r)" for r
    by (rule push_moves_one_tag [OF countSha_hex j f(1,1,2) o jar_push_blobs(2) idx run])
  then show ?thesis using run idx by (simp add: DescriptorByRef_def)
qed

end
