(* ===== verification/Dependency_Bundle.thy ===== *)
theory Dependency_Bundle
  imports Artifact_Store
begin

text \<open>
  Managed dependency bundles (\<open>src/core/internal/artifact/dependency_bundle.go\<close>): the lock, the bundle
  configuration and the evidence record with their JSON forms, the validation of a dependency archive against a lock,
  publishing a bundle and resolving one, and the comparison of locks. Gzip and tar are the record \<open>codec\<close>, whose
  laws are \<open>codec_ok\<close>: what was written is read back.
\<close>

section \<open>Archives and compression\<close>

text \<open>\<open>cx_gunzip\<close> gives \<open>None\<close> when the header is bad, else the bytes it could decompress and whether it ended with an error;
  \<open>cx_untar\<close> likewise gives the entries up to an error. \<open>cx_ustar\<close> is the writer with the fixed format and time of
  the canonical dependency archive; a writer gives \<open>None\<close> on a header it cannot represent.\<close>

record codec =
  cx_gzip :: "bytes \<Rightarrow> bytes"
  cx_gunzip :: "bytes \<Rightarrow> (bytes \<times> bool) option"
  cx_tar :: "(string \<times> bytes) list \<Rightarrow> bytes option"
  cx_ustar :: "(string \<times> bytes) list \<Rightarrow> bytes option"
  cx_untar :: "bytes \<Rightarrow> tar_entry list \<times> bool"

definition regEntry :: "string \<times> bytes \<Rightarrow> tar_entry" where
  "regEntry f = \<lparr>te_Name = fst f, te_Typeflag = TypeReg, te_Content = snd f\<rparr>"

definition codec_ok :: "codec \<Rightarrow> bool" where
  "codec_ok cx \<longleftrightarrow> (\<forall>b. cx_gunzip cx (cx_gzip cx b) = Some (b, False)) \<and>
     (\<forall>fs b. cx_tar cx fs = Some b \<longrightarrow> cx_untar cx b = (map regEntry fs, False)) \<and>
     (\<forall>fs b. cx_ustar cx fs = Some b \<longrightarrow> cx_untar cx b = (map regEntry fs, False))"

section \<open>Data\<close>

definition DependencyBundleArtifactType :: string where
  "DependencyBundleArtifactType = ''application/vnd.brewlet.dependencies.v1+json''"
definition DependencyBundleConfigType :: string where
  "DependencyBundleConfigType = ''application/vnd.brewlet.dependencies.config.v1+json''"
definition DependencyLockMediaType :: string where
  "DependencyLockMediaType = ''application/vnd.brewlet.dependencies.lock.v1+json''"
definition ManagedDependencyAnnotation :: string where
  "ManagedDependencyAnnotation = ''brewlet.sh/managed-dependency-evidence''"

declare DependencyBundleArtifactType_def [oci_names] DependencyBundleConfigType_def [oci_names]
  DependencyLockMediaType_def [oci_names] ManagedDependencyAnnotation_def [oci_names]

record DependencyBundleConfig =
  bc_SchemaVersion :: int
  bc_Name :: string
  bc_Version :: string
  bc_SourceBOM :: string
  bc_LockDigest :: string
  bc_LayerDigest :: string
  bc_LayerDiffID :: string
  bc_CompatibleJDKs :: "int list"

record DependencyLockEntry =
  le_GroupID :: string
  le_ArtifactID :: string
  le_Version :: string
  le_Type :: string
  le_Classifier :: string
  le_Scope :: string
  le_FileName :: string
  le_SHA256 :: string

record DependencyLock =
  lk_SchemaVersion :: int
  lk_Artifacts :: "DependencyLockEntry list"

record ManagedDependencyEvidence =
  ev_SchemaVersion :: int
  ev_ThinJar :: bool
  ev_ApplicationJarDigest :: string
  ev_DependencyBundleDigest :: string
  ev_DependencyLayerDigest :: string
  ev_DependencyLockDigest :: string
  ev_SBOMDigest :: string
  ev_SourceBOM :: string
  ev_BuilderIdentity :: string

record ResolvedDependencyBundle =
  rd_ManifestDigest :: string
  rd_Config :: DependencyBundleConfig
  rd_Lock :: DependencyLock
  rd_Layer :: Descriptor

datatype bundle_error =
    StoreFailed store_error
  | BadSchema int
  | NoBundleName
  | NoBundleVersion
  | BadSourceBOM string
  | NotADigest
  | BadFeature int
  | DuplicateFeature int
  | EmptyLock
  | EntryIncomplete nat
  | EntryNotFlatJar nat
  | EntryBadChecksum nat
  | DuplicateCoordinate string
  | DuplicateFile string
  | BadDocument string
  | NotABundle string
  | WrongLayers nat nat
  | BindingMismatch
  | LayerNotGzip
  | DiffIDMismatch string
  | TarUnreadable
  | EntryRejected string
  | EntryNotLocked string
  | DuplicateTarEntry string
  | ChecksumMismatch string
  | MissingLocked "string list"
  | TarNotWritten string
  | LockMismatch
  | BadEvidence

section \<open>Validation\<close>

definition isLowerHex :: "string \<Rightarrow> bool" where
  "isLowerHex value = list_all lowerHexChar value"

definition isSHA256Digest :: "string \<Rightarrow> bool" where
  "isSHA256Digest value =
     (HasPrefix value ''sha256:'' \<and> length value = length ''sha256:'' + 64 \<and> isLowerHex (TrimPrefix value ''sha256:''))"

definition validateMavenCoordinate :: "string \<Rightarrow> bool" where
  "validateMavenCoordinate value =
     (let parts = SplitOn (CHR '':'') value in
      length parts = 3 \<and> list_all (\<lambda>part. TrimSpace part \<noteq> '''' \<and> part = TrimSpace part) parts)"

fun checkFeatures :: "int list \<Rightarrow> int list \<Rightarrow> bundle_error option" where
  "checkFeatures seen [] = None"
| "checkFeatures seen (feature # rest) =
     (if feature \<le> 0 then Some (BadFeature feature)
      else if feature \<in> set seen then Some (DuplicateFeature feature)
      else checkFeatures (feature # seen) rest)"

text \<open>The three digests are checked in the random order of a Go map, so the error does not say which one is malformed.\<close>

definition ValidateBundleConfig :: "DependencyBundleConfig \<Rightarrow> bundle_error option" where
  "ValidateBundleConfig c =
     (if bc_SchemaVersion c \<noteq> 1 then Some (BadSchema (bc_SchemaVersion c))
      else if TrimSpace (bc_Name c) = '''' then Some NoBundleName
      else if TrimSpace (bc_Version c) = '''' then Some NoBundleVersion
      else if \<not> validateMavenCoordinate (bc_SourceBOM c) then Some (BadSourceBOM (bc_SourceBOM c))
      else if \<not> list_all isSHA256Digest [bc_LockDigest c, bc_LayerDigest c, bc_LayerDiffID c] then Some NotADigest
      else checkFeatures [] (bc_CompatibleJDKs c))"

definition lockCoordinate :: "DependencyLockEntry \<Rightarrow> string" where
  "lockCoordinate e = JoinWith '':'' [le_GroupID e, le_ArtifactID e, le_Type e, le_Classifier e, le_Version e]"

definition flatJarName :: "string \<Rightarrow> bool" where
  "flatJarName name = (Base name = name \<and> HasSuffix (map lowerChar name) ''.jar'')"

fun checkEntries :: "nat \<Rightarrow> string list \<Rightarrow> string list \<Rightarrow> DependencyLockEntry list \<Rightarrow> bundle_error option" where
  "checkEntries i coords files [] = None"
| "checkEntries i coords files (e # rest) =
     (if TrimSpace (le_GroupID e) = '''' \<or> TrimSpace (le_ArtifactID e) = '''' \<or> TrimSpace (le_Version e) = '''' then Some (EntryIncomplete i)
      else if TrimSpace (le_Type e) = '''' \<or> TrimSpace (le_Scope e) = '''' then Some (EntryIncomplete i)
      else if le_FileName e = '''' \<or> \<not> flatJarName (le_FileName e) then Some (EntryNotFlatJar i)
      else if length (le_SHA256 e) \<noteq> 64 \<or> \<not> isLowerHex (le_SHA256 e) then Some (EntryBadChecksum i)
      else if lockCoordinate e \<in> set coords then Some (DuplicateCoordinate (lockCoordinate e))
      else if le_FileName e \<in> set files then Some (DuplicateFile (le_FileName e))
      else checkEntries (i + 1) (lockCoordinate e # coords) (le_FileName e # files) rest)"

definition ValidateLock :: "DependencyLock \<Rightarrow> bundle_error option" where
  "ValidateLock l =
     (if lk_SchemaVersion l \<noteq> 1 then Some (BadSchema (lk_SchemaVersion l))
      else if length (lk_Artifacts l) = 0 then Some EmptyLock
      else checkEntries 0 [] [] (lk_Artifacts l))"

text \<open>\<open>sort.Slice\<close> does not fix the order of equal coordinates; the stable order is one it can give, and a lock with
  equal coordinates is refused by the validation.\<close>

definition sortLock :: "DependencyLock \<Rightarrow> DependencyLock" where
  "sortLock l = l\<lparr>lk_Artifacts := sort_key lockCoordinate (lk_Artifacts l)\<rparr>"

section \<open>Documents\<close>

definition encodeBundleConfig :: "DependencyBundleConfig \<Rightarrow> json" where
  "encodeBundleConfig c =
     JObj ([(''schemaVersion'', jint (bc_SchemaVersion c)), (''name'', JStr (bc_Name c)), (''version'', JStr (bc_Version c)),
       (''sourceBom'', JStr (bc_SourceBOM c)), (''lockDigest'', JStr (bc_LockDigest c)), (''layerDigest'', JStr (bc_LayerDigest c)),
       (''layerDiffId'', JStr (bc_LayerDiffID c))] @ omitList ''compatibleJdks'' jint (bc_CompatibleJDKs c))"

definition encodeLockEntry :: "DependencyLockEntry \<Rightarrow> json" where
  "encodeLockEntry e =
     JObj ([(''groupId'', JStr (le_GroupID e)), (''artifactId'', JStr (le_ArtifactID e)), (''version'', JStr (le_Version e))] @
       omitStr ''type'' (le_Type e) @ omitStr ''classifier'' (le_Classifier e) @ omitStr ''scope'' (le_Scope e) @
       [(''fileName'', JStr (le_FileName e)), (''sha256'', JStr (le_SHA256 e))])"

definition encodeLock :: "DependencyLock \<Rightarrow> json" where
  "encodeLock l = JObj [(''schemaVersion'', jint (lk_SchemaVersion l)), (''artifacts'', JArr (map encodeLockEntry (lk_Artifacts l)))]"

definition encodeEvidence :: "ManagedDependencyEvidence \<Rightarrow> json" where
  "encodeEvidence e =
     JObj ([(''schemaVersion'', jint (ev_SchemaVersion e)), (''thinJar'', JBool (ev_ThinJar e)),
       (''applicationJarDigest'', JStr (ev_ApplicationJarDigest e)), (''dependencyBundleDigest'', JStr (ev_DependencyBundleDigest e)),
       (''dependencyLayerDigest'', JStr (ev_DependencyLayerDigest e)), (''dependencyLockDigest'', JStr (ev_DependencyLockDigest e))] @
       omitStr ''sbomDigest'' (ev_SBOMDigest e) @ [(''sourceBom'', JStr (ev_SourceBOM e))] @ omitStr ''builderIdentity'' (ev_BuilderIdentity e))"

text \<open>\<open>decodeStrict\<close>: one JSON value, no unknown member.\<close>

definition decodeStrict :: "(json \<Rightarrow> 'a option) \<Rightarrow> bytes \<Rightarrow> 'a option" where
  "decodeStrict dec raw = Option.bind (parseJson raw) dec"

definition bundleConfigNames :: "string list" where
  "bundleConfigNames = [''schemaVersion'', ''name'', ''version'', ''sourceBom'', ''lockDigest'', ''layerDigest'', ''layerDiffId'', ''compatibleJdks'']"

definition decodeBundleConfig :: "json \<Rightarrow> DependencyBundleConfig option" where
  "decodeBundleConfig j =
     Option.bind (asMembers j) (\<lambda>fs.
     if \<not> knownMembers True bundleConfigNames fs then None
     else Option.bind (asInt (member fs ''schemaVersion'')) (\<lambda>sv.
          Option.bind (asString (member fs ''name'')) (\<lambda>na.
          Option.bind (asString (member fs ''version'')) (\<lambda>ve.
          Option.bind (asString (member fs ''sourceBom'')) (\<lambda>sb.
          Option.bind (asString (member fs ''lockDigest'')) (\<lambda>lo.
          Option.bind (asString (member fs ''layerDigest'')) (\<lambda>la.
          Option.bind (asString (member fs ''layerDiffId'')) (\<lambda>di.
          Option.bind (asList asInt (member fs ''compatibleJdks'')) (\<lambda>jd.
          Some \<lparr>bc_SchemaVersion = sv, bc_Name = na, bc_Version = ve, bc_SourceBOM = sb, bc_LockDigest = lo,
                bc_LayerDigest = la, bc_LayerDiffID = di, bc_CompatibleJDKs = jd\<rparr>)))))))))"

definition lockEntryNames :: "string list" where
  "lockEntryNames = [''groupId'', ''artifactId'', ''version'', ''type'', ''classifier'', ''scope'', ''fileName'', ''sha256'']"

definition decodeLockEntry :: "json \<Rightarrow> DependencyLockEntry option" where
  "decodeLockEntry j =
     Option.bind (asMembers j) (\<lambda>fs.
     if \<not> knownMembers True lockEntryNames fs then None
     else Option.bind (asString (member fs ''groupId'')) (\<lambda>gr.
          Option.bind (asString (member fs ''artifactId'')) (\<lambda>ar.
          Option.bind (asString (member fs ''version'')) (\<lambda>ve.
          Option.bind (asString (member fs ''type'')) (\<lambda>ty.
          Option.bind (asString (member fs ''classifier'')) (\<lambda>cl.
          Option.bind (asString (member fs ''scope'')) (\<lambda>sc.
          Option.bind (asString (member fs ''fileName'')) (\<lambda>fi.
          Option.bind (asString (member fs ''sha256'')) (\<lambda>sh.
          Some \<lparr>le_GroupID = gr, le_ArtifactID = ar, le_Version = ve, le_Type = ty, le_Classifier = cl, le_Scope = sc,
                le_FileName = fi, le_SHA256 = sh\<rparr>)))))))))"

definition decodeLock :: "json \<Rightarrow> DependencyLock option" where
  "decodeLock j =
     Option.bind (asMembers j) (\<lambda>fs.
     if \<not> knownMembers True [''schemaVersion'', ''artifacts''] fs then None
     else Option.bind (asInt (member fs ''schemaVersion'')) (\<lambda>sv.
          Option.bind (asList decodeLockEntry (member fs ''artifacts'')) (\<lambda>es.
          Some \<lparr>lk_SchemaVersion = sv, lk_Artifacts = es\<rparr>)))"

definition evidenceNames :: "string list" where
  "evidenceNames = [''schemaVersion'', ''thinJar'', ''applicationJarDigest'', ''dependencyBundleDigest'', ''dependencyLayerDigest'',
     ''dependencyLockDigest'', ''sbomDigest'', ''sourceBom'', ''builderIdentity'']"

definition decodeEvidence :: "json \<Rightarrow> ManagedDependencyEvidence option" where
  "decodeEvidence j =
     Option.bind (asMembers j) (\<lambda>fs.
     if \<not> knownMembers True evidenceNames fs then None
     else Option.bind (asInt (member fs ''schemaVersion'')) (\<lambda>sv.
          Option.bind (asBool (member fs ''thinJar'')) (\<lambda>th.
          Option.bind (asString (member fs ''applicationJarDigest'')) (\<lambda>ja.
          Option.bind (asString (member fs ''dependencyBundleDigest'')) (\<lambda>bu.
          Option.bind (asString (member fs ''dependencyLayerDigest'')) (\<lambda>la.
          Option.bind (asString (member fs ''dependencyLockDigest'')) (\<lambda>lo.
          Option.bind (asString (member fs ''sbomDigest'')) (\<lambda>sb.
          Option.bind (asString (member fs ''sourceBom'')) (\<lambda>so.
          Option.bind (asString (member fs ''builderIdentity'')) (\<lambda>bi.
          Some \<lparr>ev_SchemaVersion = sv, ev_ThinJar = th, ev_ApplicationJarDigest = ja, ev_DependencyBundleDigest = bu,
                ev_DependencyLayerDigest = la, ev_DependencyLockDigest = lo, ev_SBOMDigest = sb, ev_SourceBOM = so,
                ev_BuilderIdentity = bi\<rparr>))))))))))"

definition DecodeDependencyBundleConfig :: "bytes \<Rightarrow> bundle_error + DependencyBundleConfig" where
  "DecodeDependencyBundleConfig raw =
     (case decodeStrict decodeBundleConfig raw of None \<Rightarrow> Inl (BadDocument ''config'')
      | Some cfg \<Rightarrow> (case ValidateBundleConfig cfg of Some e \<Rightarrow> Inl e | None \<Rightarrow> Inr cfg))"

definition DecodeDependencyLock :: "bytes \<Rightarrow> bundle_error + DependencyLock" where
  "DecodeDependencyLock raw =
     (case decodeStrict decodeLock raw of None \<Rightarrow> Inl (BadDocument ''lock'')
      | Some l \<Rightarrow> (let lock = sortLock l in case ValidateLock lock of Some e \<Rightarrow> Inl e | None \<Rightarrow> Inr lock))"

text \<open>The manifest of a bundle is decoded into a struct of five members; \<open>subject\<close> and \<open>annotations\<close> are unknown members there.\<close>

record bundleManifest =
  bm_SchemaVersion :: int
  bm_MediaType :: string
  bm_ArtifactType :: string
  bm_Config :: Descriptor
  bm_Layers :: "Descriptor list"

definition decodeBundleManifest :: "json \<Rightarrow> bundleManifest option" where
  "decodeBundleManifest j =
     Option.bind (asMembers j) (\<lambda>fs.
     if \<not> knownMembers True [''schemaVersion'', ''mediaType'', ''artifactType'', ''config'', ''layers''] fs then None
     else Option.bind (asInt (member fs ''schemaVersion'')) (\<lambda>sv.
          Option.bind (asString (member fs ''mediaType'')) (\<lambda>mt.
          Option.bind (asString (member fs ''artifactType'')) (\<lambda>at.
          Option.bind (decodeDescriptor True (member fs ''config'')) (\<lambda>co.
          Option.bind (asList (decodeDescriptor True) (member fs ''layers'')) (\<lambda>la.
          Some \<lparr>bm_SchemaVersion = sv, bm_MediaType = mt, bm_ArtifactType = at, bm_Config = co, bm_Layers = la\<rparr>))))))"

section \<open>Archives against a lock\<close>

definition expectedFiles :: "DependencyLock \<Rightarrow> strmap" where
  "expectedFiles lock = map_of (rev (map (\<lambda>e. (le_FileName e, le_SHA256 e)) (lk_Artifacts lock)))"

fun checkTarEntries :: "(bytes \<Rightarrow> string) \<Rightarrow> strmap \<Rightarrow> string list \<Rightarrow> tar_entry list \<Rightarrow> bundle_error + string list" where
  "checkTarEntries sha expected seen [] = Inr seen"
| "checkTarEntries sha expected seen (header # rest) =
     (if te_Typeflag header \<noteq> TypeReg \<or> \<not> flatJarName (te_Name header) then Inl (EntryRejected (te_Name header))
      else
        (case expected (te_Name header) of None \<Rightarrow> Inl (EntryNotLocked (te_Name header))
         | Some want \<Rightarrow>
             if te_Name header \<in> set seen then Inl (DuplicateTarEntry (te_Name header))
             else if TrimPrefix (digestOf sha (te_Content header)) ''sha256:'' \<noteq> want then Inl (ChecksumMismatch (te_Name header))
             else checkTarEntries sha expected (te_Name header # seen) rest))"

definition validateDependencyTar :: "(bytes \<Rightarrow> string) \<Rightarrow> codec \<Rightarrow> bytes \<Rightarrow> DependencyLock \<Rightarrow> bundle_error option" where
  "validateDependencyTar sha cx raw lock =
     (let names = remdups (map le_FileName (lk_Artifacts lock)) in
      case checkTarEntries sha (expectedFiles lock) [] (fst (cx_untar cx raw)) of Inl e \<Rightarrow> Some e
      | Inr seen \<Rightarrow>
          if snd (cx_untar cx raw) then Some TarUnreadable
          else if length seen \<noteq> length names then Some (MissingLocked (sort (filter (\<lambda>n. n \<notin> set seen) names)))
          else None)"

definition tarContents :: "tar_entry list \<Rightarrow> string \<Rightarrow> bytes" where
  "tarContents es name = (case map_of (rev (map (\<lambda>e. (te_Name e, te_Content e)) es)) name of None \<Rightarrow> '''' | Some c \<Rightarrow> c)"

definition canonicalDependencyTar :: "codec \<Rightarrow> bytes \<Rightarrow> DependencyLock \<Rightarrow> bundle_error + bytes" where
  "canonicalDependencyTar cx raw lock =
     (if snd (cx_untar cx raw) then Inl TarUnreadable
      else
        (case cx_ustar cx (map (\<lambda>e. (le_FileName e, tarContents (fst (cx_untar cx raw)) (le_FileName e)))
                             (sort_key le_FileName (lk_Artifacts lock))) of
           None \<Rightarrow> Inl (TarNotWritten ''dependency tar'')
         | Some b \<Rightarrow> Inr b))"

section \<open>Publishing and resolving\<close>

definition bundleManifestOf :: "Descriptor \<Rightarrow> Descriptor list \<Rightarrow> Manifest" where
  "bundleManifestOf cfgDesc layers =
     \<lparr>m_SchemaVersion = 2, m_MediaType = ociManifestMediaType, m_ArtifactType = DependencyBundleArtifactType, m_Subject = None,
      m_Config = cfgDesc, m_Layers = layers, m_Annotations = []\<rparr>"

text \<open>The annotations of a descriptor are a Go map; the list is in the order of the printed keys.\<close>

definition bundleLayerAnnotations :: "string \<Rightarrow> stralist" where
  "bundleLayerAnnotations tarPath = [(LayerRoleAnnotation, LayerRoleClasspath), (titleAnnotation, Base tarPath)]"

definition boundConfig :: "DependencyBundleConfig \<Rightarrow> string \<Rightarrow> string \<Rightarrow> string \<Rightarrow> DependencyBundleConfig" where
  "boundConfig cfg lockDigest layerDigest diffID =
     cfg\<lparr>bc_SchemaVersion := 1, bc_LockDigest := lockDigest, bc_LayerDigest := layerDigest, bc_LayerDiffID := diffID,
         bc_CompatibleJDKs := sort (bc_CompatibleJDKs cfg)\<rparr>"

definition PushDependencyBundle ::
  "(bytes \<Rightarrow> string) \<Rightarrow> codec \<Rightarrow> disk \<Rightarrow> string \<Rightarrow> string \<Rightarrow> DependencyBundleConfig \<Rightarrow> DependencyLock \<Rightarrow> string \<Rightarrow>
   (bundle_error, Descriptor) fsm" where
  "PushDependencyBundle sha cx dk root ref cfg0 lock0 classpathTar =
     (let lock = sortLock lock0 in
      case ValidateLock lock of Some e \<Rightarrow> failF e
      | None \<Rightarrow>
        bindF (mapErrF StoreFailed (readF StoreIO classpathTar)) (\<lambda>raw.
        (case validateDependencyTar sha cx raw lock of Some e \<Rightarrow> failF e
         | None \<Rightarrow>
           bindF (liftF (canonicalDependencyTar cx raw lock)) (\<lambda>tarBytes.
           bindF (mapErrF StoreFailed (writeBlob sha dk root (MarshalIndent (encodeLock lock)))) (\<lambda>lockDesc0.
           let lockDesc = lockDesc0\<lparr>d_MediaType := DependencyLockMediaType, d_Annotations := [(titleAnnotation, ''dependency-lock.json'')]\<rparr> in
           bindF (mapErrF StoreFailed (writeBlob sha dk root (cx_gzip cx tarBytes))) (\<lambda>layerDesc0.
           let layer = layerDesc0\<lparr>d_MediaType := OCILayerGzipMediaType, d_Annotations := bundleLayerAnnotations classpathTar\<rparr>;
               cfg = boundConfig cfg0 (d_Digest lockDesc) (d_Digest layer) (digestOf sha tarBytes) in
           case ValidateBundleConfig cfg of Some e \<Rightarrow> failF e
           | None \<Rightarrow>
             bindF (mapErrF StoreFailed (writeBlob sha dk root (MarshalIndent (encodeBundleConfig cfg)))) (\<lambda>cfgDesc.
             mapErrF StoreFailed (tagManifest sha dk root ref
               (MarshalIndent (encodeManifest (bundleManifestOf (cfgDesc\<lparr>d_MediaType := DependencyBundleConfigType\<rparr>) [layer, lockDesc])))
               ociManifestMediaType DependencyBundleArtifactType))))))))"

definition isClasspathLayer :: "Descriptor \<Rightarrow> bool" where
  "isClasspathLayer layer = (d_MediaType layer = OCILayerGzipMediaType \<and> alget (d_Annotations layer) LayerRoleAnnotation = LayerRoleClasspath)"

definition splitBundleLayers :: "Descriptor list \<Rightarrow> Descriptor list \<times> Descriptor list" where
  "splitBundleLayers ls =
     (filter isClasspathLayer ls, filter (\<lambda>l. \<not> isClasspathLayer l \<and> d_MediaType l = DependencyLockMediaType) ls)"

text \<open>The layers of a bundle manifest, once the shape of the manifest is accepted.\<close>

definition bundleParts ::
  "string \<Rightarrow> bundleManifest \<Rightarrow> bundle_error option" where
  "bundleParts ref manifest =
     (if bm_SchemaVersion manifest \<noteq> 2 \<or> bm_MediaType manifest \<noteq> ociManifestMediaType then Some (BadSchema (bm_SchemaVersion manifest))
      else if bm_ArtifactType manifest \<noteq> DependencyBundleArtifactType then Some (NotABundle ref)
      else if d_MediaType (bm_Config manifest) \<noteq> DependencyBundleConfigType then Some (NotABundle ref)
      else None)"

definition gunzipLayer :: "codec \<Rightarrow> bytes \<Rightarrow> bundle_error + bytes" where
  "gunzipLayer cx raw = (case cx_gunzip cx raw of None \<Rightarrow> Inl LayerNotGzip | Some (b, bad) \<Rightarrow> if bad then Inl LayerNotGzip else Inr b)"

definition liftStore :: "store_error + 'a \<Rightarrow> bundle_error + 'a" where
  "liftStore r = (case r of Inl e \<Rightarrow> Inl (StoreFailed e) | Inr a \<Rightarrow> Inr a)"

definition ResolveDependencyBundle ::
  "(bytes \<Rightarrow> string) \<Rightarrow> codec \<Rightarrow> string \<Rightarrow> fsys \<Rightarrow> string \<Rightarrow> bundle_error + ResolvedDependencyBundle" where
  "ResolveDependencyBundle sha cx root fs ref =
     (case DescriptorByRef root fs ref of Inl e \<Rightarrow> Inl (StoreFailed e)
      | Inr subject \<Rightarrow>
     if d_MediaType subject \<noteq> ociManifestMediaType then Inl (NotABundle ref) else
     (case readVerifiedBlob sha (BlobPath root) fs subject of Inl e \<Rightarrow> Inl (StoreFailed e)
      | Inr manifestRaw \<Rightarrow>
     (case decodeStrict decodeBundleManifest manifestRaw of None \<Rightarrow> Inl (BadDocument ''manifest'')
      | Some manifest \<Rightarrow>
     (case bundleParts ref manifest of Some e \<Rightarrow> Inl e
      | None \<Rightarrow>
     (case liftStore (readVerifiedBlob sha (BlobPath root) fs (bm_Config manifest)) of Inl e \<Rightarrow> Inl e
      | Inr cfgRaw \<Rightarrow>
     (case DecodeDependencyBundleConfig cfgRaw of Inl e \<Rightarrow> Inl e
      | Inr cfg \<Rightarrow>
     (case splitBundleLayers (bm_Layers manifest) of (layers, locks) \<Rightarrow>
     if length (bm_Layers manifest) \<noteq> 2 \<or> length layers \<noteq> 1 \<or> length locks \<noteq> 1 then Inl (WrongLayers (length layers) (length locks))
     else if bc_LayerDigest cfg \<noteq> d_Digest (layers ! 0) \<or> bc_LockDigest cfg \<noteq> d_Digest (locks ! 0) then Inl BindingMismatch
     else
     (case liftStore (readVerifiedBlob sha (BlobPath root) fs (locks ! 0)) of Inl e \<Rightarrow> Inl e
      | Inr lockRaw \<Rightarrow>
     (case DecodeDependencyLock lockRaw of Inl e \<Rightarrow> Inl e
      | Inr lock \<Rightarrow>
     (case liftStore (readVerifiedBlob sha (BlobPath root) fs (layers ! 0)) of Inl e \<Rightarrow> Inl e
      | Inr layerRaw \<Rightarrow>
     (case gunzipLayer cx layerRaw of Inl e \<Rightarrow> Inl e
      | Inr layerTar \<Rightarrow>
     if digestOf sha layerTar \<noteq> bc_LayerDiffID cfg then Inl (DiffIDMismatch (digestOf sha layerTar))
     else
     (case validateDependencyTar sha cx layerTar lock of Some e \<Rightarrow> Inl e
      | None \<Rightarrow>
          Inr \<lparr>rd_ManifestDigest = d_Digest subject, rd_Config = cfg, rd_Lock = lock, rd_Layer = layers ! 0\<rparr>))))))))))))"

definition VerifyDependencyLock :: "DependencyLock \<Rightarrow> DependencyLock \<Rightarrow> bundle_error option" where
  "VerifyDependencyLock expected actual = (if sortLock expected \<noteq> sortLock actual then Some LockMismatch else None)"

definition Evidence ::
  "(bytes \<Rightarrow> string) \<Rightarrow> ResolvedDependencyBundle \<Rightarrow> string \<Rightarrow> (store_error, ManagedDependencyEvidence) fsm" where
  "Evidence sha b jarPath =
     bindF (readF StoreIO jarPath) (\<lambda>raw.
     retF \<lparr>ev_SchemaVersion = 1, ev_ThinJar = True, ev_ApplicationJarDigest = digestOf sha raw,
           ev_DependencyBundleDigest = rd_ManifestDigest b, ev_DependencyLayerDigest = d_Digest (rd_Layer b),
           ev_DependencyLockDigest = bc_LockDigest (rd_Config b), ev_SBOMDigest = '''', ev_SourceBOM = bc_SourceBOM (rd_Config b),
           ev_BuilderIdentity = ''''\<rparr>)"

text \<open>The evidence on a manifest: none, malformed, or the record.\<close>

definition manifestEvidence :: "Manifest \<Rightarrow> bundle_error + ManagedDependencyEvidence option" where
  "manifestEvidence m =
     (let raw = alget (m_Annotations m) ManagedDependencyAnnotation in
      if raw = '''' then Inr None
      else
        (case decodeStrict decodeEvidence raw of None \<Rightarrow> Inl (BadDocument ''evidence'')
         | Some e \<Rightarrow> if ev_SchemaVersion e \<noteq> 1 \<or> \<not> ev_ThinJar e then Inl BadEvidence else Inr (Some e)))"

section \<open>What a lock accepts\<close>

text \<open>An archive matches a lock: exactly the locked files, each once, a regular flat JAR with the locked checksum.\<close>

definition tarMatchesLock :: "(bytes \<Rightarrow> string) \<Rightarrow> tar_entry list \<Rightarrow> DependencyLock \<Rightarrow> bool" where
  "tarMatchesLock sha es lock \<longleftrightarrow>
     distinct (map te_Name es) \<and> set (map te_Name es) = set (map le_FileName (lk_Artifacts lock)) \<and>
     (\<forall>e \<in> set es. te_Typeflag e = TypeReg \<and> flatJarName (te_Name e)) \<and>
     (\<forall>e \<in> set es. \<forall>l \<in> set (lk_Artifacts lock). te_Name e = le_FileName l \<longrightarrow> sha (te_Content e) = le_SHA256 l)"

lemma TrimPrefix_digestOf [simp]: "TrimPrefix (digestOf sha b) ''sha256:'' = sha b"
  by (simp add: digestOf_def TrimPrefix_def HasPrefix_def)

lemma checkTarEntries_ok:
  "checkTarEntries sha expected seen es = Inr seen' \<longleftrightarrow>
     seen' = rev (map te_Name es) @ seen \<and> distinct (map te_Name es) \<and> set (map te_Name es) \<inter> set seen = {} \<and>
     (\<forall>e \<in> set es. te_Typeflag e = TypeReg \<and> flatJarName (te_Name e) \<and> expected (te_Name e) = Some (sha (te_Content e)))"
  by (induction es arbitrary: seen) (auto split: option.splits)

lemma expectedFiles_lock:
  assumes "distinct (map le_FileName (lk_Artifacts lock))"
  shows "expectedFiles lock n = Some s \<longleftrightarrow> (\<exists>l \<in> set (lk_Artifacts lock). le_FileName l = n \<and> le_SHA256 l = s)"
  unfolding expectedFiles_def using assms by (subst map_of_eq_Some_iff) (auto simp: rev_map [symmetric] comp_def)

lemma checkEntries_ok:
  "checkEntries i coords files es = None \<Longrightarrow>
     distinct (map le_FileName es) \<and> distinct (map lockCoordinate es) \<and> set (map le_FileName es) \<inter> set files = {} \<and>
     set (map lockCoordinate es) \<inter> set coords = {} \<and>
     (\<forall>e \<in> set es. flatJarName (le_FileName e) \<and> hex64 (le_SHA256 e))"
proof (induction es arbitrary: i coords files)
  case (Cons e es)
  have "checkEntries (i + 1) (lockCoordinate e # coords) (le_FileName e # files) es = None"
      "flatJarName (le_FileName e)" "hex64 (le_SHA256 e)" "lockCoordinate e \<notin> set coords" "le_FileName e \<notin> set files"
    using Cons.prems by (auto split: if_splits simp: hex64_def isLowerHex_def)
  then show ?case using Cons.IH [of "i + 1" "lockCoordinate e # coords" "le_FileName e # files"] by auto
qed simp

lemma ValidateLock_ok:
  assumes "ValidateLock lock = None"
  shows "distinct (map le_FileName (lk_Artifacts lock))" "distinct (map lockCoordinate (lk_Artifacts lock))" "lk_SchemaVersion lock = 1"
    "\<forall>e \<in> set (lk_Artifacts lock). flatJarName (le_FileName e) \<and> hex64 (le_SHA256 e)"
  using assms checkEntries_ok [of 0 "[]" "[]" "lk_Artifacts lock"] by (auto simp: ValidateLock_def split: if_splits)

lemma validateDependencyTar_iff:
  assumes lock: "distinct (map le_FileName (lk_Artifacts lock))"
  shows "validateDependencyTar sha cx raw lock = None \<longleftrightarrow>
    \<not> snd (cx_untar cx raw) \<and> tarMatchesLock sha (fst (cx_untar cx raw)) lock"
proof -
  define es where "es = fst (cx_untar cx raw)"
  let ?names = "map le_FileName (lk_Artifacts lock)"
  have r: "remdups ?names = ?names" using lock by (rule distinct_remdups_id)
  have inj: "l = l'" if "l \<in> set (lk_Artifacts lock)" "l' \<in> set (lk_Artifacts lock)" "le_FileName l = le_FileName l'" for l l'
    using lock that unfolding distinct_map by (meson inj_onD)
  have "(length es = length ?names \<and> distinct (map te_Name es) \<and>
      (\<forall>e \<in> set es. te_Typeflag e = TypeReg \<and> flatJarName (te_Name e) \<and>
         (\<exists>l \<in> set (lk_Artifacts lock). le_FileName l = te_Name e \<and> le_SHA256 l = sha (te_Content e)))) \<longleftrightarrow> tarMatchesLock sha es lock"
    (is "?L \<longleftrightarrow> ?R")
  proof
    assume L: ?L
    then have "set (map te_Name es) \<subseteq> set ?names" by force
    moreover have "card (set (map te_Name es)) = card (set ?names)" using L lock by (metis distinct_card length_map)
    ultimately have "set (map te_Name es) = set ?names" by (simp add: card_subset_eq)
    moreover have "sha (te_Content e) = le_SHA256 l"
      if "e \<in> set es" "l \<in> set (lk_Artifacts lock)" "te_Name e = le_FileName l" for e l
      using L inj that by metis
    ultimately show ?R using L unfolding tarMatchesLock_def by blast
  next
    assume R: ?R
    have "length (map te_Name es) = length ?names" using R lock unfolding tarMatchesLock_def by (metis distinct_card)
    moreover have "\<exists>l \<in> set (lk_Artifacts lock). le_FileName l = te_Name e \<and> le_SHA256 l = sha (te_Content e)" if e: "e \<in> set es" for e
    proof -
      have "te_Name e \<in> set ?names" using R e unfolding tarMatchesLock_def by auto
      then obtain l where "l \<in> set (lk_Artifacts lock)" "le_FileName l = te_Name e" by auto
      then show ?thesis using R e unfolding tarMatchesLock_def by metis
    qed
    ultimately show ?L using R unfolding tarMatchesLock_def by auto
  qed
  note iff = this
  have "validateDependencyTar sha cx raw lock = None \<longleftrightarrow>
      (\<exists>seen. checkTarEntries sha (expectedFiles lock) [] es = Inr seen \<and> \<not> snd (cx_untar cx raw) \<and> length seen = length ?names)"
    unfolding validateDependencyTar_def Let_def r es_def [symmetric] by (auto split: sum.splits)
  also have "\<dots> \<longleftrightarrow> \<not> snd (cx_untar cx raw) \<and> tarMatchesLock sha es lock"
    unfolding checkTarEntries_ok expectedFiles_lock [OF lock] iff [symmetric] by auto
  finally show ?thesis by (simp add: es_def)
qed

lemma liftStore_ok [simp]: "liftStore r = Inr a \<longleftrightarrow> r = Inr a"
  by (auto simp: liftStore_def split: sum.split)

lemma gunzipLayer_ok: "gunzipLayer cx raw = Inr b \<longleftrightarrow> cx_gunzip cx raw = Some (b, False)"
  by (auto simp: gunzipLayer_def split: option.split prod.split)

lemma DecodeDependencyLock_valid: "DecodeDependencyLock raw = Inr lock \<Longrightarrow> ValidateLock lock = None \<and> sortLock lock = lock"
  by (auto simp: DecodeDependencyLock_def Let_def sortLock_def sort_key_id_if_sorted split: option.splits)

lemma splitBundleLayers_classpath: "splitBundleLayers ls = (layers, locks) \<Longrightarrow> length layers = 1 \<Longrightarrow> isClasspathLayer (layers ! 0)"
  by (auto simp: splitBundleLayers_def length_Suc_conv filter_eq_Cons_iff)

lemma ResolveDependencyBundle_elim:
  assumes "ResolveDependencyBundle sha cx root fs ref = Inr rd"
  obtains subject manifestRaw manifest cfgRaw locks layers lockRaw layerRaw layerTar where
    "DescriptorByRef root fs ref = Inr subject" "readVerifiedBlob sha (BlobPath root) fs subject = Inr manifestRaw"
    "decodeStrict decodeBundleManifest manifestRaw = Some manifest" "bundleParts ref manifest = None"
    "readVerifiedBlob sha (BlobPath root) fs (bm_Config manifest) = Inr cfgRaw"
    "DecodeDependencyBundleConfig cfgRaw = Inr (rd_Config rd)"
    "splitBundleLayers (bm_Layers manifest) = (layers, locks)" "length layers = 1" "rd_Layer rd = layers ! 0"
    "bc_LayerDigest (rd_Config rd) = d_Digest (rd_Layer rd)" "bc_LockDigest (rd_Config rd) = d_Digest (locks ! 0)"
    "readVerifiedBlob sha (BlobPath root) fs (locks ! 0) = Inr lockRaw" "DecodeDependencyLock lockRaw = Inr (rd_Lock rd)"
    "readVerifiedBlob sha (BlobPath root) fs (rd_Layer rd) = Inr layerRaw" "cx_gunzip cx layerRaw = Some (layerTar, False)"
    "digestOf sha layerTar = bc_LayerDiffID (rd_Config rd)" "validateDependencyTar sha cx layerTar (rd_Lock rd) = None"
    "rd_ManifestDigest rd = d_Digest subject"
  using assms unfolding ResolveDependencyBundle_def
  by (auto split: sum.splits if_splits option.splits prod.splits simp: gunzipLayer_ok)

lemma resolved_bundle_facts:
  assumes "ResolveDependencyBundle sha cx root fs ref = Inr rd"
  shows "\<exists>subject manifestRaw lockRaw layerRaw layerTar.
    DescriptorByRef root fs ref = Inr subject \<and> rd_ManifestDigest rd = d_Digest subject \<and>
    ReadBlob (BlobPath root) fs (rd_ManifestDigest rd) = Inr manifestRaw \<and> digestOf sha manifestRaw = rd_ManifestDigest rd \<and>
    ValidateBundleConfig (rd_Config rd) = None \<and> ValidateLock (rd_Lock rd) = None \<and>
    digestOf sha lockRaw = bc_LockDigest (rd_Config rd) \<and> DecodeDependencyLock lockRaw = Inr (rd_Lock rd) \<and>
    isClasspathLayer (rd_Layer rd) \<and> d_Digest (rd_Layer rd) = bc_LayerDigest (rd_Config rd) \<and>
    ReadBlob (BlobPath root) fs (d_Digest (rd_Layer rd)) = Inr layerRaw \<and> digestOf sha layerRaw = d_Digest (rd_Layer rd) \<and>
    cx_gunzip cx layerRaw = Some (layerTar, False) \<and> digestOf sha layerTar = bc_LayerDiffID (rd_Config rd) \<and>
    tarMatchesLock sha (fst (cx_untar cx layerTar)) (rd_Lock rd) \<and> \<not> snd (cx_untar cx layerTar)"
proof (rule ResolveDependencyBundle_elim [OF assms])
  fix subject manifestRaw manifest cfgRaw locks layers lockRaw layerRaw layerTar
  assume a: "DescriptorByRef root fs ref = Inr subject" "readVerifiedBlob sha (BlobPath root) fs subject = Inr manifestRaw"
    "DecodeDependencyBundleConfig cfgRaw = Inr (rd_Config rd)"
    "splitBundleLayers (bm_Layers manifest) = (layers, locks)" "length layers = 1" "rd_Layer rd = layers ! 0"
    "bc_LayerDigest (rd_Config rd) = d_Digest (rd_Layer rd)" "bc_LockDigest (rd_Config rd) = d_Digest (locks ! 0)"
    and lockRaw: "readVerifiedBlob sha (BlobPath root) fs (locks ! 0) = Inr lockRaw" and lock: "DecodeDependencyLock lockRaw = Inr (rd_Lock rd)"
    and layerRaw: "readVerifiedBlob sha (BlobPath root) fs (rd_Layer rd) = Inr layerRaw" "cx_gunzip cx layerRaw = Some (layerTar, False)"
    and tar: "digestOf sha layerTar = bc_LayerDiffID (rd_Config rd)" "validateDependencyTar sha cx layerTar (rd_Lock rd) = None"
    and m: "rd_ManifestDigest rd = d_Digest subject"
  have read: "ReadBlob (BlobPath root) fs (d_Digest d) = Inr raw \<and> digestOf sha raw = d_Digest d"
    if "readVerifiedBlob sha (BlobPath root) fs d = Inr raw" for d raw
    using that by (auto simp: readVerifiedBlob_def split: sum.splits if_splits)
  have v: "ValidateLock (rd_Lock rd) = None" using DecodeDependencyLock_valid [OF lock] by simp
  have c: "ValidateBundleConfig (rd_Config rd) = None" using a(3) by (auto simp: DecodeDependencyBundleConfig_def split: option.splits)
  show ?thesis
    using a m lock layerRaw(2) tar v c read [OF a(2)] read [OF lockRaw] read [OF layerRaw(1)] splitBundleLayers_classpath [OF a(4,5)]
      validateDependencyTar_iff [OF ValidateLock_ok(1) [OF v]]
    by metis
qed

text \<open>C20: A dependency bundle that resolves is intact, whatever the layout holds: the manifest, the configuration, the lock
  and the layer are the bytes their digests name, the configuration binds the layer and the lock, the decompressed layer
  has the recorded diff id, and the archive inside holds exactly the locked JARs, each once, flat, and with the
  locked checksum.\<close>

theorem resolved_bundle_is_intact:
  assumes "ResolveDependencyBundle sha cx root fs ref = Inr rd"
  shows "\<exists>subject manifestRaw lockRaw layerRaw layerTar.
    DescriptorByRef root fs ref = Inr subject \<and> rd_ManifestDigest rd = d_Digest subject \<and>
    ReadBlob (BlobPath root) fs (rd_ManifestDigest rd) = Inr manifestRaw \<and> digestOf sha manifestRaw = rd_ManifestDigest rd \<and>
    ValidateBundleConfig (rd_Config rd) = None \<and> ValidateLock (rd_Lock rd) = None \<and>
    digestOf sha lockRaw = bc_LockDigest (rd_Config rd) \<and> DecodeDependencyLock lockRaw = Inr (rd_Lock rd) \<and>
    isClasspathLayer (rd_Layer rd) \<and> d_Digest (rd_Layer rd) = bc_LayerDigest (rd_Config rd) \<and>
    ReadBlob (BlobPath root) fs (d_Digest (rd_Layer rd)) = Inr layerRaw \<and> digestOf sha layerRaw = d_Digest (rd_Layer rd) \<and>
    cx_gunzip cx layerRaw = Some (layerTar, False) \<and> digestOf sha layerTar = bc_LayerDiffID (rd_Config rd) \<and>
    tarMatchesLock sha (fst (cx_untar cx layerTar)) (rd_Lock rd) \<and> \<not> snd (cx_untar cx layerTar)"
  by (rule resolved_bundle_facts [OF assms])

lemma resolved_layer_ok: "ResolveDependencyBundle sha cx root fs ref = Inr rd \<Longrightarrow> descriptor_ok (rd_Layer rd)"
proof (erule ResolveDependencyBundle_elim)
  fix manifestRaw manifest layers locks
  assume d: "decodeStrict decodeBundleManifest manifestRaw = Some manifest"
    and l: "splitBundleLayers (bm_Layers manifest) = (layers, locks)" "length layers = 1" "rd_Layer rd = layers ! 0"
  have "layers ! 0 \<in> set (bm_Layers manifest)" using l(1,2) by (auto simp: splitBundleLayers_def length_Suc_conv filter_eq_Cons_iff)
  moreover obtain j where "asList (decodeDescriptor True) j = Some (bm_Layers manifest)"
    using d by (auto simp: decodeStrict_def decodeBundleManifest_def bind_eq_Some_conv split: if_splits)
  ultimately show "descriptor_ok (rd_Layer rd)" using asList_elem decodeDescriptor_ok l(3) by metis
qed

section \<open>Round trips of the documents\<close>

lemma bundleFoldNames [json_simps]:
  "foldName ''version'' = ''version''" "foldName ''sourceBom'' = ''sourcebom''" "foldName ''lockDigest'' = ''lockdigest''"
  "foldName ''layerDigest'' = ''layerdigest''" "foldName ''layerDiffId'' = ''layerdiffid''" "foldName ''compatibleJdks'' = ''compatiblejdks''"
  "foldName ''groupId'' = ''groupid''" "foldName ''artifactId'' = ''artifactid''" "foldName ''type'' = ''type''"
  "foldName ''classifier'' = ''classifier''" "foldName ''scope'' = ''scope''" "foldName ''fileName'' = ''filename''"
  "foldName ''sha256'' = ''sha256''" "foldName ''artifacts'' = ''artifacts''" "foldName ''thinJar'' = ''thinjar''"
  "foldName ''applicationJarDigest'' = ''applicationjardigest''" "foldName ''dependencyBundleDigest'' = ''dependencybundledigest''"
  "foldName ''dependencyLayerDigest'' = ''dependencylayerdigest''" "foldName ''dependencyLockDigest'' = ''dependencylockdigest''"
  "foldName ''sbomDigest'' = ''sbomdigest''" "foldName ''builderIdentity'' = ''builderidentity''"
  by code_simp+

lemma decode_encode_BundleConfig:
  assumes "in_int64 (bc_SchemaVersion c)" and "list_all in_int64 (bc_CompatibleJDKs c)"
  shows "decodeBundleConfig (encodeBundleConfig c) = Some c"
proof -
  have f: "asList asInt (if bc_CompatibleJDKs c = [] then JNull else JArr (map jint (bc_CompatibleJDKs c))) = Some (bc_CompatibleJDKs c)"
    by (rule asList_omitted) (use assms in \<open>simp add: json_simps list_all_iff\<close>)
  show ?thesis
    using assms(1) f by (simp add: decodeBundleConfig_def encodeBundleConfig_def bundleConfigNames_def json_simps split del: if_split)
qed

lemma decode_encode_LockEntry: "decodeLockEntry (encodeLockEntry e) = Some e"
  by (simp add: decodeLockEntry_def encodeLockEntry_def lockEntryNames_def json_simps split del: if_split)

lemma decode_encode_Lock: "in_int64 (lk_SchemaVersion l) \<Longrightarrow> decodeLock (encodeLock l) = Some l"
proof -
  assume l: "in_int64 (lk_SchemaVersion l)"
  have "asList decodeLockEntry (JArr (map encodeLockEntry (lk_Artifacts l))) = Some (lk_Artifacts l)"
    by (rule asList_JArr) (simp add: decode_encode_LockEntry)
  then show ?thesis using l by (simp add: decodeLock_def encodeLock_def json_simps split del: if_split)
qed

lemma decode_encode_Evidence: "in_int64 (ev_SchemaVersion e) \<Longrightarrow> decodeEvidence (encodeEvidence e) = Some e"
  by (simp add: decodeEvidence_def encodeEvidence_def evidenceNames_def json_simps split del: if_split)

lemma decode_bundleManifestOf:
  assumes "descriptor_ok cd" and "list_all descriptor_ok ls"
  shows "decodeBundleManifest (encodeManifest (bundleManifestOf cd ls)) =
    Some \<lparr>bm_SchemaVersion = 2, bm_MediaType = ociManifestMediaType, bm_ArtifactType = DependencyBundleArtifactType, bm_Config = cd, bm_Layers = ls\<rparr>"
proof -
  have l: "asList (decodeDescriptor True) (JArr (map encodeDescriptor ls)) = Some ls"
    by (rule asList_JArr) (use assms in \<open>simp add: decode_encode_Descriptor list_all_iff\<close>)
  have a: "DependencyBundleArtifactType \<noteq> ''''" by (simp add: oci_names)
  have i: "in_int64 2" by (simp add: in_int64_def min_int64_def max_int64_def)
  have o: "omitPtr ''subject'' encodeDescriptor None = []" "omitMap ''annotations'' [] = []" by (simp_all add: omitPtr_def omitMap_def)
  show ?thesis
    using assms(1) l a i
    by (simp add: o decodeBundleManifest_def encodeManifest_def bundleManifestOf_def decode_encode_Descriptor json_simps split del: if_split)
qed

lemma json_wf_bundle [simp]: "json_wf (encodeBundleConfig c)" "json_wf (encodeLock l)" "json_wf (encodeEvidence e)"
proof -
  have "list_all json_wf (map encodeLockEntry es)" for es by (induction es) (simp_all add: encodeLockEntry_def json_simps)
  then show "json_wf (encodeBundleConfig c)" "json_wf (encodeLock l)" "json_wf (encodeEvidence e)"
    by (simp_all add: encodeBundleConfig_def encodeLock_def encodeEvidence_def json_simps)
qed

section \<open>The effect of publishing a bundle\<close>

definition bundleLayer :: "(bytes \<Rightarrow> string) \<Rightarrow> codec \<Rightarrow> string \<Rightarrow> bytes \<Rightarrow> Descriptor" where
  "bundleLayer sha cx tarPath tarBytes =
     (layerDesc sha OCILayerGzipMediaType '''' (cx_gzip cx tarBytes))\<lparr>d_Annotations := bundleLayerAnnotations tarPath\<rparr>"

definition pushedBundleConfig ::
  "(bytes \<Rightarrow> string) \<Rightarrow> codec \<Rightarrow> DependencyBundleConfig \<Rightarrow> DependencyLock \<Rightarrow> bytes \<Rightarrow> DependencyBundleConfig" where
  "pushedBundleConfig sha cx cfg lock tarBytes =
     boundConfig cfg (digestOf sha (MarshalIndent (encodeLock lock))) (digestOf sha (cx_gzip cx tarBytes)) (digestOf sha tarBytes)"

definition pushedBundleManifest ::
  "(bytes \<Rightarrow> string) \<Rightarrow> codec \<Rightarrow> DependencyBundleConfig \<Rightarrow> DependencyLock \<Rightarrow> string \<Rightarrow> bytes \<Rightarrow> Manifest" where
  "pushedBundleManifest sha cx cfg lock tarPath tarBytes =
     bundleManifestOf
       ((layerDesc sha DependencyBundleConfigType '''' (MarshalIndent (encodeBundleConfig (pushedBundleConfig sha cx cfg lock tarBytes))))
          \<lparr>d_Annotations := []\<rparr>)
       [bundleLayer sha cx tarPath tarBytes,
        layerDesc sha DependencyLockMediaType ''dependency-lock.json'' (MarshalIndent (encodeLock lock))]"

definition bundleBlobs ::
  "(bytes \<Rightarrow> string) \<Rightarrow> codec \<Rightarrow> DependencyBundleConfig \<Rightarrow> DependencyLock \<Rightarrow> string \<Rightarrow> bytes \<Rightarrow> bytes list" where
  "bundleBlobs sha cx cfg lock tarPath tarBytes =
     [MarshalIndent (encodeLock lock), cx_gzip cx tarBytes,
      MarshalIndent (encodeBundleConfig (pushedBundleConfig sha cx cfg lock tarBytes)),
      MarshalIndent (encodeManifest (pushedBundleManifest sha cx cfg lock tarPath tarBytes))]"

lemma PushDependencyBundle_ok:
  assumes run: "PushDependencyBundle sha cx dk root ref cfg lock0 tarPath fs = (Inr desc, fs')" and sha: "\<And>b. plainName (sha b)"
  obtains raw tarBytes where
    "ValidateLock (sortLock lock0) = None" "fileAt fs tarPath = Some raw" "validateDependencyTar sha cx raw (sortLock lock0) = None"
    "canonicalDependencyTar cx raw (sortLock lock0) = Inr tarBytes"
    "ValidateBundleConfig (pushedBundleConfig sha cx cfg (sortLock lock0) tarBytes) = None"
    "desc = manifestDesc sha ociManifestMediaType DependencyBundleArtifactType ref
       (MarshalIndent (encodeManifest (pushedBundleManifest sha cx cfg (sortLock lock0) tarPath tarBytes)))"
    "fs' = tagged sha root (bundleBlobs sha cx cfg (sortLock lock0) tarPath tarBytes) desc fs"
proof -
  define lock where "lock = sortLock lock0"
  define lockB where "lockB = MarshalIndent (encodeLock lock)"
  have v: "ValidateLock lock = None" using run by (auto simp: PushDependencyBundle_def Let_def lock_def fsm_ok split: option.splits)
  obtain raw tarBytes ld fs1 gd fs2 cd fs3 where r:
      "fileAt fs tarPath = Some raw" "validateDependencyTar sha cx raw lock = None" "canonicalDependencyTar cx raw lock = Inr tarBytes"
      "writeBlob sha dk root lockB fs = (Inr ld, fs1)" "writeBlob sha dk root (cx_gzip cx tarBytes) fs1 = (Inr gd, fs2)"
      "ValidateBundleConfig (boundConfig cfg (d_Digest ld) (d_Digest gd) (digestOf sha tarBytes)) = None"
      "writeBlob sha dk root (MarshalIndent (encodeBundleConfig (boundConfig cfg (d_Digest ld) (d_Digest gd) (digestOf sha tarBytes)))) fs2 = (Inr cd, fs3)"
      "tagManifest sha dk root ref (MarshalIndent (encodeManifest (bundleManifestOf (cd\<lparr>d_MediaType := DependencyBundleConfigType\<rparr>)
         [gd\<lparr>d_MediaType := OCILayerGzipMediaType, d_Annotations := bundleLayerAnnotations tarPath\<rparr>,
          ld\<lparr>d_MediaType := DependencyLockMediaType, d_Annotations := [(titleAnnotation, ''dependency-lock.json'')]\<rparr>])))
         ociManifestMediaType DependencyBundleArtifactType fs3 = (Inr desc, fs')"
    using run v unfolding PushDependencyBundle_def Let_def lock_def [symmetric] lockB_def [symmetric]
    by (auto simp: fsm_ok split: option.splits)
  have l: "d_Digest ld = digestOf sha lockB" "fs1 = putBlobs sha root [lockB] fs"
      "ld\<lparr>d_MediaType := DependencyLockMediaType, d_Annotations := [(titleAnnotation, ''dependency-lock.json'')]\<rparr>
        = layerDesc sha DependencyLockMediaType ''dependency-lock.json'' lockB"
    using writeBlob_ok [OF r(4)] by (simp_all add: layerDesc_def emptyDescriptor_def)
  have g: "d_Digest gd = digestOf sha (cx_gzip cx tarBytes)" "fs2 = putBlobs sha root [lockB, cx_gzip cx tarBytes] fs"
      "gd\<lparr>d_MediaType := OCILayerGzipMediaType, d_Annotations := bundleLayerAnnotations tarPath\<rparr> = bundleLayer sha cx tarPath tarBytes"
    using writeBlob_ok [OF r(5)] l(2) by (simp_all add: bundleLayer_def layerDesc_def emptyDescriptor_def)
  have b: "boundConfig cfg (d_Digest ld) (d_Digest gd) (digestOf sha tarBytes) = pushedBundleConfig sha cx cfg lock tarBytes"
    by (simp add: pushedBundleConfig_def l(1) g(1) lockB_def)
  let ?cb = "MarshalIndent (encodeBundleConfig (pushedBundleConfig sha cx cfg lock tarBytes))"
  have c: "fs3 = putBlobs sha root [lockB, cx_gzip cx tarBytes, ?cb] fs"
      "cd\<lparr>d_MediaType := DependencyBundleConfigType\<rparr> = (layerDesc sha DependencyBundleConfigType '''' ?cb)\<lparr>d_Annotations := []\<rparr>"
    using writeBlob_ok [OF r(7)] g(2) b by (simp_all add: layerDesc_def emptyDescriptor_def)
  have m: "bundleManifestOf (cd\<lparr>d_MediaType := DependencyBundleConfigType\<rparr>)
         [gd\<lparr>d_MediaType := OCILayerGzipMediaType, d_Annotations := bundleLayerAnnotations tarPath\<rparr>,
          ld\<lparr>d_MediaType := DependencyLockMediaType, d_Annotations := [(titleAnnotation, ''dependency-lock.json'')]\<rparr>]
      = pushedBundleManifest sha cx cfg lock tarPath tarBytes"
    by (simp only: pushedBundleManifest_def c(2) g(3) l(3) lockB_def)
  show thesis
    by (rule that [of raw tarBytes])
      (use v r(1-3,6) b tagManifest_ok [OF r(8) [unfolded m c(1)] sha] in \<open>simp_all add: lock_def bundleBlobs_def lockB_def\<close>)
qed

section \<open>Round trip of a bundle\<close>

lemma tarContents_entry: "distinct (map te_Name es) \<Longrightarrow> e \<in> set es \<Longrightarrow> tarContents es (te_Name e) = te_Content e"
  unfolding tarContents_def by (subst map_of_is_SomeI) (auto simp: rev_map [symmetric] comp_def)

definition canonicalFiles :: "tar_entry list \<Rightarrow> DependencyLock \<Rightarrow> (string \<times> bytes) list" where
  "canonicalFiles es lock = map (\<lambda>e. (le_FileName e, tarContents es (le_FileName e))) (sort_key le_FileName (lk_Artifacts lock))"

lemma canonical_ok:
  "canonicalDependencyTar cx raw lock = Inr b \<Longrightarrow> codec_ok cx \<Longrightarrow>
     cx_untar cx b = (map regEntry (canonicalFiles (fst (cx_untar cx raw)) lock), False)"
  by (auto simp: canonicalDependencyTar_def codec_ok_def canonicalFiles_def split: if_splits option.splits)

lemma canonical_matches:
  assumes v: "ValidateLock lock = None" and m: "tarMatchesLock sha es lock"
  shows "tarMatchesLock sha (map regEntry (canonicalFiles es lock)) lock"
proof -
  note lk = ValidateLock_ok [OF v]
  have n: "map te_Name (map regEntry (canonicalFiles es lock)) = map le_FileName (sort_key le_FileName (lk_Artifacts lock))"
    by (simp add: canonicalFiles_def regEntry_def)
  have d: "distinct (map le_FileName (sort_key le_FileName (lk_Artifacts lock)))"
    using lk(1) by (simp add: distinct_map)
  have c: "sha (tarContents es (le_FileName l)) = le_SHA256 l" if l: "l \<in> set (lk_Artifacts lock)" for l
  proof -
    have "le_FileName l \<in> set (map te_Name es)" using m l unfolding tarMatchesLock_def by auto
    then obtain e where e: "e \<in> set es" "te_Name e = le_FileName l" by auto
    then have "tarContents es (le_FileName l) = te_Content e" using tarContents_entry m unfolding tarMatchesLock_def by metis
    then show ?thesis using m e l unfolding tarMatchesLock_def by metis
  qed
  show ?thesis
    unfolding tarMatchesLock_def n
  proof (intro conjI ballI impI)
    show "distinct (map le_FileName (sort_key le_FileName (lk_Artifacts lock)))" by (rule d)
    show "set (map le_FileName (sort_key le_FileName (lk_Artifacts lock))) = set (map le_FileName (lk_Artifacts lock))" by simp
  next
    fix e assume "e \<in> set (map regEntry (canonicalFiles es lock))"
    then obtain l0 where e: "e = regEntry (le_FileName l0, tarContents es (le_FileName l0))" and l0: "l0 \<in> set (lk_Artifacts lock)"
      by (auto simp: canonicalFiles_def)
    show "te_Typeflag e = TypeReg" "flatJarName (te_Name e)" using lk(4) l0 by (simp_all add: e regEntry_def)
    show "sha (te_Content e) = le_SHA256 l" if "l \<in> set (lk_Artifacts lock)" "te_Name e = le_FileName l" for l
      using c [OF that(1)] that(2) by (simp add: e regEntry_def)
  qed
qed

lemma DecodeDependencyLock_print:
  assumes "ValidateLock lock = None" and "sortLock lock = lock"
  shows "DecodeDependencyLock (MarshalIndent (encodeLock lock)) = Inr lock"
proof -
  have "in_int64 (lk_SchemaVersion lock)" using ValidateLock_ok(3) [OF assms(1)] by (simp add: in_int64_def min_int64_def max_int64_def)
  then show ?thesis
    using assms by (simp add: DecodeDependencyLock_def decodeStrict_def parse_MarshalIndent decode_encode_Lock)
qed

lemma DecodeDependencyBundleConfig_print:
  assumes "ValidateBundleConfig c = None" and "list_all in_int64 (bc_CompatibleJDKs c)"
  shows "DecodeDependencyBundleConfig (MarshalIndent (encodeBundleConfig c)) = Inr c"
proof -
  have "bc_SchemaVersion c = 1" using assms(1) by (simp add: ValidateBundleConfig_def split: if_splits)
  then have "in_int64 (bc_SchemaVersion c)" by (simp add: in_int64_def min_int64_def max_int64_def)
  then show ?thesis
    using assms by (simp add: DecodeDependencyBundleConfig_def decodeStrict_def parse_MarshalIndent decode_encode_BundleConfig)
qed

lemma sortLock_idem [simp]: "sortLock (sortLock l) = sortLock l"
  by (simp add: sortLock_def sort_key_id_if_sorted)

lemma bundleLayer_ok:
  "smallFile (cx_gzip cx b) \<Longrightarrow> descriptor_ok (bundleLayer sha cx p b)" "isClasspathLayer (bundleLayer sha cx p b)"
  "d_Digest (bundleLayer sha cx p b) = digestOf sha (cx_gzip cx b)"
  by (simp_all add: bundleLayer_def descriptor_ok_def layerDesc_def smallFile_def in_int64_def min_int64_def bundleLayerAnnotations_def
      canonical_def oci_names isClasspathLayer_def alget_def mget_def)

lemma readVerified_stored:
  "stored sha root fs b \<Longrightarrow> d_Digest d = digestOf sha b \<Longrightarrow> d_Size d = int (length b) \<Longrightarrow> readVerifiedBlob sha (BlobPath root) fs d = Inr b"
  using blob_reads(1) [of sha root fs b] by (simp add: readVerifiedBlob_def)

lemma digest_sizes [simp]:
  "d_Size (layerDesc sha mt t b) = int (length b)" "d_Size (bundleLayer sha cx p r) = int (length (cx_gzip cx r))"
  "d_Size (manifestDesc sha mt at ref b) = int (length b)" "d_MediaType (manifestDesc sha mt at ref b) = mt"
  "d_MediaType (layerDesc sha mt t b) = mt"
  by (simp_all add: layerDesc_def bundleLayer_def manifestDesc_def)

lemma pushedBundleManifest_decodes:
  assumes "list_all smallFile (bundleBlobs sha cx cfg lock tarPath tarBytes)"
  shows "decodeStrict decodeBundleManifest (MarshalIndent (encodeManifest (pushedBundleManifest sha cx cfg lock tarPath tarBytes))) =
    Some \<lparr>bm_SchemaVersion = 2, bm_MediaType = ociManifestMediaType, bm_ArtifactType = DependencyBundleArtifactType,
      bm_Config = (layerDesc sha DependencyBundleConfigType '''' (MarshalIndent (encodeBundleConfig (pushedBundleConfig sha cx cfg lock tarBytes))))
          \<lparr>d_Annotations := []\<rparr>,
      bm_Layers = [bundleLayer sha cx tarPath tarBytes,
        layerDesc sha DependencyLockMediaType ''dependency-lock.json'' (MarshalIndent (encodeLock lock))]\<rparr>"
proof -
  have "descriptor_ok ((layerDesc sha mt '''' c)\<lparr>d_Annotations := []\<rparr>)" if "smallFile c" for mt c
    using that by (simp add: descriptor_ok_def layerDesc_def smallFile_def in_int64_def min_int64_def)
  then show ?thesis
    using assms by (simp add: decodeStrict_def parse_MarshalIndent pushedBundleManifest_def decode_bundleManifestOf bundleBlobs_def bundleLayer_ok)
qed

lemma split_pushed_layers:
  "splitBundleLayers [bundleLayer sha cx p b, layerDesc sha DependencyLockMediaType t l] =
     ([bundleLayer sha cx p b], [layerDesc sha DependencyLockMediaType t l])"
proof -
  have "\<not> isClasspathLayer (layerDesc sha DependencyLockMediaType t l)" by (simp add: isClasspathLayer_def oci_names)
  then show ?thesis by (simp add: splitBundleLayers_def bundleLayer_ok)
qed

lemma pushed_bundle_exact:
  assumes sha: "\<And>b. hex64 (sha b)" and cx: "codec_ok cx"
    and raw: "fileAt fs tarPath = Some raw" "canonicalDependencyTar cx raw (sortLock lock) = Inr tarBytes"
    and inj: "inj_on sha (set (bundleBlobs sha cx cfg (sortLock lock) tarPath tarBytes))"
    and small: "list_all smallFile (bundleBlobs sha cx cfg (sortLock lock) tarPath tarBytes)"
    and jdks: "list_all in_int64 (bc_CompatibleJDKs cfg)"
    and run: "PushDependencyBundle sha cx dk root ref cfg lock tarPath fs = (Inr desc, fs')"
  shows "ResolveDependencyBundle sha cx root fs' ref =
    Inr \<lparr>rd_ManifestDigest = d_Digest desc, rd_Config = pushedBundleConfig sha cx cfg (sortLock lock) tarBytes, rd_Lock = sortLock lock,
         rd_Layer = bundleLayer sha cx tarPath tarBytes\<rparr>"
proof -
  let ?l = "sortLock lock" and ?c = "pushedBundleConfig sha cx cfg (sortLock lock) tarBytes"
  have plain: "\<And>b. plainName (sha b)" using hex64_plain sha by blast
  have eff: "ValidateLock ?l = None" "validateDependencyTar sha cx raw ?l = None" "ValidateBundleConfig ?c = None"
      "desc = manifestDesc sha ociManifestMediaType DependencyBundleArtifactType ref
         (MarshalIndent (encodeManifest (pushedBundleManifest sha cx cfg ?l tarPath tarBytes)))"
      "fs' = tagged sha root (bundleBlobs sha cx cfg ?l tarPath tarBytes) desc fs"
    using raw by (auto intro: PushDependencyBundle_ok [OF run plain])
  have st: "list_all (stored sha root fs') (bundleBlobs sha cx cfg ?l tarPath tarBytes)"
    using tagged_blob [OF plain _ inj] by (simp add: eff(5) list_all_iff)
  have d: "descriptor_ok desc" "refOf desc = ref" using small by (simp_all add: eff(4) bundleBlobs_def)
  have by_ref: "DescriptorByRef root fs' ref = Inr desc"
    using tagged_index [OF d(1)] find_tagged [OF d(2)] by (simp add: DescriptorByRef_def readIndex_def eff(5))
  have "tarMatchesLock sha (fst (cx_untar cx raw)) ?l" using eff(2) validateDependencyTar_iff [OF ValidateLock_ok(1) [OF eff(1)]] by blast
  then have tar: "validateDependencyTar sha cx tarBytes ?l = None"
    using canonical_matches [OF eff(1)] canonical_ok [OF raw(2) cx] validateDependencyTar_iff [OF ValidateLock_ok(1) [OF eff(1)]] by simp
  have gz: "gunzipLayer cx (cx_gzip cx tarBytes) = Inr tarBytes" using cx by (simp add: gunzipLayer_ok codec_ok_def)
  have j: "list_all in_int64 (bc_CompatibleJDKs ?c)" using jdks by (simp add: pushedBundleConfig_def boundConfig_def list_all_iff)
  have rv: "readVerifiedBlob sha (BlobPath root) fs' (layerDesc sha mt t b\<lparr>d_Annotations := a\<rparr>) = Inr b"
      "readVerifiedBlob sha (BlobPath root) fs' (layerDesc sha mt t b) = Inr b"
      "readVerifiedBlob sha (BlobPath root) fs' (manifestDesc sha mt at ref b) = Inr b"
    if "stored sha root fs' b" for mt at t a b
    by (rule readVerified_stored [OF that]; simp add: layerDesc_def)+
  have rg: "readVerifiedBlob sha (BlobPath root) fs' (bundleLayer sha cx tarPath tarBytes) = Inr (cx_gzip cx tarBytes)"
    by (rule readVerified_stored) (use st in \<open>simp_all add: bundleBlobs_def bundleLayer_ok\<close>)
  have cd: "bc_LayerDigest ?c = digestOf sha (cx_gzip cx tarBytes)" "bc_LockDigest ?c = digestOf sha (MarshalIndent (encodeLock ?l))"
      "bc_LayerDiffID ?c = digestOf sha tarBytes"
    by (simp_all add: pushedBundleConfig_def boundConfig_def)
  show ?thesis
    using st pushedBundleManifest_decodes [OF small] DecodeDependencyBundleConfig_print [OF eff(3) j] DecodeDependencyLock_print [OF eff(1)]
    by (simp add: ResolveDependencyBundle_def by_ref bundleBlobs_def eff(4) rv rg bundleParts_def split_pushed_layers bundleLayer_ok cd gz tar liftStore_def)
qed

lemma pushed_bundle_resolves:
  assumes sha: "\<And>b. hex64 (sha b)" and cx: "codec_ok cx"
    and raw: "fileAt fs tarPath = Some raw" "canonicalDependencyTar cx raw (sortLock lock) = Inr tarBytes"
    and inj: "inj_on sha (set (bundleBlobs sha cx cfg (sortLock lock) tarPath tarBytes))"
    and small: "list_all smallFile (bundleBlobs sha cx cfg (sortLock lock) tarPath tarBytes)"
    and jdks: "list_all in_int64 (bc_CompatibleJDKs cfg)"
    and run: "PushDependencyBundle sha cx dk root ref cfg lock tarPath fs = (Inr desc, fs')"
  shows "\<exists>rd. ResolveDependencyBundle sha cx root fs' ref = Inr rd \<and> rd_ManifestDigest rd = d_Digest desc \<and>
    rd_Config rd = boundConfig cfg (digestOf sha (MarshalIndent (encodeLock (sortLock lock)))) (digestOf sha (cx_gzip cx tarBytes)) (digestOf sha tarBytes) \<and>
    rd_Lock rd = sortLock lock \<and> VerifyDependencyLock lock (rd_Lock rd) = None \<and>
    d_Digest (rd_Layer rd) = digestOf sha (cx_gzip cx tarBytes)"
  using pushed_bundle_exact [OF sha cx raw inj small jdks run] by (simp add: bundleLayer_ok pushedBundleConfig_def VerifyDependencyLock_def)

text \<open>C21: Publishing a dependency bundle and resolving it gives back what was published: the configuration with the digests
  of the layer and of the lock bound into it, the lock in canonical order (which the lock of the publisher
  verifies against), and the layer that was written; all the checks of the resolver pass.\<close>

theorem push_bundle_then_resolve:
  assumes sha: "\<And>b. hex64 (sha b)" and cx: "codec_ok cx"
    and raw: "fileAt fs tarPath = Some raw" "canonicalDependencyTar cx raw (sortLock lock) = Inr tarBytes"
    and inj: "inj_on sha (set (bundleBlobs sha cx cfg (sortLock lock) tarPath tarBytes))"
    and small: "list_all smallFile (bundleBlobs sha cx cfg (sortLock lock) tarPath tarBytes)"
    and jdks: "list_all in_int64 (bc_CompatibleJDKs cfg)"
    and run: "PushDependencyBundle sha cx dk root ref cfg lock tarPath fs = (Inr desc, fs')"
  shows "\<exists>rd. ResolveDependencyBundle sha cx root fs' ref = Inr rd \<and> rd_ManifestDigest rd = d_Digest desc \<and>
    rd_Config rd = boundConfig cfg (digestOf sha (MarshalIndent (encodeLock (sortLock lock)))) (digestOf sha (cx_gzip cx tarBytes)) (digestOf sha tarBytes) \<and>
    rd_Lock rd = sortLock lock \<and> VerifyDependencyLock lock (rd_Lock rd) = None \<and>
    d_Digest (rd_Layer rd) = digestOf sha (cx_gzip cx tarBytes)"
  by (rule pushed_bundle_resolves [OF sha cx raw inj small jdks run])

text \<open>A codec that satisfies the laws: one marker byte for compression, a JSON array for an archive.\<close>

definition jsonTar :: "(string \<times> bytes) list \<Rightarrow> bytes option" where
  "jsonTar files = Some (Marshal (JArr (map (\<lambda>(n, c). JArr [JStr n, JStr c]) files)))"

fun jsonTarEntry :: "json \<Rightarrow> tar_entry" where
  "jsonTarEntry (JArr [JStr n, JStr c]) = regEntry (n, c)"
| "jsonTarEntry j = \<lparr>te_Name = '''', te_Typeflag = TypeOther, te_Content = ''''\<rparr>"

definition jsonCodec :: codec where
  "jsonCodec = \<lparr>cx_gzip = (\<lambda>b. CHR ''z'' # b),
     cx_gunzip = (\<lambda>b. case b of c # r \<Rightarrow> if c = CHR ''z'' then Some (r, False) else None | [] \<Rightarrow> None),
     cx_tar = jsonTar, cx_ustar = jsonTar,
     cx_untar = (\<lambda>b. case parseJson b of Some (JArr xs) \<Rightarrow> (map jsonTarEntry xs, False) | _ \<Rightarrow> ([], True))\<rparr>"

lemma jsonCodec_ok: "codec_ok jsonCodec"
proof -
  have wf: "json_wf (JArr (map (\<lambda>(n, c). JArr [JStr n, JStr c]) files))" for files by (induction files) auto
  have "cx_untar jsonCodec b = (map regEntry files, False)" if "jsonTar files = Some b" for files b
  proof -
    have b: "b = Marshal (JArr (map (\<lambda>(n, c). JArr [JStr n, JStr c]) files))" using that by (simp add: jsonTar_def)
    have "map jsonTarEntry (map (\<lambda>(n, c). JArr [JStr n, JStr c]) files) = map regEntry files" by (induction files) auto
    then show ?thesis using parse_Marshal [OF wf, of files] unfolding b jsonCodec_def by simp
  qed
  then show ?thesis unfolding codec_ok_def by (simp add: jsonCodec_def)
qed

definition demoEntry :: "string \<Rightarrow> string \<Rightarrow> DependencyLockEntry" where
  "demoEntry name content = \<lparr>le_GroupID = ''org'', le_ArtifactID = name, le_Version = ''1'', le_Type = ''jar'', le_Classifier = [], le_Scope = ''runtime'',
     le_FileName = name @ ''.jar'', le_SHA256 = countSha content\<rparr>"

definition demoLock :: DependencyLock where
  "demoLock = \<lparr>lk_SchemaVersion = 1, lk_Artifacts = [demoEntry ''a'' ''AB'', demoEntry ''b'' ''C'']\<rparr>"

definition reversedLock :: DependencyLock where
  "reversedLock = \<lparr>lk_SchemaVersion = 1, lk_Artifacts = [demoEntry ''b'' ''C'', demoEntry ''a'' ''AB'']\<rparr>"

definition demoBundle :: DependencyBundleConfig where
  "demoBundle = \<lparr>bc_SchemaVersion = 0, bc_Name = ''platform'', bc_Version = ''1'', bc_SourceBOM = ''org:bom:1'', bc_LockDigest = '''',
     bc_LayerDigest = '''', bc_LayerDiffID = '''', bc_CompatibleJDKs = [21, 17]\<rparr>"

definition demoTar :: bytes where
  "demoTar = Marshal (JArr [JArr [JStr ''a.jar'', JStr ''AB''], JArr [JStr ''b.jar'', JStr ''C'']])"

definition reversedTar :: bytes where
  "reversedTar = Marshal (JArr [JArr [JStr ''b.jar'', JStr ''C''], JArr [JStr ''a.jar'', JStr ''AB'']])"

definition depsOnly :: fsys where
  "depsOnly = [''/in/deps.tar'' \<mapsto> demoTar, ''/tmp/deps.tar'' \<mapsto> reversedTar, ''/in/app.jar'' \<mapsto> ''PK'']"

lemma demo_push:
  "\<not> isl (fst (PushDependencyBundle countSha jsonCodec workingDisk ''/store'' ''deps:1'' demoBundle demoLock ''/in/deps.tar'' depsOnly))"
  by code_simp

lemma demo_lengths:
  "map length (bundleBlobs countSha jsonCodec demoBundle (sortLock demoLock) ''/in/deps.tar'' demoTar) = [527, 31, 409, 969]"
  by code_simp

lemma demo_canonical: "canonicalDependencyTar jsonCodec demoTar (sortLock demoLock) = Inr demoTar"
  by code_simp

lemma demo_blobs:
  "inj_on countSha (set (bundleBlobs countSha jsonCodec demoBundle (sortLock demoLock) ''/in/deps.tar'' demoTar))"
  "list_all smallFile (bundleBlobs countSha jsonCodec demoBundle (sortLock demoLock) ''/in/deps.tar'' demoTar)"
  by (rule countSha_lengths [OF demo_lengths]; simp)+

lemma not_isl_pair: "\<not> isl (fst p) \<Longrightarrow> \<exists>a s. p = (Inr a, s)"
  by (cases p; cases "fst p") auto

lemma demo_run:
  obtains desc fs' where
    "PushDependencyBundle countSha jsonCodec workingDisk ''/store'' ''deps:1'' demoBundle demoLock ''/in/deps.tar'' depsOnly = (Inr desc, fs')"
  using not_isl_pair [OF demo_push] by blast

lemma demo_inputs:
  "fileAt depsOnly ''/in/deps.tar'' = Some demoTar" "list_all in_int64 (bc_CompatibleJDKs demoBundle)"
  by code_simp+

theorem push_bundle_then_resolve_witness:
  "\<exists>desc fs' rd. PushDependencyBundle countSha jsonCodec workingDisk ''/store'' ''deps:1'' demoBundle demoLock ''/in/deps.tar'' depsOnly = (Inr desc, fs') \<and>
     ResolveDependencyBundle countSha jsonCodec ''/store'' fs' ''deps:1'' = Inr rd \<and> rd_ManifestDigest rd = d_Digest desc \<and>
     rd_Lock rd = sortLock demoLock \<and> bc_CompatibleJDKs (rd_Config rd) = [17, 21]"
proof (rule demo_run)
  fix desc fs'
  assume run: "PushDependencyBundle countSha jsonCodec workingDisk ''/store'' ''deps:1'' demoBundle demoLock ''/in/deps.tar'' depsOnly = (Inr desc, fs')"
  have s: "bc_CompatibleJDKs (boundConfig demoBundle a b c) = [17, 21]" for a b c by (simp add: boundConfig_def demoBundle_def)
  obtain rd where "ResolveDependencyBundle countSha jsonCodec ''/store'' fs' ''deps:1'' = Inr rd" "rd_ManifestDigest rd = d_Digest desc"
      "rd_Lock rd = sortLock demoLock" "bc_CompatibleJDKs (rd_Config rd) = [17, 21]"
    using push_bundle_then_resolve [OF countSha_hex jsonCodec_ok demo_inputs(1) demo_canonical demo_blobs demo_inputs(2) run] s by auto
  then show ?thesis using run by blast
qed

text \<open>The bundle just published, checked by the resolver.\<close>

theorem resolved_bundle_is_intact_witness:
  "\<exists>fs' rd layerTar. ResolveDependencyBundle countSha jsonCodec ''/store'' fs' ''deps:1'' = Inr rd \<and>
     digestOf countSha layerTar = bc_LayerDiffID (rd_Config rd) \<and> tarMatchesLock countSha (fst (cx_untar jsonCodec layerTar)) (rd_Lock rd)"
proof (rule demo_run)
  fix desc fs'
  assume run: "PushDependencyBundle countSha jsonCodec workingDisk ''/store'' ''deps:1'' demoBundle demoLock ''/in/deps.tar'' depsOnly = (Inr desc, fs')"
  obtain rd where rd: "ResolveDependencyBundle countSha jsonCodec ''/store'' fs' ''deps:1'' = Inr rd"
    using pushed_bundle_resolves [OF countSha_hex jsonCodec_ok demo_inputs(1) demo_canonical demo_blobs demo_inputs(2) run] by blast
  show ?thesis using rd resolved_bundle_is_intact [OF rd] by blast
qed

section \<open>Order does not matter\<close>

lemma sortLock_perm:
  assumes "lk_SchemaVersion l = lk_SchemaVersion l'" and m: "mset (lk_Artifacts l) = mset (lk_Artifacts l')"
    and d: "distinct (map lockCoordinate (lk_Artifacts l))"
  shows "sortLock l = sortLock l'"
proof -
  have "sort_key lockCoordinate (lk_Artifacts l) = sort_key lockCoordinate (lk_Artifacts l')"
    by (rule sort_key_inj_key_eq) (use m d in \<open>simp_all add: distinct_map\<close>)
  then show ?thesis using assms(1) by (simp add: sortLock_def)
qed

text \<open>The comparison of dependency locks is exact up to the order of the entries: a lock with distinct coordinates verifies
  against another one exactly when both have the same schema version and the same entries, as multisets.\<close>

lemma VerifyDependencyLock_iff:
  assumes "distinct (map lockCoordinate (lk_Artifacts expected))"
  shows "VerifyDependencyLock expected actual = None \<longleftrightarrow>
    lk_SchemaVersion expected = lk_SchemaVersion actual \<and> mset (lk_Artifacts expected) = mset (lk_Artifacts actual)"
proof
  assume "VerifyDependencyLock expected actual = None"
  then have s: "sortLock expected = sortLock actual" by (simp add: VerifyDependencyLock_def split: if_splits)
  have "mset (lk_Artifacts (sortLock l)) = mset (lk_Artifacts l)" "lk_SchemaVersion (sortLock l) = lk_SchemaVersion l" for l
    by (simp_all add: sortLock_def)
  then show "lk_SchemaVersion expected = lk_SchemaVersion actual \<and> mset (lk_Artifacts expected) = mset (lk_Artifacts actual)"
    using s by metis
qed (use sortLock_perm assms in \<open>auto simp: VerifyDependencyLock_def\<close>)

theorem VerifyDependencyLock_iff_witness: "VerifyDependencyLock demoLock reversedLock = None"
proof -
  have d: "distinct (map lockCoordinate (lk_Artifacts demoLock))" by code_simp
  show ?thesis by (subst VerifyDependencyLock_iff [OF d]) (simp add: demoLock_def reversedLock_def)
qed

lemma tarContents_perm:
  assumes d: "distinct (map te_Name es)" and m: "mset es = mset es'"
  shows "tarContents es = tarContents es'"
proof
  fix n
  have set: "set es = set es'" using m by (metis set_mset_mset)
  have d': "distinct (map te_Name es')" using d m by (metis mset_eq_imp_distinct_iff mset_map)
  show "tarContents es n = tarContents es' n"
  proof (cases "n \<in> te_Name ` set es")
    case True
    then obtain e where "e \<in> set es" "te_Name e = n" by auto
    then show ?thesis using tarContents_entry [OF d] tarContents_entry [OF d'] set by metis
  next
    case False
    then have "tarContents xs n = ''''" if "set xs = set es" for xs
      using that unfolding tarContents_def by (auto simp: map_of_eq_None_iff image_image split: option.split dest!: map_of_SomeD)
    then show ?thesis using set by metis
  qed
qed

text \<open>Publishing is reproducible: two bundles built from the same configuration, from locks with the same entries in any
  order and from archives with the same entries in any order get the same descriptor, digest included, on any two
  disks and layouts.\<close>

lemma bundle_is_reproducible:
  assumes sha: "\<And>b. hex64 (sha b)"
    and lock: "lk_SchemaVersion lock = lk_SchemaVersion lock'" "mset (lk_Artifacts lock) = mset (lk_Artifacts lock')"
    and tar: "fileAt fs p = Some raw" "fileAt gs p' = Some raw'" "Base p = Base p'"
      "mset (fst (cx_untar cx raw)) = mset (fst (cx_untar cx raw'))"
    and run: "PushDependencyBundle sha cx dk root ref cfg lock p fs = (Inr desc, fs')"
    and run': "PushDependencyBundle sha cx dk' root' ref cfg lock' p' gs = (Inr desc', gs')"
  shows "desc = desc'"
proof -
  have plain: "\<And>b. plainName (sha b)" using hex64_plain sha by blast
  obtain t where t: "ValidateLock (sortLock lock) = None" "validateDependencyTar sha cx raw (sortLock lock) = None"
      "canonicalDependencyTar cx raw (sortLock lock) = Inr t"
      "desc = manifestDesc sha ociManifestMediaType DependencyBundleArtifactType ref (MarshalIndent (encodeManifest (pushedBundleManifest sha cx cfg (sortLock lock) p t)))"
    using tar(1) by (auto intro: PushDependencyBundle_ok [OF run plain])
  obtain t' where t': "canonicalDependencyTar cx raw' (sortLock lock') = Inr t'"
      "desc' = manifestDesc sha ociManifestMediaType DependencyBundleArtifactType ref (MarshalIndent (encodeManifest (pushedBundleManifest sha cx cfg (sortLock lock') p' t')))"
    using tar(2) by (auto intro: PushDependencyBundle_ok [OF run' plain])
  note lk = ValidateLock_ok [OF t(1)]
  have "distinct (map lockCoordinate (lk_Artifacts lock))" using lk(2) by (simp add: sortLock_def distinct_map)
  then have l: "sortLock lock' = sortLock lock" using sortLock_perm [OF lock] by simp
  have "distinct (map te_Name (fst (cx_untar cx raw)))" using t(2) validateDependencyTar_iff [OF lk(1)] unfolding tarMatchesLock_def by blast
  then have "tarContents (fst (cx_untar cx raw')) = tarContents (fst (cx_untar cx raw))" using tarContents_perm tar(4) by metis
  then have "t' = t" using t(3) t'(1) l by (auto simp: canonicalDependencyTar_def split: if_splits option.splits)
  then show ?thesis
    using t(4) t'(2) l tar(3) by (simp add: pushedBundleManifest_def bundleLayer_def bundleLayerAnnotations_def)
qed

lemma reversed_push:
  "\<not> isl (fst (PushDependencyBundle countSha jsonCodec workingDisk ''/other'' ''deps:1'' demoBundle reversedLock ''/tmp/deps.tar'' depsOnly))"
  by code_simp

lemma reversed_inputs:
  "fileAt depsOnly ''/tmp/deps.tar'' = Some reversedTar" "Base ''/in/deps.tar'' = Base ''/tmp/deps.tar''"
  "fst (cx_untar jsonCodec reversedTar) = rev (fst (cx_untar jsonCodec demoTar))"
  by code_simp+

theorem bundle_is_reproducible_witness:
  "\<exists>desc fs' gs'. PushDependencyBundle countSha jsonCodec workingDisk ''/store'' ''deps:1'' demoBundle demoLock ''/in/deps.tar'' depsOnly = (Inr desc, fs') \<and>
     PushDependencyBundle countSha jsonCodec workingDisk ''/other'' ''deps:1'' demoBundle reversedLock ''/tmp/deps.tar'' depsOnly = (Inr desc, gs')"
proof (rule demo_run)
  fix desc fs'
  assume run: "PushDependencyBundle countSha jsonCodec workingDisk ''/store'' ''deps:1'' demoBundle demoLock ''/in/deps.tar'' depsOnly = (Inr desc, fs')"
  obtain desc' gs' where run':
      "PushDependencyBundle countSha jsonCodec workingDisk ''/other'' ''deps:1'' demoBundle reversedLock ''/tmp/deps.tar'' depsOnly = (Inr desc', gs')"
    using not_isl_pair [OF reversed_push] by blast
  have l: "lk_SchemaVersion demoLock = lk_SchemaVersion reversedLock" "mset (lk_Artifacts demoLock) = mset (lk_Artifacts reversedLock)"
    by (simp_all add: demoLock_def reversedLock_def)
  have m: "mset (fst (cx_untar jsonCodec demoTar)) = mset (fst (cx_untar jsonCodec reversedTar))" by (simp add: reversed_inputs(3))
  have "desc = desc'"
    by (rule bundle_is_reproducible [OF countSha_hex l demo_inputs(1) reversed_inputs(1,2) m run run'])
  then show ?thesis using run run' by blast
qed

end
