(* ===== verification/Runnable_Image.thy ===== *)
theory Runnable_Image
  imports Dependency_Bundle
begin

text \<open>
  Runnable OCI images (\<open>src/core/internal/artifact/image.go\<close>, \<open>blobs.go\<close>): publishing an application as a standard
  multi-platform image whose launch configuration rides in a manifest annotation, with or without a managed dependency
  layer, and resolving such an image by unpacking its layers into a staging tree; \<open>ResolveBlobs\<close>, which takes either
  format. The main results are that an image resolves to the files that were published on every architecture, and that
  both formats of the same application resolve to the same configuration and files.
\<close>

section \<open>Data\<close>

record ociImageConfig =
  oc_Architecture :: string
  oc_OS :: string
  oc_Env :: "string list"
  oc_Entrypoint :: "string list"
  oc_WorkingDir :: string
  oc_Labels :: stralist
  oc_RootFSType :: string
  oc_DiffIDs :: "string list"

record runnableLayer =
  rl_Desc :: Descriptor
  rl_DiffID :: string

record RunnableImageOptions =
  ro_ManagedDependency :: "ResolvedDependencyBundle option"
  ro_ManagedEvidence :: "ManagedDependencyEvidence option"

definition encodeImageConfig :: "ociImageConfig \<Rightarrow> json" where
  "encodeImageConfig c =
     JObj [(''architecture'', JStr (oc_Architecture c)), (''os'', JStr (oc_OS c)),
       (''config'', JObj (omitList ''Env'' JStr (oc_Env c) @ omitList ''Entrypoint'' JStr (oc_Entrypoint c) @
          omitStr ''WorkingDir'' (oc_WorkingDir c) @ omitMap ''Labels'' (oc_Labels c))),
       (''rootfs'', JObj [(''type'', JStr (oc_RootFSType c)), (''diff_ids'', JArr (map JStr (oc_DiffIDs c)))])]"

definition encodeConfigCompact :: "JVMConfig \<Rightarrow> string" where
  "encodeConfigCompact cfg = Marshal (encodeConfig cfg)"

definition defaultRunnableArches :: "string list" where
  "defaultRunnableArches = [''amd64'', ''arm64'']"

section \<open>Publishing an image\<close>

definition mainJarName :: "JVMConfig \<Rightarrow> string \<Rightarrow> string" where
  "mainJarName cfg jarPath = (if cfg_MainJar cfg \<noteq> '''' then cfg_MainJar cfg else Base jarPath)"

definition cdsEntryName :: "JVMConfig \<Rightarrow> string \<Rightarrow> string" where
  "cdsEntryName cfg cdsArchivePath =
     (case cfg_CDS cfg of Some cds \<Rightarrow> if cds_Archive cds \<noteq> '''' then cds_Archive cds else Base cdsArchivePath
      | None \<Rightarrow> Base cdsArchivePath)"

definition appLayerFiles :: "JVMConfig \<Rightarrow> string \<Rightarrow> string \<Rightarrow> (store_error, (string \<times> bytes) list) fsm" where
  "appLayerFiles cfg jarPath cdsArchivePath =
     bindF (readF StoreIO jarPath) (\<lambda>jarBytes.
     if cdsArchivePath \<noteq> '''' then
       bindF (readF StoreIO cdsArchivePath) (\<lambda>cdsBytes.
       retF [(mainJarName cfg jarPath, jarBytes), (cdsEntryName cfg cdsArchivePath, cdsBytes)])
     else retF [(mainJarName cfg jarPath, jarBytes)])"

definition targetArches :: "JVMConfig \<Rightarrow> string list" where
  "targetArches cfg = (if length (cfg_Arch cfg) > 0 then sort (cfg_Arch cfg) else defaultRunnableArches)"

definition RunnableArches :: "JVMConfig \<Rightarrow> string list" where
  "RunnableArches cfg = targetArches cfg"

definition layerAnnotations :: "string \<Rightarrow> string \<Rightarrow> stralist" where
  "layerAnnotations role title = (LayerRoleAnnotation, role) # (if title \<noteq> '''' then [(titleAnnotation, title)] else [])"

definition writeRunnableLayerFromTar ::
  "(bytes \<Rightarrow> string) \<Rightarrow> codec \<Rightarrow> disk \<Rightarrow> string \<Rightarrow> bytes \<Rightarrow> string \<Rightarrow> string \<Rightarrow> (store_error, runnableLayer) fsm" where
  "writeRunnableLayerFromTar sha cx dk root tarBytes role title =
     bindF (writeBlob sha dk root (cx_gzip cx tarBytes)) (\<lambda>desc.
     retF \<lparr>rl_Desc = desc\<lparr>d_MediaType := OCILayerGzipMediaType, d_Annotations := layerAnnotations role title\<rparr>,
           rl_DiffID = digestOf sha tarBytes\<rparr>)"

definition buildTar :: "codec \<Rightarrow> (string \<times> bytes) list \<Rightarrow> store_error + bytes" where
  "buildTar cx files = (case cx_tar cx files of None \<Rightarrow> Inl TarNotBuilt | Some b \<Rightarrow> Inr b)"

definition writeRunnableLayer ::
  "(bytes \<Rightarrow> string) \<Rightarrow> codec \<Rightarrow> disk \<Rightarrow> string \<Rightarrow> (string \<times> bytes) list \<Rightarrow> string \<Rightarrow> string \<Rightarrow> (store_error, runnableLayer) fsm" where
  "writeRunnableLayer sha cx dk root files role title =
     bindF (liftF (buildTar cx files)) (\<lambda>tarBytes. writeRunnableLayerFromTar sha cx dk root tarBytes role title)"

text \<open>The launch annotation and the extra annotations of a manifest are one Go map; a later key replaces an earlier one.\<close>

definition writeRunnableManifest ::
  "(bytes \<Rightarrow> string) \<Rightarrow> disk \<Rightarrow> string \<Rightarrow> string \<Rightarrow> string \<Rightarrow> runnableLayer list \<Rightarrow> stralist \<Rightarrow> (store_error, Descriptor) fsm" where
  "writeRunnableManifest sha dk root arch jvmConfigJSON layers extraAnnotations =
     bindF (writeBlob sha dk root (MarshalIndent (encodeImageConfig
             \<lparr>oc_Architecture = arch, oc_OS = ''linux'', oc_Env = [], oc_Entrypoint = [''/brewlet''], oc_WorkingDir = '''',
              oc_Labels = [(''sh.brewlet.runnable'', ''true'')], oc_RootFSType = ''layers'', oc_DiffIDs = map rl_DiffID layers\<rparr>))) (\<lambda>cfgDesc.
     bindF (writeBlob sha dk root (MarshalIndent (encodeManifest
             \<lparr>m_SchemaVersion = 2, m_MediaType = ociManifestMediaType, m_ArtifactType = '''', m_Subject = None,
              m_Config = cfgDesc\<lparr>d_MediaType := OCIImageConfigMediaType\<rparr>, m_Layers = map rl_Desc layers,
              m_Annotations = goMap ((JVMConfigAnnotation, jvmConfigJSON) # extraAnnotations)\<rparr>))) (\<lambda>mDesc.
     retF (mDesc\<lparr>d_MediaType := ociManifestMediaType\<rparr>)))"

fun writeTarLayers ::
  "(bytes \<Rightarrow> string) \<Rightarrow> codec \<Rightarrow> disk \<Rightarrow> string \<Rightarrow> runnableLayer list \<Rightarrow> (string \<times> string) list \<Rightarrow> (store_error, runnableLayer list) fsm" where
  "writeTarLayers sha cx dk root layers [] = retF layers"
| "writeTarLayers sha cx dk root layers ((tarPath, role) # rest) =
     bindF (readF StoreIO tarPath) (\<lambda>raw.
     bindF (writeRunnableLayerFromTar sha cx dk root raw role (Base tarPath)) (\<lambda>l.
     writeTarLayers sha cx dk root (layers @ [l]) rest))"

fun writeManifests ::
  "(bytes \<Rightarrow> string) \<Rightarrow> disk \<Rightarrow> string \<Rightarrow> string \<Rightarrow> runnableLayer list \<Rightarrow> stralist \<Rightarrow> string list \<Rightarrow> (store_error, Descriptor list) fsm" where
  "writeManifests sha dk root cfgJSON layers ann [] = retF []"
| "writeManifests sha dk root cfgJSON layers ann (arch # arches) =
     bindF (writeRunnableManifest sha dk root arch cfgJSON layers ann) (\<lambda>manDesc.
     bindF (writeManifests sha dk root cfgJSON layers ann arches) (\<lambda>rest.
     retF (manDesc\<lparr>d_Platform := Some \<lparr>pf_OS = ''linux'', pf_Architecture = arch\<rparr>\<rparr> # rest)))"

text \<open>The checks on a managed dependency layer before and after the local layers are written.\<close>

definition managedAllowed ::
  "JVMConfig \<Rightarrow> string list \<Rightarrow> string list \<Rightarrow> RunnableImageOptions \<Rightarrow> store_error option" where
  "managedAllowed cfg classpathTars modulepathTars opts =
     (case ro_ManagedDependency opts of None \<Rightarrow> None
      | Some _ \<Rightarrow>
          if length classpathTars > 0 \<or> length modulepathTars > 0 then Some ManagedLayersExclusive
          else if e_Mode (cfg_Entry cfg) \<noteq> ''classpath'' then Some ManagedNeedsClasspathMode
          else if cfg_MainJar cfg \<notin> set (e_ClassPath (cfg_Entry cfg)) \<or> ''lib/*'' \<notin> set (e_ClassPath (cfg_Entry cfg)) then Some ManagedClassPathIncomplete
          else None)"

definition managedLayer ::
  "(bytes \<Rightarrow> string) \<Rightarrow> string \<Rightarrow> string \<Rightarrow> RunnableImageOptions \<Rightarrow> (store_error, runnableLayer list \<times> stralist) fsm" where
  "managedLayer sha root jarPath opts =
     (case ro_ManagedDependency opts of None \<Rightarrow> retF ([], [])
      | Some bundle \<Rightarrow>
          if \<not> isClasspathLayer (rd_Layer bundle) then failF ManagedLayerInvalid
          else
            bindF (getF (\<lambda>fs. ReadBlob (BlobPath root) fs (d_Digest (rd_Layer bundle)))) (\<lambda>r.
            case r of Inl e \<Rightarrow> failF (ManagedLayerUnavailable (d_Digest (rd_Layer bundle)))
            | Inr _ \<Rightarrow>
                bindF (case ro_ManagedEvidence opts of Some ev \<Rightarrow> retF ev | None \<Rightarrow> Evidence sha bundle jarPath) (\<lambda>evidence.
                retF ([\<lparr>rl_Desc = rd_Layer bundle, rl_DiffID = bc_LayerDiffID (rd_Config bundle)\<rparr>],
                      [(ManagedDependencyAnnotation, Marshal (encodeEvidence evidence))]))))"

definition PushRunnableImageWithOptions ::
  "(bytes \<Rightarrow> string) \<Rightarrow> codec \<Rightarrow> disk \<Rightarrow> string \<Rightarrow> string \<Rightarrow> JVMConfig \<Rightarrow> string \<Rightarrow> string list \<Rightarrow> string list \<Rightarrow> string \<Rightarrow>
   RunnableImageOptions \<Rightarrow> (store_error, Descriptor) fsm" where
  "PushRunnableImageWithOptions sha cx dk root ref cfg jarPath classpathTars modulepathTars cdsArchivePath opts =
     (case Validate cfg of Some e \<Rightarrow> failF (BadLaunchConfig e)
      | None \<Rightarrow>
     (case validateCDSPairing cfg cdsArchivePath of Some e \<Rightarrow> failF e
      | None \<Rightarrow>
     bindF (appLayerFiles cfg jarPath cdsArchivePath) (\<lambda>appFiles.
     bindF (writeRunnableLayer sha cx dk root appFiles LayerRoleApp (mainJarName cfg jarPath)) (\<lambda>appLayer.
     (case managedAllowed cfg classpathTars modulepathTars opts of Some e \<Rightarrow> failF e
      | None \<Rightarrow>
     bindF (writeTarLayers sha cx dk root [appLayer]
             (map (\<lambda>t. (t, LayerRoleClasspath)) classpathTars @ map (\<lambda>t. (t, LayerRoleModulepath)) modulepathTars)) (\<lambda>layers.
     bindF (managedLayer sha root jarPath opts) (\<lambda>(managed, ann).
     bindF (writeManifests sha dk root (encodeConfigCompact cfg) (layers @ managed) ann (targetArches cfg)) (\<lambda>indexManifests.
     tagManifest sha dk root ref
       (MarshalIndent (encodeIndex \<lparr>x_SchemaVersion = 2, x_MediaType = OCIImageIndexMediaType, x_Manifests = indexManifests, x_Annotations = ann\<rparr>))
       OCIImageIndexMediaType ''''))))))))"

definition PushRunnableImage ::
  "(bytes \<Rightarrow> string) \<Rightarrow> codec \<Rightarrow> disk \<Rightarrow> string \<Rightarrow> string \<Rightarrow> JVMConfig \<Rightarrow> string \<Rightarrow> string list \<Rightarrow> string list \<Rightarrow> string \<Rightarrow>
   (store_error, Descriptor) fsm" where
  "PushRunnableImage sha cx dk root ref cfg jarPath classpathTars modulepathTars cdsArchivePath =
     PushRunnableImageWithOptions sha cx dk root ref cfg jarPath classpathTars modulepathTars cdsArchivePath
       \<lparr>ro_ManagedDependency = None, ro_ManagedEvidence = None\<rparr>"

section \<open>Reading an image\<close>

definition RunnableConfig :: "Manifest \<Rightarrow> store_error + JVMConfig" where
  "RunnableConfig m =
     (let raw = alget (m_Annotations m) JVMConfigAnnotation in
      if raw = '''' then Inl NoConfigAnnotation
      else (case DecodeConfigBytes raw of Inl e \<Rightarrow> Inl (BadConfigDocument e) | Inr cfg \<Rightarrow> Inr cfg))"

definition layersByRole :: "Manifest \<Rightarrow> string \<Rightarrow> Descriptor list" where
  "layersByRole m role = filter (\<lambda>l. alget (d_Annotations l) LayerRoleAnnotation = role) (m_Layers m)"

definition RunnableAppLayer :: "Manifest \<Rightarrow> store_error + Descriptor" where
  "RunnableAppLayer m = (case layersByRole m LayerRoleApp of [] \<Rightarrow> Inl NoAppLayer | l # _ \<Rightarrow> Inr l)"

definition RunnableClasspathLayers :: "Manifest \<Rightarrow> Descriptor list" where
  "RunnableClasspathLayers m = layersByRole m LayerRoleClasspath"

definition RunnableModulepathLayers :: "Manifest \<Rightarrow> Descriptor list" where
  "RunnableModulepathLayers m = layersByRole m LayerRoleModulepath"

text \<open>The staging tree of an image: \<open>stageEnv\<close> is \<open>$BREWLET_RUNNABLE_STAGE\<close>, \<open>tmp\<close> the temporary directory.\<close>

definition runnableStageDir :: "(bytes \<Rightarrow> string) \<Rightarrow> string \<Rightarrow> string \<Rightarrow> string \<Rightarrow> string" where
  "runnableStageDir sha stageEnv tmp manifestDigest =
     (let base = (if stageEnv = '''' then PathJoin [tmp, ''brewlet-runnable''] else stageEnv);
          hex = (case CutAt (CHR '':'') manifestDigest of Some (_, h) \<Rightarrow> h | None \<Rightarrow> sha manifestDigest)
      in PathJoin [base, hex])"

definition readBlobF :: "blob_path \<Rightarrow> string \<Rightarrow> (store_error, bytes) fsm" where
  "readBlobF bp digest fs = (ReadBlob bp fs digest, fs)"

text \<open>Decompression writes what it could decompress before it reports an error.\<close>

definition gunzipToFile :: "codec \<Rightarrow> disk \<Rightarrow> blob_path \<Rightarrow> string \<Rightarrow> string \<Rightarrow> (store_error, unit) fsm" where
  "gunzipToFile cx dk bp digest dst =
     bindF (readBlobF bp digest) (\<lambda>raw.
     (case cx_gunzip cx raw of None \<Rightarrow> failF (LayerUnreadable digest)
      | Some (content, bad) \<Rightarrow>
          thenF (writeF dk StoreIO dst content) (if bad then failF (LayerUnreadable digest) else retF ())))"

fun unpackEntries :: "disk \<Rightarrow> string \<Rightarrow> tar_entry list \<Rightarrow> (store_error, unit) fsm" where
  "unpackEntries dk destDir [] = retF ()"
| "unpackEntries dk destDir (hdr # rest) =
     (let name = Clean (te_Name hdr) in
      if name = ''.'' then unpackEntries dk destDir rest
      else
        (let target = PathJoin [destDir, name] in
         if relEscapes (Rel destDir target) then failF (EntryEscapes (te_Name hdr))
         else
           thenF (case te_Typeflag hdr of
                    TypeDir \<Rightarrow> mkdirF dk StoreIO target
                  | TypeReg \<Rightarrow> thenF (mkdirF dk StoreIO (Dir target)) (writeF dk StoreIO target (te_Content hdr))
                  | TypeOther \<Rightarrow> retF ())
             (unpackEntries dk destDir rest)))"

definition extractGzTar :: "codec \<Rightarrow> disk \<Rightarrow> blob_path \<Rightarrow> string \<Rightarrow> string \<Rightarrow> (store_error, unit) fsm" where
  "extractGzTar cx dk bp digest destDir =
     bindF (readBlobF bp digest) (\<lambda>raw.
     (case cx_gunzip cx raw of None \<Rightarrow> failF (LayerUnreadable digest)
      | Some (content, bad) \<Rightarrow>
          thenF (mkdirF dk StoreIO destDir)
            (thenF (unpackEntries dk destDir (fst (cx_untar cx content)))
              (if bad \<or> snd (cx_untar cx content) then failF (LayerUnreadable digest) else retF ()))))"

definition stagedTar :: "string \<Rightarrow> string \<Rightarrow> nat \<Rightarrow> string" where
  "stagedTar stageDir pre i = PathJoin [stageDir, pre @ ''-'' @ Itoa (int i) @ ''.tar'']"

fun stageLayerLoop :: "codec \<Rightarrow> disk \<Rightarrow> blob_path \<Rightarrow> string \<Rightarrow> string \<Rightarrow> nat \<Rightarrow> Descriptor list \<Rightarrow> (store_error, string list) fsm" where
  "stageLayerLoop cx dk bp stageDir pre i [] = retF []"
| "stageLayerLoop cx dk bp stageDir pre i (l # ls) =
     thenF (gunzipToFile cx dk bp (d_Digest l) (stagedTar stageDir pre i))
       (bindF (stageLayerLoop cx dk bp stageDir pre (i + 1) ls) (\<lambda>out. retF (stagedTar stageDir pre i # out)))"

definition stageLayerTars :: "codec \<Rightarrow> disk \<Rightarrow> blob_path \<Rightarrow> Descriptor list \<Rightarrow> string \<Rightarrow> string \<Rightarrow> (store_error, string list) fsm" where
  "stageLayerTars cx dk bp layers stageDir pre =
     (if length layers = 0 then retF []
      else thenF (mkdirF dk StoreIO stageDir) (stageLayerLoop cx dk bp stageDir pre 0 layers))"

definition requireFile :: "store_error \<Rightarrow> string \<Rightarrow> (store_error, unit) fsm" where
  "requireFile e p = bindF (getF (\<lambda>fs. fileAt fs p)) (\<lambda>c. if c = None then failF e else retF ())"

definition ResolveRunnableBlobs ::
  "(bytes \<Rightarrow> string) \<Rightarrow> codec \<Rightarrow> disk \<Rightarrow> string \<Rightarrow> string \<Rightarrow> blob_path \<Rightarrow> Manifest \<Rightarrow> string \<Rightarrow> (store_error, ResolvedBlobs) fsm" where
  "ResolveRunnableBlobs sha cx dk stageEnv tmp bp man manifestDigest =
     bindF (liftF (RunnableConfig man)) (\<lambda>cfg.
     let stageDir = runnableStageDir sha stageEnv tmp manifestDigest; appDir = PathJoin [stageDir, ''app''] in
     bindF (liftF (RunnableAppLayer man)) (\<lambda>appLayer.
     thenF (extractGzTar cx dk bp (d_Digest appLayer) appDir)
     (let jarName = (if cfg_MainJar cfg = '''' then ''app.jar'' else cfg_MainJar cfg);
          jarPath = PathJoin [appDir, jarName];
          archive = (case cfg_CDS cfg of Some cds \<Rightarrow> cds_Archive cds | None \<Rightarrow> '''');
          cdsPath = (if archive = '''' then '''' else PathJoin [appDir, archive]) in
      thenF (requireFile (JarNotInLayer jarName) jarPath)
      (thenF (if archive = '''' then retF () else requireFile (ArchiveNotInLayer archive) cdsPath)
      (bindF (stageLayerTars cx dk bp (RunnableClasspathLayers man) stageDir ''cp'') (\<lambda>cpPaths.
       bindF (stageLayerTars cx dk bp (RunnableModulepathLayers man) stageDir ''mp'') (\<lambda>mpPaths.
       retF \<lparr>rb_Config = cfg, rb_JarHostPath = jarPath, rb_ClasspathHostPaths = cpPaths, rb_ModulepathHostPaths = mpPaths,
             rb_CDSHostPath = cdsPath, rb_Format = ''image''\<rparr>)))))))"

definition ResolveBlobs ::
  "(bytes \<Rightarrow> string) \<Rightarrow> codec \<Rightarrow> disk \<Rightarrow> string \<Rightarrow> string \<Rightarrow> string \<Rightarrow> string \<Rightarrow> string \<Rightarrow> (store_error, ResolvedBlobs) fsm" where
  "ResolveBlobs sha cx dk goarch stageEnv tmp root ref fs =
     (case ResolveManifestByRef sha goarch root fs ref of Inl e \<Rightarrow> (Inl e, fs)
      | Inr (man, digest) \<Rightarrow>
          if IsRunnableImage man then ResolveRunnableBlobs sha cx dk stageEnv tmp (BlobPath root) man digest fs
          else (ResolveNativeBlobs (BlobPath root) fs man, fs))"

section \<open>The effect of publishing an image\<close>

definition imageLayer :: "(bytes \<Rightarrow> string) \<Rightarrow> codec \<Rightarrow> string \<Rightarrow> string \<Rightarrow> bytes \<Rightarrow> runnableLayer" where
  "imageLayer sha cx role title raw =
     \<lparr>rl_Desc = (layerDesc sha OCILayerGzipMediaType '''' (cx_gzip cx raw))\<lparr>d_Annotations := layerAnnotations role title\<rparr>,
      rl_DiffID = digestOf sha raw\<rparr>"

lemma writeRunnableLayerFromTar_ok:
  "writeRunnableLayerFromTar sha cx dk root raw role title fs = (Inr l, fs') \<Longrightarrow>
     l = imageLayer sha cx role title raw \<and> fs' = putBlobs sha root [cx_gzip cx raw] fs"
  by (auto simp: writeRunnableLayerFromTar_def fsm_ok imageLayer_def layerDesc_def emptyDescriptor_def dest!: writeBlob_ok)

lemma writeTarLayers_ok:
  assumes "writeTarLayers sha cx dk root layers trs fs = (Inr layers', fs')"
    and sha: "\<And>b. plainName (sha b)" and "\<forall>t \<in> set trs. outsideBlobs root (fst t)"
  shows "\<exists>bs. map (fileAt fs \<circ> fst) trs = map Some bs \<and> fs' = putBlobs sha root (map (cx_gzip cx) bs) fs \<and>
     layers' = layers @ map2 (\<lambda>t b. imageLayer sha cx (snd t) (Base (fst t)) b) trs bs"
  using assms(1,3)
proof (induction trs arbitrary: layers fs)
  case Nil
  then show ?case by (simp add: fsm_ok)
next
  case (Cons tr trs)
  obtain t role where tr: "tr = (t, role)" by fastforce
  obtain b l fs1 where 1: "fileAt fs t = Some b" "writeRunnableLayerFromTar sha cx dk root b role (Base t) fs = (Inr l, fs1)"
      "writeTarLayers sha cx dk root (layers @ [l]) trs fs1 = (Inr layers', fs')"
    using Cons.prems(1) by (auto simp: fsm_ok tr)
  have w: "l = imageLayer sha cx role (Base t) b" "fs1 = putBlobs sha root [cx_gzip cx b] fs"
    using writeRunnableLayerFromTar_ok [OF 1(2)] by blast+
  obtain bs where 2: "map (fileAt fs1 \<circ> fst) trs = map Some bs" "fs' = putBlobs sha root (map (cx_gzip cx) bs) fs1"
      "layers' = (layers @ [l]) @ map2 (\<lambda>t b. imageLayer sha cx (snd t) (Base (fst t)) b) trs bs"
    using Cons.IH [OF 1(3)] Cons.prems(2) by (meson list.set_intros(2))
  have "map (fileAt fs1 \<circ> fst) trs = map (fileAt fs \<circ> fst) trs"
    using read_outside [where sha = sha, OF sha, of root] Cons.prems(2) unfolding w(2) by (simp del: putBlobs_simps)
  then have "map (fileAt fs \<circ> fst) trs = map Some bs" using 2(1) by metis
  then have "map (fileAt fs \<circ> fst) (tr # trs) = map Some (b # bs) \<and> fs' = putBlobs sha root (map (cx_gzip cx) (b # bs)) fs \<and>
      layers' = layers @ map2 (\<lambda>t b. imageLayer sha cx (snd t) (Base (fst t)) b) (tr # trs) (b # bs)"
    using 1(1) 2 w by (simp add: tr)
  then show ?case by blast
qed

definition imageConfigBlob :: "runnableLayer list \<Rightarrow> string \<Rightarrow> bytes" where
  "imageConfigBlob layers arch = MarshalIndent (encodeImageConfig
     \<lparr>oc_Architecture = arch, oc_OS = ''linux'', oc_Env = [], oc_Entrypoint = [''/brewlet''], oc_WorkingDir = '''',
      oc_Labels = [(''sh.brewlet.runnable'', ''true'')], oc_RootFSType = ''layers'', oc_DiffIDs = map rl_DiffID layers\<rparr>)"

definition imageManifest :: "(bytes \<Rightarrow> string) \<Rightarrow> string \<Rightarrow> runnableLayer list \<Rightarrow> stralist \<Rightarrow> string \<Rightarrow> Manifest" where
  "imageManifest sha cfgJSON layers ann arch =
     \<lparr>m_SchemaVersion = 2, m_MediaType = ociManifestMediaType, m_ArtifactType = '''', m_Subject = None,
      m_Config = (layerDesc sha OCIImageConfigMediaType '''' (imageConfigBlob layers arch))\<lparr>d_Annotations := []\<rparr>,
      m_Layers = map rl_Desc layers, m_Annotations = goMap ((JVMConfigAnnotation, cfgJSON) # ann)\<rparr>"

definition imageManifestBlob :: "(bytes \<Rightarrow> string) \<Rightarrow> string \<Rightarrow> runnableLayer list \<Rightarrow> stralist \<Rightarrow> string \<Rightarrow> bytes" where
  "imageManifestBlob sha cfgJSON layers ann arch = MarshalIndent (encodeManifest (imageManifest sha cfgJSON layers ann arch))"

definition imageEntry :: "(bytes \<Rightarrow> string) \<Rightarrow> string \<Rightarrow> runnableLayer list \<Rightarrow> stralist \<Rightarrow> string \<Rightarrow> Descriptor" where
  "imageEntry sha cfgJSON layers ann arch =
     (layerDesc sha ociManifestMediaType '''' (imageManifestBlob sha cfgJSON layers ann arch))
       \<lparr>d_Annotations := [], d_Platform := Some \<lparr>pf_OS = ''linux'', pf_Architecture = arch\<rparr>\<rparr>"

definition archBlobs :: "(bytes \<Rightarrow> string) \<Rightarrow> string \<Rightarrow> runnableLayer list \<Rightarrow> stralist \<Rightarrow> string list \<Rightarrow> bytes list" where
  "archBlobs sha cfgJSON layers ann arches =
     concat (map (\<lambda>a. [imageConfigBlob layers a, imageManifestBlob sha cfgJSON layers ann a]) arches)"

lemma writeRunnableManifest_ok:
  assumes "writeRunnableManifest sha dk root arch cfgJSON layers ann fs = (Inr d, fs')"
  shows "d\<lparr>d_Platform := Some \<lparr>pf_OS = ''linux'', pf_Architecture = arch\<rparr>\<rparr> = imageEntry sha cfgJSON layers ann arch \<and>
    fs' = putBlobs sha root [imageConfigBlob layers arch, imageManifestBlob sha cfgJSON layers ann arch] fs"
proof -
  obtain cd fs1 md where w: "writeBlob sha dk root (imageConfigBlob layers arch) fs = (Inr cd, fs1)"
      "writeBlob sha dk root (MarshalIndent (encodeManifest
             \<lparr>m_SchemaVersion = 2, m_MediaType = ociManifestMediaType, m_ArtifactType = '''', m_Subject = None,
              m_Config = cd\<lparr>d_MediaType := OCIImageConfigMediaType\<rparr>, m_Layers = map rl_Desc layers,
              m_Annotations = goMap ((JVMConfigAnnotation, cfgJSON) # ann)\<rparr>)) fs1 = (Inr md, fs')"
      "d = md\<lparr>d_MediaType := ociManifestMediaType\<rparr>"
    using assms unfolding writeRunnableManifest_def imageConfigBlob_def [symmetric] by (auto simp: fsm_ok)
  have c: "fs1 = putBlobs sha root [imageConfigBlob layers arch] fs"
      "cd\<lparr>d_MediaType := OCIImageConfigMediaType\<rparr> = (layerDesc sha OCIImageConfigMediaType '''' (imageConfigBlob layers arch))\<lparr>d_Annotations := []\<rparr>"
    using writeBlob_ok [OF w(1)] by (simp_all add: layerDesc_def emptyDescriptor_def)
  show ?thesis
    using writeBlob_ok [OF w(2) [unfolded c(2) imageManifest_def [symmetric] imageManifestBlob_def [symmetric]]] c(1) w(3)
    by (simp add: imageEntry_def layerDesc_def emptyDescriptor_def)
qed

lemma writeManifests_ok:
  "writeManifests sha dk root cfgJSON layers ann arches fs = (Inr ds, fs') \<Longrightarrow>
     ds = map (imageEntry sha cfgJSON layers ann) arches \<and> fs' = putBlobs sha root (archBlobs sha cfgJSON layers ann arches) fs"
proof (induction arches arbitrary: fs ds)
  case (Cons a arches)
  obtain d fs1 rest where 1: "writeRunnableManifest sha dk root a cfgJSON layers ann fs = (Inr d, fs1)"
      "writeManifests sha dk root cfgJSON layers ann arches fs1 = (Inr rest, fs')"
      "ds = d\<lparr>d_Platform := Some \<lparr>pf_OS = ''linux'', pf_Architecture = a\<rparr>\<rparr> # rest"
    using Cons.prems by (auto simp: fsm_ok)
  have "archBlobs sha cfgJSON layers ann (a # arches) =
      [imageConfigBlob layers a, imageManifestBlob sha cfgJSON layers ann a] @ archBlobs sha cfgJSON layers ann arches"
    by (simp add: archBlobs_def)
  then have "putBlobs sha root (archBlobs sha cfgJSON layers ann (a # arches)) fs =
      putBlobs sha root (archBlobs sha cfgJSON layers ann arches)
        (putBlobs sha root [imageConfigBlob layers a, imageManifestBlob sha cfgJSON layers ann a] fs)"
    by (simp only: putBlobs_simps(3))
  then show ?case
    using writeRunnableManifest_ok [OF 1(1)] Cons.IH [OF 1(2)] 1(3) by (simp del: putBlobs_simps)
qed (simp add: fsm_ok archBlobs_def)

definition appFilesOf :: "JVMConfig \<Rightarrow> string \<Rightarrow> bytes \<Rightarrow> (string \<times> bytes) list \<Rightarrow> (string \<times> bytes) list" where
  "appFilesOf cfg jarPath jar cds = (mainJarName cfg jarPath, jar) # map (\<lambda>(p, b). (cdsEntryName cfg p, b)) cds"

lemma appLayerFiles_ok:
  "appLayerFiles cfg jarPath cdsPath fs = (Inr files, fs') \<Longrightarrow>
     fs' = fs \<and> (\<exists>jar cds. fileAt fs jarPath = Some jar \<and> filesRead fs (cdsPaths cdsPath) cds \<and> files = appFilesOf cfg jarPath jar cds)"
proof (cases "cdsPath = ''''")
  case False
  assume "appLayerFiles cfg jarPath cdsPath fs = (Inr files, fs')"
  then obtain jar b where "fileAt fs jarPath = Some jar" "fileAt fs cdsPath = Some b" "fs' = fs"
      "files = [(mainJarName cfg jarPath, jar), (cdsEntryName cfg cdsPath, b)]"
    using False by (auto simp: appLayerFiles_def fsm_ok)
  then show ?thesis using False by (intro conjI exI [of _ jar] exI [of _ "[(cdsPath, b)]"]) (simp_all add: filesRead_def cdsPaths_def appFilesOf_def)
qed (auto simp: appLayerFiles_def fsm_ok filesRead_def cdsPaths_def appFilesOf_def)

definition tarRoles :: "string list \<Rightarrow> string list \<Rightarrow> (string \<times> string) list" where
  "tarRoles cps mps = map (\<lambda>t. (t, LayerRoleClasspath)) cps @ map (\<lambda>t. (t, LayerRoleModulepath)) mps"

definition imageLayers ::
  "(bytes \<Rightarrow> string) \<Rightarrow> codec \<Rightarrow> string \<Rightarrow> bytes \<Rightarrow> (string \<times> bytes) list \<Rightarrow> (string \<times> bytes) list \<Rightarrow> runnableLayer list" where
  "imageLayers sha cx jarName appTar cps mps =
     imageLayer sha cx LayerRoleApp jarName appTar #
     map (\<lambda>(t, b). imageLayer sha cx LayerRoleClasspath (Base t) b) cps @
     map (\<lambda>(t, b). imageLayer sha cx LayerRoleModulepath (Base t) b) mps"

definition imageIndex :: "(bytes \<Rightarrow> string) \<Rightarrow> string \<Rightarrow> runnableLayer list \<Rightarrow> stralist \<Rightarrow> string list \<Rightarrow> Index" where
  "imageIndex sha cfgJSON layers ann arches =
     \<lparr>x_SchemaVersion = 2, x_MediaType = OCIImageIndexMediaType, x_Manifests = map (imageEntry sha cfgJSON layers ann) arches, x_Annotations = ann\<rparr>"

definition imageBlobs ::
  "(bytes \<Rightarrow> string) \<Rightarrow> codec \<Rightarrow> JVMConfig \<Rightarrow> bytes \<Rightarrow> (string \<times> bytes) list \<Rightarrow> (string \<times> bytes) list \<Rightarrow> runnableLayer list \<Rightarrow> stralist \<Rightarrow> bytes list" where
  "imageBlobs sha cx cfg appTar cps mps layers ann =
     map (cx_gzip cx) (appTar # map snd cps @ map snd mps) @
     archBlobs sha (encodeConfigCompact cfg) layers ann (targetArches cfg) @
     [MarshalIndent (encodeIndex (imageIndex sha (encodeConfigCompact cfg) layers ann (targetArches cfg)))]"

lemma writeTarLayers_after:
  assumes run: "writeTarLayers sha cx dk root [l] (tarRoles cpTars mpTars) (putBlobs sha root as fs) = (Inr layers, fs')"
    and sha: "\<And>b. plainName (sha b)" and out: "\<forall>t \<in> set (cpTars @ mpTars). outsideBlobs root t"
  obtains cps mps where "filesRead fs cpTars cps" "filesRead fs mpTars mps"
    "fs' = putBlobs sha root (as @ map (cx_gzip cx) (map snd cps @ map snd mps)) fs"
    "layers = l # map (\<lambda>(t, b). imageLayer sha cx LayerRoleClasspath (Base t) b) cps @
       map (\<lambda>(t, b). imageLayer sha cx LayerRoleModulepath (Base t) b) mps"
proof -
  have o: "\<forall>t \<in> set (tarRoles cpTars mpTars). outsideBlobs root (fst t)" using out by (auto simp: tarRoles_def)
  obtain bs where bs: "map (fileAt (putBlobs sha root as fs) \<circ> fst) (tarRoles cpTars mpTars) = map Some bs"
      "fs' = putBlobs sha root (map (cx_gzip cx) bs) (putBlobs sha root as fs)"
      "layers = [l] @ map2 (\<lambda>t b. imageLayer sha cx (snd t) (Base (fst t)) b) (tarRoles cpTars mpTars) bs"
    using writeTarLayers_ok [OF run sha o] by blast
  have "map (fileAt (putBlobs sha root as fs) \<circ> fst) (tarRoles cpTars mpTars) = map (fileAt fs \<circ> fst) (tarRoles cpTars mpTars)"
    using read_outside [where sha = sha, OF sha, of root] o by simp
  then have "map (fileAt fs \<circ> fst) (tarRoles cpTars mpTars) = map Some bs" using bs(1) by metis
  then have m: "map (fileAt fs) (cpTars @ mpTars) = map Some bs" by (simp add: tarRoles_def comp_def)
  define cb where "cb = take (length cpTars) bs"
  define mb where "mb = drop (length cpTars) bs"
  have b: "bs = cb @ mb" by (simp add: cb_def mb_def)
  have l: "length bs = length cpTars + length mpTars" using m by (metis length_append length_map)
  then have lc: "length cb = length cpTars" "length mb = length mpTars" by (simp_all add: cb_def mb_def)
  have r: "map (fileAt fs) cpTars = map Some cb" "map (fileAt fs) mpTars = map Some mb"
    using m lc unfolding b by (simp_all add: append_eq_append_conv)
  note z = filesRead_zip [OF r(1)] filesRead_zip [OF r(2)]
  have role: "map2 (\<lambda>t b. imageLayer sha cx (snd t) (Base (fst t)) b) (map (\<lambda>t. (t, role)) ts) xs =
      map (\<lambda>(t, b). imageLayer sha cx role (Base t) b) (zip ts xs)" for role ts xs
    by (induction ts xs rule: list_induct2') auto
  show thesis
    by (rule that [of "zip cpTars cb" "zip mpTars mb"])
      (use z bs(2,3) lc in \<open>simp_all add: b tarRoles_def role zip_append1 del: map_map\<close>)
qed

lemma managedLayer_keeps: "managedLayer sha root jarPath opts fs = (Inr r, fs') \<Longrightarrow> fs' = fs"
  by (auto simp: managedLayer_def fsm_ok Evidence_def split: option.splits if_splits sum.splits)

lemma PushRunnable_effect:
  assumes run: "PushRunnableImageWithOptions sha cx dk root ref cfg jarPath cpTars mpTars cdsPath opts fs = (Inr desc, fs')"
    and sha: "\<And>b. plainName (sha b)"
    and out: "\<forall>t \<in> set (cpTars @ mpTars). outsideBlobs root t"
    and files: "fileAt fs jarPath = Some jar" "filesRead fs cpTars cps" "filesRead fs mpTars mps" "filesRead fs (cdsPaths cdsPath) cds"
  obtains appTar managed ann where
    "Validate cfg = None" "validateCDSPairing cfg cdsPath = None" "managedAllowed cfg cpTars mpTars opts = None"
    "cx_tar cx (appFilesOf cfg jarPath jar cds) = Some appTar"
    "managedLayer sha root jarPath opts (putBlobs sha root (map (cx_gzip cx) (appTar # map snd cps @ map snd mps)) fs) =
       (Inr (managed, ann), putBlobs sha root (map (cx_gzip cx) (appTar # map snd cps @ map snd mps)) fs)"
    "desc = manifestDesc sha OCIImageIndexMediaType '''' ref (MarshalIndent (encodeIndex (imageIndex sha (encodeConfigCompact cfg)
       (imageLayers sha cx (mainJarName cfg jarPath) appTar cps mps @ managed) ann (targetArches cfg))))"
    "fs' = tagged sha root (imageBlobs sha cx cfg appTar cps mps (imageLayers sha cx (mainJarName cfg jarPath) appTar cps mps @ managed) ann) desc fs"
proof -
  have v: "Validate cfg = None" "validateCDSPairing cfg cdsPath = None" "managedAllowed cfg cpTars mpTars opts = None"
    using run by (auto simp: PushRunnableImageWithOptions_def fsm_ok split: option.splits)
  obtain fl fs0 al fs1 ls fs2 managed ann fs3 ds fs4 where r:
      "appLayerFiles cfg jarPath cdsPath fs = (Inr fl, fs0)"
      "writeRunnableLayer sha cx dk root fl LayerRoleApp (mainJarName cfg jarPath) fs0 = (Inr al, fs1)"
      "writeTarLayers sha cx dk root [al] (tarRoles cpTars mpTars) fs1 = (Inr ls, fs2)"
      "managedLayer sha root jarPath opts fs2 = (Inr (managed, ann), fs3)"
      "writeManifests sha dk root (encodeConfigCompact cfg) (ls @ managed) ann (targetArches cfg) fs3 = (Inr ds, fs4)"
      "tagManifest sha dk root ref (MarshalIndent (encodeIndex
         \<lparr>x_SchemaVersion = 2, x_MediaType = OCIImageIndexMediaType, x_Manifests = ds, x_Annotations = ann\<rparr>))
         OCIImageIndexMediaType '''' fs4 = (Inr desc, fs')"
    using run v by (auto simp: PushRunnableImageWithOptions_def fsm_ok tarRoles_def)
  have a: "fs0 = fs" "fl = appFilesOf cfg jarPath jar cds"
    using appLayerFiles_ok [OF r(1)] files(1) filesRead_unique [OF files(4)] by auto
  obtain appTar where t: "cx_tar cx (appFilesOf cfg jarPath jar cds) = Some appTar"
      "writeRunnableLayerFromTar sha cx dk root appTar LayerRoleApp (mainJarName cfg jarPath) fs = (Inr al, fs1)"
    using r(2) unfolding a by (auto simp: writeRunnableLayer_def fsm_ok buildTar_def split: option.splits)
  have al: "al = imageLayer sha cx LayerRoleApp (mainJarName cfg jarPath) appTar" "fs1 = putBlobs sha root [cx_gzip cx appTar] fs"
    using writeRunnableLayerFromTar_ok [OF t(2)] by blast+
  let ?L = "imageLayers sha cx (mainJarName cfg jarPath) appTar cps mps"
  let ?b = "map (cx_gzip cx) (appTar # map snd cps @ map snd mps)"
  have "ls = ?L \<and> fs2 = putBlobs sha root ?b fs"
  proof (rule writeTarLayers_after [OF r(3) [unfolded al(2)] sha out])
    fix cps' mps'
    assume f: "filesRead fs cpTars cps'" "filesRead fs mpTars mps'"
      "fs2 = putBlobs sha root ([cx_gzip cx appTar] @ map (cx_gzip cx) (map snd cps' @ map snd mps')) fs"
      "ls = al # map (\<lambda>(t, b). imageLayer sha cx LayerRoleClasspath (Base t) b) cps' @
       map (\<lambda>(t, b). imageLayer sha cx LayerRoleModulepath (Base t) b) mps'"
    have "cps' = cps" "mps' = mps" using f(1,2) files(2,3) filesRead_unique by blast+
    then show ?thesis using f(3,4) by (simp add: imageLayers_def al(1))
  qed
  then have ls: "ls = ?L" "fs2 = putBlobs sha root ?b fs" by blast+
  have m: "fs3 = fs2" using managedLayer_keeps [OF r(4)] .
  have ds: "ds = map (imageEntry sha (encodeConfigCompact cfg) (?L @ managed) ann) (targetArches cfg)"
      "fs4 = putBlobs sha root (?b @ archBlobs sha (encodeConfigCompact cfg) (?L @ managed) ann (targetArches cfg)) fs"
    using writeManifests_ok [OF r(5)] unfolding m ls by (simp_all only: putBlobs_simps(3))
  have tag: "desc = manifestDesc sha OCIImageIndexMediaType '''' ref (MarshalIndent (encodeIndex (imageIndex sha (encodeConfigCompact cfg) (?L @ managed) ann (targetArches cfg))))"
      "fs' = tagged sha root ((?b @ archBlobs sha (encodeConfigCompact cfg) (?L @ managed) ann (targetArches cfg)) @
        [MarshalIndent (encodeIndex (imageIndex sha (encodeConfigCompact cfg) (?L @ managed) ann (targetArches cfg)))]) desc fs"
    using tagManifest_ok [OF r(6) [unfolded ds imageIndex_def [symmetric]] sha] by blast+
  show thesis
    by (rule that [OF v t(1), of managed ann])
      (use r(4) m ls tag in \<open>simp_all only: imageBlobs_def append.assoc\<close>)
qed

section \<open>Resolving the manifest of an image\<close>

lemma alget_goMap_head: "k \<notin> fst ` set kvs \<Longrightarrow> alget (goMap ((k, v) # kvs)) k = v"
proof -
  assume k: "k \<notin> fst ` set kvs"
  have "(k, v) \<in> set (goMap ((k, v) # kvs))" using k by (simp add: goMap_def set_insort_key)
  moreover have "distinct (map fst (goMap ((k, v) # kvs)))" using canonical_goMap canonical_distinct by blast
  ultimately show ?thesis by (simp add: alget_def mget_def)
qed

lemma IsIndexBlob_index:
  assumes "index_ok x" and "x_MediaType x = OCIImageIndexMediaType"
  shows "IsIndexBlob (MarshalIndent (encodeIndex x))"
proof -
  have l: "asList (decodeDescriptor False) (JArr (map encodeDescriptor (x_Manifests x))) = Some (x_Manifests x)"
    by (rule asList_JArr) (use assms in \<open>simp add: index_ok_def decode_encode_Descriptor list_all_iff\<close>)
  have "parseJson (MarshalIndent (encodeIndex x)) = Some (encodeIndex x)" by (simp add: parse_MarshalIndent)
  then show ?thesis using assms(2) l by (simp add: IsIndexBlob_def encodeIndex_def json_simps split del: if_split)
qed

lemma select_among:
  assumes "arches \<noteq> []" and "\<And>a. f a = (g a)\<lparr>d_Platform := Some \<lparr>pf_OS = ''linux'', pf_Architecture = a\<rparr>\<rparr>" and "x_Manifests idx = map f arches"
  shows "\<exists>a \<in> set arches. SelectPlatformManifest goarch idx '''' = Some (f a) \<and> (goarch \<in> set arches \<longrightarrow> a = goarch)"
proof -
  let ?P = "\<lambda>m. case d_Platform m of Some p \<Rightarrow> pf_Architecture p = goarch | None \<Rightarrow> False"
  have P: "?P (f a) \<longleftrightarrow> a = goarch" for a by (simp add: assms(2))
  have fa: "find ?P (map f as) = (if goarch \<in> set as then Some (f goarch) else None)" for as
    by (induction as) (auto simp: P)
  show ?thesis
  proof (cases "goarch \<in> set arches")
    case True
    then show ?thesis using fa [of arches] by (intro bexI [of _ goarch]) (simp_all add: SelectPlatformManifest_def assms(3))
  next
    case False
    then show ?thesis
      using fa [of arches] assms(1) by (cases arches) (auto simp: SelectPlatformManifest_def assms(3))
  qed
qed

definition layersOk :: "runnableLayer list \<Rightarrow> bool" where
  "layersOk layers = list_all (\<lambda>l. descriptor_ok (rl_Desc l)) layers"

lemma imageManifest_ok:
  assumes "layersOk layers" and "smallFile (imageConfigBlob layers arch)"
  shows "manifest_ok (imageManifest sha cfgJSON layers ann arch)"
  using assms by (simp add: manifest_ok_def imageManifest_def layersOk_def descriptor_ok_def layerDesc_def smallFile_def in_int64_def
      min_int64_def max_int64_def list_all_iff)

lemma imageIndex_ok:
  assumes "canonical ann" and "list_all smallFile (archBlobs sha cfgJSON layers ann arches)"
  shows "index_ok (imageIndex sha cfgJSON layers ann arches)"
proof -
  have "descriptor_ok (imageEntry sha cfgJSON layers ann a)" if "a \<in> set arches" for a
    using assms(2) that by (simp add: descriptor_ok_def imageEntry_def layerDesc_def smallFile_def in_int64_def min_int64_def archBlobs_def list_all_iff)
  then show ?thesis using assms(1) by (simp add: index_ok_def imageIndex_def in_int64_def min_int64_def max_int64_def list_all_iff)
qed

lemma resolve_tagged_image:
  assumes ok: "canonical ann" "layersOk layers" "arches \<noteq> []"
    and small: "list_all smallFile (archBlobs sha cfgJSON layers ann arches)" "smallFile (MarshalIndent (encodeIndex (imageIndex sha cfgJSON layers ann arches)))"
    and desc: "desc = manifestDesc sha OCIImageIndexMediaType '''' ref (MarshalIndent (encodeIndex (imageIndex sha cfgJSON layers ann arches)))"
    and fs': "fs' = tagged sha root bs desc fs"
    and st: "stored sha root fs' (MarshalIndent (encodeIndex (imageIndex sha cfgJSON layers ann arches)))"
      "list_all (stored sha root fs') (archBlobs sha cfgJSON layers ann arches)"
  shows "\<exists>a \<in> set arches. ResolveManifestByRef sha goarch root fs' ref =
      Inr (imageManifest sha cfgJSON layers ann a, digestOf sha (imageManifestBlob sha cfgJSON layers ann a)) \<and> (goarch \<in> set arches \<longrightarrow> a = goarch)"
proof -
  let ?x = "imageIndex sha cfgJSON layers ann arches"
  have d: "descriptor_ok desc" "refOf desc = ref" using small(2) by (simp_all add: desc)
  have x: "index_ok ?x" by (rule imageIndex_ok [OF ok(1) small(1)])
  have "IsIndexBlob (MarshalIndent (encodeIndex ?x))" by (rule IsIndexBlob_index [OF x]) (simp add: imageIndex_def)
  moreover obtain a where a: "a \<in> set arches" "goarch \<in> set arches \<longrightarrow> a = goarch"
      "SelectPlatformManifest goarch ?x '''' = Some (imageEntry sha cfgJSON layers ann a)"
    using select_among [where f = "imageEntry sha cfgJSON layers ann" and g = "imageEntry sha cfgJSON layers ann" and idx = ?x, OF ok(3)]
    by (auto simp: imageIndex_def imageEntry_def)
  moreover have "stored sha root fs' (imageManifestBlob sha cfgJSON layers ann a)" "smallFile (imageConfigBlob layers a)"
    using st(2) small(1) a(1) by (auto simp: archBlobs_def list_all_iff)
  then have "readVerifiedBlob sha (BlobPath root) fs' (imageEntry sha cfgJSON layers ann a) = Inr (imageManifestBlob sha cfgJSON layers ann a)"
      "parseManifest (imageManifestBlob sha cfgJSON layers ann a) = Some (imageManifest sha cfgJSON layers ann a)"
    using parseManifest_print [OF imageManifest_ok [OF ok(2)]]
    by (auto intro!: readVerified_stored simp: imageEntry_def layerDesc_def imageManifestBlob_def)
  moreover have "d_Digest (imageEntry sha cfgJSON layers ann a) = digestOf sha (imageManifestBlob sha cfgJSON layers ann a)"
    by (simp add: imageEntry_def)
  ultimately have "readManifestFollowingIndex sha goarch root fs' desc =
      Inr (imageManifest sha cfgJSON layers ann a, digestOf sha (imageManifestBlob sha cfgJSON layers ann a))"
    using readVerified_manifestDesc [OF st(1)] parseIndex_print [OF x]
    by (simp add: readManifestFollowingIndex_def followIndex_def desc)
  then show ?thesis
    using tagged_index [OF d(1)] find_tagged [OF d(2)] a by (intro bexI [of _ a]) (simp_all add: ResolveManifestByRef_def fs')
qed

section \<open>Staging the layers of an image\<close>

definition diskWorks :: "disk \<Rightarrow> bool" where
  "diskWorks dk \<longleftrightarrow> (\<forall>p. dk_write dk p = Written \<and> dk_mkdir dk p)"

lemma works_simps [simp]:
  "diskWorks dk \<Longrightarrow> writeF dk err p b fs = (Inr (), fs(Clean p \<mapsto> b))" "diskWorks dk \<Longrightarrow> mkdirF dk err p fs = (Inr (), fs)"
  by (simp_all add: diskWorks_def writeF_def mkdirF_def)

lemma fsm_run [simp]:
  "thenF m k fs = (case m fs of (Inl e, fs1) \<Rightarrow> (Inl e, fs1) | (Inr _, fs1) \<Rightarrow> k fs1)"
  "retF a fs = (Inr a, fs)" "liftF r fs = (r, fs)" "getF f fs = (Inr (f fs), fs)"
  by (simp_all add: thenF_def bindF_def retF_def liftF_def getF_def)

text \<open>The paths below a directory, by their components.\<close>

lemma Clean_plain: "plainName n \<Longrightarrow> Clean n = n"
proof -
  assume n: "plainName n"
  have "\<not> IsAbs n" using n by (cases n) (auto simp: plainName_def IsAbs_def HasPrefix_def)
  moreover have "clean_comps n = [n]"
    using n SplitOn_no_sep [of slash n] clean_stack_plain_id [of "[n]" False "[]"] calculation
    by (simp add: clean_comps_def plainName_def plain_comp_def)
  ultimately show ?thesis using n by (simp add: Clean_comps render_path_def plainName_def)
qed

lemma plain_comps: "plainName n \<Longrightarrow> clean_comps (Clean (PathJoin [d, n])) = clean_comps d @ [n]"
  using join_plain [of "[n]" d] clean_comps_render [of "IsAbs d" "clean_comps d @ [n]"] by simp

lemma inside_plain: "d \<noteq> '''' \<Longrightarrow> plainName n \<Longrightarrow> inside d (PathJoin [d, n])"
  by (rule inside_join) (simp_all add: plainName_comp)

lemma join_not_Nil: "d \<noteq> '''' \<Longrightarrow> plainName n \<Longrightarrow> PathJoin [d, n] \<noteq> ''''"
  by (rule PathJoin_not_Nil) (simp_all add: plainName_comp)

definition unpacked :: "string \<Rightarrow> (string \<times> bytes) list \<Rightarrow> fsys \<Rightarrow> fsys" where
  "unpacked dir files fs = foldl (\<lambda>fs (n, c). fs(Clean (PathJoin [dir, n]) \<mapsto> c)) fs files"

lemma unpackEntries_works:
  assumes "diskWorks dk" and "dir \<noteq> ''''" and "list_all (plainName \<circ> fst) files"
  shows "unpackEntries dk dir (map regEntry files) fs = (Inr (), unpacked dir files fs)"
  using assms(3)
proof (induction files arbitrary: fs)
  case (Cons f files)
  obtain n c where f: "f = (n, c)" by fastforce
  have n: "plainName n" using Cons.prems f by simp
  then have "\<not> relEscapes (Rel dir (PathJoin [dir, n]))" "n \<noteq> ''.''" "Clean n = n"
    using inside_plain [OF assms(2)] by (simp_all add: relEscapes_iff Clean_plain plainName_def)
  then show ?case using Cons assms(1) by (simp add: f regEntry_def unpacked_def Let_def)
qed (simp add: unpacked_def)

lemma unpacked_other: "p \<notin> (\<lambda>n. Clean (PathJoin [dir, n])) ` fst ` set files \<Longrightarrow> unpacked dir files fs p = fs p"
  unfolding unpacked_def by (induction files arbitrary: fs) auto

lemma unpacked_file:
  assumes "list_all (plainName \<circ> fst) files" and "distinct (map fst files)" and "(n, c) \<in> set files"
  shows "fileAt (unpacked dir files fs) (PathJoin [dir, n]) = Some c"
  using assms
proof (induction files arbitrary: fs)
  case (Cons f files)
  show ?case
  proof (cases "(n, c) \<in> set files")
    case True
    then show ?thesis using Cons by (simp add: unpacked_def case_prod_unfold)
  next
    case False
    then have f: "f = (n, c)" using Cons.prems(3) by simp
    have ne: "Clean (PathJoin [dir, n]) \<noteq> Clean (PathJoin [dir, m])" if "m \<in> fst ` set files" for m
    proof
      assume "Clean (PathJoin [dir, n]) = Clean (PathJoin [dir, m])"
      then have "clean_comps dir @ [n] = clean_comps dir @ [m]"
        using plain_comps [of n dir] plain_comps [of m dir] that Cons.prems(1) by (auto simp: f list_all_iff)
      then show False using that Cons.prems(2) f by auto
    qed
    have "unpacked dir (f # files) fs = unpacked dir files (fs(Clean (PathJoin [dir, n]) \<mapsto> c))" by (simp add: unpacked_def f)
    moreover have "Clean (PathJoin [dir, n]) \<notin> (\<lambda>n. Clean (PathJoin [dir, n])) ` fst ` set files" using ne by blast
    ultimately show ?thesis by (simp add: fileAt_def unpacked_other)
  qed
qed simp

text \<open>A staging directory that holds no blob.\<close>

definition stageSafe :: "blob_path \<Rightarrow> string \<Rightarrow> bool" where
  "stageSafe bp dir \<longleftrightarrow> (\<forall>d q p. sha256Digest d \<longrightarrow> bp d = Some q \<longrightarrow> inside dir p \<longrightarrow> Clean q \<noteq> Clean p)"

lemma stageSafe_read:
  assumes "stageSafe bp dir" and "inside dir p" and "sha256Digest d"
  shows "ReadBlob bp (fs(Clean p \<mapsto> b)) d = ReadBlob bp fs d"
  using assms unfolding stageSafe_def ReadBlob_def fileAt_def by (auto split: option.split)

lemma stageSafe_unpacked:
  assumes "stageSafe bp dir" and "inside dir sub" and "sub \<noteq> ''''" and "list_all (plainName \<circ> fst) files" and "sha256Digest d"
  shows "ReadBlob bp (unpacked sub files fs) d = ReadBlob bp fs d"
  using assms(4)
proof (induction files arbitrary: fs)
  case (Cons f files)
  have "inside dir (PathJoin [sub, fst f])" using inside_trans [OF assms(2) inside_plain [OF assms(3)]] Cons.prems by simp
  then show ?case using Cons stageSafe_read [OF assms(1) _ assms(5)] by (simp add: unpacked_def case_prod_unfold)
qed (simp add: unpacked_def)

text \<open>A layer whose blob decompresses to the given archive.\<close>

definition layerHolds :: "codec \<Rightarrow> blob_path \<Rightarrow> fsys \<Rightarrow> Descriptor \<Rightarrow> bytes \<Rightarrow> bool" where
  "layerHolds cx bp fs l b \<longleftrightarrow>
     sha256Digest (d_Digest l) \<and> (\<exists>raw. ReadBlob bp fs (d_Digest l) = Inr raw \<and> cx_gunzip cx raw = Some (b, False))"

fun stagedFiles :: "string \<Rightarrow> string \<Rightarrow> nat \<Rightarrow> bytes list \<Rightarrow> fsys \<Rightarrow> fsys" where
  "stagedFiles dir pre i [] fs = fs"
| "stagedFiles dir pre i (b # bs) fs = stagedFiles dir pre (i + 1) bs (fs(Clean (stagedTar dir pre i) \<mapsto> b))"

lemma stagedName_plain: "slash \<notin> set pre \<Longrightarrow> plainName (pre @ ''-'' @ Itoa (int i) @ ''.tar'')"
  using Itoa_chars [of slash "int i"] by (auto simp: plainName_def is_digit_def append_eq_Cons_conv)

lemma stagedTar_comps: "slash \<notin> set pre \<Longrightarrow> clean_comps (Clean (stagedTar dir pre i)) = clean_comps dir @ [pre @ ''-'' @ Itoa (int i) @ ''.tar'']"
  unfolding stagedTar_def by (rule plain_comps [OF stagedName_plain])

lemma stagedTar_inj: "slash \<notin> set pre \<Longrightarrow> Clean (stagedTar dir pre i) = Clean (stagedTar dir pre j) \<longleftrightarrow> i = j"
proof -
  assume p: "slash \<notin> set pre"
  have "i = j" if "Clean (stagedTar dir pre i) = Clean (stagedTar dir pre j)"
  proof -
    have "clean_comps dir @ [pre @ ''-'' @ Itoa (int i) @ ''.tar''] = clean_comps dir @ [pre @ ''-'' @ Itoa (int j) @ ''.tar'']"
      using that stagedTar_comps [OF p] by metis
    then show ?thesis using Itoa_inj [of "int i" "int j"] by simp
  qed
  then show ?thesis by auto
qed

lemma upt_next: "[i..<i + length (b # bs)] = i # [i + 1..<(i + 1) + length bs]"
  by (simp add: upt_conv_Cons del: upt_Suc)

lemma stagedFiles_other: "(\<And>j. i \<le> j \<Longrightarrow> p \<noteq> Clean (stagedTar dir pre j)) \<Longrightarrow> stagedFiles dir pre i bs fs p = fs p"
  by (induction bs arbitrary: i fs) simp_all

lemma stagedFiles_files:
  assumes "slash \<notin> set pre"
  shows "map (fileAt (stagedFiles dir pre i bs fs)) (map (stagedTar dir pre) [i..<i + length bs]) = map Some bs"
proof (induction bs arbitrary: i fs)
  case (Cons b bs)
  have "stagedFiles dir pre (i + 1) bs (fs(Clean (stagedTar dir pre i) \<mapsto> b)) (Clean (stagedTar dir pre i)) = Some b"
    by (subst stagedFiles_other) (use assms in \<open>auto simp: stagedTar_inj\<close>)
  then show ?case using Cons.IH [of "i + 1"] by (simp add: upt_next fileAt_def del: upt_Suc list.size)
qed simp

lemma stageLayerLoop_works:
  assumes "diskWorks dk" and safe: "stageSafe bp dir" and "dir \<noteq> ''''" and pre: "slash \<notin> set pre" and "list_all2 (layerHolds cx bp fs) ls bs"
  shows "stageLayerLoop cx dk bp dir pre i ls fs = (Inr (map (stagedTar dir pre) [i..<i + length bs]), stagedFiles dir pre i bs fs)"
  using assms(5)
proof (induction bs arbitrary: ls i fs rule: list.induct)
  case (Cons b bs)
  obtain l ls' where ls: "ls = l # ls'" "layerHolds cx bp fs l b" "list_all2 (layerHolds cx bp fs) ls' bs"
    using Cons.prems by (auto simp: list_all2_Cons2)
  obtain raw where raw: "ReadBlob bp fs (d_Digest l) = Inr raw" "cx_gunzip cx raw = Some (b, False)" using ls(2) by (auto simp: layerHolds_def)
  have i: "inside dir (stagedTar dir pre i)" unfolding stagedTar_def by (rule inside_plain [OF assms(3) stagedName_plain [OF pre]])
  define fs1 where "fs1 = fs(Clean (stagedTar dir pre i) \<mapsto> b)"
  have g: "gunzipToFile cx dk bp (d_Digest l) (stagedTar dir pre i) fs = (Inr (), fs1)"
    using raw assms(1) by (simp add: gunzipToFile_def bindF_def readBlobF_def fs1_def)
  have "list_all2 (layerHolds cx bp fs1) ls' bs"
    unfolding fs1_def using ls(3) by (rule list_all2_mono) (use stageSafe_read [OF safe i] in \<open>auto simp: layerHolds_def\<close>)
  then have ih: "stageLayerLoop cx dk bp dir pre (i + 1) ls' fs1 = (Inr (map (stagedTar dir pre) [i + 1..<(i + 1) + length bs]), stagedFiles dir pre (i + 1) bs fs1)"
    by (rule Cons.IH)
  show ?case
    unfolding ls(1) upt_next stagedFiles.simps stageLayerLoop.simps fs1_def [symmetric] using ih by (simp add: g bindF_def del: upt_Suc)
qed simp

lemma stageLayerTars_works:
  assumes "diskWorks dk" and "stageSafe bp dir" and "dir \<noteq> ''''" and "slash \<notin> set pre" and "list_all2 (layerHolds cx bp fs) ls bs"
  shows "stageLayerTars cx dk bp ls dir pre fs = (Inr (map (stagedTar dir pre) [0..<length bs]), stagedFiles dir pre 0 bs fs)"
  using stageLayerLoop_works [OF assms, of 0] assms(1,5) by (auto simp: stageLayerTars_def)

lemma stageSafe_staged:
  assumes "stageSafe bp dir" and "dir \<noteq> ''''" and "slash \<notin> set pre" and "sha256Digest d"
  shows "ReadBlob bp (stagedFiles dir pre i bs fs) d = ReadBlob bp fs d"
proof (induction bs arbitrary: i fs)
  case (Cons b bs)
  have "inside dir (stagedTar dir pre i)" unfolding stagedTar_def by (rule inside_plain [OF assms(2) stagedName_plain [OF assms(3)]])
  then have "ReadBlob bp (fs(Clean (stagedTar dir pre i) \<mapsto> b)) d = ReadBlob bp fs d" by (rule stageSafe_read [OF assms(1) _ assms(4)])
  then show ?case unfolding stagedFiles.simps Cons .
qed simp

lemma extractGzTar_works:
  assumes "diskWorks dk" and "dir \<noteq> ''''" and "layerHolds cx bp fs l b" and "cx_untar cx b = (map regEntry files, False)"
    and "list_all (plainName \<circ> fst) files"
  shows "extractGzTar cx dk bp (d_Digest l) dir fs = (Inr (), unpacked dir files fs)"
  using assms unpackEntries_works [OF assms(1,2,5)] by (auto simp: extractGzTar_def bindF_def readBlobF_def layerHolds_def)

text \<open>An image whose layers hold the given archives resolves to files with the given contents.\<close>

lemma resolve_image_files:
  assumes dk: "diskWorks dk" and safe: "stageSafe bp dir" and dir: "dir = runnableStageDir sha stageEnv tmp digest" "dir \<noteq> ''''"
    and cfg: "RunnableConfig man = Inr cfg" "plainName (cfg_MainJar cfg)"
    and app: "RunnableAppLayer man = Inr l" "layerHolds cx bp fs l appTar" "cx_untar cx appTar = (map regEntry files, False)"
    and files: "list_all (plainName \<circ> fst) files" "distinct (map fst files)" "(cfg_MainJar cfg, jar) \<in> set files"
    and cds: "case cfg_CDS cfg of None \<Rightarrow> True | Some cds \<Rightarrow> cds_Archive cds = '''' \<or> (cds_Archive cds, cdsB) \<in> set files"
    and cp: "list_all2 (layerHolds cx bp fs) (RunnableClasspathLayers man) cbs"
    and mp: "list_all2 (layerHolds cx bp fs) (RunnableModulepathLayers man) mbs"
  shows "\<exists>rb fs'. ResolveRunnableBlobs sha cx dk stageEnv tmp bp man digest fs = (Inr rb, fs') \<and> rb_Config rb = cfg \<and>
    fileAt fs' (rb_JarHostPath rb) = Some jar \<and> map (fileAt fs') (rb_ClasspathHostPaths rb) = map Some cbs \<and>
    map (fileAt fs') (rb_ModulepathHostPaths rb) = map Some mbs \<and>
    (case cfg_CDS cfg of None \<Rightarrow> rb_CDSHostPath rb = ''''
     | Some cds \<Rightarrow> if cds_Archive cds = '''' then rb_CDSHostPath rb = '''' else fileAt fs' (rb_CDSHostPath rb) = Some cdsB)"
proof -
  define appDir where "appDir = PathJoin [dir, ''app'']"
  define fs1 where "fs1 = unpacked appDir files fs"
  define fs2 where "fs2 = stagedFiles dir ''cp'' 0 cbs fs1"
  define fs3 where "fs3 = stagedFiles dir ''mp'' 0 mbs fs2"
  define archive where "archive = (case cfg_CDS cfg of Some cds \<Rightarrow> cds_Archive cds | None \<Rightarrow> '''')"
  have pn: "plainName ''app''" and sl: "slash \<notin> set ''cp''" "slash \<notin> set ''mp''" by (simp_all add: plainName_def)
  have ad: "appDir \<noteq> ''''" "inside dir appDir" "clean_comps appDir = clean_comps dir @ [''app'']"
    using join_not_Nil [OF dir(2) pn] inside_plain [OF dir(2) pn] plain_comps [OF pn, of dir] by (simp_all add: appDir_def)
  have e: "extractGzTar cx dk bp (d_Digest l) appDir fs = (Inr (), fs1)"
    unfolding fs1_def by (rule extractGzTar_works [OF dk ad(1) app(2,3) files(1)])
  have r1: "ReadBlob bp fs1 d = ReadBlob bp fs d" "ReadBlob bp fs2 d = ReadBlob bp fs d" if "sha256Digest d" for d
    using stageSafe_unpacked [OF safe ad(2,1) files(1) that] stageSafe_staged [OF safe dir(2) sl(1) that] by (simp_all add: fs1_def fs2_def)
  have h: "list_all2 (layerHolds cx bp fs1) (RunnableClasspathLayers man) cbs" "list_all2 (layerHolds cx bp fs2) (RunnableModulepathLayers man) mbs"
    using cp mp by (auto elim!: list_all2_mono simp: layerHolds_def r1)
  have s: "stageLayerTars cx dk bp (RunnableClasspathLayers man) dir ''cp'' fs1 = (Inr (map (stagedTar dir ''cp'') [0..<length cbs]), fs2)"
      "stageLayerTars cx dk bp (RunnableModulepathLayers man) dir ''mp'' fs2 = (Inr (map (stagedTar dir ''mp'') [0..<length mbs]), fs3)"
    using stageLayerTars_works [OF dk safe dir(2) sl(1) h(1)] stageLayerTars_works [OF dk safe dir(2) sl(2) h(2)] by (simp_all add: fs2_def fs3_def)
  have ne: "Clean (PathJoin [appDir, n]) \<noteq> Clean (stagedTar dir pre j)" if "plainName n" "slash \<notin> set pre" for n pre j
    using plain_comps [OF that(1), of appDir] stagedTar_comps [OF that(2), of dir j] ad(3) by (metis append.assoc append_Cons append_Nil last_snoc list.inject not_Cons_self2 same_append_eq)
  have cm: "Clean (stagedTar dir ''cp'' i) \<noteq> Clean (stagedTar dir ''mp'' j)" for i j
  proof
    assume "Clean (stagedTar dir ''cp'' i) = Clean (stagedTar dir ''mp'' j)"
    then have "clean_comps dir @ [''cp'' @ ''-'' @ Itoa (int i) @ ''.tar''] = clean_comps dir @ [''mp'' @ ''-'' @ Itoa (int j) @ ''.tar'']"
      using stagedTar_comps [OF sl(1), of dir i] stagedTar_comps [OF sl(2), of dir j] by metis
    then show False by simp
  qed
  have keep: "fileAt fs3 (PathJoin [appDir, n]) = fileAt fs1 (PathJoin [appDir, n])" if "plainName n" for n
    using ne [OF that sl(1)] ne [OF that sl(2)] by (simp add: fileAt_def fs3_def fs2_def stagedFiles_other)
  have pl: "plainName n" if "(n, c) \<in> set files" for n c using files(1) that by (auto simp: list_all_iff)
  have f1: "fileAt fs1 (PathJoin [appDir, n]) = Some c" if "(n, c) \<in> set files" for n c
    unfolding fs1_def by (rule unpacked_file [OF files(1,2) that])
  have arch: "archive \<noteq> '''' \<Longrightarrow> (archive, cdsB) \<in> set files" using cds by (auto simp: archive_def split: option.splits)
  let ?rb = "\<lparr>rb_Config = cfg, rb_JarHostPath = PathJoin [appDir, cfg_MainJar cfg], rb_ClasspathHostPaths = map (stagedTar dir ''cp'') [0..<length cbs],
     rb_ModulepathHostPaths = map (stagedTar dir ''mp'') [0..<length mbs],
     rb_CDSHostPath = (if archive = '''' then '''' else PathJoin [appDir, archive]), rb_Format = ''image''\<rparr>"
  have mj: "cfg_MainJar cfg \<noteq> ''''" using cfg(2) by (simp add: plainName_def)
  have run: "ResolveRunnableBlobs sha cx dk stageEnv tmp bp man digest fs = (Inr ?rb, fs3)"
    using cfg(1) app(1) e s mj f1 [OF files(3)] f1 [OF arch]
    by (simp add: ResolveRunnableBlobs_def Let_def dir(1) [symmetric] appDir_def [symmetric] archive_def [symmetric] bindF_def requireFile_def)
  have c2: "map (fileAt fs3) (map (stagedTar dir ''cp'') [0..<length cbs]) = map (fileAt fs2) (map (stagedTar dir ''cp'') [0..<length cbs])"
    using cm by (simp add: fs3_def fileAt_def stagedFiles_other)
  have c3: "map (fileAt fs3) (map (stagedTar dir ''cp'') [0..<length cbs]) = map Some cbs"
      "map (fileAt fs3) (map (stagedTar dir ''mp'') [0..<length mbs]) = map Some mbs"
    unfolding c2 using stagedFiles_files [OF sl(1), of dir 0 cbs fs1] stagedFiles_files [OF sl(2), of dir 0 mbs fs2]
    by (simp_all only: fs2_def fs3_def add_0)
  show ?thesis
    using run keep [OF cfg(2)] f1 [OF files(3)] c3 keep [OF pl [OF arch]] f1 [OF arch]
    by (intro exI [of _ ?rb] exI [of _ fs3]) (auto simp: archive_def split: option.split)
qed

section \<open>Round trip of an image\<close>

lemma hex64_digest: "hex64 (sha b) \<Longrightarrow> sha256Digest (digestOf sha b)"
  by (auto simp: sha256Digest_def digestOf_def)

lemma layer_roles [simp]: "LayerRoleApp \<noteq> LayerRoleClasspath" "LayerRoleApp \<noteq> LayerRoleModulepath" "LayerRoleClasspath \<noteq> LayerRoleModulepath"
  "LayerRoleClasspath \<noteq> LayerRoleApp" "LayerRoleModulepath \<noteq> LayerRoleApp" "LayerRoleModulepath \<noteq> LayerRoleClasspath"
  by (simp_all add: oci_names)

lemma role_imageLayer [simp]: "alget (d_Annotations (rl_Desc (imageLayer sha cx role title b))) LayerRoleAnnotation = role"
  by (simp add: imageLayer_def layerAnnotations_def alget_def mget_def)

lemma imageLayer_simps [simp]:
  "smallFile (cx_gzip cx b) \<Longrightarrow> descriptor_ok (rl_Desc (imageLayer sha cx role title b))"
  "d_Digest (rl_Desc (imageLayer sha cx role title b)) = digestOf sha (cx_gzip cx b)"
proof -
  have "canonical (layerAnnotations role title)" by (simp add: layerAnnotations_def canonical_def oci_names)
  then show "smallFile (cx_gzip cx b) \<Longrightarrow> descriptor_ok (rl_Desc (imageLayer sha cx role title b))"
    by (simp add: imageLayer_def descriptor_ok_def layerDesc_def smallFile_def in_int64_def min_int64_def)
qed (simp add: imageLayer_def)

lemma filter_roles:
  "filter (\<lambda>l. alget (d_Annotations l) LayerRoleAnnotation = role) (map rl_Desc (map (\<lambda>(t, b). imageLayer sha cx role' (Base t) b) kvs)) =
     (if role = role' then map rl_Desc (map (\<lambda>(t, b). imageLayer sha cx role' (Base t) b) kvs) else [])"
  by (induction kvs) auto

definition isManaged :: "runnableLayer \<Rightarrow> bool" where
  "isManaged l \<longleftrightarrow> alget (d_Annotations (rl_Desc l)) LayerRoleAnnotation = LayerRoleClasspath"

lemma filter_managed:
  "list_all isManaged ls \<Longrightarrow> filter (\<lambda>l. alget (d_Annotations l) LayerRoleAnnotation = role) (map rl_Desc ls) =
     (if role = LayerRoleClasspath then map rl_Desc ls else [])"
  by (induction ls) (auto simp: isManaged_def)

lemma image_layers_by_role:
  assumes "list_all isManaged managed"
  shows "RunnableAppLayer (imageManifest sha cj (imageLayers sha cx jn appTar cps mps @ managed) ann a) = Inr (rl_Desc (imageLayer sha cx LayerRoleApp jn appTar))"
    "RunnableClasspathLayers (imageManifest sha cj (imageLayers sha cx jn appTar cps mps @ managed) ann a) =
       map rl_Desc (map (\<lambda>(t, b). imageLayer sha cx LayerRoleClasspath (Base t) b) cps) @ map rl_Desc managed"
    "RunnableModulepathLayers (imageManifest sha cj (imageLayers sha cx jn appTar cps mps @ managed) ann a) =
       map rl_Desc (map (\<lambda>(t, b). imageLayer sha cx LayerRoleModulepath (Base t) b) mps)"
  unfolding RunnableAppLayer_def RunnableClasspathLayers_def RunnableModulepathLayers_def layersByRole_def imageManifest_def imageLayers_def
  using filter_managed [OF assms] by (simp_all add: filter_roles del: map_map)

lemma RunnableConfig_image:
  assumes "config_ok cfg" and "Validate cfg = None" and "JVMConfigAnnotation \<notin> fst ` set ann"
  shows "RunnableConfig (imageManifest sha (encodeConfigCompact cfg) layers ann a) = Inr cfg"
    "IsRunnableImage (imageManifest sha (encodeConfigCompact cfg) layers ann a)"
proof -
  have ne: "encodeConfigCompact cfg \<noteq> ''''" by (simp add: encodeConfigCompact_def Marshal_def encodeConfig_def)
  have a: "alget (goMap ((JVMConfigAnnotation, encodeConfigCompact cfg) # ann)) JVMConfigAnnotation = encodeConfigCompact cfg"
    by (rule alget_goMap_head [OF assms(3)])
  show "RunnableConfig (imageManifest sha (encodeConfigCompact cfg) layers ann a) = Inr cfg"
    "IsRunnableImage (imageManifest sha (encodeConfigCompact cfg) layers ann a)"
    using ne a DecodeConfigBytes_encode(2) [OF assms(1,2)]
    by (simp_all add: RunnableConfig_def IsRunnableImage_def imageManifest_def encodeConfigCompact_def)
qed

text \<open>The staging directories of images are kept apart from the blobs of the layout.\<close>

definition stageApart :: "(bytes \<Rightarrow> string) \<Rightarrow> string \<Rightarrow> string \<Rightarrow> string \<Rightarrow> bool" where
  "stageApart sha stageEnv tmp root \<longleftrightarrow>
     (\<forall>d p. sha256Digest d \<longrightarrow> inside (runnableStageDir sha stageEnv tmp d) p \<longrightarrow> outsideBlobs root p)"

lemma join_plain_not_Nil: "plainName n \<Longrightarrow> PathJoin [d, n] \<noteq> ''''"
  using join_plain(1) [of "[n]" d] by (auto simp: render_path_def JoinWith_eq_Nil plainName_def)

lemma stageDir_digest:
  assumes "hex64 h" shows "runnableStageDir sha stageEnv tmp (''sha256:'' @ h) \<noteq> ''''"
proof -
  have "CutAt (CHR '':'') (''sha256:'' @ h) = Some (''sha256'', h)" by simp
  then show ?thesis using join_plain_not_Nil [OF hex64_plain [OF assms]] by (simp add: runnableStageDir_def Let_def)
qed

lemma stageApart_safe:
  assumes "stageApart sha stageEnv tmp root" and "sha256Digest d"
  shows "stageSafe (BlobPath root) (runnableStageDir sha stageEnv tmp d)"
  unfolding stageSafe_def
proof (intro allI impI)
  fix d' q p assume d': "sha256Digest d'" "BlobPath root d' = Some q" "inside (runnableStageDir sha stageEnv tmp d) p"
  obtain h where h: "d' = ''sha256:'' @ h" "hex64 h" using d'(1) unfolding sha256Digest_def by blast
  have "q = PathJoin [blobsDir root, h]" using d'(2) BlobPath_digest [of root h] unfolding h(1) by simp
  moreover have "outsideBlobs root p" using assms d'(3) unfolding stageApart_def by blast
  ultimately show "Clean q \<noteq> Clean p" using outside_not_blob [OF _ hex64_plain [OF h(2)], of root p] by (auto simp: blobKey_def)
qed

lemma stored_layerHolds:
  assumes "codec_ok cx" and sha: "\<And>b. hex64 (sha b)" and "stored sha root fs (cx_gzip cx b)" and "d_Digest d = digestOf sha (cx_gzip cx b)"
  shows "layerHolds cx (BlobPath root) fs d b"
  using assms blob_reads(1) [OF assms(3)] hex64_digest [of sha "cx_gzip cx b"] by (auto simp: layerHolds_def codec_ok_def)

definition archiveNames :: "JVMConfig \<Rightarrow> bool" where
  "archiveNames cfg \<longleftrightarrow> plainName (cfg_MainJar cfg) \<and>
     (case cfg_CDS cfg of None \<Rightarrow> True | Some c \<Rightarrow> plainName (cds_Archive c) \<and> cds_Archive c \<noteq> cfg_MainJar cfg)"

lemma appFiles_ok:
  assumes n: "archiveNames cfg" and p: "validateCDSPairing cfg cdsPath = None" and cds: "filesRead fs (cdsPaths cdsPath) cds"
  shows "list_all (plainName \<circ> fst) (appFilesOf cfg jarPath jar cds)" "distinct (map fst (appFilesOf cfg jarPath jar cds))"
    "(cfg_MainJar cfg, jar) \<in> set (appFilesOf cfg jarPath jar cds)"
    "case cfg_CDS cfg of None \<Rightarrow> cdsPath = ''''
     | Some c \<Rightarrow> cdsPath \<noteq> '''' \<and> (cds_Archive c, the (fileAt fs cdsPath)) \<in> set (appFilesOf cfg jarPath jar cds) \<and> fileAt fs cdsPath \<noteq> None"
proof -
  have m: "mainJarName cfg jarPath = cfg_MainJar cfg" using n by (simp add: archiveNames_def plainName_def mainJarName_def)
  have c: "cds = (if cdsPath = '''' then [] else [(cdsPath, the (fileAt fs cdsPath))])" "cdsPath \<noteq> '''' \<Longrightarrow> fileAt fs cdsPath \<noteq> None"
    using cds by (auto simp: filesRead_def cdsPaths_def map_eq_Cons_conv split: if_splits)
  have e: "cdsEntryName cfg cdsPath = cds_Archive x" if "cfg_CDS cfg = Some x" for x
    using that n by (simp add: cdsEntryName_def archiveNames_def plainName_def)
  have pr: "case cfg_CDS cfg of None \<Rightarrow> cdsPath = '''' | Some x \<Rightarrow> cdsPath \<noteq> ''''"
    using p by (auto simp: validateCDSPairing_def split: if_splits option.splits)
  show "list_all (plainName \<circ> fst) (appFilesOf cfg jarPath jar cds)" "distinct (map fst (appFilesOf cfg jarPath jar cds))"
    "(cfg_MainJar cfg, jar) \<in> set (appFilesOf cfg jarPath jar cds)"
    "case cfg_CDS cfg of None \<Rightarrow> cdsPath = ''''
     | Some c \<Rightarrow> cdsPath \<noteq> '''' \<and> (cds_Archive c, the (fileAt fs cdsPath)) \<in> set (appFilesOf cfg jarPath jar cds) \<and> fileAt fs cdsPath \<noteq> None"
    using n pr e c by (auto simp: appFilesOf_def m archiveNames_def split: option.splits)
qed

lemma targetArches_not_Nil [simp]: "targetArches cfg \<noteq> []"
  by (auto simp: targetArches_def defaultRunnableArches_def dest: arg_cong [of _ _ length])

lemma layerHolds_all:
  assumes "codec_ok cx" and "\<And>b. hex64 (sha b)" and "list_all (stored sha root fs) (map (cx_gzip cx) (map snd kvs))"
  shows "list_all2 (layerHolds cx (BlobPath root) fs) (map rl_Desc (map (\<lambda>(t, b). imageLayer sha cx role (Base t) b) kvs)) (map snd kvs)"
  using assms(3)
proof (induction kvs)
  case (Cons kv kvs)
  then show ?case using stored_layerHolds [where sha = sha, OF assms(1,2)] by (simp add: case_prod_unfold)
qed simp

text \<open>The files of a resolved application.\<close>

definition holdsFiles :: "fsys \<Rightarrow> fsys \<Rightarrow> ResolvedBlobs \<Rightarrow> string \<Rightarrow> string list \<Rightarrow> string list \<Rightarrow> string \<Rightarrow> bool" where
  "holdsFiles fs fs' rb jarPath cpTars mpTars cdsPath \<longleftrightarrow>
     fileAt fs' (rb_JarHostPath rb) = fileAt fs jarPath \<and>
     map (fileAt fs') (rb_ClasspathHostPaths rb) = map (fileAt fs) cpTars \<and>
     map (fileAt fs') (rb_ModulepathHostPaths rb) = map (fileAt fs) mpTars \<and>
     (if cdsPath = '''' then rb_CDSHostPath rb = '''' else fileAt fs' (rb_CDSHostPath rb) = fileAt fs cdsPath)"

lemma filesRead_map: "filesRead fs ps kvs \<Longrightarrow> map Some (map snd kvs) = map (fileAt fs) ps"
  by (force simp: filesRead_def)

lemma tagged_image_resolves:
  fixes sha cx root cfg jarPath appTar cps mps managed ann desc fs fs'
  defines "L \<equiv> imageLayers sha cx (mainJarName cfg jarPath) appTar cps mps @ managed"
  defines "bs \<equiv> imageBlobs sha cx cfg appTar cps mps L ann"
  assumes sha: "\<And>b. hex64 (sha b)" and cx: "codec_ok cx" and cfg: "config_ok cfg" "Validate cfg = None" "archiveNames cfg"
    and pair: "validateCDSPairing cfg cdsPath = None"
    and files: "fileAt fs jarPath = Some jar" "filesRead fs cpTars cps" "filesRead fs mpTars mps" "filesRead fs (cdsPaths cdsPath) cds"
    and tar: "cx_tar cx (appFilesOf cfg jarPath jar cds) = Some appTar"
    and ann: "canonical ann" "JVMConfigAnnotation \<notin> fst ` set ann"
    and mg: "list_all isManaged managed" "layersOk managed" "list_all2 (layerHolds cx (BlobPath root) fs') (map rl_Desc managed) mbs"
    and inj: "inj_on sha (set bs)" and small: "list_all smallFile bs"
    and desc: "desc = manifestDesc sha OCIImageIndexMediaType '''' ref (MarshalIndent (encodeIndex (imageIndex sha (encodeConfigCompact cfg) L ann (targetArches cfg))))"
    and fs': "fs' = tagged sha root bs desc fs"
    and dk: "diskWorks dk" and stage: "stageApart sha stageEnv tmp root"
  shows "\<exists>arch rb fs''. ResolveManifestByRef sha goarch root fs' ref =
      Inr (imageManifest sha (encodeConfigCompact cfg) L ann arch, digestOf sha (imageManifestBlob sha (encodeConfigCompact cfg) L ann arch)) \<and>
    ResolveBlobs sha cx dk goarch stageEnv tmp root ref fs' = (Inr rb, fs'') \<and> rb_Config rb = cfg \<and>
    fileAt fs'' (rb_JarHostPath rb) = fileAt fs jarPath \<and>
    map (fileAt fs'') (rb_ClasspathHostPaths rb) = map (fileAt fs) cpTars @ map Some mbs \<and>
    map (fileAt fs'') (rb_ModulepathHostPaths rb) = map (fileAt fs) mpTars \<and>
    (if cdsPath = '''' then rb_CDSHostPath rb = '''' else fileAt fs'' (rb_CDSHostPath rb) = fileAt fs cdsPath)"
proof -
  let ?cj = "encodeConfigCompact cfg" and ?ar = "targetArches cfg"
  have plain: "\<And>b. plainName (sha b)" using hex64_plain sha by blast
  have st: "list_all (stored sha root fs') bs" using tagged_blob [OF plain _ inj] by (simp add: fs' list_all_iff)
  have sb: "stored sha root fs' (MarshalIndent (encodeIndex (imageIndex sha ?cj L ann ?ar)))" "list_all (stored sha root fs') (archBlobs sha ?cj L ann ?ar)"
      "stored sha root fs' (cx_gzip cx appTar)" "list_all (stored sha root fs') (map (cx_gzip cx) (map snd cps))" "list_all (stored sha root fs') (map (cx_gzip cx) (map snd mps))"
    using st by (simp_all add: bs_def imageBlobs_def)
  have sm: "list_all smallFile (archBlobs sha ?cj L ann ?ar)" "smallFile (MarshalIndent (encodeIndex (imageIndex sha ?cj L ann ?ar)))"
      "smallFile (cx_gzip cx appTar)" "list_all smallFile (map (cx_gzip cx) (map snd cps))" "list_all smallFile (map (cx_gzip cx) (map snd mps))"
    using small by (simp_all add: bs_def imageBlobs_def)
  have lo: "layersOk L" using mg(2) sm(3-5) by (auto simp: L_def layersOk_def imageLayers_def list_all_iff)
  obtain a where a: "ResolveManifestByRef sha goarch root fs' ref = Inr (imageManifest sha ?cj L ann a, digestOf sha (imageManifestBlob sha ?cj L ann a))"
    using resolve_tagged_image [OF ann(1) lo targetArches_not_Nil sm(1,2) desc fs' sb(1,2)] by blast
  let ?man = "imageManifest sha ?cj L ann a" and ?dg = "digestOf sha (imageManifestBlob sha ?cj L ann a)"
  have dg: "sha256Digest ?dg" "runnableStageDir sha stageEnv tmp ?dg \<noteq> ''''"
    using hex64_digest [of sha] stageDir_digest [of "sha (imageManifestBlob sha ?cj L ann a)"] sha by (auto simp: digestOf_def)
  have un: "cx_untar cx appTar = (map regEntry (appFilesOf cfg jarPath jar cds), False)" using cx tar by (simp add: codec_ok_def)
  note af = appFiles_ok [OF cfg(3) pair files(4), where jarPath = jarPath and jar = jar]
  have mj: "plainName (cfg_MainJar cfg)" using cfg(3) by (simp add: archiveNames_def)
  have ly: "RunnableAppLayer ?man = Inr (rl_Desc (imageLayer sha cx LayerRoleApp (mainJarName cfg jarPath) appTar))"
      "list_all2 (layerHolds cx (BlobPath root) fs') (RunnableClasspathLayers ?man) (map snd cps @ mbs)"
      "list_all2 (layerHolds cx (BlobPath root) fs') (RunnableModulepathLayers ?man) (map snd mps)"
    unfolding L_def image_layers_by_role [OF mg(1)]
    using layerHolds_all [OF cx sha sb(4)] layerHolds_all [OF cx sha sb(5)] mg(3) by (auto intro: list_all2_appendI)
  have ap: "layerHolds cx (BlobPath root) fs' (rl_Desc (imageLayer sha cx LayerRoleApp (mainJarName cfg jarPath) appTar)) appTar"
    by (rule stored_layerHolds [where sha = sha, OF cx sha sb(3)]) simp
  have cd: "case cfg_CDS cfg of None \<Rightarrow> True
      | Some c \<Rightarrow> cds_Archive c = '''' \<or> (cds_Archive c, the (fileAt fs cdsPath)) \<in> set (appFilesOf cfg jarPath jar cds)"
    using af(4) by (auto split: option.splits)
  obtain rb fs'' where rb: "ResolveRunnableBlobs sha cx dk stageEnv tmp (BlobPath root) ?man ?dg fs' = (Inr rb, fs'')" "rb_Config rb = cfg"
      "fileAt fs'' (rb_JarHostPath rb) = Some jar" "map (fileAt fs'') (rb_ClasspathHostPaths rb) = map Some (map snd cps @ mbs)"
      "map (fileAt fs'') (rb_ModulepathHostPaths rb) = map Some (map snd mps)"
      "case cfg_CDS cfg of None \<Rightarrow> rb_CDSHostPath rb = ''''
       | Some c \<Rightarrow> if cds_Archive c = '''' then rb_CDSHostPath rb = '''' else fileAt fs'' (rb_CDSHostPath rb) = Some (the (fileAt fs cdsPath))"
    using resolve_image_files [OF dk stageApart_safe [OF stage dg(1)] refl dg(2) RunnableConfig_image(1) [OF cfg(1,2) ann(2)] mj ly(1) ap un af(1-3) cd ly(2,3)]
    by blast
  have c6: "if cdsPath = '''' then rb_CDSHostPath rb = '''' else fileAt fs'' (rb_CDSHostPath rb) = fileAt fs cdsPath"
    using rb(6) af(4) cfg(3) by (auto simp: archiveNames_def plainName_def split: option.splits if_splits)
  have "ResolveBlobs sha cx dk goarch stageEnv tmp root ref fs' = (Inr rb, fs'')"
    using a rb(1) RunnableConfig_image(2) [OF cfg(1,2) ann(2)] by (simp add: ResolveBlobs_def)
  then show ?thesis
    using a rb(2-5) c6 files(1) filesRead_map [OF files(2)] filesRead_map [OF files(3)] by (intro exI [of _ a] exI [of _ rb] exI [of _ fs'']) simp
qed

lemma no_managed:
  assumes "managedLayer sha root jarPath \<lparr>ro_ManagedDependency = None, ro_ManagedEvidence = None\<rparr> fs = (Inr (managed, ann), fs')"
  shows "managed = []" "ann = []"
  using assms by (simp_all add: managedLayer_def)

lemma pushed_image_resolves:
  assumes sha: "\<And>b. hex64 (sha b)" and cx: "codec_ok cx" and cfg: "config_ok cfg" "archiveNames cfg"
    and files: "fileAt fs jarPath = Some jar" "filesRead fs cpTars cps" "filesRead fs mpTars mps" "filesRead fs (cdsPaths cdsPath) cds"
    and out: "\<forall>t \<in> set (cpTars @ mpTars). outsideBlobs root t"
    and tar: "cx_tar cx (appFilesOf cfg jarPath jar cds) = Some appTar"
    and inj: "inj_on sha (set (imageBlobs sha cx cfg appTar cps mps (imageLayers sha cx (mainJarName cfg jarPath) appTar cps mps) []))"
    and small: "list_all smallFile (imageBlobs sha cx cfg appTar cps mps (imageLayers sha cx (mainJarName cfg jarPath) appTar cps mps) [])"
    and run: "PushRunnableImage sha cx dk0 root ref cfg jarPath cpTars mpTars cdsPath fs = (Inr desc, fs')"
    and dk: "diskWorks dk" and stage: "stageApart sha stageEnv tmp root"
  shows "\<exists>rb fs''. ResolveBlobs sha cx dk goarch stageEnv tmp root ref fs' = (Inr rb, fs'') \<and> rb_Config rb = cfg \<and>
    holdsFiles fs fs'' rb jarPath cpTars mpTars cdsPath"
proof (rule PushRunnable_effect [OF run [unfolded PushRunnableImage_def] _ out files])
  show "\<And>b. plainName (sha b)" using hex64_plain sha by blast
next
  let ?L = "\<lambda>t. imageLayers sha cx (mainJarName cfg jarPath) t cps mps"
  fix appTar' managed ann
  assume v: "Validate cfg = None" "validateCDSPairing cfg cdsPath = None" and t': "cx_tar cx (appFilesOf cfg jarPath jar cds) = Some appTar'"
    and m: "managedLayer sha root jarPath \<lparr>ro_ManagedDependency = None, ro_ManagedEvidence = None\<rparr>
       (putBlobs sha root (map (cx_gzip cx) (appTar' # map snd cps @ map snd mps)) fs) =
       (Inr (managed, ann), putBlobs sha root (map (cx_gzip cx) (appTar' # map snd cps @ map snd mps)) fs)"
    and d: "desc = manifestDesc sha OCIImageIndexMediaType '''' ref (MarshalIndent (encodeIndex (imageIndex sha (encodeConfigCompact cfg) (?L appTar' @ managed) ann (targetArches cfg))))"
    and f: "fs' = tagged sha root (imageBlobs sha cx cfg appTar' cps mps (?L appTar' @ managed) ann) desc fs"
  have e: "appTar' = appTar" "managed = []" "ann = []" using t' tar no_managed [OF m] by simp_all
  have d': "desc = manifestDesc sha OCIImageIndexMediaType '''' ref (MarshalIndent (encodeIndex (imageIndex sha (encodeConfigCompact cfg) (?L appTar @ []) [] (targetArches cfg))))"
    and f': "fs' = tagged sha root (imageBlobs sha cx cfg appTar cps mps (?L appTar @ []) []) desc fs"
    using d f unfolding e by blast+
  have i': "inj_on sha (set (imageBlobs sha cx cfg appTar cps mps (?L appTar @ []) []))" "list_all smallFile (imageBlobs sha cx cfg appTar cps mps (?L appTar @ []) [])"
    using inj small by simp_all
  have "\<exists>arch rb fs''. ResolveManifestByRef sha goarch root fs' ref =
        Inr (imageManifest sha (encodeConfigCompact cfg) (?L appTar @ []) [] arch, digestOf sha (imageManifestBlob sha (encodeConfigCompact cfg) (?L appTar @ []) [] arch)) \<and>
      ResolveBlobs sha cx dk goarch stageEnv tmp root ref fs' = (Inr rb, fs'') \<and> rb_Config rb = cfg \<and>
      fileAt fs'' (rb_JarHostPath rb) = fileAt fs jarPath \<and>
      map (fileAt fs'') (rb_ClasspathHostPaths rb) = map (fileAt fs) cpTars @ map Some [] \<and>
      map (fileAt fs'') (rb_ModulepathHostPaths rb) = map (fileAt fs) mpTars \<and>
      (if cdsPath = '''' then rb_CDSHostPath rb = '''' else fileAt fs'' (rb_CDSHostPath rb) = fileAt fs cdsPath)"
    by (rule tagged_image_resolves [OF sha cx cfg(1) v(1) cfg(2) v(2) files tar _ _ _ _ _ i' d' f' dk stage]) (simp_all add: layersOk_def)
  then show ?thesis unfolding holdsFiles_def by (auto simp del: map_map)
qed



text \<open>The same jar published in both formats, for one architecture.\<close>

definition archConfig :: JVMConfig where
  "archConfig = jarConfig\<lparr>cfg_Arch := [''amd64'']\<rparr>"

definition archTar :: bytes where
  "archTar = Marshal (JArr [JArr [JStr (cfg_MainJar archConfig), JStr ''PK'']])"

lemma archConfig_ok: "config_ok archConfig" "archiveNames archConfig"
  by (simp_all add: archConfig_def config_ok_def jarConfig_def in_int64_def min_int64_def max_int64_def canonical_def archiveNames_def plainName_def)

lemma workingDisk_works: "diskWorks workingDisk"
  by (simp add: diskWorks_def workingDisk_def)

lemma demo_stage: "stageApart countSha ''/stage'' ''/tmp'' ''/store''"
  unfolding stageApart_def
proof (intro allI impI)
  fix d p assume d: "sha256Digest d" and i: "inside (runnableStageDir countSha ''/stage'' ''/tmp'' d) p"
  obtain h where h: "d = ''sha256:'' @ h" "hex64 h" using d unfolding sha256Digest_def by blast
  have c: "CutAt (CHR '':'') d = Some (''sha256'', h)" by (simp add: h(1))
  have "runnableStageDir countSha ''/stage'' ''/tmp'' d = PathJoin [''/stage'', h]" by (simp add: runnableStageDir_def c)
  moreover have "clean_comps ''/stage'' = [''stage'']" "clean_comps (blobsDir ''/store'') = [''store'', ''blobs'', ''sha256'']" by code_simp+
  ultimately have s: "clean_comps (runnableStageDir countSha ''/stage'' ''/tmp'' d) = [''stage'', h]"
    using plain_comps [OF hex64_plain [OF h(2)], of "''/stage''"] by simp
  show "outsideBlobs ''/store'' p"
    using i s \<open>clean_comps (blobsDir ''/store'') = [''store'', ''blobs'', ''sha256'']\<close> by (auto simp: outsideBlobs_def inside_def)
qed

lemma bindF_succeeds:
  "\<exists>a fs1. m fs = (Inr a, fs1) \<Longrightarrow> (\<And>a fs1. \<exists>b fs'. f a fs1 = (Inr b, fs')) \<Longrightarrow> \<exists>b fs'. bindF m f fs = (Inr b, fs')"
  by (auto simp: bindF_def)

lemma works_ok:
  assumes "diskWorks dk"
  shows "\<exists>d fs'. writeBlob sha dk root b fs = (Inr d, fs')" "\<exists>d fs'. tagManifest sha dk root ref raw mt at fs = (Inr d, fs')"
    "\<exists>ds fs'. writeManifests sha dk root cj ls ann arches fs = (Inr ds, fs')"
proof -
  show w: "\<exists>d fs'. writeBlob sha dk root b fs = (Inr d, fs')" for b fs using assms by (simp add: writeBlob_def Let_def)
  show "\<exists>d fs'. tagManifest sha dk root ref raw mt at fs = (Inr d, fs')"
    using w [of raw fs] assms by (auto simp: tagManifest_def Let_def fsm_ok upsertIndex_def writeLayoutMarker_def diskWorks_def simp del: fsm_run)
  show "\<exists>ds fs'. writeManifests sha dk root cj ls ann arches fs = (Inr ds, fs')"
  proof (induction arches arbitrary: fs)
    case (Cons a arches)
    have "\<exists>d fs1. writeRunnableManifest sha dk root a cj ls ann fs = (Inr d, fs1)"
      unfolding writeRunnableManifest_def by (intro bindF_succeeds w) simp
    then show ?case unfolding writeManifests.simps using Cons by (intro bindF_succeeds) simp_all
  qed simp
qed

text \<open>Publishing a jar alone succeeds on a disk that works.\<close>

lemma jar_pushes_succeed:
  assumes dk: "diskWorks dk" and sha: "\<And>b. plainName (sha b)" and cfg: "Validate cfg = None" "validateCDSPairing cfg '''' = None"
    and jar: "fileAt fs jarPath = Some jar" "outsideBlobs root jarPath" and tar: "cx_tar cx [(mainJarName cfg jarPath, jar)] = Some appTar"
  shows "\<exists>desc fs'. PushRunnableImage sha cx dk root ref cfg jarPath [] [] '''' fs = (Inr desc, fs')"
    "\<exists>desc fs'. PushWithCDS sha dk root ref cfg jarPath [] [] '''' fs = (Inr desc, fs')"
proof -
  note w = works_ok [OF dk]
  obtain d1 fs1 where "writeBlob sha dk root (cx_gzip cx appTar) fs = (Inr d1, fs1)" using w(1) by blast
  then have "\<exists>l fs1. writeRunnableLayer sha cx dk root [(mainJarName cfg jarPath, jar)] LayerRoleApp (mainJarName cfg jarPath) fs = (Inr l, fs1)"
    using tar by (simp add: writeRunnableLayer_def writeRunnableLayerFromTar_def buildTar_def bindF_def)
  then obtain l fs2 where l: "writeRunnableLayer sha cx dk root [(mainJarName cfg jarPath, jar)] LayerRoleApp (mainJarName cfg jarPath) fs = (Inr l, fs2)" by blast
  have a: "appLayerFiles cfg jarPath '''' fs = (Inr [(mainJarName cfg jarPath, jar)], fs)" using jar(1) by (simp add: appLayerFiles_def bindF_def readF_def)
  obtain ds fs3 where ds: "writeManifests sha dk root (encodeConfigCompact cfg) [l] [] (targetArches cfg) fs2 = (Inr ds, fs3)" using w(3) by blast
  obtain d fs4 where "tagManifest sha dk root ref (MarshalIndent (encodeIndex \<lparr>x_SchemaVersion = 2, x_MediaType = OCIImageIndexMediaType, x_Manifests = ds, x_Annotations = []\<rparr>))
      OCIImageIndexMediaType '''' fs3 = (Inr d, fs4)" using w(2) by blast
  then show "\<exists>desc fs'. PushRunnableImage sha cx dk root ref cfg jarPath [] [] '''' fs = (Inr desc, fs')"
    using cfg a l ds by (simp add: PushRunnableImage_def PushRunnableImageWithOptions_def managedAllowed_def managedLayer_def bindF_def)
  obtain cd gs1 where 1: "writeBlob sha dk root (MarshalIndent (encodeConfig cfg)) fs = (Inr cd, gs1)" using w(1) by blast
  have 2: "fileAt gs1 jarPath = Some jar" using jar writeBlob_ok [OF 1] read_outside [where sha = sha, OF sha jar(2)] by metis
  obtain jd gs2 where 3: "writeBlob sha dk root jar gs1 = (Inr jd, gs2)" using w(1) by blast
  show "\<exists>desc fs'. PushWithCDS sha dk root ref cfg jarPath [] [] '''' fs = (Inr desc, fs')"
    using cfg 1 2 3 w(2) by (auto simp: PushWithCDS_def fsm_ok appendCDSLayer_def simp del: fsm_run)
qed

lemma arch_lengths:
  "map length (imageBlobs countSha jsonCodec archConfig archTar [] [] (imageLayers countSha jsonCodec (mainJarName archConfig ''/in/app.jar'') archTar [] []) []) = [22, 312, 751, 374]"
  "map length (pushBlobs countSha archConfig ''PK'' [] [] []) = [116, 2, 617]"
  by code_simp+

lemma arch_tar: "cx_tar jsonCodec (appFilesOf archConfig ''/in/app.jar'' ''PK'' []) = Some archTar"
  by code_simp

lemma arch_image_blobs:
  "inj_on countSha (set (imageBlobs countSha jsonCodec archConfig archTar [] [] (imageLayers countSha jsonCodec (mainJarName archConfig ''/in/app.jar'') archTar [] []) []))" "list_all smallFile (imageBlobs countSha jsonCodec archConfig archTar [] [] (imageLayers countSha jsonCodec (mainJarName archConfig ''/in/app.jar'') archTar [] []) [])"
  by (rule countSha_lengths [OF arch_lengths(1)]; simp)+

lemma arch_native_blobs:
  "inj_on countSha (set (pushBlobs countSha archConfig ''PK'' [] [] []))" "list_all smallFile (pushBlobs countSha archConfig ''PK'' [] [] [])"
  by (rule countSha_lengths [OF arch_lengths(2)]; simp)+

lemma arch_files: "filesRead jarOnly [] []" "filesRead jarOnly (cdsPaths '''') []" "\<forall>t \<in> set ([] @ []). outsideBlobs ''/store'' t"
  "\<forall>p \<in> set (''/in/app.jar'' # [] @ [] @ cdsPaths ''''). outsideBlobs ''/store'' p"
  using jar_outside by (simp_all add: filesRead_def cdsPaths_def)

lemma arch_pushes:
  "\<exists>desc fs'. PushRunnableImage countSha jsonCodec workingDisk ''/store'' ''img:1'' archConfig ''/in/app.jar'' [] [] '''' jarOnly = (Inr desc, fs')"
  "\<exists>desc fs'. PushWithCDS countSha workingDisk ''/store'' ''app:1'' archConfig ''/in/app.jar'' [] [] '''' jarOnly = (Inr desc, fs')"
proof -
  have v: "Validate archConfig = None" "validateCDSPairing archConfig '''' = None" by code_simp+
  have t: "cx_tar jsonCodec [(mainJarName archConfig ''/in/app.jar'', ''PK'')] = Some archTar" using arch_tar by (simp add: appFilesOf_def)
  note p = jar_pushes_succeed [OF workingDisk_works hex64_plain [OF countSha_hex] v jarOnly_jar jar_outside t]
  show "\<exists>desc fs'. PushRunnableImage countSha jsonCodec workingDisk ''/store'' ''img:1'' archConfig ''/in/app.jar'' [] [] '''' jarOnly = (Inr desc, fs')"
    "\<exists>desc fs'. PushWithCDS countSha workingDisk ''/store'' ''app:1'' archConfig ''/in/app.jar'' [] [] '''' jarOnly = (Inr desc, fs')"
    by (rule p)+
qed



section \<open>Images with a managed dependency layer\<close>

lemma tagged_keeps_stored:
  assumes sha: "\<And>b. plainName (sha b)" and inj: "inj_on sha (insert b (set bs))" and st: "stored sha root fs b"
  shows "stored sha root (tagged sha root bs desc fs) b"
proof (cases "b \<in> set bs")
  case True
  then show ?thesis using tagged_blob [OF sha True] inj by (simp add: inj_on_def)
next
  case False
  have "blobKey root (sha b) \<notin> blobKey root ` sha ` set bs"
  proof
    assume "blobKey root (sha b) \<in> blobKey root ` sha ` set bs"
    then obtain b' where "b' \<in> set bs" "sha b = sha b'" using sha by auto
    then show False using inj False unfolding inj_on_def by (metis insertCI)
  qed
  then have "putBlobs sha root bs fs (blobKey root (sha b)) = fs (blobKey root (sha b))" by (rule putBlobs_other)
  then show ?thesis using st sha by (simp add: stored_def tagged_def)
qed

definition managedEvidence :: "(bytes \<Rightarrow> string) \<Rightarrow> ResolvedDependencyBundle \<Rightarrow> bytes \<Rightarrow> ManagedDependencyEvidence" where
  "managedEvidence sha rd jar = \<lparr>ev_SchemaVersion = 1, ev_ThinJar = True, ev_ApplicationJarDigest = digestOf sha jar,
     ev_DependencyBundleDigest = rd_ManifestDigest rd, ev_DependencyLayerDigest = d_Digest (rd_Layer rd),
     ev_DependencyLockDigest = bc_LockDigest (rd_Config rd), ev_SBOMDigest = '''', ev_SourceBOM = bc_SourceBOM (rd_Config rd), ev_BuilderIdentity = ''''\<rparr>"

definition managedAnn :: "(bytes \<Rightarrow> string) \<Rightarrow> ResolvedDependencyBundle \<Rightarrow> bytes \<Rightarrow> stralist" where
  "managedAnn sha rd jar = [(ManagedDependencyAnnotation, Marshal (encodeEvidence (managedEvidence sha rd jar)))]"

definition managedOf :: "ResolvedDependencyBundle \<Rightarrow> runnableLayer" where
  "managedOf rd = \<lparr>rl_Desc = rd_Layer rd, rl_DiffID = bc_LayerDiffID (rd_Config rd)\<rparr>"

definition managedOpts :: "ResolvedDependencyBundle \<Rightarrow> RunnableImageOptions" where
  "managedOpts rd = \<lparr>ro_ManagedDependency = Some rd, ro_ManagedEvidence = None\<rparr>"

lemma managedLayer_ok:
  assumes "managedLayer sha root jarPath (managedOpts rd) fs = (Inr (managed, ann), fs')" and "fileAt fs jarPath = Some jar"
  shows "managed = [managedOf rd]" "ann = managedAnn sha rd jar"
  using assms by (auto simp: managedLayer_def managedOpts_def fsm_ok Evidence_def managedOf_def managedAnn_def managedEvidence_def
      simp del: fsm_run split: if_splits sum.splits)

lemma managedAnn_ok: "canonical (managedAnn sha rd jar)" "JVMConfigAnnotation \<notin> fst ` set (managedAnn sha rd jar)"
  by (simp_all add: managedAnn_def oci_names)

lemma managedEvidence_read:
  "manifestEvidence (imageManifest sha' cj layers (managedAnn sha rd jar) arch) = Inr (Some (managedEvidence sha rd jar))"
proof -
  have "canonical ((JVMConfigAnnotation, cj) # managedAnn sha rd jar)" by (simp add: canonical_def managedAnn_def oci_names)
  then have g: "goMap ((JVMConfigAnnotation, cj) # managedAnn sha rd jar) = (JVMConfigAnnotation, cj) # managedAnn sha rd jar" by (rule goMap_canonical)
  have ne: "JVMConfigAnnotation \<noteq> ManagedDependencyAnnotation" by (simp add: oci_names)
  have a: "alget ((JVMConfigAnnotation, cj) # managedAnn sha rd jar) ManagedDependencyAnnotation = Marshal (encodeEvidence (managedEvidence sha rd jar))"
    using ne by (simp add: alget_def mget_def managedAnn_def)
  have "Marshal (encodeEvidence e) \<noteq> ''''" for e by (simp add: Marshal_def encodeEvidence_def)
  moreover have "decodeStrict decodeEvidence (Marshal (encodeEvidence (managedEvidence sha rd jar))) = Some (managedEvidence sha rd jar)"
    by (simp add: decodeStrict_def parse_Marshal decode_encode_Evidence managedEvidence_def in_int64_def min_int64_def max_int64_def)
  ultimately show ?thesis by (simp add: manifestEvidence_def imageManifest_def g a) (simp add: managedEvidence_def)
qed


text \<open>A thin jar published with the bundle of the previous theory.\<close>

definition thinConfig :: JVMConfig where
  "thinConfig = archConfig\<lparr>cfg_Entry := \<lparr>e_Mode = ''classpath'', e_MainClass = ''M'', e_ClassPath = [''orders.jar'', ''lib/*''], e_Module = '''', e_ModulePath = []\<rparr>\<rparr>"

definition thinTar :: bytes where
  "thinTar = Marshal (JArr [JArr [JStr ''orders.jar'', JStr ''PK'']])"

lemma managed_push_succeeds:
  assumes dk: "diskWorks dk" and sha: "\<And>b. plainName (sha b)" and cfg: "Validate cfg = None" "validateCDSPairing cfg '''' = None" "managedAllowed cfg [] [] (managedOpts rd) = None"
    and jar: "fileAt fs jarPath = Some jar" "outsideBlobs root jarPath" and tar: "cx_tar cx [(mainJarName cfg jarPath, jar)] = Some appTar"
    and bl: "isClasspathLayer (rd_Layer rd)" "d_Digest (rd_Layer rd) = digestOf sha raw" "stored sha root fs raw" "inj_on sha {raw, cx_gzip cx appTar}"
  shows "\<exists>desc fs'. PushRunnableImageWithOptions sha cx dk root ref cfg jarPath [] [] '''' (managedOpts rd) fs = (Inr desc, fs')"
proof -
  note w = works_ok [OF dk]
  obtain d1 fs1 where d1: "writeBlob sha dk root (cx_gzip cx appTar) fs = (Inr d1, fs1)" using w(1) by blast
  have f1: "fs1 = putBlobs sha root [cx_gzip cx appTar] fs" using writeBlob_ok [OF d1] by blast
  have "stored sha root fs1 raw"
  proof (cases "raw = cx_gzip cx appTar")
    case False
    then have "sha raw \<noteq> sha (cx_gzip cx appTar)" using bl(4) by (auto simp: inj_on_def)
    then show ?thesis using bl(3) sha by (simp add: f1 stored_def)
  qed (simp add: f1 stored_def)
  then have rb: "ReadBlob (BlobPath root) fs1 (d_Digest (rd_Layer rd)) = Inr raw" using blob_reads(1) bl(2) by simp
  have j1: "fileAt fs1 jarPath = Some jar" using read_outside [where sha = sha, OF sha jar(2)] jar(1) by (simp only: f1)
  have "\<exists>l. writeRunnableLayer sha cx dk root [(mainJarName cfg jarPath, jar)] LayerRoleApp (mainJarName cfg jarPath) fs = (Inr l, fs1)"
    using tar d1 by (simp add: writeRunnableLayer_def writeRunnableLayerFromTar_def buildTar_def bindF_def)
  then obtain l where l: "writeRunnableLayer sha cx dk root [(mainJarName cfg jarPath, jar)] LayerRoleApp (mainJarName cfg jarPath) fs = (Inr l, fs1)" by blast
  have a: "appLayerFiles cfg jarPath '''' fs = (Inr [(mainJarName cfg jarPath, jar)], fs)" using jar(1) by (simp add: appLayerFiles_def bindF_def readF_def)
  have m: "managedLayer sha root jarPath (managedOpts rd) fs1 = (Inr ([managedOf rd], managedAnn sha rd jar), fs1)"
    using bl(1) rb j1 by (simp add: managedLayer_def managedOpts_def bindF_def Evidence_def readF_def managedOf_def managedAnn_def managedEvidence_def)
  obtain ds fs3 where ds: "writeManifests sha dk root (encodeConfigCompact cfg) [l, managedOf rd] (managedAnn sha rd jar) (targetArches cfg) fs1 = (Inr ds, fs3)" using w(3) by blast
  obtain d fs4 where "tagManifest sha dk root ref (MarshalIndent (encodeIndex
      \<lparr>x_SchemaVersion = 2, x_MediaType = OCIImageIndexMediaType, x_Manifests = ds, x_Annotations = managedAnn sha rd jar\<rparr>))
      OCIImageIndexMediaType '''' fs3 = (Inr d, fs4)" using w(2) by blast
  then show ?thesis using cfg a l ds m by (simp add: PushRunnableImageWithOptions_def bindF_def)
qed

definition demoResolved :: ResolvedDependencyBundle where
  "demoResolved =
     \<lparr>rd_ManifestDigest = digestOf countSha (MarshalIndent (encodeManifest (pushedBundleManifest countSha jsonCodec demoBundle (sortLock demoLock) ''/in/deps.tar'' demoTar))),
      rd_Config = pushedBundleConfig countSha jsonCodec demoBundle (sortLock demoLock) demoTar, rd_Lock = sortLock demoLock,
      rd_Layer = bundleLayer countSha jsonCodec ''/in/deps.tar'' demoTar\<rparr>"

lemma thin_lengths:
  "map length (cx_gzip jsonCodec demoTar # imageBlobs countSha jsonCodec thinConfig thinTar [] []
        (imageLayers countSha jsonCodec (mainJarName thinConfig ''/in/app.jar'') thinTar [] [] @ [managedOf demoResolved]) (managedAnn countSha demoResolved ''PK'')) = [31, 22, 393, 1654, 921]"
  by code_simp

lemma thin_tar: "cx_tar jsonCodec (appFilesOf thinConfig ''/in/app.jar'' ''PK'' []) = Some thinTar"
  by code_simp

lemma thin_blobs:
  "inj_on countSha (set (cx_gzip jsonCodec demoTar # imageBlobs countSha jsonCodec thinConfig thinTar [] []
        (imageLayers countSha jsonCodec (mainJarName thinConfig ''/in/app.jar'') thinTar [] [] @ [managedOf demoResolved]) (managedAnn countSha demoResolved ''PK'')))"
  "list_all smallFile (cx_gzip jsonCodec demoTar # imageBlobs countSha jsonCodec thinConfig thinTar [] []
        (imageLayers countSha jsonCodec (mainJarName thinConfig ''/in/app.jar'') thinTar [] [] @ [managedOf demoResolved]) (managedAnn countSha demoResolved ''PK''))"
  by (rule countSha_lengths [OF thin_lengths]; simp)+

lemma thinConfig_ok: "config_ok thinConfig" "archiveNames thinConfig"
  by (simp_all add: thinConfig_def archConfig_def config_ok_def jarConfig_def in_int64_def min_int64_def max_int64_def canonical_def archiveNames_def plainName_def)

lemma thinConfig_valid: "Validate thinConfig = None" "validateCDSPairing thinConfig '''' = None" "managedAllowed thinConfig [] [] (managedOpts demoResolved) = None"
  by code_simp+

lemma demo_layout:
  assumes run: "PushDependencyBundle countSha jsonCodec workingDisk ''/store'' ''deps:1'' demoBundle demoLock ''/in/deps.tar'' depsOnly = (Inr desc, fs')"
  shows "fileAt fs' ''/in/app.jar'' = Some ''PK''" "stored countSha ''/store'' fs' (cx_gzip jsonCodec demoTar)"
    "ResolveDependencyBundle countSha jsonCodec ''/store'' fs' ''deps:1'' = Inr demoResolved"
proof -
  have plain: "\<And>b. plainName (countSha b)" using hex64_plain countSha_hex by blast
  have e: "desc = manifestDesc countSha ociManifestMediaType DependencyBundleArtifactType ''deps:1''
         (MarshalIndent (encodeManifest (pushedBundleManifest countSha jsonCodec demoBundle (sortLock demoLock) ''/in/deps.tar'' demoTar)))"
      "fs' = tagged countSha ''/store'' (bundleBlobs countSha jsonCodec demoBundle (sortLock demoLock) ''/in/deps.tar'' demoTar) desc depsOnly"
    using demo_inputs(1) demo_canonical by (auto intro: PushDependencyBundle_ok [OF run plain])
  have k: "Clean ''/in/app.jar'' \<noteq> indexKey ''/store''" "Clean ''/in/app.jar'' \<noteq> markerKey ''/store''" by code_simp+
  have "fileAt depsOnly ''/in/app.jar'' = Some ''PK''" by code_simp
  then show "fileAt fs' ''/in/app.jar'' = Some ''PK''"
    using read_outside [where sha = countSha, OF plain jar_outside] k unfolding e(2) tagged_def by (simp add: fileAt_def)
  show "stored countSha ''/store'' fs' (cx_gzip jsonCodec demoTar)"
    unfolding e(2) by (rule tagged_blob [OF plain _ demo_blobs(1)]) (simp add: bundleBlobs_def)
  show "ResolveDependencyBundle countSha jsonCodec ''/store'' fs' ''deps:1'' = Inr demoResolved"
    using pushed_bundle_exact [OF countSha_hex jsonCodec_ok demo_inputs(1) demo_canonical demo_blobs demo_inputs(2) run]
    by (simp add: demoResolved_def e(1))
qed


end
