(* ===== verification/Telemetry.thy ===== *)
theory Telemetry
  imports Oci_Model Cds_Regen Jdk_Select
begin

text \<open>
  Node telemetry: the event that the runtime shim sends for each step of a launch
  (\<open>src/core/internal/telemetry/telemetry.go\<close>, \<open>src/core/internal/runtime/cds_metric.go\<close>) and the node exporter that counts
  the events and lists the installed runtimes (\<open>src/core/cmd/brewlet-metrics-exporter/main.go\<close>). Datagrams are byte
  strings; a duration is kept as the number literal its encoding has (the empty string for zero), and
  \<open>isFloat\<close> says which literals \<open>strconv.ParseFloat\<close> takes.
\<close>

section \<open>Events\<close>

definition Version :: int where "Version = 1"
definition DefaultSocketPath :: string where "DefaultSocketPath = ''/opt/brewlet/metrics/telemetry.sock''"
definition KindLaunchPhase :: string where "KindLaunchPhase = ''launch_phase''"
definition KindLaunch :: string where "KindLaunch = ''launch''"
definition KindArtifactResolution :: string where "KindArtifactResolution = ''artifact_resolution''"
definition KindCDS :: string where "KindCDS = ''cds''"

lemmas event_kinds = KindLaunchPhase_def KindLaunch_def KindArtifactResolution_def KindCDS_def

record Event =
  ev_Version :: int
  ev_Kind :: string
  ev_Phase :: string
  ev_Outcome :: string
  ev_Reason :: string
  ev_Backend :: string
  ev_Format :: string
  ev_EntryMode :: string
  ev_CDSRole :: string
  ev_Duration :: string

definition emptyEvent :: Event where
  "emptyEvent = \<lparr>ev_Version = 0, ev_Kind = '''', ev_Phase = '''', ev_Outcome = '''', ev_Reason = '''', ev_Backend = '''',
     ev_Format = '''', ev_EntryMode = '''', ev_CDSRole = '''', ev_Duration = ''''\<rparr>"

definition omitNum :: "string \<Rightarrow> string \<Rightarrow> members" where
  "omitNum k lit = (if lit = '''' then [] else [(k, JNum lit)])"

definition encodeEvent :: "Event \<Rightarrow> json" where
  "encodeEvent e =
     JObj ([(''version'', jint (ev_Version e)), (''kind'', JStr (ev_Kind e))] @ omitStr ''phase'' (ev_Phase e) @
       omitStr ''outcome'' (ev_Outcome e) @ omitStr ''reason'' (ev_Reason e) @ omitStr ''backend'' (ev_Backend e) @
       omitStr ''format'' (ev_Format e) @ omitStr ''entryMode'' (ev_EntryMode e) @ omitStr ''cdsRole'' (ev_CDSRole e) @
       omitNum ''durationSeconds'' (ev_Duration e))"

fun asFloat :: "(string \<Rightarrow> bool) \<Rightarrow> json \<Rightarrow> string option" where
  "asFloat isFloat JNull = Some ''''"
| "asFloat isFloat (JNum lit) = (if isFloat lit then Some lit else None)"
| "asFloat isFloat j = None"

definition decodeEvent :: "(string \<Rightarrow> bool) \<Rightarrow> json \<Rightarrow> Event option" where
  "decodeEvent isFloat j =
     Option.bind (asMembers j) (\<lambda>fs.
     Option.bind (asInt (member fs ''version'')) (\<lambda>ve.
     Option.bind (asString (member fs ''kind'')) (\<lambda>ki.
     Option.bind (asString (member fs ''phase'')) (\<lambda>ph.
     Option.bind (asString (member fs ''outcome'')) (\<lambda>ou.
     Option.bind (asString (member fs ''reason'')) (\<lambda>re.
     Option.bind (asString (member fs ''backend'')) (\<lambda>ba.
     Option.bind (asString (member fs ''format'')) (\<lambda>fo.
     Option.bind (asString (member fs ''entryMode'')) (\<lambda>en.
     Option.bind (asString (member fs ''cdsRole'')) (\<lambda>cr.
     Option.bind (asFloat isFloat (member fs ''durationSeconds'')) (\<lambda>du.
     Some \<lparr>ev_Version = ve, ev_Kind = ki, ev_Phase = ph, ev_Outcome = ou, ev_Reason = re, ev_Backend = ba, ev_Format = fo,
           ev_EntryMode = en, ev_CDSRole = cr, ev_Duration = du\<rparr>)))))))))))"

section \<open>Sending and receiving\<close>

definition SocketPath :: "string \<Rightarrow> string" where
  "SocketPath env = (let path = TrimSpace env in if path \<noteq> '''' then path else DefaultSocketPath)"

text \<open>The datagram an emission tries to send, with its address; whether it arrives is up to the socket.\<close>

definition EmitTo :: "string \<Rightarrow> Event \<Rightarrow> (string \<times> bytes) option" where
  "EmitTo path event =
     (if TrimSpace path = '''' then None
      else Some (Clean path, Marshal (encodeEvent (event\<lparr>ev_Version := Version\<rparr>))))"

definition Emit :: "string \<Rightarrow> Event \<Rightarrow> (string \<times> bytes) option" where
  "Emit env event = EmitTo (SocketPath env) event"

definition oneOf :: "string \<Rightarrow> string list \<Rightarrow> bool" where
  "oneOf value allowed = list_ex (\<lambda>candidate. value = candidate) allowed"

datatype telemetry_error = NotAnEvent | UnsupportedVersion | InvalidLaunchPhase | InvalidLaunch | InvalidArtifactResolution
  | InvalidCDS | UnknownKind

definition launchPhases :: "string list" where
  "launchPhases = [''artifact_resolve'', ''bundle_prepare'', ''overlay_setup'', ''runc_create'', ''process_start'']"

definition launchReasons :: "string list" where
  "launchReasons = [''none'', ''NoCompatibleJDK'', ''NoCompatibleLauncher'', ''NoCompatibleArch'', ''MissingArtifactReference'',
     ''ArtifactResolution'', ''OverlaySetup'', ''RuntimeCreate'', ''ProcessStart'', ''BundlePreparation'']"

definition checkEvent :: "Event \<Rightarrow> telemetry_error + Event" where
  "checkEvent event =
     (if ev_Version event \<noteq> Version then Inl UnsupportedVersion
      else if ev_Kind event = KindLaunchPhase then
        (if \<not> oneOf (ev_Phase event) launchPhases \<or> \<not> oneOf (ev_Outcome event) [''success'', ''error'']
         then Inl InvalidLaunchPhase else Inr event)
      else if ev_Kind event = KindLaunch then
        (if \<not> oneOf (ev_Outcome event) [''success'', ''error''] \<or> \<not> oneOf (ev_Reason event) launchReasons \<or>
            \<not> oneOf (ev_EntryMode event) [''jar'', ''classpath'', ''module'', ''unknown''] \<or>
            \<not> oneOf (ev_Format event) [''native'', ''image'', ''unknown'']
         then Inl InvalidLaunch else Inr event)
      else if ev_Kind event = KindArtifactResolution then
        (if \<not> oneOf (ev_Backend event) [''layout'', ''containerd''] \<or>
            \<not> oneOf (ev_Format event) [''native'', ''image'', ''unknown''] \<or>
            \<not> oneOf (ev_Outcome event) [''success'', ''error'']
         then Inl InvalidArtifactResolution else Inr event)
      else if ev_Kind event = KindCDS then
        (if \<not> oneOf (ev_CDSRole event) [''consume'', ''write'', ''defer'', ''skip''] then Inl InvalidCDS else Inr event)
      else Inl UnknownKind)"

definition Decode :: "(string \<Rightarrow> bool) \<Rightarrow> bytes \<Rightarrow> telemetry_error + Event" where
  "Decode isFloat payload =
     (case Option.bind (parseJson payload) (decodeEvent isFloat) of
        None \<Rightarrow> Inl NotAnEvent | Some event \<Rightarrow> checkEvent event)"

text \<open>An error is represented by its text, \<open>None\<close> being the nil error.\<close>

definition Outcome :: "string option \<Rightarrow> string" where
  "Outcome err = (if err \<noteq> None then ''error'' else ''success'')"

definition Reason :: "string option \<Rightarrow> string" where
  "Reason err =
     (case err of None \<Rightarrow> ''none''
      | Some message \<Rightarrow>
          (case find (\<lambda>reason. Contains message reason) [''NoCompatibleJDK'', ''NoCompatibleLauncher'', ''NoCompatibleArch''] of
             Some reason \<Rightarrow> reason
           | None \<Rightarrow>
               if Contains message ''no Brewlet artifact reference'' then ''MissingArtifactReference''
               else if Contains message ''artifact'' \<or> Contains message ''manifest'' \<or> Contains message ''blob'' then ''ArtifactResolution''
               else if Contains message ''overlay'' then ''OverlaySetup''
               else if Contains message ''runc'' then ''RuntimeCreate''
               else ''BundlePreparation''))"

section \<open>The regeneration decision as a metric\<close>

fun roleName :: "RegenRole \<Rightarrow> string" where
  "roleName RegenSkip = ''skip''"
| "roleName RegenConsume = ''consume''"
| "roleName RegenWrite = ''write''"
| "roleName RegenDefer = ''defer''"

datatype metric_op = MetricDir string | MetricTmp string bytes | MetricRename string string

definition newline :: string where "newline = [CHR 0x0A]"

definition metricLine :: "RegenRole \<Rightarrow> string" where
  "metricLine role =
     ''# HELP brewlet_cds_archive_mapped Whether a node-side AppCDS archive was mapped for this launch (1) or not (0).'' @ newline @
     ''# TYPE brewlet_cds_archive_mapped gauge'' @ newline @
     ''brewlet_cds_archive_mapped{role='' @ [quoteMark] @ roleName role @ [quoteMark] @ ''} '' @
     (if role = RegenConsume then ''1'' else ''0'') @ newline"

text \<open>The event, and the file operations tried in order until one fails; \<open>ok\<close> says which succeed.\<close>

definition recordRegenMetric :: "(metric_op \<Rightarrow> bool) \<Rightarrow> string \<Rightarrow> RegenRole \<Rightarrow> int \<Rightarrow> Event \<times> metric_op list" where
  "recordRegenMetric ok dir role now =
     (emptyEvent\<lparr>ev_Kind := KindCDS, ev_CDSRole := roleName role\<rparr>,
      (let name = ''cds-'' @ Itoa now @ ''.prom'';
           tmp = PathJoin [dir, ''.'' @ name]
       in if dir = '''' then []
          else if \<not> ok (MetricDir dir) then [MetricDir dir]
          else if \<not> ok (MetricTmp tmp (metricLine role)) then [MetricDir dir, MetricTmp tmp (metricLine role)]
          else [MetricDir dir, MetricTmp tmp (metricLine role), MetricRename tmp (PathJoin [dir, name])]))"

section \<open>The exporter\<close>

text \<open>A counter is the number of its increments for every tuple of label values, a histogram the list of its
  observations.\<close>

record eventMetrics =
  em_launchPhases :: "string \<times> string \<Rightarrow> string list"
  em_launches :: "string \<times> string \<times> string \<times> string \<Rightarrow> nat"
  em_artifacts :: "string \<times> string \<times> string \<Rightarrow> string list"
  em_cds :: "string \<Rightarrow> nat"
  em_invalid :: nat

definition newEventMetrics :: eventMetrics where
  "newEventMetrics = \<lparr>em_launchPhases = (\<lambda>_. []), em_launches = (\<lambda>_. 0), em_artifacts = (\<lambda>_. []), em_cds = (\<lambda>_. 0), em_invalid = 0\<rparr>"

definition phaseLabels :: "Event \<Rightarrow> string \<times> string" where
  "phaseLabels e = (ev_Phase e, ev_Outcome e)"

definition launchLabels :: "Event \<Rightarrow> string \<times> string \<times> string \<times> string" where
  "launchLabels e = (ev_Outcome e, ev_Reason e, ev_EntryMode e, ev_Format e)"

definition artifactLabels :: "Event \<Rightarrow> string \<times> string \<times> string" where
  "artifactLabels e = (ev_Backend e, ev_Format e, ev_Outcome e)"

definition observe :: "(string \<Rightarrow> bool) \<Rightarrow> eventMetrics \<Rightarrow> bytes \<Rightarrow> eventMetrics" where
  "observe isFloat m payload =
     (case Decode isFloat payload of Inl _ \<Rightarrow> m\<lparr>em_invalid := em_invalid m + 1\<rparr>
      | Inr event \<Rightarrow>
          if ev_Kind event = KindLaunchPhase then
            m\<lparr>em_launchPhases := (em_launchPhases m)(phaseLabels event := em_launchPhases m (phaseLabels event) @ [ev_Duration event])\<rparr>
          else if ev_Kind event = KindLaunch then
            m\<lparr>em_launches := (em_launches m)(launchLabels event := em_launches m (launchLabels event) + 1)\<rparr>
          else if ev_Kind event = KindArtifactResolution then
            m\<lparr>em_artifacts := (em_artifacts m)(artifactLabels event := em_artifacts m (artifactLabels event) @ [ev_Duration event])\<rparr>
          else if ev_Kind event = KindCDS then
            m\<lparr>em_cds := (em_cds m)(ev_CDSRole event := em_cds m (ev_CDSRole event) + 1)\<rparr>
          else m)"

text \<open>The receive loop: each datagram is read into a buffer of 64 KiB, which cuts what is longer.\<close>

definition serveDatagrams :: "(string \<Rightarrow> bool) \<Rightarrow> bytes list \<Rightarrow> eventMetrics \<Rightarrow> eventMetrics" where
  "serveDatagrams isFloat datagrams m = foldl (\<lambda>m d. observe isFloat m (take 65536 d)) m datagrams"

section \<open>The inventory collector\<close>

datatype metric =
    JdkInfo string string string string string string
  | JdkInstalled string string string int
  | LauncherInfo string

record exporter_env =
  xp_fs :: node_fs
  xp_listDir :: "string \<Rightarrow> (string \<times> bool) list"
  xp_parseRFC3339 :: "string \<Rightarrow> int option"
  xp_modTime :: "string \<Rightarrow> int option"

definition readText :: "exporter_env \<Rightarrow> string \<Rightarrow> string option" where
  "readText x path = (case nf_read (xp_fs x) path of FileData d \<Rightarrow> Some d | _ \<Rightarrow> None)"

definition readWords :: "exporter_env \<Rightarrow> string \<Rightarrow> string list" where
  "readWords x path = (case readText x path of None \<Rightarrow> [] | Some d \<Rightarrow> Fields d)"

definition javaHome :: "exporter_env \<Rightarrow> string \<Rightarrow> string" where
  "javaHome x root =
     (case readText x (PathJoin [root, ''.brewlet-java-home'']) of None \<Rightarrow> '''' | Some d \<Rightarrow> TrimPrefix (TrimSpace d) ''/'')"

text \<open>The lines that \<open>bufio.Scanner\<close> delivers before it stops, at the end or at a line that is too long.\<close>

definition scannedLines :: "string \<Rightarrow> string list" where
  "scannedLines content =
     (let ls = SplitOn (CHR 0x0A) content;
          ls = (if last ls = '''' then butlast ls else ls)
      in map (\<lambda>l. TrimSuffix l [CHR 0x0D]) (takeWhile (\<lambda>l. length l < 65536) ls))"

fun propertyLines :: "string list \<Rightarrow> strmap \<Rightarrow> strmap" where
  "propertyLines [] values = values"
| "propertyLines (l # ls) values =
     (case CutAt (CHR ''='') l of None \<Rightarrow> propertyLines ls values
      | Some (key, value) \<Rightarrow> propertyLines ls (values(key \<mapsto> TrimChar (CHR 0x22) (TrimSpace value))))"

definition readProperties :: "exporter_env \<Rightarrow> string \<Rightarrow> strmap" where
  "readProperties x path =
     (case readText x path of None \<Rightarrow> Map.empty | Some content \<Rightarrow> propertyLines (scannedLines content) Map.empty)"

definition firstLine :: "exporter_env \<Rightarrow> string \<Rightarrow> string" where
  "firstLine x path =
     (case readText x path of None \<Rightarrow> ''''
      | Some data \<Rightarrow> TrimSpace (case CutAt (CHR 0x0A) data of None \<Rightarrow> data | Some (line, _) \<Rightarrow> line))"

definition installedAt :: "exporter_env \<Rightarrow> string \<Rightarrow> int" where
  "installedAt x root =
     (let stat = (case xp_modTime x root of None \<Rightarrow> 0 | Some t \<Rightarrow> t) in
      case readText x (PathJoin [root, ''.brewlet-installed-at'']) of None \<Rightarrow> stat
      | Some data \<Rightarrow>
          (case xp_parseRFC3339 x (TrimSpace data) of Some ts \<Rightarrow> ts
           | None \<Rightarrow> (case Atoi (TrimSpace data) of Some unix \<Rightarrow> unix | None \<Rightarrow> stat)))"

definition splitToken :: "string \<Rightarrow> (string \<times> string) option" where
  "splitToken token =
     (case CutAtLast (CHR ''-'') token of None \<Rightarrow> None
      | Some (dist, feature) \<Rightarrow> if dist = '''' \<or> feature = '''' then None else Some (dist, feature))"

definition collectJDK :: "exporter_env \<Rightarrow> string \<Rightarrow> string \<Rightarrow> metric list" where
  "collectJDK x root token =
     (case splitToken token of None \<Rightarrow> []
      | Some (dist, feature) \<Rightarrow>
          (let jdkRoot = PathJoin [root, ''jdks'', token];
               release = readProperties x (PathJoin [jdkRoot, javaHome x jdkRoot, ''release'']);
               version = mget release ''JAVA_VERSION'';
               installed = installedAt x jdkRoot
           in JdkInfo dist feature version (mget release ''IMPLEMENTOR'') (mget release ''OS_ARCH'')
                (firstLine x (PathJoin [jdkRoot, ''.brewlet-source''])) #
              (if installed > 0 then [JdkInstalled dist feature version installed] else [])))"

fun collectLaunchers :: "string list \<Rightarrow> (string \<times> bool) list \<Rightarrow> metric list" where
  "collectLaunchers emitted [] = []"
| "collectLaunchers emitted ((name, isDir) # entries) =
     (if \<not> isDir \<or> name \<in> set emitted then collectLaunchers emitted entries
      else LauncherInfo name # collectLaunchers (name # emitted) entries)"

definition Collect :: "exporter_env \<Rightarrow> string \<Rightarrow> metric list" where
  "Collect x root =
     concat (map (collectJDK x root) (readWords x (PathJoin [root, ''jdks'', ''.brewlet-active'']))) @
     [LauncherInfo ''java''] @ collectLaunchers [''java''] (xp_listDir x (PathJoin [root, ''launchers'']))"

section \<open>What is sent is what is received\<close>

lemma event_foldNames [json_simps]:
  "foldName ''version'' = ''version''" "foldName ''kind'' = ''kind''" "foldName ''phase'' = ''phase''" "foldName ''outcome'' = ''outcome''"
  "foldName ''reason'' = ''reason''" "foldName ''backend'' = ''backend''" "foldName ''format'' = ''format''"
  "foldName ''entryMode'' = ''entrymode''" "foldName ''cdsRole'' = ''cdsrole''" "foldName ''durationSeconds'' = ''durationseconds''"
  by code_simp+

definition durationOk :: "(string \<Rightarrow> bool) \<Rightarrow> string \<Rightarrow> bool" where
  "durationOk isFloat lit \<longleftrightarrow> lit = '''' \<or> validNum lit \<and> isFloat lit"

lemma hasMember_omitNum [json_simps]: "hasMember (omitNum n lit) k \<longleftrightarrow> foldName n = foldName k \<and> lit \<noteq> ''''"
  by (simp add: omitNum_def hasMember_def)

lemma member_omitNum [json_simps]:
  "foldName n \<noteq> foldName k \<Longrightarrow> member (omitNum n lit) k = JNull"
  "foldName n = foldName k \<Longrightarrow> member (omitNum n lit) k = (if lit = '''' then JNull else JNum lit)"
  by (simp_all add: omitNum_def member_def)

lemma json_wf_encodeEvent: "durationOk f (ev_Duration e) \<Longrightarrow> json_wf (encodeEvent e)"
  by (auto simp: encodeEvent_def durationOk_def omitNum_def json_simps)

lemma decode_encode_Event:
  assumes "in_int64 (ev_Version e)" and "durationOk f (ev_Duration e)" shows "decodeEvent f (encodeEvent e) = Some e"
proof -
  have "asFloat f (if ev_Duration e = '''' then JNull else JNum (ev_Duration e)) = Some (ev_Duration e)"
    using assms(2) by (auto simp: durationOk_def)
  then show ?thesis
    using assms(1) by (simp add: decodeEvent_def encodeEvent_def json_simps split del: if_split)
qed

lemma Decode_sent:
  assumes "durationOk f (ev_Duration e)"
  shows "Decode f (Marshal (encodeEvent (e\<lparr>ev_Version := Version\<rparr>))) = checkEvent (e\<lparr>ev_Version := Version\<rparr>)"
proof -
  have "in_int64 Version" by (simp add: Version_def in_int64_def min_int64_def max_int64_def)
  moreover have "durationOk f (ev_Duration (e\<lparr>ev_Version := Version\<rparr>))" using assms by simp
  ultimately show ?thesis
    using parse_Marshal [OF json_wf_encodeEvent, of f "e\<lparr>ev_Version := Version\<rparr>"] decode_encode_Event [of "e\<lparr>ev_Version := Version\<rparr>" f]
    by (simp add: Decode_def)
qed

lemma Reason_known: "Reason err \<in> set launchReasons"
  by (auto simp: Reason_def launchReasons_def split: option.split)

lemma Outcome_known: "Outcome err \<in> {''success'', ''error''}"
  by (simp add: Outcome_def)

lemma oneOf_iff [simp]: "oneOf v vs \<longleftrightarrow> v \<in> set vs"
  by (auto simp: oneOf_def list_ex_iff)

lemma checkEvent_Inr: "checkEvent e = Inr e' \<Longrightarrow> e' = e"
  by (auto simp: checkEvent_def split: if_splits)

lemma regen_metric_accepted:
  "checkEvent ((fst (recordRegenMetric ok dir role now))\<lparr>ev_Version := Version\<rparr>) = Inr ((fst (recordRegenMetric ok dir role now))\<lparr>ev_Version := Version\<rparr>)"
  by (cases role) (simp_all add: recordRegenMetric_def checkEvent_def emptyEvent_def event_kinds)

section \<open>What the exporter counts\<close>

text \<open>The events among a sequence of datagrams, and how many datagrams are none.\<close>

definition receivedEvents :: "(string \<Rightarrow> bool) \<Rightarrow> bytes list \<Rightarrow> Event list" where
  "receivedEvents isFloat ds =
     concat (map (\<lambda>d. case Decode isFloat (take 65536 d) of Inl _ \<Rightarrow> [] | Inr e \<Rightarrow> [e]) ds)"

definition ofKind :: "string \<Rightarrow> Event list \<Rightarrow> Event list" where
  "ofKind k es = filter (\<lambda>e. ev_Kind e = k) es"

lemma serve_snoc: "serveDatagrams f (ds @ [d]) m = observe f (serveDatagrams f ds m) (take 65536 d)"
  by (simp add: serveDatagrams_def)

lemma received_snoc:
  "receivedEvents f (ds @ [d]) = receivedEvents f ds @ (case Decode f (take 65536 d) of Inl _ \<Rightarrow> [] | Inr e \<Rightarrow> [e])"
  by (simp add: receivedEvents_def)

lemma exporter_counts_lemma:
  fixes f ds
  defines "m \<equiv> serveDatagrams f ds newEventMetrics" and "es \<equiv> receivedEvents f ds"
  shows "em_launches m ls = length (filter (\<lambda>e. launchLabels e = ls) (ofKind KindLaunch es)) \<and>
    em_launchPhases m ps = map ev_Duration (filter (\<lambda>e. phaseLabels e = ps) (ofKind KindLaunchPhase es)) \<and>
    em_artifacts m as = map ev_Duration (filter (\<lambda>e. artifactLabels e = as) (ofKind KindArtifactResolution es)) \<and>
    em_cds m r = length (filter (\<lambda>e. ev_CDSRole e = r) (ofKind KindCDS es)) \<and>
    em_invalid m + length es = length ds"
  unfolding m_def es_def
proof (induction ds rule: rev_induct)
  case (snoc d ds)
  show ?case
  proof (cases "Decode f (take 65536 d)")
    case (Inl e)
    then show ?thesis using snoc by (simp add: serve_snoc received_snoc observe_def)
  next
    case (Inr e)
    then show ?thesis
      using snoc by (auto simp: serve_snoc received_snoc observe_def ofKind_def event_kinds)
  qed
qed (simp add: serveDatagrams_def receivedEvents_def newEventMetrics_def ofKind_def)

text \<open>The exporter counts what it receives. After any sequence of datagrams, every counter is the number of valid
  events with its labels, every histogram holds their durations in order, and each datagram either is such an
  event or has incremented the counter of invalid ones.\<close>

lemma exporter_counts:
  "em_launches (serveDatagrams f ds newEventMetrics) ls =
     length (filter (\<lambda>e. launchLabels e = ls) (ofKind KindLaunch (receivedEvents f ds))) \<and>
   em_launchPhases (serveDatagrams f ds newEventMetrics) ps =
     map ev_Duration (filter (\<lambda>e. phaseLabels e = ps) (ofKind KindLaunchPhase (receivedEvents f ds))) \<and>
   em_artifacts (serveDatagrams f ds newEventMetrics) as =
     map ev_Duration (filter (\<lambda>e. artifactLabels e = as) (ofKind KindArtifactResolution (receivedEvents f ds))) \<and>
   em_cds (serveDatagrams f ds newEventMetrics) r =
     length (filter (\<lambda>e. ev_CDSRole e = r) (ofKind KindCDS (receivedEvents f ds))) \<and>
   em_invalid (serveDatagrams f ds newEventMetrics) + length (receivedEvents f ds) = length ds"
  by (rule exporter_counts_lemma)

section \<open>What the collector lists\<close>

text \<open>The runtimes listed are the active ones, in order, and no launcher is listed twice.\<close>

fun jdkToken :: "metric \<Rightarrow> string list" where
  "jdkToken (JdkInfo dist feature _ _ _ _) = [dist @ ''-'' @ feature]"
| "jdkToken _ = []"

fun launcherOf :: "metric \<Rightarrow> string list" where
  "launcherOf (LauncherInfo n) = [n]"
| "launcherOf _ = []"

lemma splitToken_join: "splitToken t = Some (d, f) \<Longrightarrow> t = d @ ''-'' @ f"
  by (auto simp: splitToken_def split: option.splits if_splits dest: CutAtLast_Some)

lemma collectJDK_tokens:
  "concat (map jdkToken (collectJDK x root t)) = (if splitToken t = None then [] else [t])"
  "concat (map launcherOf (collectJDK x root t)) = []"
  by (auto simp: collectJDK_def Let_def splitToken_join [symmetric] split: option.split)
    (use splitToken_join in fastforce)+

lemma collectLaunchers_distinct:
  "distinct (concat (map launcherOf (collectLaunchers seen es)))"
  "set (concat (map launcherOf (collectLaunchers seen es))) \<inter> set seen = {}"
  "concat (map jdkToken (collectLaunchers seen es)) = []"
  by (induction seen es rule: collectLaunchers.induct) auto

lemma collect_lists_active:
  "concat (map jdkToken (Collect x root)) =
     filter (\<lambda>t. splitToken t \<noteq> None) (readWords x (PathJoin [root, ''jdks'', ''.brewlet-active'']))"
  "distinct (concat (map launcherOf (Collect x root)))"
proof -
  have j: "concat (map jdkToken (concat (map (collectJDK x root) ts))) = filter (\<lambda>t. splitToken t \<noteq> None) ts"
    and l: "concat (map launcherOf (concat (map (collectJDK x root) ts))) = []" for ts
    by (induction ts) (simp_all add: collectJDK_tokens)
  show "concat (map jdkToken (Collect x root)) =
     filter (\<lambda>t. splitToken t \<noteq> None) (readWords x (PathJoin [root, ''jdks'', ''.brewlet-active'']))"
    unfolding Collect_def map_append concat_append j by (simp add: collectLaunchers_distinct)
  show "distinct (concat (map launcherOf (Collect x root)))"
    using collectLaunchers_distinct(1,2) [of "[''java'']"] unfolding Collect_def map_append concat_append l by simp
qed

end
