(* ===== verification/Shim.thy ===== *)
theory Shim
  imports Bundle Jdk_Select Runnable_Image Telemetry "HOL-Library.Multiset"
begin

text \<open>
  The containerd runtime shim (\<open>src/core/shim/cmd/containerd-shim-brewlet-v2\<close>): finding the artifact in a local layout or
  in containerd's content store (\<open>resolver.go\<close>), selecting the runtime and preparing a bundle for the test harness
  (\<open>bundle_prepare.go\<close>), and the task service that rewrites the container specification before it delegates to runc
  (\<open>service_linux.go\<close>). The record \<open>shim_env\<close> holds what the shim gets from its surroundings: the node's file
  systems as the earlier theories model them, the environment variables, the decoders of third-party formats
  (the runtime specification, TOML, protobuf), the texts of errors and the measured durations.
\<close>

section \<open>Data\<close>

definition annArtifactRef :: string where "annArtifactRef = ''brewlet.sh/artifact-ref''"
definition annArtifactDigest :: string where "annArtifactDigest = ''brewlet.sh/artifact-digest''"
definition annCRIImage :: string where "annCRIImage = ''io.kubernetes.cri.image-name''"
definition annRequestedJDK :: string where "annRequestedJDK = ''brewlet.sh/jdk''"
definition annRequestedLauncher :: string where "annRequestedLauncher = ''brewlet.sh/launcher''"
definition annCDSRegenerate :: string where "annCDSRegenerate = ''brewlet.sh/cds-regenerate''"
definition annContainerType :: string where "annContainerType = ''io.kubernetes.cri.container-type''"
definition containerTypeSandbox :: string where "containerTypeSandbox = ''sandbox''"
definition defaultJDKRootsDir :: string where "defaultJDKRootsDir = ''/opt/brewlet/jdks''"
definition defaultLauncherRootsDir :: string where "defaultLauncherRootsDir = ''/opt/brewlet/launchers''"
definition defaultContentRoot :: string where
  "defaultContentRoot = ''/var/lib/containerd/io.containerd.content.v1.content''"

record imageConfig =
  ic_StoreRoot :: string
  ic_Ref :: string
  ic_JDKRootsDir :: string
  ic_LauncherRootsDir :: string
  ic_CPULimit :: string
  ic_MemoryLimit :: string
  ic_JDKRequest :: string
  ic_LauncherName :: string
  ic_CDSRegenerate :: bool
  ic_Backend :: string
  ic_ContentRoot :: string
  ic_ManifestDigest :: string

record resolvedArtifact =
  ra_Config :: JVMConfig
  ra_JarHostPath :: string
  ra_ClasspathHostPaths :: "string list"
  ra_ModulepathHostPaths :: "string list"
  ra_CDSHostPath :: string
  ra_JDKRoot :: string
  ra_JDKHome :: string
  ra_LauncherRoot :: string
  ra_LauncherName :: string
  ra_Format :: string

text \<open>The runtime specification that containerd wrote, as far as the shim reads or changes it; the rest of the
  document and of its process are the fields \<open>sp_Other\<close> and \<open>pr_Other\<close>.\<close>

record Process =
  pr_Args :: "string list"
  pr_Cwd :: string
  pr_UID :: uint32
  pr_GID :: uint32
  pr_Env :: "string list"
  pr_Other :: json

record Spec =
  sp_Annotations :: strmap
  sp_Process :: "Process option"
  sp_Root :: "(string \<times> bool) option"
  sp_Mounts :: "ociMount list"
  sp_Other :: json

record rootfsMount =
  rm_Type :: string
  rm_Source :: string
  rm_Options :: "string list"

record runcOptions =
  rc_BinaryName :: string
  rc_Root :: string
  rc_SystemdCgroup :: bool
  rc_NoPivotRoot :: bool
  rc_NoNewKeyring :: bool

record genericOptions =
  go_ConfigPath :: string
  go_ConfigBody :: bytes

text \<open>The options of a request as \<open>typeurl.UnmarshalAny\<close> gives them.\<close>

datatype requestOptions = NoOptions | RuncOptions runcOptions | GenericOptions genericOptions | OtherOptions | UndecodableOptions

record CreateTaskRequest =
  rq_ID :: string
  rq_Bundle :: string
  rq_Rootfs :: "rootfsMount list"
  rq_Options :: requestOptions

record launchInfo =
  li_entryMode :: string
  li_format :: string

datatype shim_error =
    OptionsUndecodable
  | RuntimeConfigUnreadable string
  | BadRuncOptions
  | OptionsNotEncoded
  | SpecUnreadable string
  | BadSpec string
  | NoArtifactRef string
  | ArtifactFailed store_error
  | SelectFailed select_error
  | RegenFailed
  | StageFailed launch_error
  | SpecNotWritten string
  | RuncFailed string
  | Usage
  | BadImageConfig

record shim_env =
  se_sha :: "bytes \<Rightarrow> string"
  se_codec :: codec
  se_disk :: disk
  se_goarch :: string
  se_tmp :: string
  se_node :: node_fs
  se_host :: host
  se_regen :: regen_env
  se_getenv :: "string \<Rightarrow> string"
  se_parseSpec :: "bytes \<Rightarrow> Spec option"
  se_marshalSpec :: "Spec \<Rightarrow> bytes"
  se_toml :: "bytes \<Rightarrow> runcOptions option"
  se_anypb :: "runcOptions \<Rightarrow> bool"
  se_errText :: "shim_error \<Rightarrow> string"
  se_dur :: "string \<Rightarrow> string"

section \<open>The artifact\<close>

definition envOr :: "shim_env \<Rightarrow> string \<Rightarrow> string \<Rightarrow> string" where
  "envOr env key def = (let v = se_getenv env key in if v \<noteq> '''' then v else def)"

definition contentSource :: "string \<Rightarrow> blob_path" where
  "contentSource root digest = Some (contentBlobPath root digest)"

definition contentStoreBlobs :: "shim_env \<Rightarrow> string \<Rightarrow> string \<Rightarrow> (store_error, ResolvedBlobs) fsm" where
  "contentStoreBlobs env contentRoot manifestDigest fs =
     (if manifestDigest = '''' then (Inl NoManifestDigest, fs)
      else
        (case ResolveManifestFollowingIndex (se_goarch env) (contentSource contentRoot) fs manifestDigest of
           Inl e \<Rightarrow> (Inl e, fs)
         | Inr (man, digest) \<Rightarrow>
             if IsRunnableImage man then
               ResolveRunnableBlobs (se_sha env) (se_codec env) (se_disk env) (se_getenv env ''BREWLET_RUNNABLE_STAGE'') (se_tmp env)
                 (contentSource contentRoot) man digest fs
             else if m_ArtifactType man \<noteq> '''' \<and> m_ArtifactType man \<noteq> ArtifactType then
               (Inl (NotBrewletArtifact (m_ArtifactType man)), fs)
             else (ResolveNativeBlobs (contentSource contentRoot) fs man, fs)))"

definition artifactBackend :: "imageConfig \<Rightarrow> string" where
  "artifactBackend ic =
     (if ic_Backend ic \<noteq> '''' then ic_Backend ic else if ic_StoreRoot ic \<noteq> '''' then ''layout'' else ''containerd'')"

definition loadArtifactBlobs :: "shim_env \<Rightarrow> imageConfig \<Rightarrow> (store_error, ResolvedBlobs) fsm" where
  "loadArtifactBlobs env ic =
     (let backend = (if ic_Backend ic = '''' then (if ic_StoreRoot ic \<noteq> '''' then ''layout'' else ''containerd'') else ic_Backend ic) in
      if backend = ''layout'' then
        ResolveBlobs (se_sha env) (se_codec env) (se_disk env) (se_goarch env) (se_getenv env ''BREWLET_RUNNABLE_STAGE'') (se_tmp env)
          (ic_StoreRoot ic) (ic_Ref ic)
      else if backend = ''containerd'' then
        contentStoreBlobs env (if ic_ContentRoot ic = '''' then defaultContentRoot else ic_ContentRoot ic) (ic_ManifestDigest ic)
      else failF (UnknownBackend backend))"

definition selectRuntime :: "node_fs \<Rightarrow> imageConfig \<Rightarrow> select_error + string \<times> string \<times> string" where
  "selectRuntime node ic =
     (case selectJDK node (ic_JDKRootsDir ic) (ic_JDKRequest ic) of Inl e \<Rightarrow> Inl e
      | Inr jdkRoot \<Rightarrow>
        (case resolveJDKHome node jdkRoot of Inl e \<Rightarrow> Inl e
         | Inr jdkHome \<Rightarrow>
           (case selectLauncher node (ic_LauncherRootsDir ic) (ic_LauncherName ic) of Inl e \<Rightarrow> Inl e
            | Inr launcherRoot \<Rightarrow> Inr (jdkRoot, jdkHome, launcherRoot))))"

definition resolveArtifact :: "shim_env \<Rightarrow> imageConfig \<Rightarrow> (shim_error, resolvedArtifact) fsm" where
  "resolveArtifact env ic =
     bindF (mapErrF ArtifactFailed (loadArtifactBlobs env ic)) (\<lambda>blobs.
     bindF (mapErrF SelectFailed (liftF (selectRuntime (se_node env) ic))) (\<lambda>(jdkRoot, jdkHome, launcherRoot).
     retF \<lparr>ra_Config = rb_Config blobs, ra_JarHostPath = rb_JarHostPath blobs,
           ra_ClasspathHostPaths = rb_ClasspathHostPaths blobs, ra_ModulepathHostPaths = rb_ModulepathHostPaths blobs,
           ra_CDSHostPath = rb_CDSHostPath blobs, ra_JDKRoot = jdkRoot, ra_JDKHome = jdkHome, ra_LauncherRoot = launcherRoot,
           ra_LauncherName = ic_LauncherName ic, ra_Format = rb_Format blobs\<rparr>))"

section \<open>The container specification\<close>

definition artifactRef :: "Spec \<Rightarrow> string" where
  "artifactRef spec =
     (let v = mget (sp_Annotations spec) annArtifactRef in
      if v \<noteq> '''' then v else mget (sp_Annotations spec) annCRIImage)"

definition envKey :: "string \<Rightarrow> string" where
  "envKey kv = (case CutAt (CHR ''='') kv of Some (k, _) \<Rightarrow> k | None \<Rightarrow> kv)"

text \<open>The index of the base environment, and the overlay: an entry whose key is known replaces the entry at the
  recorded position, another one is appended.\<close>

fun indexEnv :: "nat \<Rightarrow> string list \<Rightarrow> (string \<rightharpoonup> nat) \<Rightarrow> (string \<rightharpoonup> nat)" where
  "indexEnv i [] idx = idx"
| "indexEnv i (kv # kvs) idx = indexEnv (Suc i) kvs (if envKey kv \<noteq> '''' then idx(envKey kv \<mapsto> i) else idx)"

fun overlayEnv :: "(string \<rightharpoonup> nat) \<Rightarrow> string list \<Rightarrow> string list \<Rightarrow> string list" where
  "overlayEnv idx out [] = out"
| "overlayEnv idx out (kv # kvs) =
     (if envKey kv = '''' then overlayEnv idx out kvs
      else (case idx (envKey kv) of
              Some i \<Rightarrow> overlayEnv idx (out[i := kv]) kvs
            | None \<Rightarrow> overlayEnv (idx(envKey kv \<mapsto> length out)) (out @ [kv]) kvs))"

definition mergeEnv :: "string list \<Rightarrow> string list \<Rightarrow> string list" where
  "mergeEnv base overlay = overlayEnv (indexEnv 0 base Map.empty) base overlay"

definition emptyProcess :: Process where
  "emptyProcess = \<lparr>pr_Args = [], pr_Cwd = '''', pr_UID = 0, pr_GID = 0, pr_Env = [], pr_Other = JNull\<rparr>"

definition launchProcess :: "resolvedArtifact \<Rightarrow> string list \<Rightarrow> Process option \<Rightarrow> Process" where
  "launchProcess ra jvmArgs p =
     (let p = (case p of None \<Rightarrow> emptyProcess | Some p \<Rightarrow> p);
          p = p\<lparr>pr_Args := LauncherName (ra_LauncherName ra) # jvmArgs, pr_Cwd := ''/app''\<rparr>;
          p = (case cfg_User (ra_Config ra) of None \<Rightarrow> p
               | Some u \<Rightarrow> p\<lparr>pr_UID := word_of_int (u_UID u), pr_GID := word_of_int (u_GID u)\<rparr>)
      in p\<lparr>pr_Env := mergeEnv (pr_Env p) (launchEnv (ra_Config ra) (ra_LauncherName ra) (ra_LauncherRoot ra))\<rparr>)"

definition regenerateRequested :: "Spec \<Rightarrow> bool" where
  "regenerateRequested spec = (mget (sp_Annotations spec) annCDSRegenerate = ''true'')"

definition regenKeyOf :: "Spec \<Rightarrow> string" where
  "regenKeyOf spec =
     (let k = mget (sp_Annotations spec) annArtifactDigest in if k = '''' then artifactRef spec else k)"

definition mapErrIO :: "('e \<Rightarrow> 'f) \<Rightarrow> ('e, 'a) io \<Rightarrow> ('f, 'a) io" where
  "mapErrIO g m = (fst m, case snd m of Inl e \<Rightarrow> Inl (g e) | Inr a \<Rightarrow> Inr a)"

text \<open>Errors of \<open>BuildJVMArgs\<close> are ignored, as in the code.\<close>

definition applyBrewletLaunch ::
  "shim_env \<Rightarrow> Spec \<Rightarrow> resolvedArtifact \<Rightarrow> string \<Rightarrow> cache \<Rightarrow> (shim_error, Spec) io \<times> cache" where
  "applyBrewletLaunch env spec ra bundleDir dir =
     (let cfg = ra_Config ra;
          mainJar = nonEmpty (cfg_MainJar cfg) ''app.jar'';
          inSandboxJar = ''/app/'' @ mainJar;
          regenerate = regenerateRequested spec;
          jvmArgs = (case BuildJVMArgs cfg inSandboxJar [] regenerate of Inl _ \<Rightarrow> [] | Inr a \<Rightarrow> a);
          cacheDir = envOr env ''BREWLET_CDS_CACHE'' DefaultCDSCacheDir
      in case decideRegen (se_regen env) regenerate (regenKeyOf spec) cacheDir (ra_JDKHome ra) (seedOf cfg (ra_CDSHostPath ra)) dir of
           (None, dir') \<Rightarrow> (failIO RegenFailed, dir')
         | (Some dec, dir') \<Rightarrow>
             (bindIO (if cfg_CDS cfg \<noteq> None \<or> regenerate
                      then mapErrIO StageFailed (StageCDSJar (se_host env) (ra_JarHostPath ra) (PathJoin [bundleDir, ''brewlet'', ''app'']) mainJar)
                      else returnIO (ra_JarHostPath ra)) (\<lambda>jarSource.
                returnIO (spec\<lparr>
                  sp_Process := Some (launchProcess ra (rd_Args dec @ jvmArgs) (sp_Process spec)),
                  sp_Mounts := sp_Mounts spec @ [bindRO ''/opt/jdk'' (ra_JDKHome ra), bindRO inSandboxJar jarSource] @
                    archiveMount cfg regenerate (ra_CDSHostPath ra) @ cacheMount dec cacheDir @
                    launcherMount (ra_LauncherName ra) (ra_LauncherRoot ra)\<rparr>)),
              dir'))"

definition mountClasspathLayers :: "shim_env \<Rightarrow> Spec \<Rightarrow> resolvedArtifact \<Rightarrow> string \<Rightarrow> (shim_error, Spec) io" where
  "mountClasspathLayers env spec ra bundleDir =
     (if length (ra_ClasspathHostPaths ra) = 0 then returnIO spec
      else
        (let libHost = PathJoin [bundleDir, ''brewlet'', ''lib''] in
         thenIO (mapErrIO StageFailed (StageClasspathLayers (se_host env) (ra_ClasspathHostPaths ra) libHost))
           (thenIO (whenIO (cfg_CDS (ra_Config ra) \<noteq> None) (mapErrIO StageFailed (PinCDSModTimesUnder (se_host env) libHost)))
             (returnIO (spec\<lparr>sp_Mounts := sp_Mounts spec @ [bindRO ''/app/lib'' libHost]\<rparr>)))))"

definition mountModulepathLayers :: "shim_env \<Rightarrow> Spec \<Rightarrow> resolvedArtifact \<Rightarrow> string \<Rightarrow> (shim_error, Spec) io" where
  "mountModulepathLayers env spec ra bundleDir =
     (if length (ra_ModulepathHostPaths ra) = 0 then returnIO spec
      else
        (let modsHost = PathJoin [bundleDir, ''brewlet'', ''mods''] in
         thenIO (mapErrIO StageFailed (StageModulepathLayers (se_host env) (ra_ModulepathHostPaths ra) modsHost))
           (thenIO (whenIO (cfg_CDS (ra_Config ra) \<noteq> None) (mapErrIO StageFailed (PinCDSModTimesUnder (se_host env) modsHost)))
             (returnIO (spec\<lparr>sp_Mounts := sp_Mounts spec @ [bindRO ''/app/mods'' modsHost]\<rparr>)))))"

definition setupOverlayRootfs :: "shim_env \<Rightarrow> string \<Rightarrow> resolvedArtifact \<Rightarrow> (shim_error, rootfsMount list) io" where
  "setupOverlayRootfs env bundleDir ra =
     (let scratch = PathJoin [bundleDir, ''brewlet''];
          upper = PathJoin [scratch, ''upper''];
          work = PathJoin [scratch, ''work''];
          lowers = (if \<not> IsVanillaLauncher (ra_LauncherName ra) \<and> ra_LauncherRoot ra \<noteq> ''''
                    then [ra_LauncherRoot ra, ra_JDKRoot ra] else [ra_JDKRoot ra])
      in thenIO (mapErrIO StageFailed (perform (se_host env) OpFailed (MkdirAll upper)))
           (thenIO (mapErrIO StageFailed (perform (se_host env) OpFailed (MkdirAll work)))
             (returnIO [\<lparr>rm_Type = ''overlay'', rm_Source = ''overlay'',
                rm_Options = [''lowerdir='' @ JoinWith '':'' lowers, ''upperdir='' @ upper, ''workdir='' @ work]\<rparr>])))"

section \<open>Telemetry of a launch\<close>

definition emitPhase :: "shim_env \<Rightarrow> string \<Rightarrow> string option \<Rightarrow> Event" where
  "emitPhase env phase err =
     emptyEvent\<lparr>ev_Kind := KindLaunchPhase, ev_Phase := phase, ev_Outcome := Outcome err, ev_Duration := se_dur env phase\<rparr>"

definition emitResolution :: "shim_env \<Rightarrow> string \<Rightarrow> string \<Rightarrow> string option \<Rightarrow> Event" where
  "emitResolution env backend format err =
     emptyEvent\<lparr>ev_Kind := KindArtifactResolution, ev_Backend := backend, ev_Format := format, ev_Outcome := Outcome err,
       ev_Duration := se_dur env ''artifact_resolution''\<rparr>"

definition emitLaunchWithReason :: "launchInfo \<Rightarrow> string option \<Rightarrow> string \<Rightarrow> Event" where
  "emitLaunchWithReason info err reason =
     emptyEvent\<lparr>ev_Kind := KindLaunch, ev_Outcome := Outcome err, ev_Reason := (if reason = '''' then Reason err else reason),
       ev_EntryMode := nonEmpty (li_entryMode info) ''unknown'', ev_Format := nonEmpty (li_format info) ''unknown''\<rparr>"

definition emitLaunch :: "launchInfo \<Rightarrow> string option \<Rightarrow> Event" where
  "emitLaunch info err = emitLaunchWithReason info err ''''"

section \<open>Assembling a bundle\<close>

text \<open>What one call leaves behind: the launch description, the specification and the root mounts or an error, the
  events in order, the calls that stage files, the files and the archive cache.\<close>

record assembly =
  as_info :: launchInfo
  as_result :: "shim_error + Spec \<times> rootfsMount list"
  as_events :: "Event list"
  as_ops :: "fs_op list"
  as_fs :: fsys
  as_cache :: cache

definition errOf :: "shim_env \<Rightarrow> shim_error + 'a \<Rightarrow> string option" where
  "errOf env r = (case r of Inl e \<Rightarrow> Some (se_errText env e) | Inr _ \<Rightarrow> None)"

definition noInfo :: launchInfo where "noInfo = \<lparr>li_entryMode = '''', li_format = ''''\<rparr>"

definition specPath :: "string \<Rightarrow> string" where
  "specPath bundleDir = PathJoin [bundleDir, ''config.json'']"

definition readSpec :: "shim_env \<Rightarrow> string \<Rightarrow> fsys \<Rightarrow> shim_error + Spec" where
  "readSpec env bundleDir fs =
     (case fileAt fs (specPath bundleDir) of None \<Rightarrow> Inl (SpecUnreadable (specPath bundleDir))
      | Some raw \<Rightarrow> (case se_parseSpec env raw of None \<Rightarrow> Inl (BadSpec (specPath bundleDir)) | Some spec \<Rightarrow> Inr spec))"

definition imageConfigOf :: "shim_env \<Rightarrow> Spec \<Rightarrow> imageConfig" where
  "imageConfigOf env spec =
     \<lparr>ic_StoreRoot = envOr env ''BREWLET_STORE_ROOT'' '''', ic_Ref = artifactRef spec,
      ic_JDKRootsDir = envOr env ''BREWLET_JDK_ROOTS'' defaultJDKRootsDir,
      ic_LauncherRootsDir = envOr env ''BREWLET_LAUNCHER_ROOTS'' defaultLauncherRootsDir,
      ic_CPULimit = '''', ic_MemoryLimit = '''',
      ic_JDKRequest = mget (sp_Annotations spec) annRequestedJDK, ic_LauncherName = mget (sp_Annotations spec) annRequestedLauncher,
      ic_CDSRegenerate = False, ic_Backend = envOr env ''BREWLET_STORE_BACKEND'' '''',
      ic_ContentRoot = envOr env ''BREWLET_CONTENT_ROOT'' defaultContentRoot,
      ic_ManifestDigest = mget (sp_Annotations spec) annArtifactDigest\<rparr>"

text \<open>The layer mounts, the writable root and writing the specification back: the part of \<open>assembleBrewletBundle\<close>
  after the overlay.\<close>

definition finishSpec ::
  "shim_env \<Rightarrow> string \<Rightarrow> resolvedArtifact \<Rightarrow> Spec \<Rightarrow> fsys \<Rightarrow> fs_op list \<times> (shim_error + Spec) \<times> fsys" where
  "finishSpec env bundleDir ra spec fs =
     (case bindIO (mountClasspathLayers env spec ra bundleDir) (\<lambda>spec. mountModulepathLayers env spec ra bundleDir) of
        (ops, Inl e) \<Rightarrow> (ops, Inl e, fs)
      | (ops, Inr spec') \<Rightarrow>
          (let spec'' = spec'\<lparr>sp_Root := Some (''rootfs'', False)\<rparr> in
           case writeF (se_disk env) SpecNotWritten (specPath bundleDir) (se_marshalSpec env spec'') fs of
             (Inl e, fs') \<Rightarrow> (ops, Inl e, fs')
           | (Inr _, fs') \<Rightarrow> (ops, Inr spec'', fs')))"

definition launchBundle ::
  "shim_env \<Rightarrow> string \<Rightarrow> Spec \<Rightarrow> resolvedArtifact \<Rightarrow> launchInfo \<Rightarrow> Event list \<Rightarrow> fsys \<Rightarrow> cache \<Rightarrow> assembly" where
  "launchBundle env bundleDir spec ra info evs fs dir =
     (case applyBrewletLaunch env spec ra bundleDir dir of
        ((ops1, Inl e), dir') \<Rightarrow>
          \<lparr>as_info = info, as_result = Inl e, as_events = evs @ [emitPhase env ''bundle_prepare'' (Some (se_errText env e))],
           as_ops = ops1, as_fs = fs, as_cache = dir'\<rparr>
      | ((ops1, Inr spec1), dir') \<Rightarrow>
          (case setupOverlayRootfs env bundleDir ra of
             (ops2, Inl e) \<Rightarrow>
               \<lparr>as_info = info, as_result = Inl e, as_events = evs @ [emitPhase env ''overlay_setup'' (Some (se_errText env e))],
                as_ops = ops1 @ ops2, as_fs = fs, as_cache = dir'\<rparr>
           | (ops2, Inr rootfs) \<Rightarrow>
               (case finishSpec env bundleDir ra spec1 fs of
                  (ops3, r, fs') \<Rightarrow>
                    \<lparr>as_info = info, as_result = (case r of Inl e \<Rightarrow> Inl e | Inr spec2 \<Rightarrow> Inr (spec2, rootfs)),
                     as_events = evs @ [emitPhase env ''overlay_setup'' None, emitPhase env ''bundle_prepare'' (errOf env r)],
                     as_ops = ops1 @ ops2 @ ops3, as_fs = fs', as_cache = dir'\<rparr>)))"

definition assembleBrewletBundle :: "shim_env \<Rightarrow> CreateTaskRequest \<Rightarrow> fsys \<Rightarrow> cache \<Rightarrow> assembly" where
  "assembleBrewletBundle env r fs dir =
     (case readSpec env (rq_Bundle r) fs of
        Inl e \<Rightarrow> \<lparr>as_info = noInfo, as_result = Inl e, as_events = [], as_ops = [], as_fs = fs, as_cache = dir\<rparr>
      | Inr spec \<Rightarrow>
          if artifactRef spec = '''' then
            \<lparr>as_info = noInfo, as_result = Inl (NoArtifactRef (rq_ID r)), as_events = [], as_ops = [], as_fs = fs, as_cache = dir\<rparr>
          else
            (let ic = imageConfigOf env spec in
             case resolveArtifact env ic fs of
               (Inl e, fs') \<Rightarrow>
                 (let err = Some (se_errText env e) in
                  \<lparr>as_info = \<lparr>li_entryMode = '''', li_format = ''unknown''\<rparr>, as_result = Inl e,
                   as_events = [emitResolution env (artifactBackend ic) ''unknown'' err, emitPhase env ''artifact_resolve'' err],
                   as_ops = [], as_fs = fs', as_cache = dir\<rparr>)
             | (Inr ra, fs') \<Rightarrow>
                 (let format = nonEmpty (ra_Format ra) ''unknown'';
                      info = \<lparr>li_entryMode = nonEmpty (e_Mode (cfg_Entry (ra_Config ra))) ''jar'', li_format = format\<rparr>
                  in launchBundle env (rq_Bundle r) spec ra info
                       [emitResolution env (artifactBackend ic) format None, emitPhase env ''artifact_resolve'' None] fs' dir)))"

section \<open>The task service\<close>

definition isSandboxBundle :: "shim_env \<Rightarrow> string \<Rightarrow> fsys \<Rightarrow> shim_error + bool" where
  "isSandboxBundle env bundleDir fs =
     (case readSpec env bundleDir fs of Inl e \<Rightarrow> Inl e
      | Inr spec \<Rightarrow> Inr (mget (sp_Annotations spec) annContainerType = containerTypeSandbox))"

definition emptyRuncOptions :: runcOptions where
  "emptyRuncOptions = \<lparr>rc_BinaryName = '''', rc_Root = '''', rc_SystemdCgroup = False, rc_NoPivotRoot = False, rc_NoNewKeyring = False\<rparr>"

definition runcOptionsFromGeneric :: "shim_env \<Rightarrow> genericOptions \<Rightarrow> fsys \<Rightarrow> shim_error + runcOptions" where
  "runcOptionsFromGeneric env opts fs =
     (let parse = (\<lambda>body. if body = '''' then Inr emptyRuncOptions
                          else (case se_toml env body of None \<Rightarrow> Inl BadRuncOptions | Some cfg \<Rightarrow> Inr cfg))
      in if go_ConfigBody opts = '''' \<and> go_ConfigPath opts \<noteq> '''' then
           (case fileAt fs (go_ConfigPath opts) of None \<Rightarrow> Inl (RuntimeConfigUnreadable (go_ConfigPath opts)) | Some b \<Rightarrow> parse b)
         else parse (go_ConfigBody opts))"

definition normalizeRuncOptions :: "shim_env \<Rightarrow> CreateTaskRequest \<Rightarrow> fsys \<Rightarrow> shim_error + CreateTaskRequest" where
  "normalizeRuncOptions env r fs =
     (case rq_Options r of
        NoOptions \<Rightarrow> Inr r
      | UndecodableOptions \<Rightarrow> Inl OptionsUndecodable
      | RuncOptions _ \<Rightarrow> Inr r
      | GenericOptions g \<Rightarrow>
          (case runcOptionsFromGeneric env g fs of Inl e \<Rightarrow> Inl e
           | Inr opts \<Rightarrow> if se_anypb env opts then Inr (r\<lparr>rq_Options := RuncOptions opts\<rparr>) else Inl OptionsNotEncoded)
      | OtherOptions \<Rightarrow> Inr r)"

record shim_state =
  sh_fs :: fsys
  sh_cache :: cache
  sh_ops :: "fs_op list"
  sh_pending :: "string \<rightharpoonup> launchInfo"
  sh_events :: "Event list"

text \<open>The inner runc task service is third-party: \<open>runcCreate\<close>, \<open>runcStart\<close> and \<open>runcDelete\<close> give the error with
  which it answers, \<open>None\<close> for success.\<close>

definition Create ::
  "shim_env \<Rightarrow> (CreateTaskRequest \<Rightarrow> string option) \<Rightarrow> CreateTaskRequest \<Rightarrow> shim_state \<Rightarrow> shim_error option \<times> shim_state" where
  "Create env runcCreate r st =
     (case normalizeRuncOptions env r (sh_fs st) of Inl e \<Rightarrow> (Some e, st)
      | Inr r \<Rightarrow>
        (case isSandboxBundle env (rq_Bundle r) (sh_fs st) of Inl e \<Rightarrow> (Some e, st)
         | Inr sandbox \<Rightarrow>
             if \<not> sandbox then
               (let a = assembleBrewletBundle env r (sh_fs st) (sh_cache st);
                    info = as_info a;
                    st = st\<lparr>sh_fs := as_fs a, sh_cache := as_cache a, sh_ops := sh_ops st @ as_ops a,
                            sh_events := sh_events st @ as_events a\<rparr>
                in case as_result a of
                     Inl e \<Rightarrow> (Some e, st\<lparr>sh_events := sh_events st @ [emitLaunch info (Some (se_errText env e))]\<rparr>)
                   | Inr (spec, rootfs) \<Rightarrow>
                       (case runcCreate (r\<lparr>rq_Rootfs := rootfs\<rparr>) of
                          Some err \<Rightarrow>
                            (Some (RuncFailed err), st\<lparr>sh_events := sh_events st @
                               [emitPhase env ''runc_create'' (Some err), emitLaunchWithReason info (Some err) ''RuntimeCreate'']\<rparr>)
                        | None \<Rightarrow>
                            (None, st\<lparr>sh_events := sh_events st @ [emitPhase env ''runc_create'' None],
                                     sh_pending := (sh_pending st)(rq_ID r \<mapsto> info)\<rparr>)))
             else (map_option RuncFailed (runcCreate r), st)))"

definition Start :: "shim_env \<Rightarrow> string option \<Rightarrow> string \<Rightarrow> string \<Rightarrow> shim_state \<Rightarrow> string option \<times> shim_state" where
  "Start env runcStart taskID execID st =
     (if execID \<noteq> '''' then (runcStart, st)
      else
        (let st' = st\<lparr>sh_pending := (sh_pending st)(taskID := None)\<rparr> in
         case sh_pending st taskID of
           None \<Rightarrow> (runcStart, st')
         | Some info \<Rightarrow>
             (runcStart, st'\<lparr>sh_events := sh_events st @
                [emitPhase env ''process_start'' runcStart,
                 emitLaunchWithReason info runcStart (if runcStart \<noteq> None then ''ProcessStart'' else '''')]\<rparr>)))"

definition Delete :: "string option \<Rightarrow> string \<Rightarrow> string \<Rightarrow> shim_state \<Rightarrow> string option \<times> shim_state" where
  "Delete runcDelete taskID execID st =
     (if runcDelete = None \<and> execID = '''' then (runcDelete, st\<lparr>sh_pending := (sh_pending st)(taskID := None)\<rparr>)
      else (runcDelete, st))"

section \<open>The harness\<close>

definition decodeImageConfig :: "json \<Rightarrow> imageConfig option" where
  "decodeImageConfig j =
     Option.bind (asMembers j) (\<lambda>fs.
     Option.bind (asString (member fs ''storeRoot'')) (\<lambda>sr.
     Option.bind (asString (member fs ''ref'')) (\<lambda>rf.
     Option.bind (asString (member fs ''jdkRootsDir'')) (\<lambda>jr.
     Option.bind (asString (member fs ''launcherRootsDir'')) (\<lambda>lr.
     Option.bind (asString (member fs ''cpuLimit'')) (\<lambda>cl.
     Option.bind (asString (member fs ''memoryLimit'')) (\<lambda>ml.
     Option.bind (asString (member fs ''jdkRequest'')) (\<lambda>jq.
     Option.bind (asString (member fs ''launcherName'')) (\<lambda>ln.
     Option.bind (asBool (member fs ''cdsRegenerate'')) (\<lambda>cr.
     Option.bind (asString (member fs ''backend'')) (\<lambda>be.
     Option.bind (asString (member fs ''contentRoot'')) (\<lambda>ct.
     Option.bind (asString (member fs ''manifestDigest'')) (\<lambda>md.
     Some \<lparr>ic_StoreRoot = sr, ic_Ref = rf, ic_JDKRootsDir = jr, ic_LauncherRootsDir = lr, ic_CPULimit = cl, ic_MemoryLimit = ml,
           ic_JDKRequest = jq, ic_LauncherName = ln, ic_CDSRegenerate = cr, ic_Backend = be, ic_ContentRoot = ct,
           ic_ManifestDigest = md\<rparr>)))))))))))))"

definition regenOptions :: "shim_env \<Rightarrow> imageConfig \<Rightarrow> CDSRegenOptions" where
  "regenOptions env ic =
     \<lparr>ro_Regenerate = ic_CDSRegenerate ic, ro_ArtifactKey = firstNonEmptyStr [ic_ManifestDigest ic, ic_Ref ic],
      ro_CacheDir = se_getenv env ''BREWLET_CDS_CACHE''\<rparr>"

definition bundleFromConfig ::
  "shim_env \<Rightarrow> float_ops \<Rightarrow> (ociSpec \<Rightarrow> bytes) \<Rightarrow> imageConfig \<Rightarrow> string \<Rightarrow> fsys \<Rightarrow> cache \<Rightarrow>
   (fs_op list \<times> (shim_error + ociSpec)) \<times> fsys \<times> cache" where
  "bundleFromConfig env fl marshal ic bundleDir fs dir =
     (case resolveArtifact env ic fs of
        (Inl e, fs') \<Rightarrow> (failIO e, fs', dir)
      | (Inr ra, fs') \<Rightarrow>
          (case GenerateBundleWithRegen (se_host env) fl marshal (se_regen env) (ra_Config ra) (ra_JDKHome ra) (ra_LauncherRoot ra)
                  (ra_LauncherName ra) (ra_JarHostPath ra) (ra_ClasspathHostPaths ra) (ra_ModulepathHostPaths ra) (ra_CDSHostPath ra)
                  bundleDir \<lparr>lim_CPU = ic_CPULimit ic, lim_Memory = ic_MemoryLimit ic\<rparr> [] (regenOptions env ic) dir of
             (io, dir') \<Rightarrow> (mapErrIO StageFailed io, fs', dir')))"

definition prepareBundle ::
  "shim_env \<Rightarrow> float_ops \<Rightarrow> (ociSpec \<Rightarrow> bytes) \<Rightarrow> string list \<Rightarrow> fsys \<Rightarrow> cache \<Rightarrow>
   (fs_op list \<times> (shim_error + ociSpec)) \<times> fsys \<times> cache" where
  "prepareBundle env fl marshal args fs dir =
     (case args of
        a # bundleDir # _ \<Rightarrow>
          (case fileAt fs a of None \<Rightarrow> (failIO (SpecUnreadable a), fs, dir)
           | Some cfgBytes \<Rightarrow>
               (case Option.bind (parseJson cfgBytes) decodeImageConfig of
                  None \<Rightarrow> (failIO BadImageConfig, fs, dir)
                | Some ic \<Rightarrow> bundleFromConfig env fl marshal ic bundleDir fs dir))
      | _ \<Rightarrow> (failIO Usage, fs, dir))"

section \<open>The environment\<close>

text \<open>The variable of a process environment is its last entry with the key.\<close>

definition envEntry :: "string list \<Rightarrow> string \<Rightarrow> string option" where
  "envEntry env k = find (\<lambda>kv. envKey kv = k) (rev env)"

definition envIndexed :: "(string \<rightharpoonup> nat) \<Rightarrow> string list \<Rightarrow> bool" where
  "envIndexed idx out \<longleftrightarrow> (\<forall>k. k \<noteq> '''' \<longrightarrow>
     (case idx k of None \<Rightarrow> \<forall>kv \<in> set out. envKey kv \<noteq> k
      | Some i \<Rightarrow> \<exists>xs x ys. out = xs @ x # ys \<and> length xs = i \<and> envKey x = k \<and> (\<forall>y \<in> set ys. envKey y \<noteq> k)))"

lemma envIndexedI:
  assumes "\<And>k kv. k \<noteq> '''' \<Longrightarrow> idx k = None \<Longrightarrow> kv \<in> set out \<Longrightarrow> envKey kv \<noteq> k"
    and "\<And>k i. k \<noteq> '''' \<Longrightarrow> idx k = Some i \<Longrightarrow> \<exists>xs x ys. out = xs @ x # ys \<and> length xs = i \<and> envKey x = k \<and> (\<forall>y \<in> set ys. envKey y \<noteq> k)"
  shows "envIndexed idx out"
  unfolding envIndexed_def
proof (intro allI impI)
  fix k :: string assume "k \<noteq> ''''"
  then show "case idx k of None \<Rightarrow> \<forall>kv \<in> set out. envKey kv \<noteq> k
      | Some i \<Rightarrow> \<exists>xs x ys. out = xs @ x # ys \<and> length xs = i \<and> envKey x = k \<and> (\<forall>y \<in> set ys. envKey y \<noteq> k)"
    using assms [of k] by (cases "idx k") simp_all
qed

lemma envIndexed_None: "envIndexed idx out \<Longrightarrow> k \<noteq> '''' \<Longrightarrow> idx k = None \<Longrightarrow> kv \<in> set out \<Longrightarrow> envKey kv \<noteq> k"
  unfolding envIndexed_def by force

lemma envIndexed_Some:
  assumes "envIndexed idx out" and "k \<noteq> ''''" and "idx k = Some i"
  obtains xs x ys where "out = xs @ x # ys" "length xs = i" "envKey x = k" "\<forall>y \<in> set ys. envKey y \<noteq> k"
  using assms unfolding envIndexed_def by force

lemma envEntry_snoc: "envEntry (env @ [kv]) k = (if envKey kv = k then Some kv else envEntry env k)"
  by (simp add: envEntry_def)

lemma envEntry_None: "envEntry env k = None \<longleftrightarrow> (\<forall>kv \<in> set env. envKey kv \<noteq> k)"
  by (auto simp: envEntry_def find_None_iff)

lemma envEntry_append: "envEntry (xs @ ys) k = (case envEntry ys k of None \<Rightarrow> envEntry xs k | Some kv \<Rightarrow> Some kv)"
  unfolding envEntry_def by (simp add: find_append)

lemma envEntry_single [simp]: "envEntry [kv] k = (if envKey kv = k then Some kv else None)"
  by (simp add: envEntry_def)

lemma envEntry_Cons: "envEntry (kv # kvs) k = (case envEntry kvs k of None \<Rightarrow> if envKey kv = k then Some kv else None | Some x \<Rightarrow> Some x)"
  unfolding envEntry_def by (simp add: find_append split: option.split)

text \<open>Appending an entry with a new key, and replacing the recorded entry of a known one.\<close>

lemma envIndexed_snoc:
  assumes "envIndexed idx out" and "envKey kv \<noteq> ''''" shows "envIndexed (idx(envKey kv \<mapsto> length out)) (out @ [kv])"
proof (rule envIndexedI)
  fix k i assume k: "k \<noteq> ''''" and i: "(idx(envKey kv \<mapsto> length out)) k = Some i"
  show "\<exists>xs x ys. out @ [kv] = xs @ x # ys \<and> length xs = i \<and> envKey x = k \<and> (\<forall>y \<in> set ys. envKey y \<noteq> k)"
  proof (cases "k = envKey kv")
    case True
    then show ?thesis using i by (intro exI [of _ out] exI [of _ kv] exI [of _ "[]"]) simp
  next
    case False
    then have "idx k = Some i" using i by simp
    then obtain xs x ys where "out = xs @ x # ys" "length xs = i" "envKey x = k" "\<forall>y \<in> set ys. envKey y \<noteq> k"
      using envIndexed_Some [OF assms(1) k] by blast
    then show ?thesis using False by (intro exI [of _ xs] exI [of _ x] exI [of _ "ys @ [kv]"]) auto
  qed
qed (use assms envIndexed_None in \<open>fastforce split: if_splits\<close>)

lemma envIndexed_skip:
  assumes "envIndexed idx out" and "envKey kv = ''''" shows "envIndexed idx (out @ [kv])"
proof (rule envIndexedI)
  fix k i assume k: "k \<noteq> ''''" and i: "idx k = Some i"
  obtain xs x ys where "out = xs @ x # ys" "length xs = i" "envKey x = k" "\<forall>y \<in> set ys. envKey y \<noteq> k"
    using envIndexed_Some [OF assms(1) k i] by blast
  then show "\<exists>xs x ys. out @ [kv] = xs @ x # ys \<and> length xs = i \<and> envKey x = k \<and> (\<forall>y \<in> set ys. envKey y \<noteq> k)"
    using assms(2) k by (intro exI [of _ xs] exI [of _ x] exI [of _ "ys @ [kv]"]) auto
qed (use assms envIndexed_None in fastforce)

lemma indexEnv_snoc:
  "indexEnv i (kvs @ [kv]) idx =
     (if envKey kv \<noteq> '''' then (indexEnv i kvs idx)(envKey kv \<mapsto> i + length kvs) else indexEnv i kvs idx)"
  by (induction kvs arbitrary: i idx) simp_all

lemma indexEnv_indexed: "envIndexed (indexEnv 0 base Map.empty) base"
  by (induction base rule: rev_induct)
    (simp add: envIndexed_def, simp add: indexEnv_snoc envIndexed_snoc envIndexed_skip)

lemma envIndexed_update:
  assumes "envIndexed idx out" and "idx (envKey kv) = Some i" and "envKey kv \<noteq> ''''"
  shows "envIndexed idx (out[i := kv])" "envEntry (out[i := kv]) k = (if k = envKey kv then Some kv else envEntry out k)"
    "map envKey (out[i := kv]) = map envKey out"
proof -
  obtain xs x ys where s: "out = xs @ x # ys" "length xs = i" "envKey x = envKey kv" "\<forall>y \<in> set ys. envKey y \<noteq> envKey kv"
    using envIndexed_Some [OF assms(1,3,2)] by blast
  have u: "out[i := kv] = xs @ kv # ys" using s(1,2) by auto
  show keys: "map envKey (out[i := kv]) = map envKey out" unfolding u by (simp add: s(1,3))
  show "envEntry (out[i := kv]) k = (if k = envKey kv then Some kv else envEntry out k)"
    using s(3,4) envEntry_None [of ys k] unfolding u by (auto simp: s(1) envEntry_append envEntry_Cons split: option.split)
  show "envIndexed idx (out[i := kv])"
  proof (rule envIndexedI)
    fix k x' assume "k \<noteq> ''''" "idx k = None" "x' \<in> set (out[i := kv])"
    then show "envKey x' \<noteq> k" using envIndexed_None [OF assms(1)] assms(2) s(1,3) unfolding u by (metis Un_iff list.set_intros(1,2) option.distinct(1) set_ConsD set_append)
  next
    fix k j assume k: "k \<noteq> ''''" "idx k = Some j"
    obtain xs' x' ys' where t: "out = xs' @ x' # ys'" "length xs' = j" "envKey x' = k" "\<forall>y \<in> set ys'. envKey y \<noteq> k"
      using envIndexed_Some [OF assms(1) k] by blast
    have m: "map envKey (out[i := kv]) = map envKey xs' @ k # map envKey ys'" using keys t(1,3) by simp
    then obtain as b cs where o: "out[i := kv] = as @ b # cs" "map envKey as = map envKey xs'" "envKey b = k" "map envKey cs = map envKey ys'"
      by (auto simp: map_eq_append_conv map_eq_Cons_conv)
    have "length as = j" using o(2) t(2) by (metis length_map)
    moreover have "\<forall>y \<in> set cs. envKey y \<noteq> k" using o(4) t(4) by (metis (no_types, lifting) imageE imageI list.set_map)
    ultimately show "\<exists>xs x ys. out[i := kv] = xs @ x # ys \<and> length xs = j \<and> envKey x = k \<and> (\<forall>y \<in> set ys. envKey y \<noteq> k)"
      using o(1,3) by blast
  qed
qed

lemma overlayEnv_entry:
  "envIndexed idx out \<Longrightarrow> k \<noteq> '''' \<Longrightarrow>
     envEntry (overlayEnv idx out ov) k = (case envEntry ov k of None \<Rightarrow> envEntry out k | Some kv \<Rightarrow> Some kv)"
proof (induction ov arbitrary: idx out)
  case (Cons kv ov)
  show ?case
  proof (cases "envKey kv = ''''")
    case True
    then show ?thesis using Cons by (simp add: envEntry_Cons split: option.split)
  next
    case False
    show ?thesis
    proof (cases "idx (envKey kv)")
      case None
      have "envEntry (overlayEnv (idx(envKey kv \<mapsto> length out)) (out @ [kv]) ov) k =
          (case envEntry ov k of None \<Rightarrow> envEntry (out @ [kv]) k | Some x \<Rightarrow> Some x)"
        by (rule Cons.IH [OF envIndexed_snoc [OF Cons.prems(1) False] Cons.prems(2)])
      then show ?thesis using None False by (simp add: envEntry_Cons envEntry_snoc split: option.split)
    next
      case (Some i)
      note u = envIndexed_update [OF Cons.prems(1) Some False]
      show ?thesis
        using Cons.IH [OF u(1) Cons.prems(2)] Some False u(2) [of k] by (auto simp: envEntry_Cons split: option.split)
    qed
  qed
qed (simp add: envEntry_def)

lemma overlayEnv_keys:
  "envIndexed idx out \<Longrightarrow> \<exists>new. map envKey (overlayEnv idx out ov) = map envKey out @ new \<and> set new \<subseteq> envKey ` set ov \<and> distinct new \<and>
     set new \<inter> envKey ` set out = {}"
proof (induction ov arbitrary: idx out)
  case (Cons kv ov)
  show ?case
  proof (cases "envKey kv = ''''")
    case True
    then show ?thesis using Cons.IH [OF Cons.prems] by auto
  next
    case False
    show ?thesis
    proof (cases "idx (envKey kv)")
      case None
      obtain new where "map envKey (overlayEnv (idx(envKey kv \<mapsto> length out)) (out @ [kv]) ov) = map envKey (out @ [kv]) @ new"
          "set new \<subseteq> envKey ` set ov" "distinct new" "set new \<inter> envKey ` set (out @ [kv]) = {}"
        using Cons.IH [OF envIndexed_snoc [OF Cons.prems False]] by blast
      then have "map envKey (overlayEnv idx out (kv # ov)) = map envKey (out @ [kv]) @ new" "set new \<subseteq> envKey ` set ov"
          "distinct new" "set new \<inter> envKey ` set (out @ [kv]) = {}"
        using None False by simp_all
      moreover have "envKey kv \<notin> envKey ` set out" using envIndexed_None [OF Cons.prems False None] by fastforce
      ultimately show ?thesis by (intro exI [of _ "envKey kv # new"]) auto
    next
      case (Some i)
      note u = envIndexed_update [OF Cons.prems Some False]
      have "envKey ` set (out[i := kv]) = envKey ` set out" using u(3) by (metis list.set_map)
      then show ?thesis using Cons.IH [OF u(1)] Some False u(3) by auto
    qed
  qed
qed (simp add: exI [of _ "[]"])

lemma mergeEnv_spec:
  "k \<noteq> '''' \<Longrightarrow> envEntry (mergeEnv base ov) k = (case envEntry ov k of None \<Rightarrow> envEntry base k | Some kv \<Rightarrow> Some kv)"
  "\<exists>new. map envKey (mergeEnv base ov) = map envKey base @ new \<and> set new \<subseteq> envKey ` set ov \<and> distinct new \<and> set new \<inter> envKey ` set base = {}"
  unfolding mergeEnv_def using overlayEnv_entry [OF indexEnv_indexed] overlayEnv_keys [OF indexEnv_indexed] by blast+

section \<open>The shim and the harness\<close>

lemma mapErrIO_simps [simp]:
  "fst (mapErrIO g m) = fst m" "snd (mapErrIO g m) = Inr a \<longleftrightarrow> snd m = Inr a"
  by (auto simp: mapErrIO_def split: sum.split)

lemma applyBrewletLaunch_success:
  assumes "applyBrewletLaunch env spec ra bundleDir dir = ((ops, Inr spec'), dir')"
  obtains dec jarSource where
    "decideRegen (se_regen env) (regenerateRequested spec) (regenKeyOf spec) (envOr env ''BREWLET_CDS_CACHE'' DefaultCDSCacheDir)
       (ra_JDKHome ra) (seedOf (ra_Config ra) (ra_CDSHostPath ra)) dir = (Some dec, dir')"
    "spec' = spec\<lparr>sp_Process := Some (launchProcess ra (rd_Args dec @
         (case BuildJVMArgs (ra_Config ra) (''/app/'' @ nonEmpty (cfg_MainJar (ra_Config ra)) ''app.jar'') [] (regenerateRequested spec) of
            Inl _ \<Rightarrow> [] | Inr a \<Rightarrow> a)) (sp_Process spec)),
       sp_Mounts := sp_Mounts spec @ [bindRO ''/opt/jdk'' (ra_JDKHome ra),
           bindRO (''/app/'' @ nonEmpty (cfg_MainJar (ra_Config ra)) ''app.jar'') jarSource] @
         archiveMount (ra_Config ra) (regenerateRequested spec) (ra_CDSHostPath ra) @
         cacheMount dec (envOr env ''BREWLET_CDS_CACHE'' DefaultCDSCacheDir) @ launcherMount (ra_LauncherName ra) (ra_LauncherRoot ra)\<rparr>"
proof -
  obtain dec where d: "decideRegen (se_regen env) (regenerateRequested spec) (regenKeyOf spec) (envOr env ''BREWLET_CDS_CACHE'' DefaultCDSCacheDir)
       (ra_JDKHome ra) (seedOf (ra_Config ra) (ra_CDSHostPath ra)) dir = (Some dec, dir')"
    using assms by (auto simp: applyBrewletLaunch_def Let_def failIO_def split: prod.splits option.splits)
  have "snd (fst (applyBrewletLaunch env spec ra bundleDir dir)) = Inr spec'" using assms by simp
  then show thesis
    using that [OF d] d by (auto simp: applyBrewletLaunch_def Let_def io_ok split: if_splits)
qed

lemma mountLayers_success:
  assumes "snd (bindIO (mountClasspathLayers env spec ra bundleDir) (\<lambda>spec. mountModulepathLayers env spec ra bundleDir)) = Inr spec'"
  shows "spec' = spec\<lparr>sp_Mounts := sp_Mounts spec @
      layerMount (ra_ClasspathHostPaths ra) ''/app/lib'' (PathJoin [bundleDir, ''brewlet'', ''lib'']) @
      layerMount (ra_ModulepathHostPaths ra) ''/app/mods'' (PathJoin [bundleDir, ''brewlet'', ''mods''])\<rparr>"
  using assms
  by (auto simp: io_ok mountClasspathLayers_def mountModulepathLayers_def layerMount_def Let_def split: if_splits)

lemma finishSpec_success:
  assumes "finishSpec env bundleDir ra spec fs = (ops, Inr spec', fs')"
  shows "spec' = spec\<lparr>sp_Mounts := sp_Mounts spec @
      layerMount (ra_ClasspathHostPaths ra) ''/app/lib'' (PathJoin [bundleDir, ''brewlet'', ''lib'']) @
      layerMount (ra_ModulepathHostPaths ra) ''/app/mods'' (PathJoin [bundleDir, ''brewlet'', ''mods'']),
      sp_Root := Some (''rootfs'', False)\<rparr>"
    "fs' = fs(Clean (specPath bundleDir) \<mapsto> se_marshalSpec env spec')"
proof -
  obtain spec1 where m: "snd (bindIO (mountClasspathLayers env spec ra bundleDir) (\<lambda>spec. mountModulepathLayers env spec ra bundleDir)) = Inr spec1"
      "spec' = spec1\<lparr>sp_Root := Some (''rootfs'', False)\<rparr>"
      "writeF (se_disk env) SpecNotWritten (specPath bundleDir) (se_marshalSpec env spec') fs = (Inr (), fs')"
    using assms by (auto simp: finishSpec_def Let_def split: prod.splits sum.splits)
  show "spec' = spec\<lparr>sp_Mounts := sp_Mounts spec @
      layerMount (ra_ClasspathHostPaths ra) ''/app/lib'' (PathJoin [bundleDir, ''brewlet'', ''lib'']) @
      layerMount (ra_ModulepathHostPaths ra) ''/app/mods'' (PathJoin [bundleDir, ''brewlet'', ''mods'']),
      sp_Root := Some (''rootfs'', False)\<rparr>"
    using m(2) mountLayers_success [OF m(1)] by simp
  show "fs' = fs(Clean (specPath bundleDir) \<mapsto> se_marshalSpec env spec')" using m(3) by (simp add: writeF_ok)
qed

lemma assemble_success:
  assumes "as_result (assembleBrewletBundle env r fs dir) = Inr (spec', rootfs)"
  obtains spec ra fs1 ops1 spec1 dir1 ops2 ops3 fs2 where
    "readSpec env (rq_Bundle r) fs = Inr spec" "artifactRef spec \<noteq> ''''"
    "resolveArtifact env (imageConfigOf env spec) fs = (Inr ra, fs1)"
    "applyBrewletLaunch env spec ra (rq_Bundle r) dir = ((ops1, Inr spec1), dir1)"
    "setupOverlayRootfs env (rq_Bundle r) ra = (ops2, Inr rootfs)"
    "finishSpec env (rq_Bundle r) ra spec1 fs1 = (ops3, Inr spec', fs2)"
    "as_cache (assembleBrewletBundle env r fs dir) = dir1" "as_fs (assembleBrewletBundle env r fs dir) = fs2"
proof -
  obtain spec where s: "readSpec env (rq_Bundle r) fs = Inr spec" "artifactRef spec \<noteq> ''''"
    using assms by (auto simp: assembleBrewletBundle_def split: sum.splits if_splits)
  obtain ra fs1 where ra: "resolveArtifact env (imageConfigOf env spec) fs = (Inr ra, fs1)"
    using assms s by (auto simp: assembleBrewletBundle_def Let_def split: sum.splits prod.splits)
  define info where "info = \<lparr>li_entryMode = nonEmpty (e_Mode (cfg_Entry (ra_Config ra))) ''jar'', li_format = nonEmpty (ra_Format ra) ''unknown''\<rparr>"
  define evs where "evs = [emitResolution env (artifactBackend (imageConfigOf env spec)) (nonEmpty (ra_Format ra) ''unknown'') None,
      emitPhase env ''artifact_resolve'' None]"
  have a: "assembleBrewletBundle env r fs dir = launchBundle env (rq_Bundle r) spec ra info evs fs1 dir"
    using s ra by (simp add: assembleBrewletBundle_def Let_def info_def evs_def)
  obtain ops1 spec1 dir1 where ap: "applyBrewletLaunch env spec ra (rq_Bundle r) dir = ((ops1, Inr spec1), dir1)"
    using assms a by (auto simp: launchBundle_def split: prod.splits sum.splits)
  obtain ops2 rf where ov: "setupOverlayRootfs env (rq_Bundle r) ra = (ops2, Inr rf)"
    using assms a ap by (auto simp: launchBundle_def split: prod.splits sum.splits)
  obtain ops3 res fs2 where fi: "finishSpec env (rq_Bundle r) ra spec1 fs1 = (ops3, res, fs2)" by (metis prod_cases3)
  then have "res = Inr spec'" "rf = rootfs" using assms a ap ov by (auto simp: launchBundle_def split: sum.splits)
  then show thesis using that [OF s ra ap] ov fi a ap by (simp add: launchBundle_def)
qed

text \<open>The image configuration with which the harness prepares the same workload.\<close>

definition harnessConfig :: "shim_env \<Rightarrow> Spec \<Rightarrow> string \<Rightarrow> string \<Rightarrow> imageConfig" where
  "harnessConfig env spec cpu mem =
     (imageConfigOf env spec)\<lparr>ic_CPULimit := cpu, ic_MemoryLimit := mem, ic_CDSRegenerate := regenerateRequested spec\<rparr>"

lemma resolve_harness: "resolveArtifact env (harnessConfig env spec cpu mem) = resolveArtifact env (imageConfigOf env spec)"
proof -
  have "loadArtifactBlobs env (ic\<lparr>ic_CPULimit := cpu, ic_MemoryLimit := mem, ic_CDSRegenerate := b\<rparr>) = loadArtifactBlobs env ic"
    "selectRuntime node (ic\<lparr>ic_CPULimit := cpu, ic_MemoryLimit := mem, ic_CDSRegenerate := b\<rparr>) = selectRuntime node ic" for ic node b
    by (simp_all add: loadArtifactBlobs_def selectRuntime_def Let_def split: sum.split)
  then show ?thesis by (simp add: resolveArtifact_def harnessConfig_def)
qed

lemma regenOptions_harness:
  "regenOptions env (harnessConfig env spec cpu mem) =
     \<lparr>ro_Regenerate = regenerateRequested spec, ro_ArtifactKey = regenKeyOf spec, ro_CacheDir = se_getenv env ''BREWLET_CDS_CACHE''\<rparr>"
  by (simp add: regenOptions_def harnessConfig_def imageConfigOf_def firstNonEmptyStr_def regenKeyOf_def Let_def)

lemma launchProcess_fields:
  "pr_Args (launchProcess ra args p) = LauncherName (ra_LauncherName ra) # args" "pr_Cwd (launchProcess ra args p) = ''/app''"
  "pr_Env (launchProcess ra args p) =
     mergeEnv (case p of None \<Rightarrow> [] | Some p \<Rightarrow> pr_Env p) (launchEnv (ra_Config ra) (ra_LauncherName ra) (ra_LauncherRoot ra))"
  "cfg_User (ra_Config ra) = Some u \<Longrightarrow> pr_UID (launchProcess ra args p) = word_of_int (u_UID u) \<and> pr_GID (launchProcess ra args p) = word_of_int (u_GID u)"
  by (auto simp: launchProcess_def emptyProcess_def Let_def split: option.split)

text \<open>A mount without its host path, and the mounts of a bundle that are not those of every container.\<close>

definition mountPoint :: "ociMount \<Rightarrow> string \<times> string \<times> string list" where
  "mountPoint m = (mt_Destination m, mt_Type m, mt_Options m)"

definition workloadMounts :: "ociMount list \<Rightarrow> ociMount list" where
  "workloadMounts ms = filter (\<lambda>m. m \<notin> set systemMounts) ms"

lemma bindRO_type [simp]: "mt_Type (bindRO d s) = ''bind''" "mountPoint (bindRO d s) = (d, ''bind'', [''rbind'', ''ro''])"
  by (simp_all add: bindRO_def mountPoint_def)

lemma extra_mounts_bind:
  "m \<in> set (layerMount tars d s) \<Longrightarrow> mt_Type m = ''bind''" "m \<in> set (archiveMount cfg r c) \<Longrightarrow> mt_Type m = ''bind''"
  "m \<in> set (cacheMount dec c) \<Longrightarrow> mt_Type m = ''bind''" "m \<in> set (launcherMount n l) \<Longrightarrow> mt_Type m = ''bind''"
  by (auto simp: layerMount_def archiveMount_def cacheMount_def launcherMount_def split: if_splits option.splits)

lemma layerMount_points: "map mountPoint (layerMount tars d s) = (if tars = [] then [] else [(d, ''bind'', [''rbind'', ''ro''])])"
  by (simp add: layerMount_def)

lemma workload_of_bundle:
  "set (map mountPoint (workloadMounts (oci_Mounts (bundleSpec fl cfg jdk lroot lname cps mps cds outDir res regen args dec jar)))) =
   set (map mountPoint ([bindRO ''/opt/jdk'' jdk, bindRO (''/app/'' @ nonEmpty (cfg_MainJar cfg) ''app.jar'') jar] @
     layerMount cps ''/app/lib'' (PathJoin [outDir, ''lib'']) @ layerMount mps ''/app/mods'' (PathJoin [outDir, ''mods'']) @
     archiveMount cfg (ro_Regenerate regen) cds @
     cacheMount dec (if ro_CacheDir regen = '''' then DefaultCDSCacheDir else ro_CacheDir regen) @ launcherMount lname lroot))"
  (is "set (map mountPoint (workloadMounts ?ms)) = set (map mountPoint ?ws)")
proof -
  have ms: "set ?ms = set ?ws \<union> set systemMounts" by (auto simp: bundleSpec_def Let_def)
  have "mt_Type m = ''bind''" if "m \<in> set ?ws" for m
    using that by (auto simp: bindRO_type dest: extra_mounts_bind)
  then have "m \<notin> set systemMounts" if "m \<in> set ?ws" for m using that fixed_mounts_ro(1) by blast
  then have "set (workloadMounts ?ms) = set ?ws" unfolding workloadMounts_def set_filter ms by blast
  then show ?thesis by (simp only: set_map)
qed


section \<open>A workload on a working node\<close>

lemma mapErrIO_ok: "snd m = Inr a \<Longrightarrow> mapErrIO g m = (fst m, Inr a)"
  by (simp add: mapErrIO_def)

text \<open>On a node whose staging calls succeed, a plain artifact that resolves is launched by the shim and by the
  harness.\<close>

lemma plain_workload_runs:
  assumes "\<And>op. h_ok (se_host env) op" and "\<And>p. dk_write (se_disk env) p = Written"
    and "readSpec env (rq_Bundle r) fs = Inr spec" and "artifactRef spec \<noteq> ''''" and "\<not> regenerateRequested spec"
    and "resolveArtifact env (imageConfigOf env spec) fs = (Inr ra, fs1)"
    and "config_wf (ra_Config ra)" and "cfg_CDS (ra_Config ra) = None" and "ra_ClasspathHostPaths ra = []" and "ra_ModulepathHostPaths ra = []"
  shows "\<exists>spec' rootfs. as_result (assembleBrewletBundle env r fs dir) = Inr (spec', rootfs)"
    "\<exists>ops b fs' dir'. bundleFromConfig env fl marshal (harnessConfig env spec cpu mem) outDir fs dir = ((ops, Inr b), fs', dir')"
proof -
  have 1: "\<exists>spec1. applyBrewletLaunch env spec ra (rq_Bundle r) dir = (([], Inr spec1), dir)"
    using assms(5,8) by (simp add: applyBrewletLaunch_def Let_def decideRegen_def returnIO_def bindIO_def)
  have 2: "\<exists>ops2 rootfs. setupOverlayRootfs env (rq_Bundle r) ra = (ops2, Inr rootfs)"
    using assms(1) by (simp add: setupOverlayRootfs_def Let_def mapErrIO_def perform_def thenIO_def bindIO_def returnIO_def)
  have 3: "\<exists>ops3 spec2 fs2. finishSpec env (rq_Bundle r) ra spec1 fs1 = (ops3, Inr spec2, fs2)" for spec1
    using assms(2,9,10)
    by (simp add: finishSpec_def mountClasspathLayers_def mountModulepathLayers_def Let_def writeF_def returnIO_def bindIO_def)
  obtain spec1 ops2 rootfs where p: "applyBrewletLaunch env spec ra (rq_Bundle r) dir = (([], Inr spec1), dir)"
      "setupOverlayRootfs env (rq_Bundle r) ra = (ops2, Inr rootfs)"
    using 1 2 by blast
  obtain ops3 spec2 fs2 where f: "finishSpec env (rq_Bundle r) ra spec1 fs1 = (ops3, Inr spec2, fs2)" using 3 by blast
  show "\<exists>spec' rootfs. as_result (assembleBrewletBundle env r fs dir) = Inr (spec', rootfs)"
    using assms(3,4,6) p f by (simp add: assembleBrewletBundle_def Let_def launchBundle_def)
  obtain args where args: "BuildJVMArgs (ra_Config ra) (''/app/'' @ nonEmpty (cfg_MainJar (ra_Config ra)) ''app.jar'') [] False = Inr args"
    using assms(7) entryArgs_total [OF assms(7)] by (fastforce simp: BuildJVMArgs_Inr)
  let ?rg = "regenOptions env (harnessConfig env spec cpu mem)"
  let ?gen = "GenerateBundleWithRegen (se_host env) fl marshal (se_regen env) (ra_Config ra) (ra_JDKHome ra) (ra_LauncherRoot ra)
      (ra_LauncherName ra) (ra_JarHostPath ra) (ra_ClasspathHostPaths ra) (ra_ModulepathHostPaths ra) (ra_CDSHostPath ra) outDir
      \<lparr>lim_CPU = ic_CPULimit (harnessConfig env spec cpu mem), lim_Memory = ic_MemoryLimit (harnessConfig env spec cpu mem)\<rparr> [] ?rg dir"
  have r: "ro_Regenerate ?rg = False" using assms(5) by (simp add: regenOptions_harness)
  have "\<exists>b. snd (fst ?gen) = Inr b"
    unfolding GenerateBundleWithRegen_def Let_def r args
    using assms(1,8,9,10) by (simp add: decideRegen_def io_ok stageInto_def shipsCDS_def)
  then obtain ops b dir' where "?gen = ((ops, Inr b), dir')" by (metis prod.collapse)
  then show "\<exists>ops b fs' dir'. bundleFromConfig env fl marshal (harnessConfig env spec cpu mem) outDir fs dir = ((ops, Inr b), fs', dir')"
    using assms(6) by (simp add: bundleFromConfig_def resolve_harness mapErrIO_def)
qed

definition demoSpec :: Spec where
  "demoSpec = \<lparr>sp_Annotations = [annArtifactRef \<mapsto> ''hello:1'', annRequestedJDK \<mapsto> ''temurin-21''],
     sp_Process = Some (emptyProcess\<lparr>pr_Env := [''PATH=/bin'', ''HOME=/root'']\<rparr>), sp_Root = None, sp_Mounts = [], sp_Other = JNull\<rparr>"

definition demoEnv :: shim_env where
  "demoEnv = \<lparr>se_sha = countSha, se_codec = jsonCodec, se_disk = workingDisk, se_goarch = ''amd64'', se_tmp = ''/tmp'', se_node = oneJDK,
     se_host = quietHost, se_regen = exampleRegenEnv,
     se_getenv = (\<lambda>k. if k = ''BREWLET_STORE_ROOT'' then ''/store'' else if k = ''BREWLET_JDK_ROOTS'' then ''/jdks'' else ''''),
     se_parseSpec = (\<lambda>_. Some demoSpec), se_marshalSpec = (\<lambda>_. ''{}''), se_toml = (\<lambda>_. None), se_anypb = (\<lambda>_. True),
     se_errText = (\<lambda>_. ''error''), se_dur = (\<lambda>_. ''0.5'')\<rparr>"

definition demoRequest :: CreateTaskRequest where
  "demoRequest = \<lparr>rq_ID = ''task1'', rq_Bundle = ''/b'', rq_Rootfs = [], rq_Options = NoOptions\<rparr>"

definition demoFiles :: fsys where
  "demoFiles = [''/in/app.jar'' \<mapsto> ''PK'', ''/b/config.json'' \<mapsto> ''{}'']"

lemma demo_runtime:
  "selectRuntime oneJDK (imageConfigOf demoEnv demoSpec) = Inr (''/jdks/temurin-21'', ''/jdks/temurin-21'', '''')"
  by code_simp

lemma demo_spec:
  "artifactRef demoSpec = ''hello:1''" "\<not> regenerateRequested demoSpec" "artifactBackend (imageConfigOf demoEnv demoSpec) = ''layout''"
  "ic_StoreRoot (imageConfigOf demoEnv demoSpec) = ''/store''" "ic_Ref (imageConfigOf demoEnv demoSpec) = ''hello:1''"
  "ic_Backend (imageConfigOf demoEnv demoSpec) = ''''" "mget (sp_Annotations demoSpec) annContainerType = ''''"
  by code_simp+

lemma demo_resolves:
  obtains fs ra where "fileAt fs ''/b/config.json'' = Some ''{}''" "resolveArtifact demoEnv (imageConfigOf demoEnv demoSpec) fs = (Inr ra, fs)"
    "ra_Config ra = jarConfig" "ra_ClasspathHostPaths ra = []" "ra_ModulepathHostPaths ra = []" "ra_LauncherName ra = ''''" "ra_Format ra = ''native''"
proof -
  have jar: "fileAt demoFiles ''/in/app.jar'' = Some ''PK''" "fileAt demoFiles ''/b/config.json'' = Some ''{}''" by code_simp+
  obtain desc fs where run: "PushWithCDS countSha workingDisk ''/store'' ''hello:1'' jarConfig ''/in/app.jar'' [] [] '''' demoFiles = (Inr desc, fs)"
    using jar_push_succeeds [OF jar(1)] by blast
  have f: "filesRead demoFiles [] []" "filesRead demoFiles (cdsPaths '''') []" by (simp_all add: filesRead_def cdsPaths_def)
  have o: "\<forall>p \<in> set (''/in/app.jar'' # [] @ [] @ cdsPaths ''''). outsideBlobs ''/store'' p"
    using jar_outside by (simp add: cdsPaths_def)
  obtain man rb where m: "ResolveManifestByRef countSha ''amd64'' ''/store'' fs ''hello:1'' = Inr (man, d_Digest desc)" "\<not> IsRunnableImage man"
      "ResolveNativeBlobs (BlobPath ''/store'') fs man = Inr rb" "rb_Config rb = jarConfig"
      "map (fileAt fs) (rb_ClasspathHostPaths rb) = map (fileAt demoFiles) []" "map (fileAt fs) (rb_ModulepathHostPaths rb) = map (fileAt demoFiles) []"
    using pushed_artifact_resolves [OF countSha_hex jar(1) f(1,1,2) o jar_push_blobs jarConfig_ok run, of "''amd64''"] by blast
  have fmt: "rb_Format rb = ''native''" using m(3) by (auto simp: ResolveNativeBlobs_def split: sum.splits option.splits)
  have "ResolveBlobs countSha jsonCodec workingDisk ''amd64'' x ''/tmp'' ''/store'' ''hello:1'' fs = (Inr rb, fs)" for x
    using m by (simp add: ResolveBlobs_def)
  then have l: "loadArtifactBlobs demoEnv (imageConfigOf demoEnv demoSpec) fs = (Inr rb, fs)"
    by (simp add: loadArtifactBlobs_def Let_def demo_spec) (simp add: demoEnv_def)
  have n: "se_node demoEnv = oneJDK" by (simp add: demoEnv_def)
  have la: "ic_LauncherName (imageConfigOf demoEnv demoSpec) = ''''" by code_simp
  have out: "outsideBlobs ''/store'' ''/b/config.json''"
  proof -
    have "clean_comps ''/b/config.json'' = [''b'', ''config.json'']" "clean_comps (blobsDir ''/store'') = [''store'', ''blobs'', ''sha256'']"
      by code_simp+
    then show ?thesis by (simp add: outsideBlobs_def inside_def)
  qed
  have k: "Clean ''/b/config.json'' = ''/b/config.json''" "indexKey ''/store'' = ''/store/index.json''" "markerKey ''/store'' = ''/store/oci-layout''"
    by code_simp+
  have "fs = tagged countSha ''/store'' (pushBlobs countSha jarConfig ''PK'' [] [] []) desc demoFiles"
    using PushWithCDS_effect [OF run hex64_plain [OF countSha_hex] o jar(1) f(1,1,2)] by blast
  then have "fileAt fs ''/b/config.json'' = Some ''{}''"
    using jar(2) read_outside [where sha = countSha, OF hex64_plain [OF countSha_hex] out] k by (simp add: tagged_def fileAt_def)
  then show thesis
    using that [of fs] l demo_runtime n la m(4-6) fmt by (simp add: resolveArtifact_def bindF_def mapErrF_def liftF_def retF_def)
qed


section \<open>The exporter understands the shim\<close>

lemma DecodeConfigBytes_valid: "DecodeConfigBytes b = Inr c \<Longrightarrow> Validate c = None"
  by (auto simp: DecodeConfigBytes_def DecodeConfig_def split: option.splits)

lemma ResolveNativeBlobs_valid:
  "ResolveNativeBlobs bp fs man = Inr rb \<Longrightarrow> Validate (rb_Config rb) = None \<and> rb_Format rb = ''native''"
  by (auto simp: ResolveNativeBlobs_def split: sum.splits option.splits dest: DecodeConfigBytes_valid)

lemma ResolveRunnableBlobs_valid:
  "ResolveRunnableBlobs sha cx dk st tmp bp man d fs = (Inr rb, fs') \<Longrightarrow> Validate (rb_Config rb) = None \<and> rb_Format rb = ''image''"
  by (auto simp: ResolveRunnableBlobs_def fsm_ok Let_def RunnableConfig_def simp del: fsm_run split: if_splits sum.splits dest: DecodeConfigBytes_valid)

lemma loadArtifactBlobs_valid:
  assumes "loadArtifactBlobs env ic fs = (Inr rb, fs')" shows "Validate (rb_Config rb) = None \<and> rb_Format rb \<in> {''native'', ''image''}"
proof -
  have n: "Validate (rb_Config rb) = None \<and> rb_Format rb \<in> {''native'', ''image''}" if "ResolveNativeBlobs bp gs man = Inr rb" for bp gs man
    using ResolveNativeBlobs_valid [OF that] by simp
  have i: "Validate (rb_Config rb) = None \<and> rb_Format rb \<in> {''native'', ''image''}"
    if "ResolveRunnableBlobs sha cx dk st tmp bp man d gs = (Inr rb, gs')" for sha cx dk st tmp bp man d gs gs'
    using ResolveRunnableBlobs_valid [OF that] by simp
  show ?thesis
    using assms n i
    by (auto simp: loadArtifactBlobs_def ResolveBlobs_def contentStoreBlobs_def Let_def failF_def split: if_splits sum.splits prod.splits)
qed

lemma resolveArtifact_valid:
  assumes "resolveArtifact env ic fs = (Inr ra, fs')" shows "Validate (ra_Config ra) = None \<and> ra_Format ra \<in> {''native'', ''image''}"
  using assms loadArtifactBlobs_valid by (fastforce simp: resolveArtifact_def fsm_ok simp del: fsm_run split: prod.splits)

definition accepted :: "(string \<Rightarrow> bool) \<Rightarrow> Event \<Rightarrow> bool" where
  "accepted isFloat e \<longleftrightarrow> durationOk isFloat (ev_Duration e) \<and> checkEvent (e\<lparr>ev_Version := Version\<rparr>) = Inr (e\<lparr>ev_Version := Version\<rparr>)"

definition infoOk :: "launchInfo \<Rightarrow> bool" where
  "infoOk info \<longleftrightarrow> nonEmpty (li_entryMode info) ''unknown'' \<in> {''jar'', ''classpath'', ''module'', ''unknown''} \<and>
     nonEmpty (li_format info) ''unknown'' \<in> {''native'', ''image'', ''unknown''}"

definition durationsOk :: "(string \<Rightarrow> bool) \<Rightarrow> shim_env \<Rightarrow> bool" where
  "durationsOk isFloat env \<longleftrightarrow> (\<forall>phase \<in> set (''artifact_resolution'' # launchPhases). durationOk isFloat (se_dur env phase))"

definition knownBackend :: "shim_env \<Rightarrow> bool" where
  "knownBackend env \<longleftrightarrow> se_getenv env ''BREWLET_STORE_BACKEND'' \<in> {'''', ''layout'', ''containerd''}"

lemma accepted_phase: "durationsOk f env \<Longrightarrow> phase \<in> set launchPhases \<Longrightarrow> accepted f (emitPhase env phase err)"
  using Outcome_known [of err] by (auto simp: accepted_def durationsOk_def emitPhase_def emptyEvent_def checkEvent_def event_kinds)

lemma accepted_resolution:
  assumes "durationsOk f env" and "knownBackend env" and "format \<in> {''native'', ''image'', ''unknown''}"
  shows "accepted f (emitResolution env (artifactBackend (imageConfigOf env spec)) format err)"
proof -
  have "artifactBackend (imageConfigOf env spec) \<in> {''layout'', ''containerd''}"
    using assms(2) by (auto simp: knownBackend_def artifactBackend_def imageConfigOf_def envOr_def Let_def)
  then show ?thesis
    using assms(1,3) Outcome_known [of err]
    by (auto simp: accepted_def durationsOk_def emitResolution_def emptyEvent_def checkEvent_def event_kinds)
qed

lemma accepted_launch: "infoOk info \<Longrightarrow> reason \<in> {'''', ''RuntimeCreate'', ''ProcessStart''} \<Longrightarrow> accepted f (emitLaunchWithReason info err reason)"
  using Outcome_known [of err] Reason_known [of err]
  by (auto simp: accepted_def durationOk_def infoOk_def emitLaunchWithReason_def emptyEvent_def checkEvent_def event_kinds launchReasons_def)

text \<open>With a backend name the loader does not know, the event about the failed resolution is not one the exporter
  takes.\<close>

lemma unknown_backend_is_rejected:
  "backend \<notin> {''layout'', ''containerd''} \<Longrightarrow>
   checkEvent ((emitResolution env backend format err)\<lparr>ev_Version := Version\<rparr>) = Inl InvalidArtifactResolution"
  by (simp add: emitResolution_def emptyEvent_def checkEvent_def event_kinds)

lemma phases_known [simp]:
  "''artifact_resolve'' \<in> set launchPhases" "''bundle_prepare'' \<in> set launchPhases" "''overlay_setup'' \<in> set launchPhases"
  "''runc_create'' \<in> set launchPhases" "''process_start'' \<in> set launchPhases"
  by (simp_all add: launchPhases_def)

lemma launchBundle_typed:
  assumes "durationsOk f env" and "\<forall>e \<in> set evs. accepted f e"
  shows "\<forall>e \<in> set (as_events (launchBundle env bdir spec ra info evs fs dir)). accepted f e"
    "as_info (launchBundle env bdir spec ra info evs fs dir) = info"
  using assms by (auto simp: launchBundle_def accepted_phase split: prod.splits sum.splits)

lemma assemble_typed:
  assumes "durationsOk f env" and "knownBackend env"
  shows "(\<forall>e \<in> set (as_events (assembleBrewletBundle env r fs dir)). accepted f e) \<and> infoOk (as_info (assembleBrewletBundle env r fs dir))"
proof (cases "readSpec env (rq_Bundle r) fs")
  case (Inr spec)
  show ?thesis
  proof (cases "artifactRef spec = ''''")
    case False
    obtain res fs' where ra: "resolveArtifact env (imageConfigOf env spec) fs = (res, fs')" by fastforce
    show ?thesis
    proof (cases res)
      case (Inl e)
      then show ?thesis using Inr False ra assms
        by (simp add: assembleBrewletBundle_def Let_def accepted_resolution accepted_phase infoOk_def nonEmpty_def)
    next
      case (Inr ra')
      then have v: "Validate (ra_Config ra') = None" "ra_Format ra' \<in> {''native'', ''image''}" using resolveArtifact_valid ra by blast+
      have m: "nonEmpty (e_Mode (cfg_Entry (ra_Config ra'))) ''jar'' \<in> {''jar'', ''classpath'', ''module''}"
        using Validate_config_wf v(1) by (auto simp: config_wf_def entry_wf_def nonEmpty_def)
      have f: "nonEmpty (ra_Format ra') ''unknown'' = ra_Format ra'" using v(2) by (auto simp: nonEmpty_def)
      let ?info = "\<lparr>li_entryMode = nonEmpty (e_Mode (cfg_Entry (ra_Config ra'))) ''jar'', li_format = nonEmpty (ra_Format ra') ''unknown''\<rparr>"
      let ?evs = "[emitResolution env (artifactBackend (imageConfigOf env spec)) (nonEmpty (ra_Format ra') ''unknown'') None,
          emitPhase env ''artifact_resolve'' None]"
      have eq: "assembleBrewletBundle env r fs dir = launchBundle env (rq_Bundle r) spec ra' ?info ?evs fs' dir"
        using False ra Inr \<open>readSpec env (rq_Bundle r) fs = Inr spec\<close> by (simp add: assembleBrewletBundle_def Let_def)
      have "\<forall>e \<in> set ?evs. accepted f e" using assms v(2) f by (auto simp: accepted_resolution accepted_phase)
      moreover have "infoOk ?info" using m v(2) f by (auto simp: infoOk_def nonEmpty_def)
      ultimately show ?thesis unfolding eq using launchBundle_typed [OF assms(1)] by metis
    qed
  qed (use Inr in \<open>simp add: assembleBrewletBundle_def noInfo_def infoOk_def nonEmpty_def\<close>)
qed (simp add: assembleBrewletBundle_def noInfo_def infoOk_def nonEmpty_def)

definition shim_typed :: "(string \<Rightarrow> bool) \<Rightarrow> shim_state \<Rightarrow> bool" where
  "shim_typed f st \<longleftrightarrow> (\<forall>e \<in> set (sh_events st). accepted f e) \<and> (\<forall>info \<in> ran (sh_pending st). infoOk info)"

lemma ran_upd: "x \<in> ran (m(k \<mapsto> v)) \<Longrightarrow> x = v \<or> x \<in> ran m" "x \<in> ran (m(k := None)) \<Longrightarrow> x \<in> ran m"
  by (auto simp: ran_def split: if_splits)

lemma Create_typed:
  assumes "shim_typed f st" and "durationsOk f env" and "knownBackend env" shows "shim_typed f (snd (Create env rc r st))"
proof -
  have a: "\<forall>e \<in> set (as_events (assembleBrewletBundle env q (sh_fs st) (sh_cache st))). accepted f e"
    "infoOk (as_info (assembleBrewletBundle env q (sh_fs st) (sh_cache st)))" for q
    using assemble_typed [OF assms(2,3)] by blast+
  show ?thesis
    using assms(1,2) a
    by (auto simp: shim_typed_def Create_def Let_def emitLaunch_def accepted_launch accepted_phase
        split: sum.splits option.splits prod.splits if_splits dest: ran_upd)
qed

lemma Start_Delete_typed:
  assumes "shim_typed f st" and "durationsOk f env"
  shows "shim_typed f (snd (Start env rs tid ex st))" "shim_typed f (snd (Delete rd tid ex st))"
  using assms by (auto simp: shim_typed_def Start_def Delete_def Let_def accepted_launch accepted_phase ran_def split: option.splits if_splits)

lemma typed_events_decode:
  assumes "shim_typed f st" and "e \<in> set (sh_events st)" and "EmitTo path e = Some (addr, d)"
  shows "Decode f d = Inr (e\<lparr>ev_Version := Version\<rparr>)"
  using assms Decode_sent [of f e] by (auto simp: shim_typed_def accepted_def EmitTo_def split: if_splits)


definition idleShim :: "fsys \<Rightarrow> shim_state" where
  "idleShim fs = \<lparr>sh_fs = fs, sh_cache = Map.empty, sh_ops = [], sh_pending = Map.empty, sh_events = []\<rparr>"

lemma demo_telemetry: "shim_typed (\<lambda>_. True) (idleShim fs)" "durationsOk (\<lambda>_. True) demoEnv" "knownBackend demoEnv"
proof -
  have "validNum ''0.5''" by code_simp
  then show "shim_typed (\<lambda>_. True) (idleShim fs)" "durationsOk (\<lambda>_. True) demoEnv" "knownBackend demoEnv"
    by (simp_all add: shim_typed_def idleShim_def durationsOk_def knownBackend_def demoEnv_def durationOk_def ran_def)
qed


section \<open>One record per launch\<close>

text \<open>The task service serves its calls concurrently; only the map of pending launches is protected. The steps of a
  call are: the delegated call to runc, the access to the map under its lock, and sending the launch record. The
  state has the calls in flight, the pending launches and the records sent; \<open>ts_attempts\<close> and \<open>ts_dropped\<close> are
  history variables: the workload creations that came as far as having a launch description, and the launches
  that were forgotten when their task was deleted or created again before it was started.\<close>

datatype rpc =
    Created string launchInfo
  | Started string "string option"
  | Emitting launchInfo "string option"
  | Deleted string

record task_state =
  ts_inflight :: "rpc multiset"
  ts_pending :: "string \<rightharpoonup> launchInfo"
  ts_launches :: "(launchInfo \<times> string option \<times> string) list"
  ts_attempts :: "launchInfo multiset"
  ts_dropped :: "launchInfo multiset"

definition forgotten :: "string \<Rightarrow> task_state \<Rightarrow> launchInfo multiset" where
  "forgotten tid s = (case ts_pending s tid of None \<Rightarrow> {#} | Some info \<Rightarrow> {#info#})"

definition startReason :: "string option \<Rightarrow> string" where
  "startReason err = (if err \<noteq> None then ''ProcessStart'' else '''')"

inductive task_step :: "task_state \<Rightarrow> task_state \<Rightarrow> bool" where
  assemble_failed: "task_step s (s\<lparr>ts_launches := ts_launches s @ [(info, Some err, '''')], ts_attempts := add_mset info (ts_attempts s)\<rparr>)"
| runc_create_failed:
    "task_step s (s\<lparr>ts_launches := ts_launches s @ [(info, Some err, ''RuntimeCreate'')], ts_attempts := add_mset info (ts_attempts s)\<rparr>)"
| runc_created:
    "task_step s (s\<lparr>ts_inflight := add_mset (Created tid info) (ts_inflight s), ts_attempts := add_mset info (ts_attempts s)\<rparr>)"
| remember: "Created tid info \<in># ts_inflight s \<Longrightarrow>
    task_step s (s\<lparr>ts_inflight := ts_inflight s - {#Created tid info#}, ts_pending := (ts_pending s)(tid \<mapsto> info),
      ts_dropped := ts_dropped s + forgotten tid s\<rparr>)"
| runc_started: "task_step s (s\<lparr>ts_inflight := add_mset (Started tid err) (ts_inflight s)\<rparr>)"
| take_pending: "Started tid err \<in># ts_inflight s \<Longrightarrow> ts_pending s tid = Some info \<Longrightarrow>
    task_step s (s\<lparr>ts_inflight := add_mset (Emitting info err) (ts_inflight s - {#Started tid err#}), ts_pending := (ts_pending s)(tid := None)\<rparr>)"
| take_nothing: "Started tid err \<in># ts_inflight s \<Longrightarrow> ts_pending s tid = None \<Longrightarrow>
    task_step s (s\<lparr>ts_inflight := ts_inflight s - {#Started tid err#}, ts_pending := (ts_pending s)(tid := None)\<rparr>)"
| emit: "Emitting info err \<in># ts_inflight s \<Longrightarrow>
    task_step s (s\<lparr>ts_inflight := ts_inflight s - {#Emitting info err#}, ts_launches := ts_launches s @ [(info, err, startReason err)]\<rparr>)"
| runc_deleted: "task_step s (s\<lparr>ts_inflight := add_mset (Deleted tid) (ts_inflight s)\<rparr>)"
| forget: "Deleted tid \<in># ts_inflight s \<Longrightarrow>
    task_step s (s\<lparr>ts_inflight := ts_inflight s - {#Deleted tid#}, ts_pending := (ts_pending s)(tid := None),
      ts_dropped := ts_dropped s + forgotten tid s\<rparr>)"

definition task_init :: task_state where
  "task_init = \<lparr>ts_inflight = {#}, ts_pending = Map.empty, ts_launches = [], ts_attempts = {#}, ts_dropped = {#}\<rparr>"

inductive task_reachable :: "task_state \<Rightarrow> bool" where
  reach_init: "task_reachable task_init"
| reach_step: "task_reachable s \<Longrightarrow> task_step s s' \<Longrightarrow> task_reachable s'"

fun carried :: "rpc \<Rightarrow> launchInfo multiset" where
  "carried (Created _ info) = {#info#}"
| "carried (Started _ _) = {#}"
| "carried (Emitting info _) = {#info#}"
| "carried (Deleted _) = {#}"

definition pendingInfos :: "task_state \<Rightarrow> launchInfo multiset" where
  "pendingInfos s = image_mset (\<lambda>k. the (ts_pending s k)) (mset_set (dom (ts_pending s)))"

definition recorded :: "task_state \<Rightarrow> launchInfo multiset" where
  "recorded s = mset (map fst (ts_launches s))"

definition accounted :: "task_state \<Rightarrow> bool" where
  "accounted s \<longleftrightarrow> finite (dom (ts_pending s)) \<and>
     ts_attempts s = recorded s + pendingInfos s + \<Sum>\<^sub># (image_mset carried (ts_inflight s)) + ts_dropped s"

text \<open>Taking the entry of a task out of the map, and putting one in.\<close>

lemma pending_remove:
  assumes "finite (dom p)"
  shows "image_mset (\<lambda>k. the (p k)) (mset_set (dom p)) =
    image_mset (\<lambda>k. the ((p(tid := None)) k)) (mset_set (dom (p(tid := None)))) + (case p tid of None \<Rightarrow> {#} | Some i \<Rightarrow> {#i#})"
proof (cases "p tid")
  case None
  then have "p(tid := None) = p" by auto
  then show ?thesis using None by simp
next
  case (Some i)
  then have "tid \<in> dom p" by auto
  then have "mset_set (dom p) = add_mset tid (mset_set (dom p - {tid}))" using assms by (rule mset_set.remove [rotated])
  moreover have "image_mset (\<lambda>k. the (p k)) (mset_set (dom p - {tid})) = image_mset (\<lambda>k. the ((p(tid := None)) k)) (mset_set (dom p - {tid}))"
    by (rule image_mset_cong) (use assms in auto)
  ultimately show ?thesis using Some by simp
qed

lemma pending_insert:
  assumes "finite (dom p)"
  shows "image_mset (\<lambda>k. the ((p(tid \<mapsto> i)) k)) (mset_set (dom (p(tid \<mapsto> i)))) + (case p tid of None \<Rightarrow> {#} | Some j \<Rightarrow> {#j#}) =
    add_mset i (image_mset (\<lambda>k. the (p k)) (mset_set (dom p)))"
  using pending_remove [of "p(tid \<mapsto> i)" tid] pending_remove [OF assms, of tid] assms by simp

lemma carried_remove:
  "r \<in># m \<Longrightarrow> \<Sum>\<^sub># (image_mset carried m) = carried r + \<Sum>\<^sub># (image_mset carried (m - {#r#}))"
  by (metis (no_types, lifting) image_mset_add_mset insert_DiffM sum_mset.insert)

lemma accounted_step:
  assumes "task_step s s'" and "accounted s" shows "accounted s'"
  using assms
proof (induction rule: task_step.induct)
  case (remember tid info s)
  then show ?case
    using pending_insert [of "ts_pending s" tid info] carried_remove [OF remember.hyps]
    by (simp add: accounted_def recorded_def pendingInfos_def forgotten_def ac_simps)
next
  case (take_pending tid err s info)
  then show ?case
    using pending_remove [of "ts_pending s" tid] carried_remove [OF take_pending.hyps(1)]
    by (simp add: accounted_def recorded_def pendingInfos_def ac_simps)
next
  case (take_nothing tid err s)
  then have "(ts_pending s)(tid := None) = ts_pending s" by auto
  then show ?case
    using take_nothing carried_remove [OF take_nothing.hyps(1)] by (simp add: accounted_def recorded_def pendingInfos_def ac_simps)
next
  case (emit info err s)
  then show ?case using carried_remove [OF emit.hyps] by (simp add: accounted_def recorded_def pendingInfos_def ac_simps)
next
  case (forget tid s)
  then show ?case
    using pending_remove [of "ts_pending s" tid] carried_remove [OF forget.hyps]
    by (simp add: accounted_def recorded_def pendingInfos_def forgotten_def ac_simps)
qed (simp_all add: accounted_def recorded_def pendingInfos_def ac_simps)

lemma reachable_accounted: "task_reachable s \<Longrightarrow> accounted s"
  by (induction rule: task_reachable.induct)
    (simp add: accounted_def task_init_def recorded_def pendingInfos_def, rule accounted_step)


text \<open>Each call of the service, run without interruption, is a run of these steps: the steps are those of the code.\<close>

definition launchEvents :: "task_state \<Rightarrow> Event list" where
  "launchEvents s = map (\<lambda>(info, err, reason). emitLaunchWithReason info err reason) (ts_launches s)"

definition simulates :: "shim_state \<Rightarrow> task_state \<Rightarrow> bool" where
  "simulates st s \<longleftrightarrow> ts_inflight s = {#} \<and> ts_pending s = sh_pending st \<and> launchEvents s = ofKind KindLaunch (sh_events st)"

lemma ofKind_simps [simp]:
  "ofKind k [] = []" "ofKind k (es @ es') = ofKind k es @ ofKind k es'"
  "ofKind k (e # es) = (if ev_Kind e = k then e # ofKind k es else ofKind k es)"
  by (simp_all add: ofKind_def)

lemma event_kind_of [simp]:
  "ev_Kind (emitPhase env phase err) = KindLaunchPhase" "ev_Kind (emitResolution env backend format err) = KindArtifactResolution"
  "ev_Kind (emitLaunchWithReason info err reason) = KindLaunch" "ev_Kind (emitLaunch info err) = KindLaunch"
  by (simp_all add: emitPhase_def emitResolution_def emitLaunch_def emitLaunchWithReason_def)

lemma kinds_differ [simp]: "KindLaunchPhase \<noteq> KindLaunch" "KindArtifactResolution \<noteq> KindLaunch"
  by (simp_all add: event_kinds)

lemma launchBundle_no_launch: "ofKind KindLaunch (as_events (launchBundle env bdir spec ra info evs fs dir)) = ofKind KindLaunch evs"
  by (auto simp: launchBundle_def split: prod.splits sum.splits)

lemma assemble_no_launch: "ofKind KindLaunch (as_events (assembleBrewletBundle env r fs dir)) = []"
  by (auto simp: assembleBrewletBundle_def Let_def launchBundle_no_launch split: sum.splits prod.splits)

lemma launchEvents_snoc: "launchEvents (s\<lparr>ts_launches := ts_launches s @ [(info, err, reason)], ts_attempts := a\<rparr>) =
    launchEvents s @ [emitLaunchWithReason info err reason]"
  by (simp add: launchEvents_def)

lemma steps_to:
  "R x y \<Longrightarrow> P y \<Longrightarrow> \<exists>z. R\<^sup>*\<^sup>* x z \<and> P z"
  "R x y \<Longrightarrow> R y z \<Longrightarrow> P z \<Longrightarrow> \<exists>z. R\<^sup>*\<^sup>* x z \<and> P z"
  "R x y \<Longrightarrow> R y z \<Longrightarrow> R z w \<Longrightarrow> P w \<Longrightarrow> \<exists>z. R\<^sup>*\<^sup>* x z \<and> P z"
  by (meson converse_rtranclp_into_rtranclp r_into_rtranclp)+

lemma Create_simulated:
  assumes "simulates st s" shows "\<exists>s'. task_step\<^sup>*\<^sup>* s s' \<and> simulates (snd (Create env runcCreate r st)) s'"
proof -
  have none: ?thesis if "snd (Create env runcCreate r st) = st" using that assms by auto
  have failed: ?thesis if "snd (Create env runcCreate r st) = st'" "sh_pending st' = sh_pending st"
      "ofKind KindLaunch (sh_events st') = ofKind KindLaunch (sh_events st) @ [emitLaunchWithReason info (Some err) reason]"
      "reason \<in> {'''', ''RuntimeCreate''}" for st' info err reason
  proof -
    let ?s = "s\<lparr>ts_launches := ts_launches s @ [(info, Some err, reason)], ts_attempts := add_mset info (ts_attempts s)\<rparr>"
    have "task_step s ?s" using that(4) assemble_failed [of s info err] runc_create_failed [of s info err] by auto
    moreover have "simulates st' ?s" using assms that(2,3) launchEvents_snoc by (simp add: simulates_def)
    ultimately show ?thesis unfolding that(1) by (rule steps_to(1))
  qed
  have pending: ?thesis if "snd (Create env runcCreate r st) = st'" "sh_pending st' = (sh_pending st)(tid \<mapsto> info)"
      "ofKind KindLaunch (sh_events st') = ofKind KindLaunch (sh_events st)" for st' tid info
  proof -
    let ?s1 = "s\<lparr>ts_inflight := add_mset (Created tid info) (ts_inflight s), ts_attempts := add_mset info (ts_attempts s)\<rparr>"
    let ?s2 = "?s1\<lparr>ts_inflight := ts_inflight ?s1 - {#Created tid info#}, ts_pending := (ts_pending ?s1)(tid \<mapsto> info),
      ts_dropped := ts_dropped ?s1 + forgotten tid ?s1\<rparr>"
    have "task_step s ?s1" by (rule runc_created)
    moreover have "task_step ?s1 ?s2" by (rule remember) simp
    moreover have "simulates st' ?s2" using assms that(2,3) by (simp add: simulates_def launchEvents_def)
    ultimately show ?thesis unfolding that(1) by (rule steps_to(2))
  qed
  show ?thesis
  proof (cases "\<exists>r'. normalizeRuncOptions env r (sh_fs st) = Inr r' \<and> isSandboxBundle env (rq_Bundle r') (sh_fs st) = Inr False")
    case False
    then show ?thesis by (intro none) (auto simp: Create_def split: sum.splits)
  next
    case True
    then obtain r' where r': "normalizeRuncOptions env r (sh_fs st) = Inr r'" "isSandboxBundle env (rq_Bundle r') (sh_fs st) = Inr False" by blast
    let ?a = "assembleBrewletBundle env r' (sh_fs st) (sh_cache st)"
    show ?thesis
    proof (cases "as_result ?a")
      case (Inl e)
      then show ?thesis
        by (intro failed [where info = "as_info ?a" and err = "se_errText env e" and reason = "''''", OF refl])
          (simp_all add: Create_def r' Let_def assemble_no_launch emitLaunch_def)
    next
      case (Inr sr)
      obtain sp rf where sr: "sr = (sp, rf)" by fastforce
      show ?thesis
      proof (cases "runcCreate (r'\<lparr>rq_Rootfs := rf\<rparr>)")
        case (Some err)
        then show ?thesis
          by (intro failed [where info = "as_info ?a" and err = err and reason = "''RuntimeCreate''", OF refl])
            (simp_all add: Create_def r' Let_def assemble_no_launch Inr sr)
      next
        case None
        then show ?thesis
          by (intro pending [where tid = "rq_ID r'" and info = "as_info ?a", OF refl])
            (simp_all add: Create_def r' Let_def assemble_no_launch Inr sr)
      qed
    qed
  qed
qed

lemma Start_simulated:
  assumes "simulates st s" shows "\<exists>s'. task_step\<^sup>*\<^sup>* s s' \<and> simulates (snd (Start env err tid ex st)) s'"
proof (cases "ex = ''''")
  case True
  let ?s1 = "s\<lparr>ts_inflight := add_mset (Started tid err) (ts_inflight s)\<rparr>"
  have 1: "task_step s ?s1" by (rule runc_started)
  have p: "ts_pending s = sh_pending st" using assms by (simp add: simulates_def)
  show ?thesis
  proof (cases "sh_pending st tid")
    case None
    let ?s2 = "?s1\<lparr>ts_inflight := ts_inflight ?s1 - {#Started tid err#}, ts_pending := (ts_pending ?s1)(tid := None)\<rparr>"
    have 2: "task_step ?s1 ?s2" by (rule take_nothing) (simp_all add: p None)
    have "simulates (snd (Start env err tid ex st)) ?s2"
      using assms True None by (simp add: simulates_def Start_def Let_def launchEvents_def)
    with 1 2 show ?thesis by (rule steps_to(2))
  next
    case (Some info)
    let ?s2 = "?s1\<lparr>ts_inflight := add_mset (Emitting info err) (ts_inflight ?s1 - {#Started tid err#}), ts_pending := (ts_pending ?s1)(tid := None)\<rparr>"
    let ?s3 = "?s2\<lparr>ts_inflight := ts_inflight ?s2 - {#Emitting info err#}, ts_launches := ts_launches ?s2 @ [(info, err, startReason err)]\<rparr>"
    have 2: "task_step ?s1 ?s2" by (rule take_pending) (simp_all add: p Some)
    have 3: "task_step ?s2 ?s3" by (rule emit) simp
    have "simulates (snd (Start env err tid ex st)) ?s3"
      using assms True Some by (simp add: simulates_def Start_def Let_def launchEvents_def startReason_def)
    with 1 2 3 show ?thesis by (rule steps_to(3))
  qed
qed (use assms in \<open>auto simp: Start_def\<close>)

lemma Delete_simulated:
  assumes "simulates st s" shows "\<exists>s'. task_step\<^sup>*\<^sup>* s s' \<and> simulates (snd (Delete err tid ex st)) s'"
proof (cases "err = None \<and> ex = ''''")
  case True
  let ?s1 = "s\<lparr>ts_inflight := add_mset (Deleted tid) (ts_inflight s)\<rparr>"
  let ?s2 = "?s1\<lparr>ts_inflight := ts_inflight ?s1 - {#Deleted tid#}, ts_pending := (ts_pending ?s1)(tid := None), ts_dropped := ts_dropped ?s1 + forgotten tid ?s1\<rparr>"
  have "task_step s ?s1" by (rule runc_deleted)
  moreover have "task_step ?s1 ?s2" by (rule forget) simp
  moreover have "simulates (snd (Delete err tid ex st)) ?s2" using assms True by (simp add: simulates_def Delete_def launchEvents_def)
  ultimately show ?thesis by (rule steps_to(2))
qed (use assms in \<open>auto simp: Delete_def\<close>)


lemma idle_simulates: "simulates (idleShim fs) task_init"
  by (simp add: simulates_def idleShim_def task_init_def launchEvents_def)


text \<open>A task that is created and started, with the call to start overtaking nothing.\<close>

lemma reachable_steps: "task_step\<^sup>*\<^sup>* s s' \<Longrightarrow> task_reachable s \<Longrightarrow> task_reachable s'"
  by (induction rule: rtranclp_induct) (auto intro: reach_step)

definition demoLaunched :: task_state where
  "demoLaunched = \<lparr>ts_inflight = {#}, ts_pending = Map.empty, ts_launches = [(noInfo, None, '''')], ts_attempts = {#noInfo#}, ts_dropped = {#}\<rparr>"

lemma demo_launch: "task_reachable demoLaunched"
proof -
  let ?s1 = "task_init\<lparr>ts_inflight := {#Created ''t'' noInfo#}, ts_attempts := {#noInfo#}\<rparr>"
  let ?s2 = "?s1\<lparr>ts_inflight := {#}, ts_pending := [''t'' \<mapsto> noInfo]\<rparr>"
  let ?s3 = "?s2\<lparr>ts_inflight := {#Started ''t'' None#}\<rparr>"
  let ?s4 = "?s2\<lparr>ts_inflight := {#Emitting noInfo None#}, ts_pending := Map.empty\<rparr>"
  have "task_step task_init ?s1" using runc_created [where s = task_init and tid = "''t''" and info = noInfo] by (simp add: task_init_def)
  moreover have "task_step ?s1 ?s2" using remember [where s = ?s1 and tid = "''t''" and info = noInfo] by (simp add: task_init_def forgotten_def)
  moreover have "task_step ?s2 ?s3" using runc_started [where s = ?s2 and tid = "''t''" and err = None] by (simp add: task_init_def)
  moreover have "task_step ?s3 ?s4" using take_pending [where s = ?s3 and tid = "''t''" and err = None and info = noInfo] by (simp add: task_init_def)
  moreover have "task_step ?s4 demoLaunched" using emit [where s = ?s4 and info = noInfo and err = None] by (simp add: task_init_def demoLaunched_def startReason_def)
  ultimately show ?thesis by (metis reach_init reach_step)
qed


section \<open>The content store\<close>

lemma content_is_layout:
  assumes "sha256Digest d" shows "contentSource root d = BlobPath root d"
proof -
  obtain h where h: "d = ''sha256:'' @ h" "hex64 h" using assms by (auto simp: sha256Digest_def)
  have "CutAt (CHR '':'') (''sha256'' @ CHR '':'' # h) = Some (''sha256'', h)" by (rule CutAt_append) simp
  then have "contentBlobPath root d = PathJoin [root, ''blobs'', ''sha256'', h]" using h(1) by (simp add: contentBlobPath_def)
  also have "\<dots> = PathJoin [blobsDir root, h]"
    using join_plain(1) [of "[''blobs'', ''sha256'', h]" root] join_plain(1) [of "[h]" "blobsDir root"] hex64_plain [OF h(2)]
    by (simp add: blobsDir_comps)
  finally show ?thesis using BlobPath_digest h(1) by (simp add: contentSource_def)
qed

interpretation content: blob_source "contentSource root" for root
proof
  show "\<exists>p. contentSource root d = Some p" for d by (simp add: contentSource_def)
  show "d = d'" if "sha256Digest d" "sha256Digest d'" "contentSource root d = Some p" "contentSource root d' = Some p'" "Clean p = Clean p'"
    for d d' p p'
    using that layout.path_inj content_is_layout by metis
qed

text \<open>A native artifact resolves the same way in the content store as in a layout at the same place.\<close>

definition manifestDigests :: "Manifest \<Rightarrow> string list" where
  "manifestDigests man = d_Digest (m_Config man) # map d_Digest (m_Layers man)"

lemma existingBlobPaths_cong:
  "\<forall>l \<in> set ls. bp (d_Digest l) = bp' (d_Digest l) \<Longrightarrow> existingBlobPaths bp fs ls = existingBlobPaths bp' fs ls"
  by (induction ls) (auto simp: blobFile_def split: sum.split)

lemma content_native_agrees:
  assumes "list_all sha256Digest (manifestDigests man)"
  shows "ResolveNativeBlobs (contentSource root) fs man = ResolveNativeBlobs (BlobPath root) fs man"
proof -
  have e: "contentSource root (d_Digest l) = BlobPath root (d_Digest l)" if "l = m_Config man \<or> l \<in> set (m_Layers man)" for l
    using assms that content_is_layout by (auto simp: manifestDigests_def list_all_iff)
  have sub: "set (ClasspathLayers man) \<subseteq> set (m_Layers man)" "set (ModulepathLayers man) \<subseteq> set (m_Layers man)"
    by (auto simp: ClasspathLayers_def ModulepathLayers_def layersOf_def)
  have j: "l \<in> set (m_Layers man)" if "JarLayer man = Some l \<or> CDSLayer man = Some l" for l
    using that by (auto simp: JarLayer_def CDSLayer_def find_Some_iff)
  have "ReadBlob (contentSource root) fs (d_Digest (m_Config man)) = ReadBlob (BlobPath root) fs (d_Digest (m_Config man))"
    by (simp add: ReadBlob_def e)
  moreover have "existingBlobPaths (contentSource root) fs (ClasspathLayers man) = existingBlobPaths (BlobPath root) fs (ClasspathLayers man)"
    "existingBlobPaths (contentSource root) fs (ModulepathLayers man) = existingBlobPaths (BlobPath root) fs (ModulepathLayers man)"
    using e sub by (auto intro!: existingBlobPaths_cong)
  moreover have "blobFile (contentSource root) fs (d_Digest l) = blobFile (BlobPath root) fs (d_Digest l)"
    if "JarLayer man = Some l \<or> CDSLayer man = Some l" for l using j [OF that] e by (simp add: blobFile_def)
  ultimately show ?thesis
    unfolding ResolveNativeBlobs_def by (auto split: sum.split option.split)
qed

section \<open>From the shim to the counters\<close>

definition sentBytes :: "Event \<Rightarrow> bytes" where
  "sentBytes e = Marshal (encodeEvent (e\<lparr>ev_Version := Version\<rparr>))"

lemma received_sent:
  assumes "\<forall>e \<in> set es. accepted f e \<and> length (sentBytes e) \<le> 65536"
  shows "receivedEvents f (map sentBytes es) = map (\<lambda>e. e\<lparr>ev_Version := Version\<rparr>) es"
  using assms
proof (induction es)
  case (Cons e es)
  then have "Decode f (sentBytes e) = Inr (e\<lparr>ev_Version := Version\<rparr>)"
    using Decode_sent [of f e] by (simp add: accepted_def sentBytes_def)
  then show ?case using Cons by (simp add: receivedEvents_def)
qed (simp add: receivedEvents_def)

lemma versioned_launches:
  "length (filter (\<lambda>e. launchLabels e = ls) (ofKind k (map (\<lambda>e. e\<lparr>ev_Version := v\<rparr>) es))) = length (filter (\<lambda>e. launchLabels e = ls) (ofKind k es))"
  by (induction es) (simp_all add: launchLabels_def)


definition launchedShim :: shim_state where
  "launchedShim = (idleShim Map.empty)\<lparr>sh_events := [emitLaunchWithReason noInfo None '''']\<rparr>"


end
