(* ===== verification/Attest.thy ===== *)
theory Attest
  imports Dependency_Bundle
begin

text \<open>
  Signing and verification of supply-chain evidence (\<open>src/core/pkg/attest/attest.go\<close>): in-toto statements in DSSE
  envelopes, signed over the pre-authentication encoding, the managed-dependency predicate with its bindings, and the
  key files. ECDSA, X.509 and PEM are the record \<open>crypto\<close>; what the code relies on is \<open>crypto_ok\<close>: a signature
  verifies under the key's public half, and an encoded key parses back. Nothing is assumed about forgery: the
  theorems say what a successful verification has checked. Base64 is modelled as the standard library defines it.
\<close>

section \<open>Base64\<close>

definition b64alphabet :: string where
  "b64alphabet = ''ABCDEFGHIJKLMNOPQRSTUVWXYZabcdefghijklmnopqrstuvwxyz0123456789+/''"

definition b64char :: "nat \<Rightarrow> char" where
  "b64char n = b64alphabet ! n"

definition b64val :: "char \<Rightarrow> nat option" where
  "b64val c = find (\<lambda>i. b64alphabet ! i = c) [0..<64]"

abbreviation byte :: "char \<Rightarrow> nat" where "byte c \<equiv> of_char c"

abbreviation pad :: char where "pad \<equiv> CHR ''=''"

fun EncodeToString :: "bytes \<Rightarrow> string" where
  "EncodeToString [] = ''''"
| "EncodeToString [a] = [b64char (byte a div 4), b64char (byte a mod 4 * 16), pad, pad]"
| "EncodeToString [a, b] =
     [b64char (byte a div 4), b64char (byte a mod 4 * 16 + byte b div 16), b64char (byte b mod 16 * 4), pad]"
| "EncodeToString (a # b # c # r) =
     b64char (byte a div 4) # b64char (byte a mod 4 * 16 + byte b div 16) # b64char (byte b mod 16 * 4 + byte c div 64) #
     b64char (byte c mod 64) # EncodeToString r"

fun decodeQuads :: "string \<Rightarrow> bytes option" where
  "decodeQuads [] = Some []"
| "decodeQuads (w # x # y # z # r) =
     (case (b64val w, b64val x) of
        (Some p, Some q) \<Rightarrow>
          (case b64val y of
             None \<Rightarrow> if y = pad \<and> z = pad \<and> r = [] then Some [char_of (p * 4 + q div 16)] else None
           | Some s \<Rightarrow>
               (case b64val z of
                  None \<Rightarrow> if z = pad \<and> r = [] then Some [char_of (p * 4 + q div 16), char_of (q mod 16 * 16 + s div 4)] else None
                | Some t \<Rightarrow>
                    map_option (\<lambda>bs. char_of (p * 4 + q div 16) # char_of (q mod 16 * 16 + s div 4) # char_of (s mod 4 * 64 + t) # bs)
                      (decodeQuads r)))
      | _ \<Rightarrow> None)"
| "decodeQuads _ = None"

text \<open>Line ends are skipped, everything else outside the alphabet is an error.\<close>

definition DecodeString :: "string \<Rightarrow> bytes option" where
  "DecodeString s = decodeQuads (filter (\<lambda>c. c \<noteq> CHR 0x0A \<and> c \<noteq> CHR 0x0D) s)"

lemma b64_alphabet:
  assumes "n < 64" shows "b64val (b64char n) = Some n" "b64char n \<noteq> CHR 0x0A" "b64char n \<noteq> CHR 0x0D"
proof -
  have "\<forall>n \<in> set [0..<64]. b64val (b64char n) = Some n \<and> b64char n \<noteq> CHR 0x0A \<and> b64char n \<noteq> CHR 0x0D" by code_simp
  then show "b64val (b64char n) = Some n" "b64char n \<noteq> CHR 0x0A" "b64char n \<noteq> CHR 0x0D" using assms by auto
qed

lemma pad_not_b64: "b64val pad = None" by code_simp

lemma join_digits: "y < m \<Longrightarrow> (x * m + y) div m = x" "y < m \<Longrightarrow> (x * m + y) mod m = y" for x y m :: nat
  by simp_all

lemma sextets:
  fixes a b c :: nat assumes "a < 256" and "b < 256" and "c < 256"
  shows "a div 4 < 64" "a mod 4 * 16 < 64" "a mod 4 * 16 + b div 16 < 64" "b mod 16 * 4 < 64" "b mod 16 * 4 + c div 64 < 64" "c mod 64 < 64"
    "a div 4 * 4 + (a mod 4 * 16 + b div 16) div 16 = a"
    "(a mod 4 * 16 + b div 16) mod 16 * 16 + (b mod 16 * 4 + c div 64) div 4 = b"
    "(b mod 16 * 4 + c div 64) mod 4 * 64 + c mod 64 = c"
proof -
  have s: "b div 16 < 16" "c div 64 < 4" using assms by simp_all
  have m: "a mod 4 < 4" "b mod 16 < 16" by simp_all
  show "a div 4 < 64" "a mod 4 * 16 < 64" "a mod 4 * 16 + b div 16 < 64" "b mod 16 * 4 < 64" "b mod 16 * 4 + c div 64 < 64" "c mod 64 < 64"
    using assms s m by linarith+
  show "a div 4 * 4 + (a mod 4 * 16 + b div 16) div 16 = a"
    "(a mod 4 * 16 + b div 16) mod 16 * 16 + (b mod 16 * 4 + c div 64) div 4 = b" "(b mod 16 * 4 + c div 64) mod 4 * 64 + c mod 64 = c"
    using s by (simp_all only: join_digits div_mult_mod_eq)
qed

lemma decode_encoded: "decodeQuads (EncodeToString bs) = Some bs"
proof (induction bs rule: EncodeToString.induct)
  case (2 a)
  then show ?case using sextets [of "byte a" 0 0] by (simp add: b64_alphabet pad_not_b64)
next
  case (3 a b)
  then show ?case using sextets [of "byte a" "byte b" 0] by (simp add: b64_alphabet pad_not_b64)
next
  case (4 a b c r)
  have "byte b < 16 * 16" by simp
  then have "byte b div 16 mod 16 = byte b div 16" by (intro mod_less less_mult_imp_div_less)
  then have b: "byte b div 16 mod 16 * 16 + byte b mod 16 = byte b" by (simp only: div_mult_mod_eq)
  show ?case using 4 sextets [of "byte a" "byte b" "byte c"] b
    by (simp add: b64_alphabet del: div_mult_self1 div_mult_self2 div_mult_self3 div_mult_self4)
qed simp

lemma encoded_no_line_ends: "filter (\<lambda>c. c \<noteq> CHR 0x0A \<and> c \<noteq> CHR 0x0D) (EncodeToString bs) = EncodeToString bs"
proof (induction bs rule: EncodeToString.induct)
  case (2 a)
  then show ?case using sextets [of "byte a" "byte a" "byte a"] by (simp add: b64_alphabet)
next
  case (3 a b)
  then show ?case using sextets [of "byte a" "byte b" "byte b"] by (simp add: b64_alphabet)
next
  case (4 a b c r)
  then show ?case using sextets [of "byte a" "byte b" "byte c"] by (simp add: b64_alphabet)
qed simp

lemma base64_roundtrip [simp]: "DecodeString (EncodeToString bs) = Some bs"
  by (simp add: DecodeString_def encoded_no_line_ends decode_encoded)

section \<open>Keys\<close>

type_synonym pubkey = bytes
type_synonym privkey = bytes

text \<open>What the parsers of key files give: an ECDSA key on the curve P-256, or a key of another kind.\<close>

datatype parsed_key = P256 bytes | OtherKey

record crypto =
  cr_sha :: "bytes \<Rightarrow> string"
  cr_pub :: "privkey \<Rightarrow> pubkey"
  cr_sign :: "privkey \<Rightarrow> string \<Rightarrow> bytes option"
  cr_verify :: "pubkey \<Rightarrow> string \<Rightarrow> bytes \<Rightarrow> bool"
  cr_pkix :: "pubkey \<Rightarrow> bytes option"
  cr_pkcs8 :: "privkey \<Rightarrow> bytes option"
  cr_parsePKIX :: "bytes \<Rightarrow> parsed_key option"
  cr_parsePKCS8 :: "bytes \<Rightarrow> parsed_key option"
  cr_pem :: "string \<Rightarrow> bytes \<Rightarrow> bytes"
  cr_unpem :: "bytes \<Rightarrow> bytes option"

definition crypto_ok :: "crypto \<Rightarrow> bool" where
  "crypto_ok c \<longleftrightarrow> (\<forall>k d s. cr_sign c k d = Some s \<longrightarrow> cr_verify c (cr_pub c k) d s) \<and>
     (\<forall>k der. cr_pkix c k = Some der \<longrightarrow> cr_parsePKIX c der = Some (P256 k)) \<and>
     (\<forall>k der. cr_pkcs8 c k = Some der \<longrightarrow> cr_parsePKCS8 c der = Some (P256 k)) \<and>
     (\<forall>t b. cr_unpem c (cr_pem c t b) = Some b)"

datatype attest_error =
    KeyUnreadable string
  | KeyNotPEM
  | KeyNotParsed
  | KeyNotP256
  | KeyNotEncoded
  | KeyNotWritten string
  | SigningFailed
  | BadEnvelope
  | UnsupportedEnvelope
  | BadPayload
  | BadSignatureText
  | KeyNotTrusted
  | SignatureInvalid
  | BadStatement
  | UnexpectedStatement
  | SubjectMismatch
  | KeyRequired
  | IdentityRequired
  | BadPredicate
  | PredicateSchema
  | PredicateSubject
  | PredicateDigest
  | PredicateSourceBOM
  | PredicateIdentity
  | IdentityMismatch

definition LoadECDSAPrivateKey :: "crypto \<Rightarrow> fsys \<Rightarrow> string \<Rightarrow> attest_error + privkey" where
  "LoadECDSAPrivateKey c fs path =
     (case fileAt fs path of None \<Rightarrow> Inl (KeyUnreadable path)
      | Some raw \<Rightarrow>
        (case cr_unpem c raw of None \<Rightarrow> Inl KeyNotPEM
         | Some block \<Rightarrow>
           (case cr_parsePKCS8 c block of None \<Rightarrow> Inl KeyNotParsed
            | Some OtherKey \<Rightarrow> Inl KeyNotP256 | Some (P256 k) \<Rightarrow> Inr k)))"

definition ParseECDSAPublicKey :: "crypto \<Rightarrow> bytes \<Rightarrow> attest_error + pubkey" where
  "ParseECDSAPublicKey c raw =
     (case cr_unpem c raw of None \<Rightarrow> Inl KeyNotPEM
      | Some block \<Rightarrow>
        (case cr_parsePKIX c block of None \<Rightarrow> Inl KeyNotParsed
         | Some OtherKey \<Rightarrow> Inl KeyNotP256 | Some (P256 k) \<Rightarrow> Inr k))"

definition LoadECDSAPublicKey :: "crypto \<Rightarrow> fsys \<Rightarrow> string \<Rightarrow> attest_error + pubkey" where
  "LoadECDSAPublicKey c fs path =
     (case fileAt fs path of None \<Rightarrow> Inl (KeyUnreadable path) | Some raw \<Rightarrow> ParseECDSAPublicKey c raw)"

text \<open>The fresh key is an argument, \<open>None\<close> if it could not be generated.\<close>

definition GenerateECDSAKeyPair :: "crypto \<Rightarrow> disk \<Rightarrow> privkey option \<Rightarrow> string \<Rightarrow> string \<Rightarrow> (attest_error, unit) fsm" where
  "GenerateECDSAKeyPair c dk fresh privatePath publicPath =
     (case fresh of None \<Rightarrow> failF SigningFailed
      | Some key \<Rightarrow>
        (case cr_pkcs8 c key of None \<Rightarrow> failF KeyNotEncoded
         | Some privateDER \<Rightarrow>
           (case cr_pkix c (cr_pub c key) of None \<Rightarrow> failF KeyNotEncoded
            | Some publicDER \<Rightarrow>
                thenF (writeF dk KeyNotWritten privatePath (cr_pem c ''PRIVATE KEY'' privateDER))
                  (writeF dk KeyNotWritten publicPath (cr_pem c ''PUBLIC KEY'' publicDER)))))"

definition PublicKeyID :: "crypto \<Rightarrow> pubkey \<Rightarrow> attest_error + string" where
  "PublicKeyID c key = (case cr_pkix c key of None \<Rightarrow> Inl KeyNotEncoded | Some der \<Rightarrow> Inr (''sha256:'' @ cr_sha c der))"

section \<open>Statements and envelopes\<close>

definition DSSEEnvelopeMediaType :: string where "DSSEEnvelopeMediaType = ''application/vnd.dsse.envelope.v1+json''"
definition InTotoPayloadType :: string where "InTotoPayloadType = ''application/vnd.in-toto+json''"
definition AttestationArtifactType :: string where "AttestationArtifactType = ''application/vnd.brewlet.attestation.v1+json''"
definition BundlePredicateType :: string where "BundlePredicateType = ''https://brewlet.sh/attestations/dependency-bundle/v1''"
definition ManagedPredicateType :: string where "ManagedPredicateType = ''https://brewlet.sh/attestations/managed-dependencies/v1''"
definition PredicateTypeAnnotation :: string where "PredicateTypeAnnotation = ''brewlet.sh/predicate-type''"
definition statementType :: string where "statementType = ''https://in-toto.io/Statement/v1''"

record InTotoSubject =
  su_Name :: string
  su_Digest :: stralist

text \<open>A predicate is a Go \<open>any\<close>: it is kept as the document it is marshalled to.\<close>

record InTotoStatement =
  st_Type :: string
  st_Subject :: "InTotoSubject list"
  st_PredicateType :: string
  st_Predicate :: json

record DSSESignature =
  sg_KeyID :: string
  sg_Sig :: string

record DSSEEnvelope =
  dv_PayloadType :: string
  dv_Payload :: string
  dv_Signatures :: "DSSESignature list"

record BundleProvenance =
  bp_SchemaVersion :: int
  bp_DependencyBundleDigest :: string
  bp_DependencyLayerDigest :: string
  bp_DependencyLockDigest :: string
  bp_SBOMDigest :: string
  bp_SourceBOM :: string
  bp_BuilderIdentity :: string

record ManagedDependencyPredicate =
  mp_SchemaVersion :: int
  mp_FinalImageDigest :: string
  mp_ThinJar :: bool
  mp_ApplicationJarDigest :: string
  mp_DependencyBundleDigest :: string
  mp_DependencyLayerDigest :: string
  mp_DependencyLockDigest :: string
  mp_SBOMDigest :: string
  mp_SourceBOM :: string
  mp_BuilderIdentity :: string

subsection \<open>Encoding\<close>

definition encodeSubject :: "InTotoSubject \<Rightarrow> json" where
  "encodeSubject s = JObj [(''name'', JStr (su_Name s)), (''digest'', strMap (su_Digest s))]"

definition encodeStatement :: "InTotoStatement \<Rightarrow> json" where
  "encodeStatement s =
     JObj [(''_type'', JStr (st_Type s)), (''subject'', JArr (map encodeSubject (st_Subject s))),
       (''predicateType'', JStr (st_PredicateType s)), (''predicate'', st_Predicate s)]"

definition encodeSignature :: "DSSESignature \<Rightarrow> json" where
  "encodeSignature s = JObj [(''keyid'', JStr (sg_KeyID s)), (''sig'', JStr (sg_Sig s))]"

definition encodeEnvelope :: "DSSEEnvelope \<Rightarrow> json" where
  "encodeEnvelope e =
     JObj [(''payloadType'', JStr (dv_PayloadType e)), (''payload'', JStr (dv_Payload e)),
       (''signatures'', JArr (map encodeSignature (dv_Signatures e)))]"

definition encodeProvenance :: "BundleProvenance \<Rightarrow> json" where
  "encodeProvenance p =
     JObj [(''schemaVersion'', jint (bp_SchemaVersion p)), (''dependencyBundleDigest'', JStr (bp_DependencyBundleDigest p)),
       (''dependencyLayerDigest'', JStr (bp_DependencyLayerDigest p)), (''dependencyLockDigest'', JStr (bp_DependencyLockDigest p)),
       (''sbomDigest'', JStr (bp_SBOMDigest p)), (''sourceBom'', JStr (bp_SourceBOM p)),
       (''builderIdentity'', JStr (bp_BuilderIdentity p))]"

definition encodeManaged :: "ManagedDependencyPredicate \<Rightarrow> json" where
  "encodeManaged p =
     JObj [(''schemaVersion'', jint (mp_SchemaVersion p)), (''finalImageDigest'', JStr (mp_FinalImageDigest p)),
       (''thinJar'', JBool (mp_ThinJar p)), (''applicationJarDigest'', JStr (mp_ApplicationJarDigest p)),
       (''dependencyBundleDigest'', JStr (mp_DependencyBundleDigest p)), (''dependencyLayerDigest'', JStr (mp_DependencyLayerDigest p)),
       (''dependencyLockDigest'', JStr (mp_DependencyLockDigest p)), (''sbomDigest'', JStr (mp_SBOMDigest p)),
       (''sourceBom'', JStr (mp_SourceBOM p)), (''builderIdentity'', JStr (mp_BuilderIdentity p))]"

subsection \<open>Decoding\<close>

text \<open>A value decoded into an \<open>any\<close> and marshalled again: an object is a Go map, so a name counts once and the names
  are written in order; a number is a \<open>float64\<close>, and \<open>fl\<close> gives the text of the number a literal is read as
  (\<open>None\<close> if it is out of range). An integer a \<open>float64\<close> holds exactly is written as it was read.\<close>

definition float_ok :: "(string \<Rightarrow> string option) \<Rightarrow> bool" where
  "float_ok fl \<longleftrightarrow> (\<forall>n. \<bar>n\<bar> \<le> 2 ^ 53 \<longrightarrow> fl (Itoa n) = Some (Itoa n))"

fun anyOf :: "(string \<Rightarrow> string option) \<Rightarrow> json \<Rightarrow> json option" where
  "anyOf fl JNull = Some JNull"
| "anyOf fl (JBool b) = Some (JBool b)"
| "anyOf fl (JNum lit) = map_option JNum (fl lit)"
| "anyOf fl (JStr s) = Some (JStr s)"
| "anyOf fl (JArr xs) = map_option JArr (allSome (map (anyOf fl) xs))"
| "anyOf fl (JObj fs) = map_option (\<lambda>kvs. JObj (goMap kvs)) (allSome (map (\<lambda>(k, v). map_option (Pair k) (anyOf fl v)) fs))"

definition decodeSubject :: "json \<Rightarrow> InTotoSubject option" where
  "decodeSubject j =
     Option.bind (asMembers j) (\<lambda>fs.
     Option.bind (asString (member fs ''name'')) (\<lambda>n.
     Option.bind (asStrMap (member fs ''digest'')) (\<lambda>d.
     Some \<lparr>su_Name = n, su_Digest = d\<rparr>)))"

definition decodeStatement :: "(string \<Rightarrow> string option) \<Rightarrow> json \<Rightarrow> InTotoStatement option" where
  "decodeStatement fl j =
     Option.bind (asMembers j) (\<lambda>fs.
     Option.bind (asString (member fs ''_type'')) (\<lambda>ty.
     Option.bind (asList decodeSubject (member fs ''subject'')) (\<lambda>su.
     Option.bind (asString (member fs ''predicateType'')) (\<lambda>pt.
     Option.bind (anyOf fl (member fs ''predicate'')) (\<lambda>pr.
     Some \<lparr>st_Type = ty, st_Subject = su, st_PredicateType = pt, st_Predicate = pr\<rparr>)))))"

definition decodeSignature :: "json \<Rightarrow> DSSESignature option" where
  "decodeSignature j =
     Option.bind (asMembers j) (\<lambda>fs.
     if \<not> knownMembers True [''keyid'', ''sig''] fs then None
     else Option.bind (asString (member fs ''keyid'')) (\<lambda>k.
          Option.bind (asString (member fs ''sig'')) (\<lambda>s.
          Some \<lparr>sg_KeyID = k, sg_Sig = s\<rparr>)))"

definition decodeEnvelope :: "json \<Rightarrow> DSSEEnvelope option" where
  "decodeEnvelope j =
     Option.bind (asMembers j) (\<lambda>fs.
     if \<not> knownMembers True [''payloadType'', ''payload'', ''signatures''] fs then None
     else Option.bind (asString (member fs ''payloadType'')) (\<lambda>t.
          Option.bind (asString (member fs ''payload'')) (\<lambda>p.
          Option.bind (asList decodeSignature (member fs ''signatures'')) (\<lambda>ss.
          Some \<lparr>dv_PayloadType = t, dv_Payload = p, dv_Signatures = ss\<rparr>))))"

definition provenanceNames :: "string list" where
  "provenanceNames = [''schemaVersion'', ''dependencyBundleDigest'', ''dependencyLayerDigest'', ''dependencyLockDigest'',
     ''sbomDigest'', ''sourceBom'', ''builderIdentity'']"

definition decodeProvenance :: "json \<Rightarrow> BundleProvenance option" where
  "decodeProvenance j =
     Option.bind (asMembers j) (\<lambda>fs.
     if \<not> knownMembers True provenanceNames fs then None
     else Option.bind (asInt (member fs ''schemaVersion'')) (\<lambda>sv.
          Option.bind (asString (member fs ''dependencyBundleDigest'')) (\<lambda>bu.
          Option.bind (asString (member fs ''dependencyLayerDigest'')) (\<lambda>la.
          Option.bind (asString (member fs ''dependencyLockDigest'')) (\<lambda>lo.
          Option.bind (asString (member fs ''sbomDigest'')) (\<lambda>sb.
          Option.bind (asString (member fs ''sourceBom'')) (\<lambda>so.
          Option.bind (asString (member fs ''builderIdentity'')) (\<lambda>bi.
          Some \<lparr>bp_SchemaVersion = sv, bp_DependencyBundleDigest = bu, bp_DependencyLayerDigest = la,
                bp_DependencyLockDigest = lo, bp_SBOMDigest = sb, bp_SourceBOM = so, bp_BuilderIdentity = bi\<rparr>))))))))"

definition managedNames :: "string list" where
  "managedNames = [''schemaVersion'', ''finalImageDigest'', ''thinJar'', ''applicationJarDigest'', ''dependencyBundleDigest'',
     ''dependencyLayerDigest'', ''dependencyLockDigest'', ''sbomDigest'', ''sourceBom'', ''builderIdentity'']"

definition decodeManaged :: "json \<Rightarrow> ManagedDependencyPredicate option" where
  "decodeManaged j =
     Option.bind (asMembers j) (\<lambda>fs.
     if \<not> knownMembers True managedNames fs then None
     else Option.bind (asInt (member fs ''schemaVersion'')) (\<lambda>sv.
          Option.bind (asString (member fs ''finalImageDigest'')) (\<lambda>fi.
          Option.bind (asBool (member fs ''thinJar'')) (\<lambda>th.
          Option.bind (asString (member fs ''applicationJarDigest'')) (\<lambda>ja.
          Option.bind (asString (member fs ''dependencyBundleDigest'')) (\<lambda>bu.
          Option.bind (asString (member fs ''dependencyLayerDigest'')) (\<lambda>la.
          Option.bind (asString (member fs ''dependencyLockDigest'')) (\<lambda>lo.
          Option.bind (asString (member fs ''sbomDigest'')) (\<lambda>sb.
          Option.bind (asString (member fs ''sourceBom'')) (\<lambda>so.
          Option.bind (asString (member fs ''builderIdentity'')) (\<lambda>bi.
          Some \<lparr>mp_SchemaVersion = sv, mp_FinalImageDigest = fi, mp_ThinJar = th, mp_ApplicationJarDigest = ja,
                mp_DependencyBundleDigest = bu, mp_DependencyLayerDigest = la, mp_DependencyLockDigest = lo,
                mp_SBOMDigest = sb, mp_SourceBOM = so, mp_BuilderIdentity = bi\<rparr>)))))))))))"

section \<open>Signing and verification\<close>

definition NewStatement :: "string \<Rightarrow> string \<Rightarrow> string \<Rightarrow> json \<Rightarrow> InTotoStatement" where
  "NewStatement name digest predicateType predicate =
     \<lparr>st_Type = statementType,
      st_Subject = [\<lparr>su_Name = name, su_Digest = [(''sha256'', TrimPrefix digest ''sha256:'')]\<rparr>],
      st_PredicateType = predicateType, st_Predicate = predicate\<rparr>"

definition dssePAE :: "string \<Rightarrow> bytes \<Rightarrow> bytes" where
  "dssePAE payloadType payload =
     JoinWith '' '' [''DSSEv1'', Itoa (int (length payloadType)), payloadType, Itoa (int (length payload)), payload]"

definition SignStatement :: "crypto \<Rightarrow> InTotoStatement \<Rightarrow> privkey \<Rightarrow> attest_error + bytes" where
  "SignStatement c statement key =
     (let payload = Marshal (encodeStatement statement); pae = dssePAE InTotoPayloadType payload in
      case cr_sign c key (cr_sha c pae) of None \<Rightarrow> Inl SigningFailed
      | Some signature \<Rightarrow>
        (case PublicKeyID c (cr_pub c key) of Inl e \<Rightarrow> Inl e
         | Inr keyID \<Rightarrow>
             Inr (Marshal (encodeEnvelope \<lparr>dv_PayloadType = InTotoPayloadType, dv_Payload = EncodeToString payload,
                    dv_Signatures = [\<lparr>sg_KeyID = keyID, sg_Sig = EncodeToString signature\<rparr>]\<rparr>))))"

definition VerifyStatement :: "crypto \<Rightarrow> (string \<Rightarrow> string option) \<Rightarrow> bytes \<Rightarrow> pubkey \<Rightarrow> string \<Rightarrow> string \<Rightarrow> attest_error + InTotoStatement" where
  "VerifyStatement c fl raw key predicateType subjectDigest =
     (case decodeStrict decodeEnvelope raw of None \<Rightarrow> Inl BadEnvelope
      | Some envelope \<Rightarrow>
          if dv_PayloadType envelope \<noteq> InTotoPayloadType \<or> length (dv_Signatures envelope) \<noteq> 1 then Inl UnsupportedEnvelope
          else
            (case DecodeString (dv_Payload envelope) of None \<Rightarrow> Inl BadPayload
             | Some payload \<Rightarrow>
               (case DecodeString (sg_Sig (hd (dv_Signatures envelope))) of None \<Rightarrow> Inl BadSignatureText
                | Some signature \<Rightarrow>
                  (case PublicKeyID c key of Inl e \<Rightarrow> Inl e
                   | Inr keyID \<Rightarrow>
                       if sg_KeyID (hd (dv_Signatures envelope)) \<noteq> keyID then Inl KeyNotTrusted
                       else if \<not> cr_verify c key (cr_sha c (dssePAE (dv_PayloadType envelope) payload)) signature then Inl SignatureInvalid
                       else
                         (case Option.bind (parseJson payload) (decodeStatement fl) of None \<Rightarrow> Inl BadStatement
                          | Some statement \<Rightarrow>
                              if st_Type statement \<noteq> statementType \<or> st_PredicateType statement \<noteq> predicateType then Inl UnexpectedStatement
                              else if length (st_Subject statement) \<noteq> 1 \<or>
                                ''sha256:'' @ alget (su_Digest (hd (st_Subject statement))) ''sha256'' \<noteq> subjectDigest then Inl SubjectMismatch
                              else Inr statement)))))"

text \<open>The five digests are ranged over as a Go map: the error does not say which of several malformed ones is reported.\<close>

definition ValidateManaged :: "ManagedDependencyPredicate \<Rightarrow> string \<Rightarrow> attest_error option" where
  "ValidateManaged p subjectDigest =
     (if mp_SchemaVersion p \<noteq> 1 \<or> \<not> mp_ThinJar p then Some PredicateSchema
      else if mp_FinalImageDigest p \<noteq> subjectDigest then Some PredicateSubject
      else if \<not> list_all isSHA256Digest [mp_ApplicationJarDigest p, mp_DependencyBundleDigest p, mp_DependencyLayerDigest p,
                  mp_DependencyLockDigest p, mp_SBOMDigest p] then Some PredicateDigest
      else if \<not> validateMavenCoordinate (mp_SourceBOM p) then Some PredicateSourceBOM
      else if TrimSpace (mp_BuilderIdentity p) = '''' then Some PredicateIdentity
      else None)"

definition VerifyManagedAttestation ::
  "crypto \<Rightarrow> (string \<Rightarrow> string option) \<Rightarrow> bytes \<Rightarrow> pubkey option \<Rightarrow> string \<Rightarrow> string \<Rightarrow> attest_error + ManagedDependencyPredicate" where
  "VerifyManagedAttestation c fl envelope key identity subjectDigest =
     (case key of None \<Rightarrow> Inl KeyRequired
      | Some k \<Rightarrow>
          if TrimSpace identity = '''' then Inl IdentityRequired
          else
            (case VerifyStatement c fl envelope k ManagedPredicateType subjectDigest of Inl e \<Rightarrow> Inl e
             | Inr statement \<Rightarrow>
               (case decodeStrict decodeManaged (Marshal (st_Predicate statement)) of None \<Rightarrow> Inl BadPredicate
                | Some predicate \<Rightarrow>
                  (case ValidateManaged predicate subjectDigest of Some e \<Rightarrow> Inl e
                   | None \<Rightarrow> if mp_BuilderIdentity predicate \<noteq> identity then Inl IdentityMismatch else Inr predicate))))"

section \<open>The pre-authentication encoding\<close>

lemma split_at:
  assumes "d \<notin> set a" and "d \<notin> set b" and "a @ [d] @ x = b @ [d] @ y"
  shows "a = b \<and> x = y"
proof -
  have "takeWhile (\<lambda>c. c \<noteq> d) (u @ [d] @ z) = u" if "d \<notin> set u" for u z :: "'a list"
    using that by (subst takeWhile_append2) auto
  then have "a = b" using assms by metis
  then show ?thesis using assms(3) by simp
qed

lemma Itoa_space: "CHR '' '' \<notin> set (Itoa (int n))"
  using dec_digits_chars [of "CHR '' ''" n] by (auto simp: Itoa_def is_digit_def)

lemma Itoa_nat_inj: "Itoa (int m) = Itoa (int n) \<Longrightarrow> m = n"
proof -
  assume "Itoa (int m) = Itoa (int n)"
  then have "dec_digits m = dec_digits n" by (simp add: Itoa_def)
  then have "dec_val 0 (dec_digits m) = dec_val 0 (dec_digits n)" by simp
  then show ?thesis by (simp only: dec_val_dec_digits)
qed

lemma sized_field:
  assumes "Itoa (int (length s)) @ '' '' @ s @ r = Itoa (int (length t)) @ '' '' @ t @ r'"
  shows "s = t \<and> r = r'"
proof -
  have e: "Itoa (int (length s)) = Itoa (int (length t)) \<and> s @ r = t @ r'"
    by (rule split_at [OF Itoa_space Itoa_space]) (use assms in simp)
  then have "length s = length t" by (intro Itoa_nat_inj) simp
  then show ?thesis using e by simp
qed

lemma dssePAE_fields: "dssePAE t p = ''DSSEv1 '' @ Itoa (int (length t)) @ '' '' @ t @ ('' '' @ Itoa (int (length p)) @ '' '' @ p @ [])"
  by (simp add: dssePAE_def)

lemma dssePAE_inj: "dssePAE t p = dssePAE u q \<Longrightarrow> t = u \<and> p = q"
proof -
  assume "dssePAE t p = dssePAE u q"
  then have o: "Itoa (int (length t)) @ '' '' @ t @ ('' '' @ Itoa (int (length p)) @ '' '' @ p @ []) =
      Itoa (int (length u)) @ '' '' @ u @ ('' '' @ Itoa (int (length q)) @ '' '' @ q @ [])"
    unfolding dssePAE_fields by (rule append_eq_append_conv [THEN iffD1, THEN conjunct2, rotated]) simp
  then have t: "t = u" "'' '' @ Itoa (int (length p)) @ '' '' @ p @ [] = '' '' @ Itoa (int (length q)) @ '' '' @ q @ []"
    using sized_field [OF o] by simp_all
  then have "Itoa (int (length p)) @ '' '' @ p @ [] = Itoa (int (length q)) @ '' '' @ q @ []" by simp
  then show ?thesis using t(1) sized_field [of p "[]" q "[]"] by simp
qed

section \<open>Round trips of the documents\<close>

lemma attestFoldNames [json_simps]:
  "foldName ''_type'' = ''_type''" "foldName ''predicateType'' = ''predicatetype''" "foldName ''predicate'' = ''predicate''"
  "foldName ''keyid'' = ''keyid''" "foldName ''sig'' = ''sig''" "foldName ''payloadType'' = ''payloadtype''"
  "foldName ''payload'' = ''payload''" "foldName ''signatures'' = ''signatures''" "foldName ''finalImageDigest'' = ''finalimagedigest''"
  by code_simp+

lemma decode_encode_Envelope: "decodeEnvelope (encodeEnvelope e) = Some e"
proof -
  have "decodeSignature (encodeSignature s) = Some s" for s
    by (simp add: decodeSignature_def encodeSignature_def json_simps)
  then have "asList decodeSignature (JArr (map encodeSignature ss)) = Some ss" for ss by (intro asList_JArr) simp
  then show ?thesis by (simp add: decodeEnvelope_def encodeEnvelope_def json_simps)
qed

lemma json_wf_attest [simp]:
  "json_wf (encodeEnvelope e)" "json_wf (encodeProvenance p)" "json_wf (encodeManaged m)"
  "json_wf (encodeStatement s) \<longleftrightarrow> json_wf (st_Predicate s)"
proof -
  have "list_all json_wf (map encodeSignature ss)" for ss by (induction ss) (simp_all add: encodeSignature_def)
  moreover have "list_all json_wf (map encodeSubject ss)" for ss by (induction ss) (simp_all add: encodeSubject_def json_simps)
  ultimately show "json_wf (encodeEnvelope e)" "json_wf (encodeProvenance p)" "json_wf (encodeManaged m)"
    "json_wf (encodeStatement s) \<longleftrightarrow> json_wf (st_Predicate s)"
    by (simp_all add: encodeEnvelope_def encodeProvenance_def encodeManaged_def encodeStatement_def json_simps)
qed

definition subject_ok :: "InTotoSubject \<Rightarrow> bool" where
  "subject_ok s = canonical (su_Digest s)"

lemma decode_encode_Statement:
  assumes "list_all subject_ok (st_Subject s)"
  shows "decodeStatement fl (encodeStatement s) = map_option (\<lambda>p. s\<lparr>st_Predicate := p\<rparr>) (anyOf fl (st_Predicate s))"
proof -
  have "decodeSubject (encodeSubject x) = Some x" if "subject_ok x" for x
    using that by (simp add: decodeSubject_def encodeSubject_def subject_ok_def json_simps)
  then have "asList decodeSubject (JArr (map encodeSubject (st_Subject s))) = Some (st_Subject s)"
    using assms by (intro asList_JArr) (simp add: list_all_iff)
  then show ?thesis
    by (simp add: decodeStatement_def encodeStatement_def json_simps map_option_case split: option.split)
qed

text \<open>Reading a value into an \<open>any\<close> only reorders the members of an object whose names differ, and decoding into a
  struct does not see the order.\<close>

lemma member_unique:
  assumes "distinct (map (foldName \<circ> fst) fs)" and "(n, v) \<in> set fs"
  shows "member fs n = v"
proof -
  obtain xs ys where s: "fs = xs @ (n, v) # ys" using split_list [OF assms(2)] by blast
  have "\<not> hasMember ys n" using assms(1) unfolding s hasMember_def by (auto simp: list_ex_iff rev_image_eqI)
  then show ?thesis unfolding s by (simp add: member_append json_simps)
qed

lemma member_fold: "foldName k = foldName n \<Longrightarrow> member fs k = member fs n"
  by (simp add: member_def)

lemma member_set_cong:
  assumes "distinct (map (foldName \<circ> fst) fs)" and "distinct (map (foldName \<circ> fst) gs)" and "set fs = set gs"
  shows "member fs k = member gs k"
proof (cases "hasMember fs k")
  case True
  then obtain n v where m: "(n, v) \<in> set fs" "foldName n = foldName k" by (auto simp: hasMember_def list_ex_iff)
  then show ?thesis
    using member_unique [OF assms(1) m(1)] member_unique [OF assms(2), of n v] assms(3) member_fold [OF m(2) [symmetric]] by simp
next
  case False
  then have "\<not> hasMember gs k" using assms(3) by (simp add: hasMember_def list_ex_iff)
  then show ?thesis using False by (simp add: member_absent)
qed

lemma goMap_perm: "distinct (map (foldName \<circ> fst) fs) \<Longrightarrow> mset (goMap fs) = mset fs"
proof -
  assume "distinct (map (foldName \<circ> fst) fs)"
  then have "distinct (map foldName (map fst fs))" by simp
  then have "distinct (map fst fs)" by (rule distinct_map [THEN iffD1, THEN conjunct1])
  then show ?thesis by (simp add: goMap_def lastWins_distinct)
qed

lemma members_goMap [json_simps]:
  assumes "distinct (map (foldName \<circ> fst) fs)"
  shows "member (goMap fs) k = member fs k" "knownMembers b ns (goMap fs) = knownMembers b ns fs"
proof -
  have s: "set (goMap fs) = set fs" using goMap_perm [OF assms] by (rule mset_eq_setD)
  have "mset (map (foldName \<circ> fst) (goMap fs)) = mset (map (foldName \<circ> fst) fs)" using goMap_perm [OF assms] by simp
  then have "distinct (map (foldName \<circ> fst) (goMap fs))" using assms mset_eq_imp_distinct_iff by blast
  then show "member (goMap fs) k = member fs k" using assms s by (intro member_set_cong)
  show "knownMembers b ns (goMap fs) = knownMembers b ns fs" using s by (simp add: knownMembers_def list_all_iff)
qed

lemma json_wf_goMap [json_simps]:
  assumes "distinct (map (foldName \<circ> fst) fs)"
  shows "list_all (\<lambda>(_, v). json_wf v) (goMap fs) = list_all (\<lambda>(_, v). json_wf v) fs"
  using mset_eq_setD [OF goMap_perm [OF assms]] by (simp add: list_all_iff)

lemma one_int64 [simp]: "in_int64 1"
  by (simp add: in_int64_def min_int64_def max_int64_def)

lemma anyOf_simps [json_simps]: "float_ok fl \<Longrightarrow> \<bar>n\<bar> \<le> 2 ^ 53 \<Longrightarrow> anyOf fl (jint n) = Some (jint n)"
  by (simp add: jint_def float_ok_def)

lemma any_Managed:
  assumes "float_ok fl" and "mp_SchemaVersion p = 1"
  shows "\<exists>j. anyOf fl (encodeManaged p) = Some j \<and> json_wf j \<and> decodeManaged j = Some p"
  using assms by (simp add: encodeManaged_def decodeManaged_def managedNames_def json_simps)

lemma any_Provenance:
  assumes "float_ok fl" and "bp_SchemaVersion p = 1"
  shows "\<exists>j. anyOf fl (encodeProvenance p) = Some j \<and> json_wf j \<and> decodeProvenance j = Some p"
  using assms by (simp add: encodeProvenance_def decodeProvenance_def provenanceNames_def json_simps)

section \<open>What is signed verifies\<close>

lemma alget_single [simp]: "alget [(k, v)] k = v"
  by (simp add: alget_def mget_def)

lemma sha256_prefix: "isSHA256Digest d \<Longrightarrow> ''sha256:'' @ TrimPrefix d ''sha256:'' = d"
proof -
  assume "isSHA256Digest d"
  then have p: "HasPrefix d ''sha256:''" unfolding isSHA256Digest_def by blast
  then have "take (length ''sha256:'') d = ''sha256:''" by (simp only: HasPrefix_def)
  then show ?thesis using p append_take_drop_id [of "length ''sha256:''" d] by (simp only: TrimPrefix_def if_True)
qed

lemma verify_signed:
  assumes c: "crypto_ok c" and s: "SignStatement c st key = Inr raw"
    and st: "st = NewStatement name digest ptype pred" and d: "''sha256:'' @ TrimPrefix digest ''sha256:'' = digest"
    and p: "json_wf pred" "anyOf fl pred = Some pred'"
  shows "VerifyStatement c fl raw (cr_pub c key) ptype digest = Inr (st\<lparr>st_Predicate := pred'\<rparr>)"
proof -
  let ?payload = "Marshal (encodeStatement st)"
  obtain sig kid where k: "cr_sign c key (cr_sha c (dssePAE InTotoPayloadType ?payload)) = Some sig" "PublicKeyID c (cr_pub c key) = Inr kid"
    and raw: "raw = Marshal (encodeEnvelope \<lparr>dv_PayloadType = InTotoPayloadType, dv_Payload = EncodeToString ?payload,
                    dv_Signatures = [\<lparr>sg_KeyID = kid, sg_Sig = EncodeToString sig\<rparr>]\<rparr>)"
    using s by (auto simp: SignStatement_def Let_def split: option.splits sum.splits)
  have v: "cr_verify c (cr_pub c key) (cr_sha c (dssePAE InTotoPayloadType ?payload)) sig" using c k(1) by (simp add: crypto_ok_def)
  have j: "parseJson ?payload = Some (encodeStatement st)" using p(1) by (intro parse_Marshal) (simp add: st NewStatement_def)
  have "list_all subject_ok (st_Subject st)" by (simp add: st NewStatement_def subject_ok_def canonical_def)
  then have "decodeStatement fl (encodeStatement st) = Some (st\<lparr>st_Predicate := pred'\<rparr>)"
    using p(2) by (simp add: decode_encode_Statement) (simp add: st NewStatement_def)
  then show ?thesis using k(2) v j d unfolding raw
    by (simp add: VerifyStatement_def decodeStrict_def parse_Marshal decode_encode_Envelope) (simp add: st NewStatement_def)
qed

text \<open>A managed-dependency attestation that the builder signs is accepted by the verifier: if the predicate is valid for
  the image and its identity is the expected one, verification under the public half of the key returns the predicate
  that was signed, through the DSSE envelope, base64, the pre-authentication encoding and both JSON documents.\<close>

lemma signed_attestation_verifies:
  assumes "crypto_ok c" and "float_ok fl"
    and "ValidateManaged p digest = None" and "isSHA256Digest digest"
    and "SignStatement c (NewStatement name digest ManagedPredicateType (encodeManaged p)) key = Inr envelope"
  shows "VerifyManagedAttestation c fl envelope (Some (cr_pub c key)) (mp_BuilderIdentity p) digest = Inr p"
proof -
  have v: "mp_SchemaVersion p = 1" "TrimSpace (mp_BuilderIdentity p) \<noteq> ''''"
    using assms(3) by (auto simp: ValidateManaged_def split: if_splits)
  obtain j where j: "anyOf fl (encodeManaged p) = Some j" "json_wf j" "decodeManaged j = Some p"
    using any_Managed [OF assms(2) v(1)] by blast
  have "VerifyStatement c fl envelope (cr_pub c key) ManagedPredicateType digest =
      Inr ((NewStatement name digest ManagedPredicateType (encodeManaged p))\<lparr>st_Predicate := j\<rparr>)"
    by (rule verify_signed [OF assms(1,5) refl sha256_prefix [OF assms(4)] json_wf_attest(3) j(1)])
  then show ?thesis using assms(3) v(2) j(2,3) by (simp add: VerifyManagedAttestation_def decodeStrict_def parse_Marshal)
qed

section \<open>What verifies was signed\<close>

lemma VerifyStatement_elim:
  assumes "VerifyStatement c fl raw key ptype subject = Inr st"
  obtains payload sig j where "cr_verify c key (cr_sha c (dssePAE InTotoPayloadType payload)) sig"
    and "parseJson payload = Some j" and "decodeStatement fl j = Some st"
    and "st_Type st = statementType" and "st_PredicateType st = ptype" and "length (st_Subject st) = 1"
    and "''sha256:'' @ alget (su_Digest (hd (st_Subject st))) ''sha256'' = subject"
  using assms that unfolding VerifyStatement_def
  by (auto split: option.splits if_splits sum.splits simp: Option.bind_eq_Some_conv)

text \<open>The message a key signs for a statement, and a pair of messages that breaks the hash.\<close>

definition signedMessage :: "InTotoStatement \<Rightarrow> bytes" where
  "signedMessage st = dssePAE InTotoPayloadType (Marshal (encodeStatement st))"

definition collides :: "crypto \<Rightarrow> bytes \<Rightarrow> bool" where
  "collides c m \<longleftrightarrow> (\<exists>m'. m' \<noteq> m \<and> cr_sha c m' = cr_sha c m)"

definition wellFormedStatement :: "InTotoStatement \<Rightarrow> bool" where
  "wellFormedStatement s \<longleftrightarrow> json_wf (st_Predicate s) \<and> list_all subject_ok (st_Subject s)"

lemma verified_was_signed:
  assumes v: "VerifyStatement c fl raw key ptype subject = Inr st"
    and u: "\<And>d sig. cr_verify c key d sig \<Longrightarrow> \<exists>s \<in> signed. d = cr_sha c (signedMessage s)"
    and w: "\<And>s. s \<in> signed \<Longrightarrow> wellFormedStatement s \<and> \<not> collides c (signedMessage s)"
  shows "\<exists>s \<in> signed. st_PredicateType s = ptype \<and> length (st_Subject s) = 1 \<and>
      ''sha256:'' @ alget (su_Digest (hd (st_Subject s))) ''sha256'' = subject \<and> anyOf fl (st_Predicate s) = Some (st_Predicate st)"
proof -
  obtain payload sig j where p: "cr_verify c key (cr_sha c (dssePAE InTotoPayloadType payload)) sig"
    "parseJson payload = Some j" "decodeStatement fl j = Some st"
    and b: "st_PredicateType st = ptype" "length (st_Subject st) = 1" "''sha256:'' @ alget (su_Digest (hd (st_Subject st))) ''sha256'' = subject"
    using VerifyStatement_elim [OF v] by metis
  obtain s where s: "s \<in> signed" "cr_sha c (dssePAE InTotoPayloadType payload) = cr_sha c (signedMessage s)" using u [OF p(1)] by blast
  have "dssePAE InTotoPayloadType payload = signedMessage s" using w [OF s(1)] s(2) by (auto simp: collides_def)
  then have "payload = Marshal (encodeStatement s)" unfolding signedMessage_def by (rule dssePAE_inj [THEN conjunct2])
  then have "j = encodeStatement s" using p(2) w [OF s(1)] by (simp add: parse_Marshal wellFormedStatement_def)
  then obtain q where "anyOf fl (st_Predicate s) = Some q" "st = s\<lparr>st_Predicate := q\<rparr>"
    using p(3) w [OF s(1)] by (auto simp: decode_encode_Statement wellFormedStatement_def)
  then show ?thesis using s(1) b by auto
qed

text \<open>C28: Nothing but what the trusted key signed is accepted. If a signature verifies under the trusted key only for the
  messages of a set of signed statements, and none of these messages shares its hash with another message, an accepted
  attestation is one of those statements: it was signed as a managed-dependency statement about exactly this image, and the
  predicate that is returned is the one that was signed, valid for the image and with the expected builder identity.\<close>

theorem accepted_attestation_was_signed:
  assumes "VerifyManagedAttestation c fl envelope (Some key) identity subject = Inr p"
    and "\<forall>d sig. cr_verify c key d sig \<longrightarrow> (\<exists>s \<in> signed. d = cr_sha c (signedMessage s))"
    and "\<forall>s \<in> signed. wellFormedStatement s \<and> \<not> collides c (signedMessage s)"
  shows "\<exists>s \<in> signed. st_PredicateType s = ManagedPredicateType \<and>
      map (\<lambda>x. ''sha256:'' @ alget (su_Digest x) ''sha256'') (st_Subject s) = [subject] \<and>
      Option.bind (anyOf fl (st_Predicate s)) (\<lambda>j. decodeStrict decodeManaged (Marshal j)) = Some p \<and>
      ValidateManaged p subject = None \<and> mp_FinalImageDigest p = subject \<and> mp_BuilderIdentity p = identity"
proof -
  obtain st where v: "VerifyStatement c fl envelope key ManagedPredicateType subject = Inr st"
    and p: "decodeStrict decodeManaged (Marshal (st_Predicate st)) = Some p" "ValidateManaged p subject = None" "mp_BuilderIdentity p = identity"
    using assms(1) by (auto simp: VerifyManagedAttestation_def split: if_splits sum.splits option.splits)
  obtain s where s: "s \<in> signed" "st_PredicateType s = ManagedPredicateType" "length (st_Subject s) = 1"
    "''sha256:'' @ alget (su_Digest (hd (st_Subject s))) ''sha256'' = subject" "anyOf fl (st_Predicate s) = Some (st_Predicate st)"
    using verified_was_signed [OF v, of signed] assms(2,3) by blast
  have "mp_FinalImageDigest p = subject" using p(2) by (auto simp: ValidateManaged_def split: if_splits)
  moreover have "map (\<lambda>x. ''sha256:'' @ alget (su_Digest x) ''sha256'') (st_Subject s) = [subject]"
    using s(3,4) by (cases "st_Subject s") auto
  ultimately show ?thesis using s(1,2,5) p by auto
qed

section \<open>Key files\<close>

lemma generated_keys_load:
  assumes c: "crypto_ok c" and f: "Clean privatePath \<noteq> Clean publicPath"
    and g: "GenerateECDSAKeyPair c dk (Some key) privatePath publicPath fs = (Inr (), fs')"
  shows "LoadECDSAPrivateKey c fs' privatePath = Inr key \<and> LoadECDSAPublicKey c fs' publicPath = Inr (cr_pub c key)"
proof -
  obtain a b where d: "cr_pkcs8 c key = Some a" "cr_pkix c (cr_pub c key) = Some b"
    and w: "thenF (writeF dk KeyNotWritten privatePath (cr_pem c ''PRIVATE KEY'' a))
      (writeF dk KeyNotWritten publicPath (cr_pem c ''PUBLIC KEY'' b)) fs = (Inr (), fs')"
    using g by (auto simp: GenerateECDSAKeyPair_def failF_def split: option.splits)
  have "fs' = fs(Clean privatePath \<mapsto> cr_pem c ''PRIVATE KEY'' a, Clean publicPath \<mapsto> cr_pem c ''PUBLIC KEY'' b)"
    using w by (auto simp: thenF_def bindF_def writeF_def split: write_outcome.splits)
  then show ?thesis using c d f
    by (simp add: LoadECDSAPrivateKey_def LoadECDSAPublicKey_def ParseECDSAPublicKey_def fileAt_def crypto_ok_def)
qed

section \<open>An example\<close>

text \<open>A key that signs one statement only; the hash is the identity.\<close>

definition demoDigest :: "char \<Rightarrow> string" where
  "demoDigest x = ''sha256:'' @ replicate 64 x"

definition demoPredicate :: ManagedDependencyPredicate where
  "demoPredicate =
     \<lparr>mp_SchemaVersion = 1, mp_FinalImageDigest = demoDigest (CHR ''a''), mp_ThinJar = True,
      mp_ApplicationJarDigest = demoDigest (CHR ''b''), mp_DependencyBundleDigest = demoDigest (CHR ''c''),
      mp_DependencyLayerDigest = demoDigest (CHR ''d''), mp_DependencyLockDigest = demoDigest (CHR ''e''),
      mp_SBOMDigest = demoDigest (CHR ''f''), mp_SourceBOM = ''com.acme:bom:1.0'', mp_BuilderIdentity = ''ci@acme''\<rparr>"

definition demoStatement :: InTotoStatement where
  "demoStatement = NewStatement ''application-image'' (demoDigest (CHR ''a'')) ManagedPredicateType (encodeManaged demoPredicate)"

definition demoCrypto :: crypto where
  "demoCrypto =
     \<lparr>cr_sha = (\<lambda>b. b), cr_pub = (\<lambda>k. k), cr_sign = (\<lambda>k d. if d = signedMessage demoStatement then Some d else None),
      cr_verify = (\<lambda>k d s. s = d \<and> d = signedMessage demoStatement), cr_pkix = Some, cr_pkcs8 = Some,
      cr_parsePKIX = (\<lambda>b. Some (P256 b)), cr_parsePKCS8 = (\<lambda>b. Some (P256 b)), cr_pem = (\<lambda>_ b. b), cr_unpem = Some\<rparr>"

definition demoEnvelope :: bytes where
  "demoEnvelope = (case SignStatement demoCrypto demoStatement ''key'' of Inl _ \<Rightarrow> '''' | Inr e \<Rightarrow> e)"

lemma demo_signs: "SignStatement demoCrypto demoStatement ''key'' = Inr demoEnvelope"
  unfolding demoEnvelope_def by (simp add: SignStatement_def Let_def PublicKeyID_def demoCrypto_def signedMessage_def)

lemma demo_crypto: "crypto_ok demoCrypto" "float_ok Some"
  by (simp_all add: crypto_ok_def demoCrypto_def float_ok_def)

lemma demo_predicate:
  "ValidateManaged demoPredicate (demoDigest (CHR ''a'')) = None" "isSHA256Digest (demoDigest (CHR ''a''))"
  by code_simp+

theorem signed_attestation_verifies_witness:
  "VerifyManagedAttestation demoCrypto Some demoEnvelope (Some (cr_pub demoCrypto ''key'')) ''ci@acme'' (demoDigest (CHR ''a'')) = Inr demoPredicate"
  using signed_attestation_verifies [OF demo_crypto demo_predicate demo_signs [unfolded demoStatement_def]] by (simp add: demoPredicate_def)

lemma demo_verifies:
  "VerifyManagedAttestation demoCrypto Some demoEnvelope (Some ''key'') ''ci@acme'' (demoDigest (CHR ''a'')) = Inr demoPredicate"
proof -
  obtain j where j: "anyOf Some (encodeManaged demoPredicate) = Some j" "json_wf j" "decodeManaged j = Some demoPredicate"
    using any_Managed [OF demo_crypto(2), of demoPredicate] by (auto simp: demoPredicate_def)
  have "cr_pub demoCrypto ''key'' = ''key''" by (simp add: demoCrypto_def)
  then have "VerifyStatement demoCrypto Some demoEnvelope ''key'' ManagedPredicateType (demoDigest (CHR ''a'')) = Inr (demoStatement\<lparr>st_Predicate := j\<rparr>)"
    using verify_signed [OF demo_crypto(1) demo_signs demoStatement_def sha256_prefix [OF demo_predicate(2)] json_wf_attest(3) j(1)] by simp
  moreover have "mp_BuilderIdentity demoPredicate = ''ci@acme''" "TrimSpace ''ci@acme'' \<noteq> ''''" by code_simp+
  ultimately show ?thesis using demo_predicate(1) j(2,3) by (simp add: VerifyManagedAttestation_def decodeStrict_def parse_Marshal)
qed

theorem accepted_attestation_was_signed_witness:
  "VerifyManagedAttestation demoCrypto Some demoEnvelope (Some ''key'') ''ci@acme'' (demoDigest (CHR ''a'')) = Inr demoPredicate \<and>
   st_PredicateType demoStatement = ManagedPredicateType \<and> mp_FinalImageDigest demoPredicate = demoDigest (CHR ''a'')"
proof -
  have w: "wellFormedStatement demoStatement"
    by (simp add: wellFormedStatement_def demoStatement_def NewStatement_def subject_ok_def canonical_def)
  have n: "\<not> collides demoCrypto m" for m by (simp add: collides_def demoCrypto_def)
  have u: "\<forall>d sig. cr_verify demoCrypto ''key'' d sig \<longrightarrow> (\<exists>s \<in> {demoStatement}. d = cr_sha demoCrypto (signedMessage s))"
    by (simp add: demoCrypto_def)
  have "\<forall>s \<in> {demoStatement}. wellFormedStatement s \<and> \<not> collides demoCrypto (signedMessage s)" using w n by simp
  from accepted_attestation_was_signed [OF demo_verifies u this] demo_verifies show ?thesis by blast
qed

end
