(* ===== verification/Ratify_Verifier.thy ===== *)
theory Ratify_Verifier
  imports Attest
begin

text \<open>
  The admission check of images with managed dependencies (\<open>src/admission/ratify-verifier/verify.go\<close>), an external verifier of Ratify: its
  configuration, the trusted key and the verification of one referrer. The referrer store of Ratify is the record \<open>referrer_store\<close>: the blobs that the
  manifest of a referrer lists (media type and digest) and the content of a blob, or nothing if they cannot be fetched.
\<close>

section \<open>The verifier\<close>

record PluginConfig =
  pc_TrustedPublicKey :: string
  pc_TrustedPublicKeyPath :: string
  pc_ExpectedBuilderIdentity :: string

record referrer_store =
  rs_manifest :: "string \<Rightarrow> (string \<times> string) list option"
  rs_blob :: "string \<Rightarrow> bytes option"

text \<open>A referrer as Ratify hands it over: its digest and artifact type.\<close>

record referrer_desc =
  rr_Digest :: string
  rr_ArtifactType :: string

datatype deny_reason =
    InputUndecodable
  | ConfigUndecodable
  | IdentityNotSet
  | KeySourceCount
  | TrustedKeyError attest_error
  | SubjectNotPinned string
  | NotAnAttestation string
  | ManifestUnavailable
  | NotOneEnvelope
  | EnvelopeUnavailable
  | AttestationRejected attest_error

datatype verdict = Denied deny_reason | Allowed ManagedDependencyPredicate

definition decodePluginConfig :: "json \<Rightarrow> PluginConfig option" where
  "decodePluginConfig j =
     Option.bind (asMembers j) (\<lambda>fs.
     Option.bind (asString (member fs ''trustedPublicKey'')) (\<lambda>inline.
     Option.bind (asString (member fs ''trustedPublicKeyPath'')) (\<lambda>path.
     Option.bind (asString (member fs ''expectedBuilderIdentity'')) (\<lambda>identity.
     Some \<lparr>pc_TrustedPublicKey = inline, pc_TrustedPublicKeyPath = path, pc_ExpectedBuilderIdentity = identity\<rparr>))))"

text \<open>A missing or null \<open>config\<close> leaves the empty configuration.\<close>

definition parsePluginConfig :: "bytes \<Rightarrow> deny_reason + PluginConfig" where
  "parsePluginConfig stdin =
     (case Option.bind (parseJson stdin) asMembers of None \<Rightarrow> Inl InputUndecodable
      | Some env \<Rightarrow>
        (case decodePluginConfig (member env ''config'') of None \<Rightarrow> Inl ConfigUndecodable
         | Some cfg \<Rightarrow>
             if TrimSpace (pc_ExpectedBuilderIdentity cfg) = '''' then Inl IdentityNotSet
             else
               (let inline = (TrimSpace (pc_TrustedPublicKey cfg) \<noteq> ''''); path = (TrimSpace (pc_TrustedPublicKeyPath cfg) \<noteq> '''') in
                if inline = path then Inl KeySourceCount else Inr cfg)))"

definition pluginKey :: "crypto \<Rightarrow> fsys \<Rightarrow> PluginConfig \<Rightarrow> attest_error + pubkey" where
  "pluginKey c fs cfg =
     (if TrimSpace (pc_TrustedPublicKey cfg) \<noteq> '''' then ParseECDSAPublicKey c (pc_TrustedPublicKey cfg)
      else LoadECDSAPublicKey c fs (pc_TrustedPublicKeyPath cfg))"

definition verifyManaged ::
  "crypto \<Rightarrow> (string \<Rightarrow> string option) \<Rightarrow> referrer_store \<Rightarrow> string \<Rightarrow> referrer_desc \<Rightarrow> pubkey \<Rightarrow> string \<Rightarrow> verdict" where
  "verifyManaged c fl store subjectDigest ref key expectedIdentity =
     (if \<not> HasPrefix subjectDigest ''sha256:'' \<or> length subjectDigest \<noteq> length ''sha256:'' + 64 then Denied (SubjectNotPinned subjectDigest)
      else if rr_ArtifactType ref \<noteq> AttestationArtifactType then Denied (NotAnAttestation (rr_ArtifactType ref))
      else
        (case rs_manifest store (rr_Digest ref) of None \<Rightarrow> Denied ManifestUnavailable
         | Some blobs \<Rightarrow>
             if length blobs \<noteq> 1 \<or> fst (hd blobs) \<noteq> DSSEEnvelopeMediaType then Denied NotOneEnvelope
             else
               (case rs_blob store (snd (hd blobs)) of None \<Rightarrow> Denied EnvelopeUnavailable
                | Some envelope \<Rightarrow>
                  (case VerifyManagedAttestation c fl envelope (Some key) expectedIdentity subjectDigest of
                     Inl e \<Rightarrow> Denied (AttestationRejected e) | Inr predicate \<Rightarrow> Allowed predicate))))"

definition VerifyReference ::
  "crypto \<Rightarrow> (string \<Rightarrow> string option) \<Rightarrow> fsys \<Rightarrow> bytes \<Rightarrow> string \<Rightarrow> referrer_desc \<Rightarrow> referrer_store \<Rightarrow> verdict" where
  "VerifyReference c fl fs stdin subjectDigest ref store =
     (case parsePluginConfig stdin of Inl e \<Rightarrow> Denied e
      | Inr cfg \<Rightarrow>
        (case pluginKey c fs cfg of Inl e \<Rightarrow> Denied (TrustedKeyError e)
         | Inr key \<Rightarrow> verifyManaged c fl store subjectDigest ref key (pc_ExpectedBuilderIdentity cfg)))"

section \<open>What is admitted\<close>

text \<open>The configuration of a verifier: a builder identity and one source of the trusted key.\<close>

definition configured :: "crypto \<Rightarrow> fsys \<Rightarrow> bytes \<Rightarrow> pubkey \<Rightarrow> string \<Rightarrow> bool" where
  "configured c fs stdin key identity \<longleftrightarrow>
     (\<exists>env cfg. parseJson stdin = Some env \<and> Option.bind (asMembers env) (\<lambda>fs. decodePluginConfig (member fs ''config'')) = Some cfg \<and>
        identity = pc_ExpectedBuilderIdentity cfg \<and> TrimSpace identity \<noteq> '''' \<and>
        (TrimSpace (pc_TrustedPublicKey cfg) \<noteq> '''' \<and> TrimSpace (pc_TrustedPublicKeyPath cfg) = '''' \<and>
           ParseECDSAPublicKey c (pc_TrustedPublicKey cfg) = Inr key \<or>
         TrimSpace (pc_TrustedPublicKey cfg) = '''' \<and> TrimSpace (pc_TrustedPublicKeyPath cfg) \<noteq> '''' \<and>
           LoadECDSAPublicKey c fs (pc_TrustedPublicKeyPath cfg) = Inr key))"

text \<open>The evidence for an image: one envelope, signed by the key about this digest, with a valid predicate of the builder.\<close>

definition evidenced ::
  "crypto \<Rightarrow> (string \<Rightarrow> string option) \<Rightarrow> referrer_store \<Rightarrow> string \<Rightarrow> referrer_desc \<Rightarrow> pubkey \<Rightarrow> string \<Rightarrow> ManagedDependencyPredicate \<Rightarrow> bool" where
  "evidenced c fl store digest ref key identity p \<longleftrightarrow>
     (\<exists>blob envelope statement. rr_ArtifactType ref = AttestationArtifactType \<and> rs_manifest store (rr_Digest ref) = Some [(DSSEEnvelopeMediaType, blob)] \<and>
        rs_blob store blob = Some envelope \<and> VerifyStatement c fl envelope key ManagedPredicateType digest = Inr statement \<and>
        decodeStrict decodeManaged (Marshal (st_Predicate statement)) = Some p \<and> ValidateManaged p digest = None \<and> mp_BuilderIdentity p = identity)"

lemma parsePluginConfig_iff:
  "(\<exists>cfg. parsePluginConfig stdin = Inr cfg \<and> pluginKey c fs cfg = Inr key \<and> identity = pc_ExpectedBuilderIdentity cfg) \<longleftrightarrow> configured c fs stdin key identity"
  unfolding configured_def parsePluginConfig_def pluginKey_def Let_def
  by (cases "parseJson stdin") (auto split: option.splits if_splits simp: bind_eq_Some_conv)

lemma attestation_iff:
  "VerifyManagedAttestation c fl envelope (Some key) identity digest = Inr p \<longleftrightarrow>
   TrimSpace identity \<noteq> '''' \<and> (\<exists>statement. VerifyStatement c fl envelope key ManagedPredicateType digest = Inr statement \<and>
     decodeStrict decodeManaged (Marshal (st_Predicate statement)) = Some p \<and> ValidateManaged p digest = None \<and> mp_BuilderIdentity p = identity)"
  by (auto simp: VerifyManagedAttestation_def split: sum.splits option.splits if_splits)

lemma single_blob: "length blobs = 1 \<and> fst (hd blobs) = t \<longleftrightarrow> (\<exists>b. blobs = [(t, b)])"
  by (cases blobs) auto

lemma verifyManaged_iff:
  "verifyManaged c fl store digest ref key identity = Allowed p \<longleftrightarrow>
   HasPrefix digest ''sha256:'' \<and> length digest = 71 \<and> TrimSpace identity \<noteq> '''' \<and> evidenced c fl store digest ref key identity p"
proof (cases "rs_manifest store (rr_Digest ref)")
  case (Some blobs)
  show ?thesis
  proof (cases "\<exists>b. blobs = [(DSSEEnvelopeMediaType, b)]")
    case True
    then obtain b where b: "blobs = [(DSSEEnvelopeMediaType, b)]" by blast
    show ?thesis
    proof (cases "rs_blob store b")
      case None
      then show ?thesis using Some b by (simp add: verifyManaged_def evidenced_def)
    next
      case env: (Some envelope)
      have "verifyManaged c fl store digest ref key identity = Allowed p \<longleftrightarrow> HasPrefix digest ''sha256:'' \<and> length digest = 71 \<and>
          rr_ArtifactType ref = AttestationArtifactType \<and> VerifyManagedAttestation c fl envelope (Some key) identity digest = Inr p"
        unfolding verifyManaged_def by (simp add: Some b env split: sum.split) blast
      then show ?thesis unfolding attestation_iff evidenced_def using Some b env by auto
    qed
  next
    case False
    then have "length blobs \<noteq> 1 \<or> fst (hd blobs) \<noteq> DSSEEnvelopeMediaType" using single_blob [of blobs DSSEEnvelopeMediaType] by argo
    then have "verifyManaged c fl store digest ref key identity \<noteq> Allowed p" unfolding verifyManaged_def Some option.case by (simp only: if_True) simp
    moreover have "\<not> evidenced c fl store digest ref key identity p" using False Some unfolding evidenced_def by simp
    ultimately show ?thesis by blast
  qed
qed (auto simp: verifyManaged_def evidenced_def)


text \<open>What the builder signs is admitted: through the command line tool's attestation to the admission decision.\<close>

lemma signed_image_is_admitted:
  assumes "crypto_ok c" and "float_ok fl" and "ValidateManaged p digest = None" and "isSHA256Digest digest"
    and "SignStatement c (NewStatement name digest ManagedPredicateType (encodeManaged p)) key = Inr envelope"
    and "configured c fs stdin (cr_pub c key) (mp_BuilderIdentity p)"
    and "rr_ArtifactType ref = AttestationArtifactType" and "rs_manifest store (rr_Digest ref) = Some [(DSSEEnvelopeMediaType, blob)]"
    and "rs_blob store blob = Some envelope"
  shows "VerifyReference c fl fs stdin digest ref store = Allowed p"
proof -
  obtain cfg where cfg: "parsePluginConfig stdin = Inr cfg" "pluginKey c fs cfg = Inr (cr_pub c key)" "mp_BuilderIdentity p = pc_ExpectedBuilderIdentity cfg"
    using assms(6) unfolding parsePluginConfig_iff [symmetric] by blast
  have "VerifyManagedAttestation c fl envelope (Some (cr_pub c key)) (mp_BuilderIdentity p) digest = Inr p"
    by (rule signed_attestation_verifies [OF assms(1-5)])
  moreover have "HasPrefix digest ''sha256:''" "length digest = 71" using assms(4) by (auto simp: isSHA256Digest_def)
  ultimately show ?thesis using cfg assms(7-9) by (simp add: VerifyReference_def verifyManaged_def)
qed

end
