(* ===== verification/Flags.thy ===== *)
theory Flags
  imports Go_Base
begin

text \<open>
  The command line of \<open>brewlet\<close>: Go's package \<open>flag\<close> as the program uses it (\<open>FlagSet.Parse\<close> with \<open>ExitOnError\<close>, and string, bool,
  int and repeatable flags), and the functions of \<open>src/core/cmd/brewlet/main.go\<close> that read arguments. A flag set is a map from the declared names to their
  current values; an error of \<open>Parse\<close> ends the process. The loop \<open>parseInterspersed\<close> is a partial function, so that
  its termination is a theorem.
\<close>

section \<open>Package flag\<close>

datatype flag_value = VString string | VBool bool | VInt int | VSlice "string list"

type_synonym flagset = "string \<Rightarrow> flag_value option"

datatype flag_error =
    BadSyntax string
  | NotDefined string
  | HelpRequested
  | BadValue string string
  | NeedsArgument string

definition ParseBool :: "string \<Rightarrow> bool option" where
  "ParseBool s =
     (if s \<in> {''1'', ''t'', ''T'', ''true'', ''TRUE'', ''True''} then Some True
      else if s \<in> {''0'', ''f'', ''F'', ''false'', ''FALSE'', ''False''} then Some False else None)"

text \<open>\<open>strconv.ParseInt(s, 0, 64)\<close>: a prefix gives the base, and an underscore may stand between digits or after a prefix.\<close>

definition digitOf :: "char \<Rightarrow> nat option" where
  "digitOf c =
     (let n = (of_char c :: nat) in
      if 48 \<le> n \<and> n \<le> 57 then Some (n - 48) else if 97 \<le> n \<and> n \<le> 122 then Some (n - 87)
      else if 65 \<le> n \<and> n \<le> 90 then Some (n - 55) else None)"

fun digitsVal :: "nat \<Rightarrow> nat \<Rightarrow> string \<Rightarrow> nat option" where
  "digitsVal base acc [] = Some acc"
| "digitsVal base acc (c # cs) =
     (if c = CHR ''_'' then digitsVal base acc cs
      else (case digitOf c of None \<Rightarrow> None | Some d \<Rightarrow> if d < base then digitsVal base (acc * base + d) cs else None))"

fun underscoreOK :: "bool \<Rightarrow> string \<Rightarrow> bool" where
  "underscoreOK digit [] = True"
| "underscoreOK digit (c # cs) = (if c = CHR ''_'' then digit \<and> cs \<noteq> [] \<and> underscoreOK False cs else underscoreOK True cs)"

definition ParseUint0 :: "string \<Rightarrow> nat option" where
  "ParseUint0 s =
     (case s of [] \<Rightarrow> None
      | c # cs \<Rightarrow>
        if c = CHR ''0'' \<and> length s \<ge> 3 \<and> hd cs \<in> {CHR ''b'', CHR ''B'', CHR ''o'', CHR ''O'', CHR ''x'', CHR ''X''}
        then (if underscoreOK True (tl cs)
              then digitsVal (if hd cs \<in> {CHR ''b'', CHR ''B''} then 2 else if hd cs \<in> {CHR ''o'', CHR ''O''} then 8 else 16) 0 (tl cs) else None)
        else if underscoreOK False s then digitsVal (if c = CHR ''0'' then 8 else 10) 0 s else None)"

definition ParseInt0 :: "string \<Rightarrow> int option" where
  "ParseInt0 s =
     (let (neg, body) = (case s of [] \<Rightarrow> (False, s) | c # cs \<Rightarrow> if c = CHR ''-'' then (True, cs) else if c = CHR ''+'' then (False, cs) else (False, s))
      in case ParseUint0 body of None \<Rightarrow> None
         | Some n \<Rightarrow> (let i = (if neg then - int n else int n) in if in_int64 i then Some i else None))"

fun setValue :: "flag_value \<Rightarrow> string \<Rightarrow> flag_value option" where
  "setValue (VString _) s = Some (VString s)"
| "setValue (VBool _) s = map_option VBool (ParseBool s)"
| "setValue (VInt _) s = map_option VInt (ParseInt0 s)"
| "setValue (VSlice xs) s = Some (VSlice (xs @ [s]))"

definition isBoolFlag :: "flag_value \<Rightarrow> bool" where
  "isBoolFlag v = (case v of VBool _ \<Rightarrow> True | _ \<Rightarrow> False)"

definition assign :: "flagset \<Rightarrow> string \<Rightarrow> flag_value \<Rightarrow> string \<Rightarrow> string list \<Rightarrow> flag_error + bool \<times> flagset \<times> string list" where
  "assign fs name v s rest = (case setValue v s of None \<Rightarrow> Inl (BadValue name s) | Some v' \<Rightarrow> Inr (True, fs(name \<mapsto> v'), rest))"

text \<open>One step of \<open>Parse\<close>: whether a flag was seen, the values and the arguments left.\<close>

definition parseOne :: "flagset \<Rightarrow> string list \<Rightarrow> flag_error + bool \<times> flagset \<times> string list" where
  "parseOne fs args =
     (case args of [] \<Rightarrow> Inr (False, fs, [])
      | s # rest \<Rightarrow>
        if length s < 2 \<or> hd s \<noteq> CHR ''-'' then Inr (False, fs, args)
        else if s = ''--'' then Inr (False, fs, rest)
        else
          (let name = (if s ! 1 = CHR ''-'' then drop 2 s else drop 1 s) in
           if name = '''' \<or> hd name \<in> {CHR ''-'', CHR ''=''} then Inl (BadSyntax s)
           else
             (let (flag, given) = (case CutAt (CHR ''='') name of None \<Rightarrow> (name, None) | Some (n, v) \<Rightarrow> (n, Some v)) in
              case fs flag of
                None \<Rightarrow> Inl (if flag \<in> {''help'', ''h''} then HelpRequested else NotDefined flag)
              | Some v \<Rightarrow>
                  if isBoolFlag v then assign fs flag v (case given of None \<Rightarrow> ''true'' | Some x \<Rightarrow> x) rest
                  else (case given of Some x \<Rightarrow> assign fs flag v x rest
                        | None \<Rightarrow> (case rest of [] \<Rightarrow> Inl (NeedsArgument flag) | x # rest' \<Rightarrow> assign fs flag v x rest')))))"

lemma assign_Inr: "assign fs n v s rest = Inr (seen, fs', args) \<Longrightarrow> args = rest"
  by (auto simp: assign_def split: option.splits)

lemma parseOne_length: "parseOne fs args = Inr (seen, fs', args') \<Longrightarrow> length args' \<le> length args \<and> (seen \<longrightarrow> length args' < length args)"
  by (auto simp: parseOne_def Let_def split: list.splits option.splits if_splits dest!: assign_Inr)

function Parse :: "flagset \<Rightarrow> string list \<Rightarrow> flag_error + flagset \<times> string list" where
  "Parse fs args =
     (case parseOne fs args of Inl e \<Rightarrow> Inl e | Inr (seen, fs', args') \<Rightarrow> if seen then Parse fs' args' else Inr (fs', args'))"
  by pat_completeness auto

termination
  by (relation "measure (\<lambda>(fs, args). length args)") (auto dest: parseOne_length)

declare Parse.simps [simp del]

lemma Parse_length: "Parse fs args = Inr (fs', args') \<Longrightarrow> length args' \<le> length args"
proof (induction fs args rule: Parse.induct)
  case (1 fs args)
  then show ?case using parseOne_length [of fs args] by (subst (asm) (2) Parse.simps) (fastforce split: sum.splits prod.splits if_splits)
qed

section \<open>The arguments of a command\<close>

fun splitDoubleDash :: "string list \<Rightarrow> string list \<times> string list" where
  "splitDoubleDash [] = ([], [])"
| "splitDoubleDash (a # args) =
     (if a = ''--'' then ([], args) else (case splitDoubleDash args of (headArgs, tailArgs) \<Rightarrow> (a # headArgs, tailArgs)))"

partial_function (option) parseInterspersed ::
  "flagset \<Rightarrow> string list \<Rightarrow> string list \<Rightarrow> (flag_error + flagset \<times> string list) option" where
  "parseInterspersed fs positional args =
     (if args = [] then Some (Inr (fs, positional))
      else
        (case Parse fs args of Inl e \<Rightarrow> Some (Inl e)
         | Inr (fs', rest) \<Rightarrow>
             if rest = [] then Some (Inr (fs', positional))
             else parseInterspersed fs' (positional @ [hd rest]) (tl rest)))"

lemmas parseInterspersed_simps = parseInterspersed.simps

lemma interspersed_total: "\<exists>result. parseInterspersed fs positional args = Some result"
proof (induction "length args" arbitrary: fs positional args rule: less_induct)
  case less
  show ?case
  proof (cases "args = [] \<or> (\<exists>e. Parse fs args = Inl e) \<or> (\<exists>fs'. Parse fs args = Inr (fs', []))")
    case True
    then show ?thesis by (subst parseInterspersed.simps) auto
  next
    case False
    then obtain fs' a rest where p: "Parse fs args = Inr (fs', a # rest)" "args \<noteq> []"
      by (cases "Parse fs args") (auto simp: neq_Nil_conv)
    then have "length rest < length args" using Parse_length [OF p(1)] by simp
    then show ?thesis using less [of rest fs' "positional @ [a]"] p by (subst parseInterspersed.simps) simp
  qed
qed

text \<open>C40: The loop that lets flags stand before and after positional arguments always ends, whatever the arguments and the declared flags:
  with a flag error, or with the positional arguments and the flag values.\<close>

theorem parseInterspersed_terminates: "\<exists>result. parseInterspersed fs positional args = Some result"
  by (rule interspersed_total)

section \<open>Flags among positional arguments\<close>

text \<open>A command line by intent: positional arguments, switches, and flags with a value in the next argument or after an equals sign.\<close>

datatype arg_item = Positional string | Switch string | Given string string bool

fun argsOf :: "arg_item \<Rightarrow> string list" where
  "argsOf (Positional s) = [s]"
| "argsOf (Switch n) = [''--'' @ n]"
| "argsOf (Given n v joined) = (if joined then [''--'' @ n @ ''='' @ v] else [''--'' @ n, v])"

definition plainFlag :: "string \<Rightarrow> bool" where
  "plainFlag n \<longleftrightarrow> n \<noteq> '''' \<and> hd n \<noteq> CHR ''-'' \<and> CHR ''='' \<notin> set n"

fun applyItem :: "arg_item \<Rightarrow> flagset \<Rightarrow> flagset" where
  "applyItem (Positional s) fs = fs"
| "applyItem (Switch n) fs = fs(n \<mapsto> VBool True)"
| "applyItem (Given n v joined) fs = fs(n := Option.bind (fs n) (\<lambda>old. setValue old v))"

text \<open>Whether an argument is accepted depends on the kinds of the declared flags only.\<close>

fun accepted :: "flagset \<Rightarrow> arg_item \<Rightarrow> bool" where
  "accepted fs (Positional s) \<longleftrightarrow> length s < 2 \<or> hd s \<noteq> CHR ''-''"
| "accepted fs (Switch n) \<longleftrightarrow> plainFlag n \<and> (\<exists>b. fs n = Some (VBool b))"
| "accepted fs (Given n v joined) \<longleftrightarrow> plainFlag n \<and> (\<exists>old. fs n = Some old \<and> setValue old v \<noteq> None \<and> (joined \<or> \<not> isBoolFlag old))"

fun isPositional :: "arg_item \<Rightarrow> bool" where
  "isPositional (Positional s) = True"
| "isPositional _ = False"

fun positionalOf :: "arg_item \<Rightarrow> string list" where
  "positionalOf (Positional s) = [s]"
| "positionalOf _ = []"

lemma setValue_kind: "setValue old s = Some new \<Longrightarrow> (setValue new v = None \<longleftrightarrow> setValue old v = None) \<and> isBoolFlag new = isBoolFlag old"
  by (cases old) (auto simp: isBoolFlag_def)

lemma accepted_applyItem: "accepted fs i \<Longrightarrow> accepted fs j \<Longrightarrow> accepted (applyItem i fs) j"
proof (cases i)
  case (Given n v joined)
  assume a: "accepted fs i" "accepted fs j"
  then obtain old new where n: "fs n = Some old" "setValue old v = Some new" using Given by auto
  have k: "isBoolFlag new = isBoolFlag old" "\<And>w. setValue new w = None \<longleftrightarrow> setValue old w = None" using setValue_kind [OF n(2)] by simp_all
  show ?thesis
  proof (cases j)
    case (Switch m)
    then obtain b where "fs m = Some (VBool b)" "plainFlag m" using a by auto
    then show ?thesis using Given Switch n k(1) by (cases new) (auto simp: isBoolFlag_def)
  next
    case (Given m w jd)
    then show ?thesis using a \<open>i = Given n v joined\<close> n k(1) k(2) [of w] by (cases "m = n") auto
  qed (use a in auto)
next
  case (Switch n)
  assume a: "accepted fs i" "accepted fs j"
  then show ?thesis using Switch by (cases j) (auto simp: isBoolFlag_def split: if_splits)
qed simp

lemma ex_bool_eq: "(\<exists>b. P b) \<longleftrightarrow> P True \<or> P False"
  by (metis (full_types))

lemma parseOne_flag:
  assumes "accepted fs i" and "\<not> isPositional i"
  shows "parseOne fs (argsOf i @ rest) = Inr (True, applyItem i fs, rest)"
proof (cases i)
  case (Switch n)
  then have "plainFlag n" "\<exists>b. fs n = Some (VBool b)" using assms by auto
  then show ?thesis using Switch
    by (cases n) (auto simp: parseOne_def plainFlag_def CutAt_None [THEN iffD2] assign_def isBoolFlag_def ParseBool_def)
next
  case (Given n v joined)
  then obtain old new where n: "plainFlag n" "fs n = Some old" "setValue old v = Some new" "joined \<or> \<not> isBoolFlag old" using assms by auto
  obtain c cs where c: "n = c # cs" "c \<noteq> CHR ''-''" "c \<noteq> CHR ''=''" "CHR ''='' \<notin> set n" using n(1) by (cases n) (auto simp: plainFlag_def)
  have upd: "applyItem i fs = fs(n \<mapsto> new)" using Given n by simp
  show ?thesis
  proof (cases joined)
    case True
    have "CutAt (CHR ''='') (n @ ''='' @ v) = Some (n, v)" using CutAt_append [OF c(4)] by simp
    then show ?thesis unfolding upd using Given True n c by (simp add: parseOne_def assign_def)
  next
    case False
    have "CutAt (CHR ''='') n = None" using c(4) by (simp add: CutAt_None)
    then show ?thesis unfolding upd using Given False n c by (simp add: parseOne_def assign_def)
  qed
qed (use assms in simp)

lemma Parse_flag:
  "accepted fs i \<Longrightarrow> \<not> isPositional i \<Longrightarrow> Parse fs (argsOf i @ rest) = Parse (applyItem i fs) rest"
  by (subst Parse.simps) (simp add: parseOne_flag)

lemma Parse_positional: "accepted fs (Positional s) \<Longrightarrow> Parse fs (s # rest) = Inr (fs, s # rest)"
  by (subst Parse.simps) (simp add: parseOne_def)

lemma Parse_Nil: "Parse fs [] = Inr (fs, [])"
  by (subst Parse.simps) (simp add: parseOne_def)

lemma interspersed_flag:
  assumes "accepted fs i" and "\<not> isPositional i"
  shows "parseInterspersed fs pos (argsOf i @ rest) = parseInterspersed (applyItem i fs) pos rest"
proof -
  have "argsOf i \<noteq> []" by (cases i) auto
  then show ?thesis unfolding parseInterspersed.simps [of fs pos "argsOf i @ rest"] Parse_flag [OF assms]
    by (subst (2) parseInterspersed.simps) (auto simp: Parse_Nil)
qed

lemma interspersed_positional:
  "accepted fs (Positional s) \<Longrightarrow> parseInterspersed fs pos (s # rest) = parseInterspersed fs (pos @ [s]) rest"
  by (subst parseInterspersed.simps) (simp add: Parse_positional)

lemma interspersed_items:
  "list_all (accepted fs) items \<Longrightarrow>
   parseInterspersed fs pos (concat (map argsOf items)) = Some (Inr (fold applyItem items fs, pos @ concat (map positionalOf items)))"
proof (induction items arbitrary: fs pos)
  case Nil
  then show ?case by (subst parseInterspersed.simps) simp
next
  case (Cons i items)
  have a: "accepted fs i" "list_all (accepted (applyItem i fs)) items" using Cons.prems accepted_applyItem by (auto simp: list_all_iff)
  show ?case
  proof (cases "isPositional i")
    case True
    then obtain s where "i = Positional s" by (cases i) auto
    then show ?thesis using Cons.IH [OF a(2)] interspersed_positional [of fs s] a(1) by simp
  next
    case False
    then have "positionalOf i = []" by (cases i) auto
    then show ?thesis using Cons.IH [OF a(2)] interspersed_flag [OF a(1) False] by simp
  qed
qed

lemma fold_applyItem_positional: "fold applyItem items fs = fold applyItem (filter (\<lambda>i. \<not> isPositional i) items) fs"
proof (induction items arbitrary: fs)
  case (Cons i items)
  then show ?case by (cases i) (simp_all add: fun_upd_def)
qed simp

lemma positionalOf_filter: "concat (map positionalOf items) = concat (map positionalOf (filter isPositional items))"
proof (induction items)
  case (Cons i items)
  then show ?case by (cases i) auto
qed simp

text \<open>Flags may stand anywhere: a command line of accepted flags and positional arguments in any order is read as the one
  with all flags first, in the same order, and the positional arguments after them; and that reading gives the values the flags assign and exactly
  the positional arguments.\<close>

theorem flags_anywhere:
  assumes "list_all (accepted fs) items"
  shows "parseInterspersed fs [] (concat (map argsOf items)) =
      parseInterspersed fs [] (concat (map argsOf (filter (\<lambda>i. \<not> isPositional i) items @ filter isPositional items))) \<and>
    parseInterspersed fs [] (concat (map argsOf items)) = Some (Inr (fold applyItem items fs, concat (map positionalOf items)))"
proof -
  let ?sorted = "filter (\<lambda>i. \<not> isPositional i) items @ filter isPositional items"
  have "list_all (accepted fs) ?sorted" using assms by (auto simp: list_all_iff)
  moreover have "fold applyItem ?sorted fs = fold applyItem items fs"
    using fold_applyItem_positional [of ?sorted fs] fold_applyItem_positional [of items fs] by simp
  moreover have "concat (map positionalOf ?sorted) = concat (map positionalOf items)"
    using positionalOf_filter [of ?sorted] positionalOf_filter [of items] by simp
  ultimately show ?thesis using interspersed_items [OF assms, of "[]"] interspersed_items [of fs ?sorted "[]"] by simp
qed

definition sampleFlags :: flagset where
  "sampleFlags = [''store'' \<mapsto> VString ''./oci'', ''no-arch'' \<mapsto> VBool False, ''appcds-timeout'' \<mapsto> VInt 120, ''classpath-layer'' \<mapsto> VSlice []]"

definition sampleItems :: "arg_item list" where
  "sampleItems = [Positional ''app.jar'', Given ''classpath-layer'' ''a.tar'' False, Switch ''no-arch'', Positional ''demo:1'', Given ''classpath-layer'' ''b.tar'' True]"

theorem flags_anywhere_witness:
  "list_all (accepted sampleFlags) sampleItems \<and>
   map_option (map_sum id (\<lambda>(fs, pos). (fs ''classpath-layer'', fs ''no-arch'', fs ''store'', pos)))
     (parseInterspersed sampleFlags [] [''app.jar'', ''--classpath-layer'', ''a.tar'', ''--no-arch'', ''demo:1'', ''--classpath-layer=b.tar'']) =
   Some (Inr (Some (VSlice [''a.tar'', ''b.tar'']), Some (VBool True), Some (VString ''./oci''), [''app.jar'', ''demo:1'']))"
proof -
  have ok: "list_all (accepted sampleFlags) sampleItems" by (simp add: sampleItems_def sampleFlags_def plainFlag_def isBoolFlag_def ex_bool_eq)
  have args: "concat (map argsOf sampleItems) = [''app.jar'', ''--classpath-layer'', ''a.tar'', ''--no-arch'', ''demo:1'', ''--classpath-layer=b.tar'']"
    by (simp add: sampleItems_def)
  show ?thesis unfolding args [symmetric] conjunct2 [OF flags_anywhere [OF ok]]
    by (intro conjI ok) (simp add: sampleItems_def sampleFlags_def)
qed

lemma splitDoubleDash_split: "''--'' \<notin> set a \<Longrightarrow> splitDoubleDash (a @ ''--'' # b) = (a, b)"
  by (induction a) auto

end
