(* ===== verification/Jar_Inspect.thy ===== *)
theory Jar_Inspect
  imports Json Go_IO "HOL-Library.Word"
begin

text \<open>
  What the command line tool reads out of a JAR (\<open>src/core/internal/artifact/jarmodule.go\<close>, \<open>jarnative.go\<close>, \<open>jarshape.go\<close>): the
  module name and main class of a modular JAR, from the bytes of its \<open>module-info.class\<close>, the architectures of bundled
  native libraries, and whether it embeds other JARs. The zip reader is a parameter: a path gives the entries of the
  archive, or nothing if it cannot be opened. A reader of a class file is the bytes that are left; the
  16-bit counts and indices of the format are words. Names are lower-cased by their ASCII letters only.
\<close>

section \<open>Reading a class file\<close>

datatype class_error =
    UnexpectedEOF
  | NotAClassFile
  | UnsupportedTag "8 word"
  | IndexPanic
  | NoModuleName

type_synonym 'a reader = "bytes \<Rightarrow> class_error + ('a \<times> bytes)"

definition retR :: "'a \<Rightarrow> 'a reader" where
  "retR a r = Inr (a, r)"

definition failR :: "class_error \<Rightarrow> 'a reader" where
  "failR e r = Inl e"

definition bindR :: "'a reader \<Rightarrow> ('a \<Rightarrow> 'b reader) \<Rightarrow> 'b reader" where
  "bindR m f r = (case m r of Inl e \<Rightarrow> Inl e | Inr (a, r') \<Rightarrow> f a r')"

definition readBytes :: "nat \<Rightarrow> bytes reader" where
  "readBytes n r = (if n > length r then Inl UnexpectedEOF else Inr (take n r, drop n r))"

text \<open>\<open>binary.BigEndian\<close>.\<close>

definition bigEndian :: "bytes \<Rightarrow> nat" where
  "bigEndian s = foldl (\<lambda>n c. 256 * n + of_char c) 0 s"

definition u1 :: "8 word reader" where
  "u1 = bindR (readBytes 1) (\<lambda>s. retR (word_of_nat (bigEndian s)))"

definition u2 :: "16 word reader" where
  "u2 = bindR (readBytes 2) (\<lambda>s. retR (word_of_nat (bigEndian s)))"

definition u4 :: "32 word reader" where
  "u4 = bindR (readBytes 4) (\<lambda>s. retR (word_of_nat (bigEndian s)))"

record classConst =
  cc_tag :: "8 word"
  cc_utf8 :: string
  cc_nameIndex :: "16 word"

record ModuleInfo =
  mi_Name :: string
  mi_MainClass :: string

definition noConst :: classConst where
  "noConst = \<lparr>cc_tag = 0, cc_utf8 = '''', cc_nameIndex = 0\<rparr>"

text \<open>One entry of the constant pool.\<close>

definition afterTag :: "8 word \<Rightarrow> classConst reader" where
  "afterTag tag =
     (if tag = 1 then
       bindR u2 (\<lambda>n. bindR (readBytes (unat n)) (\<lambda>s. retR (noConst\<lparr>cc_tag := tag, cc_utf8 := s\<rparr>)))
     else if tag \<in> {7, 8, 16, 19, 20} then
       bindR u2 (\<lambda>idx. retR (noConst\<lparr>cc_tag := tag, cc_nameIndex := idx\<rparr>))
     else if tag = 15 then
       bindR (readBytes 3) (\<lambda>_. retR (noConst\<lparr>cc_tag := tag\<rparr>))
     else if tag \<in> {3, 4, 9, 10, 11, 12, 17, 18} then
       bindR (readBytes 4) (\<lambda>_. retR (noConst\<lparr>cc_tag := tag\<rparr>))
     else if tag \<in> {5, 6} then
       bindR (readBytes 8) (\<lambda>_. retR (noConst\<lparr>cc_tag := tag\<rparr>))
     else failR (UnsupportedTag tag))"

definition readConst :: "classConst reader" where
  "readConst = bindR u1 afterTag"

lemma readBytes_length: "readBytes n r = Inr (s, r') \<Longrightarrow> length r = n + length r' \<and> r = s @ r' \<and> length s = n"
  by (auto simp: readBytes_def split: if_splits)

lemma bindR_Inr: "bindR m f r = Inr (b, r'') \<longleftrightarrow> (\<exists>a r'. m r = Inr (a, r') \<and> f a r' = Inr (b, r''))"
  by (auto simp: bindR_def split: sum.split)

lemma readConst_shorter: "readConst r = Inr (c, r') \<Longrightarrow> length r' < length r"
  by (auto simp: readConst_def afterTag_def bindR_Inr u1_def u2_def retR_def failR_def split: if_splits dest!: readBytes_length)

text \<open>The loop over the pool. A long or a double takes two indices and is stored at the second, and the index is not checked
  before the slice is written: past its end the program panics. Every round consumes input.\<close>

function readConsts :: "16 word \<Rightarrow> 16 word \<Rightarrow> classConst list \<Rightarrow> classConst list reader" where
  "readConsts i cpCount pool r =
     (if i < cpCount then
        (case readConst r of Inl e \<Rightarrow> Inl e
         | Inr (c, r') \<Rightarrow>
             (let j = (if cc_tag c \<in> {5, 6} then i + 1 else i) in
              if unat j < length pool then readConsts (j + 1) cpCount (pool[unat j := c]) r' else Inl IndexPanic))
      else Inr (pool, r))"
  by pat_completeness auto

termination
  by (relation "measure (\<lambda>(i, n, cs, r). length r)") (auto dest: readConst_shorter)

declare readConsts.simps [simp del]

fun skipAttributes :: "nat \<Rightarrow> unit reader" where
  "skipAttributes 0 = retR ()"
| "skipAttributes (Suc n) =
     bindR (readBytes 2) (\<lambda>_. bindR u4 (\<lambda>len. bindR (readBytes (unat len)) (\<lambda>_. skipAttributes n)))"

definition skipMember :: "unit reader" where
  "skipMember = bindR (readBytes 6) (\<lambda>_. bindR u2 (\<lambda>attrs. skipAttributes (unat attrs)))"

fun skipMembers :: "nat \<Rightarrow> unit reader" where
  "skipMembers 0 = retR ()"
| "skipMembers (Suc n) = bindR skipMember (\<lambda>_. skipMembers n)"

definition utf8At :: "classConst list \<Rightarrow> 16 word \<Rightarrow> string" where
  "utf8At pool idx = (if unat idx < length pool then cc_utf8 (pool ! unat idx) else '''')"

definition nameOf :: "classConst list \<Rightarrow> 16 word \<Rightarrow> string" where
  "nameOf pool idx = (if unat idx < length pool then utf8At pool (cc_nameIndex (pool ! unat idx)) else '''')"

definition applyAttribute :: "classConst list \<Rightarrow> string \<Rightarrow> bytes \<Rightarrow> ModuleInfo \<Rightarrow> ModuleInfo" where
  "applyAttribute pool name body mi =
     (if name = ''Module'' then
        (if length body \<ge> 2 then mi\<lparr>mi_Name := nameOf pool (word_of_nat (bigEndian (take 2 body)))\<rparr> else mi)
      else if name = ''ModuleMainClass'' then
        (if length body \<ge> 2
         then mi\<lparr>mi_MainClass := map (\<lambda>c. if c = slash then CHR ''.'' else c) (nameOf pool (word_of_nat (bigEndian (take 2 body))))\<rparr>
         else mi)
      else mi)"

fun readAttributes :: "nat \<Rightarrow> classConst list \<Rightarrow> ModuleInfo \<Rightarrow> ModuleInfo reader" where
  "readAttributes 0 pool mi = retR mi"
| "readAttributes (Suc n) pool mi =
     bindR u2 (\<lambda>nameIdx. bindR u4 (\<lambda>len. bindR (readBytes (unat len)) (\<lambda>body.
     readAttributes n pool (applyAttribute pool (utf8At pool nameIdx) body mi))))"

definition parseBody :: "classConst list \<Rightarrow> ModuleInfo reader" where
  "parseBody pool =
     bindR (readBytes 6) (\<lambda>_.
     bindR u2 (\<lambda>ifaces. bindR (readBytes (unat ifaces * 2)) (\<lambda>_.
     bindR u2 (\<lambda>fields. bindR (skipMembers (unat fields)) (\<lambda>_.
     bindR u2 (\<lambda>methods. bindR (skipMembers (unat methods)) (\<lambda>_.
     bindR u2 (\<lambda>attrCount. readAttributes (unat attrCount) pool \<lparr>mi_Name = '''', mi_MainClass = ''''\<rparr>))))))))"

definition parseModuleInfo :: "bytes \<Rightarrow> class_error + ModuleInfo" where
  "parseModuleInfo b =
     (case u4 b of Inl e \<Rightarrow> Inl NotAClassFile
      | Inr (magic, r) \<Rightarrow>
          if magic \<noteq> 0xCAFEBABE then Inl NotAClassFile
          else
            (case bindR u2 (\<lambda>minor. bindR u2 (\<lambda>major. bindR u2 (\<lambda>cpCount.
                  bindR (readConsts 1 cpCount (replicate (unat cpCount) noConst)) parseBody))) r of
               Inl e \<Rightarrow> Inl e
             | Inr (mi, _) \<Rightarrow> if mi_Name mi = '''' then Inl NoModuleName else Inr mi))"

section \<open>JARs\<close>

text \<open>An entry of an archive; \<open>ze_Content\<close> is what reading it gives, if it can be opened and read.\<close>

record zip_entry =
  ze_Name :: string
  ze_IsDir :: bool
  ze_Content :: "bytes option"

type_synonym zip_reader = "string \<Rightarrow> zip_entry list option"

datatype jar_error =
    JarUnreadable string
  | EntryUnreadable
  | BadModuleInfo string class_error
  | NotThin string

definition InspectModuleJar :: "zip_reader \<Rightarrow> string \<Rightarrow> jar_error + ModuleInfo option" where
  "InspectModuleJar zr jarPath =
     (case zr jarPath of None \<Rightarrow> Inl (JarUnreadable jarPath)
      | Some files \<Rightarrow>
        (case find (\<lambda>f. ze_Name f = ''module-info.class'') files of None \<Rightarrow> Inr None
         | Some f \<Rightarrow>
           (case ze_Content f of None \<Rightarrow> Inl EntryUnreadable
            | Some dat \<Rightarrow>
              (case parseModuleInfo dat of Inl e \<Rightarrow> Inl (BadModuleInfo jarPath e) | Inr mi \<Rightarrow> Inr (Some mi)))))"

definition ToLower :: "string \<Rightarrow> string" where
  "ToLower s = map lowerChar s"

definition nativeLibSuffixes :: "string list" where
  "nativeLibSuffixes = [''.so'', ''.dll'', ''.dylib'', ''.jnilib'']"

definition archTokens :: "(string \<times> string list) list" where
  "archTokens = [(''amd64'', [''x86_64'', ''x86-64'', ''amd64'', ''x64'']), (''arm64'', [''aarch64'', ''aarch_64'', ''arm64''])]"

definition isNativeLib :: "string \<Rightarrow> bool" where
  "isNativeLib name = list_ex (HasSuffix (ToLower name)) nativeLibSuffixes"

text \<open>The map of tokens is ranged over in any order and the result sorted; the list is in order.\<close>

definition archOf :: "string \<Rightarrow> string list" where
  "archOf name = sort (map fst (filter (\<lambda>(_, tokens). list_ex (Contains (ToLower name)) tokens) archTokens))"

record NativeArchScan =
  ns_Arches :: "string list"
  ns_NativeLibs :: nat
  ns_Unrecognized :: "string list"

fun scanEntries :: "zip_entry list \<Rightarrow> NativeArchScan \<Rightarrow> NativeArchScan" where
  "scanEntries [] scan = scan"
| "scanEntries (f # rest) scan =
     (if ze_IsDir f \<or> \<not> isNativeLib (ze_Name f) then scanEntries rest scan
      else
        (let counted = scan\<lparr>ns_NativeLibs := ns_NativeLibs scan + 1\<rparr>; arches = archOf (ze_Name f) in
         if arches = [] then scanEntries rest (counted\<lparr>ns_Unrecognized := ns_Unrecognized scan @ [ze_Name f]\<rparr>)
         else scanEntries rest (counted\<lparr>ns_Arches := remdups (ns_Arches scan @ arches)\<rparr>)))"

definition ScanNativeArch :: "zip_reader \<Rightarrow> string \<Rightarrow> jar_error + NativeArchScan" where
  "ScanNativeArch zr jarPath =
     (case zr jarPath of None \<Rightarrow> Inl (JarUnreadable jarPath)
      | Some files \<Rightarrow>
          let scan = scanEntries files \<lparr>ns_Arches = [], ns_NativeLibs = 0, ns_Unrecognized = []\<rparr>
          in Inr (scan\<lparr>ns_Arches := sort (ns_Arches scan)\<rparr>))"

definition ValidateThinJar :: "zip_reader \<Rightarrow> string \<Rightarrow> jar_error option" where
  "ValidateThinJar zr path =
     (case zr path of None \<Rightarrow> Some (JarUnreadable path)
      | Some files \<Rightarrow>
        (case find (\<lambda>entry. \<not> ze_IsDir entry \<and> HasSuffix (ToLower (ze_Name entry)) ''.jar'') files of
           None \<Rightarrow> None | Some entry \<Rightarrow> Some (NotThin (ze_Name entry))))"

section \<open>The format\<close>

text \<open>The class file format as a specification: what a file with these parts looks like, byte by byte.\<close>

fun putBig :: "nat \<Rightarrow> nat \<Rightarrow> bytes" where
  "putBig 0 n = []"
| "putBig (Suc k) n = putBig k (n div 256) @ [char_of n]"

lemma length_putBig [simp]: "length (putBig k n) = k"
  by (induction k arbitrary: n) simp_all

lemma bigEndian_snoc: "bigEndian (s @ [c]) = 256 * bigEndian s + of_char c"
  by (simp add: bigEndian_def)

lemma bigEndian_putBig: "bigEndian (putBig k n) = n mod 256 ^ k"
proof (induction k arbitrary: n)
  case (Suc k)
  have "bigEndian (putBig (Suc k) n) = 256 * (n div 256 mod 256 ^ k) + n mod 256" using Suc by (simp add: bigEndian_snoc)
  also have "\<dots> = n mod (256 * 256 ^ k)" by (simp add: mod_mult2_eq)
  finally show ?case by simp
qed (simp add: bigEndian_def)

lemma bigEndian_less: "bigEndian s < 256 ^ length s"
proof (induction s rule: rev_induct)
  case (snoc c s)
  have "(of_char c :: nat) < 256" by simp
  then have "256 * bigEndian s + of_char c < 256 * (bigEndian s + 1)" by simp
  also have "\<dots> \<le> 256 * 256 ^ length s" using snoc by (intro mult_le_mono2) simp
  finally have "256 * bigEndian s + of_char c < 256 * 256 ^ length s" .
  then show ?case by (simp add: bigEndian_snoc)
qed (simp add: bigEndian_def)

lemma putBig_bigEndian: "putBig (length s) (bigEndian s) = s"
proof (induction s rule: rev_induct)
  case (snoc c s)
  have "(256 * bigEndian s + of_char c) div 256 = bigEndian s" by simp
  moreover have "char_of (256 * bigEndian s + of_char c) = c"
    using char_of_mod_256 [of "256 * bigEndian s + of_char c"] by simp
  ultimately show ?case using snoc by (simp add: bigEndian_snoc)
qed simp

declare putBig.simps [simp del]

lemma readBytes_iff: "readBytes n r = Inr (s, r') \<longleftrightarrow> r = s @ r' \<and> length s = n"
  by (auto simp: readBytes_def split: if_splits)

lemma retR_iff: "retR a r = Inr (b, r') \<longleftrightarrow> b = a \<and> r' = r" "retR a r \<noteq> Inl e"
  by (auto simp: retR_def)

lemma read_word:
  assumes w: "LENGTH('a::len) = 8 * k"
  shows "bindR (readBytes k) (\<lambda>s. retR (word_of_nat (bigEndian s) :: 'a word)) r = Inr (w, r') \<longleftrightarrow> r = putBig k (unat w) @ r'"
proof -
  have p: "2 ^ LENGTH('a) = (256 :: nat) ^ k" unfolding w by (simp add: power_mult)
  have u: "unat (word_of_nat (bigEndian s) :: 'a word) = bigEndian s" if "length s = k" for s
    using bigEndian_less [of s] that p by (simp add: unat_of_nat)
  have v: "word_of_nat (bigEndian (putBig k (unat x))) = x" for x :: "'a word"
  proof -
    have "unat x < 2 ^ LENGTH('a)" by (rule unsigned_less)
    then show ?thesis unfolding p by (simp add: bigEndian_putBig)
  qed
  show ?thesis
    unfolding bindR_Inr readBytes_iff retR_iff using u v putBig_bigEndian by (metis length_putBig)
qed

lemma u_iff:
  "u1 r = Inr (a, r') \<longleftrightarrow> r = putBig 1 (unat a) @ r'"
  "u2 r = Inr (b, r') \<longleftrightarrow> r = putBig 2 (unat b) @ r'"
  "u4 r = Inr (c, r') \<longleftrightarrow> r = putBig 4 (unat c) @ r'"
  unfolding u1_def u2_def u4_def by (rule read_word; simp)+

lemma read_put [simp]:
  "u1 (putBig 1 (unat a) @ r) = Inr (a, r)" "u2 (putBig 2 (unat b) @ r) = Inr (b, r)" "u4 (putBig 4 (unat c) @ r) = Inr (c, r)"
  by (simp_all add: u_iff)

lemma read_put_length [simp]:
  "n < 2 ^ 16 \<Longrightarrow> u2 (putBig 2 n @ r) = Inr (word_of_nat n, r)" "n < 2 ^ 32 \<Longrightarrow> u4 (putBig 4 n @ r) = Inr (word_of_nat n, r)"
  using read_put(2) [of "word_of_nat n"] read_put(3) [of "word_of_nat n"] by (simp_all add: unat_of_nat)

lemma readBytes_append [simp]: "length s = n \<Longrightarrow> readBytes n (s @ r) = Inr (s, r)"
  by (simp add: readBytes_iff)

datatype cp_entry = CpUtf8 string | CpName "8 word" "16 word" | CpOther "8 word" bytes

fun entry_ok :: "cp_entry \<Rightarrow> bool" where
  "entry_ok (CpUtf8 s) = (length s < 2 ^ 16)"
| "entry_ok (CpName t i) = (t \<in> {7, 8, 16, 19, 20})"
| "entry_ok (CpOther t bs) =
     (t = 15 \<and> length bs = 3 \<or> t \<in> {3, 4, 9, 10, 11, 12, 17, 18} \<and> length bs = 4 \<or> t \<in> {5, 6} \<and> length bs = 8)"

fun encodeConst :: "cp_entry \<Rightarrow> bytes" where
  "encodeConst (CpUtf8 s) = putBig 1 1 @ putBig 2 (length s) @ s"
| "encodeConst (CpName t i) = putBig 1 (unat t) @ putBig 2 (unat i)"
| "encodeConst (CpOther t bs) = putBig 1 (unat t) @ bs"

fun constOf :: "cp_entry \<Rightarrow> classConst" where
  "constOf (CpUtf8 s) = noConst\<lparr>cc_tag := 1, cc_utf8 := s\<rparr>"
| "constOf (CpName t i) = noConst\<lparr>cc_tag := t, cc_nameIndex := i\<rparr>"
| "constOf (CpOther t bs) = noConst\<lparr>cc_tag := t\<rparr>"

definition wide :: "cp_entry \<Rightarrow> bool" where
  "wide e \<longleftrightarrow> cc_tag (constOf e) \<in> {5, 6}"

lemma readConst_tag: "readConst (putBig 1 (unat t) @ r) = afterTag t r"
  using read_put(1) [of t r] by (simp add: readConst_def bindR_def)

lemmas readConst_tag_Suc = readConst_tag [unfolded One_nat_def]

lemma read_sized: "length s < 2 ^ 16 \<Longrightarrow> bindR u2 (\<lambda>n. bindR (readBytes (unat n)) f) (putBig 2 (length s) @ s @ r) = f s r"
  by (simp add: bindR_def unat_of_nat)

lemma readConst_complete: "entry_ok e \<Longrightarrow> readConst (encodeConst e @ r) = Inr (constOf e, r)"
proof (cases e)
  case (CpUtf8 s)
  assume "entry_ok e"
  then have l: "length s < 2 ^ 16" unfolding CpUtf8 by simp
  have "readConst (putBig 1 (unat (1 :: 8 word)) @ putBig 2 (length s) @ s @ r) = Inr (constOf e, r)"
    unfolding readConst_tag afterTag_def CpUtf8 by (simp only: if_True simp_thms read_sized [OF l] retR_def constOf.simps)
  then show ?thesis unfolding CpUtf8 by simp
next
  case (CpName t i)
  assume "entry_ok e"
  then have "afterTag t = bindR u2 (\<lambda>idx. retR (noConst\<lparr>cc_tag := t, cc_nameIndex := idx\<rparr>))" unfolding CpName by (auto simp: afterTag_def)
  then show ?thesis unfolding CpName by (simp add: readConst_tag_Suc bindR_def retR_def)
next
  case (CpOther t bs)
  assume "entry_ok e"
  then have "afterTag t = bindR (readBytes (length bs)) (\<lambda>_. retR (noConst\<lparr>cc_tag := t\<rparr>))" unfolding CpOther by (auto simp: afterTag_def)
  then show ?thesis unfolding CpOther by (simp add: readConst_tag_Suc bindR_def retR_def)
qed

lemma readConst_sound:
  assumes "readConst r = Inr (c, r')" shows "\<exists>e. entry_ok e \<and> r = encodeConst e @ r' \<and> c = constOf e"
proof -
  obtain tag r1 where t: "r = putBig 1 (unat tag) @ r1" and k: "afterTag tag r1 = Inr (c, r')"
    using assms unfolding readConst_def bindR_Inr u_iff(1) by blast
  have other: "\<exists>e. entry_ok e \<and> r = encodeConst e @ r' \<and> c = constOf e"
    if "bindR (readBytes n) (\<lambda>_. retR (noConst\<lparr>cc_tag := tag\<rparr>)) r1 = Inr (c, r')" and "\<And>bs. length bs = n \<Longrightarrow> entry_ok (CpOther tag bs)" for n
  proof -
    note h = that
    obtain bs where "r1 = bs @ r'" "length bs = n" "c = noConst\<lparr>cc_tag := tag\<rparr>"
      using h(1) unfolding bindR_Inr readBytes_iff retR_iff by auto
    then show ?thesis using t h(2) by (intro exI [of _ "CpOther tag bs"]) simp
  qed
  have d: "tag = 1 \<or> tag \<in> {7, 8, 16, 19, 20} \<or> tag = 15 \<or> tag \<in> {3, 4, 9, 10, 11, 12, 17, 18} \<or> tag \<in> {5, 6}"
  proof (rule ccontr)
    assume "\<not> ?thesis"
    then have "afterTag tag = failR (UnsupportedTag tag)" unfolding afterTag_def by (simp only: de_Morgan_disj if_False simp_thms)
    then show False using k by (simp add: failR_def)
  qed
  consider "tag = 1" | "tag \<noteq> 1" "tag \<in> {7, 8, 16, 19, 20}" | "tag = 15" | "tag \<in> {3, 4, 9, 10, 11, 12, 17, 18}" | "tag \<in> {5, 6}"
    using d by blast
  then show ?thesis
  proof cases
    case 1
    then obtain n :: "16 word" and s where "r1 = putBig 2 (unat n) @ s @ r'" "length s = unat n" "c = noConst\<lparr>cc_tag := tag, cc_utf8 := s\<rparr>"
      using k by (auto simp: afterTag_def bindR_Inr readBytes_iff retR_iff u_iff)
    then show ?thesis using t 1 unsigned_less [of n] by (intro exI [of _ "CpUtf8 s"]) simp
  next
    case 2
    then obtain i :: "16 word" where "r1 = putBig 2 (unat i) @ r'" "c = noConst\<lparr>cc_tag := tag, cc_nameIndex := i\<rparr>"
      using k unfolding afterTag_def by (simp only: if_False if_True) (auto simp: bindR_Inr retR_iff u_iff)
    then show ?thesis using t 2 by (intro exI [of _ "CpName tag i"]) simp
  next
    case 3
    then show ?thesis using k other [of 3] by (simp add: afterTag_def)
  next
    case 4
    then show ?thesis using k other [of 4] by (auto simp: afterTag_def)
  next
    case 5
    then show ?thesis using k other [of 8] by (auto simp: afterTag_def)
  qed
qed

section \<open>The constant pool\<close>

definition slots :: "cp_entry \<Rightarrow> classConst list" where
  "slots e = (if wide e then [noConst, constOf e] else [constOf e])"

definition poolOf :: "cp_entry list \<Rightarrow> classConst list" where
  "poolOf es = noConst # concat (map slots es)"

lemma length_slots: "length (slots e) = (if wide e then 2 else 1)"
  by (simp add: slots_def)

lemma unat_next: "unat i + 1 < 2 ^ 16 \<Longrightarrow> unat (i + 1) = unat i + 1" for i :: "16 word"
  by (simp add: unat_word_ariths)

lemma readConsts_complete:
  assumes "list_all entry_ok es" and "length pre = unat i" and "unat i + length (concat (map slots es)) = unat n"
  shows "readConsts i n (pre @ replicate (unat n - unat i) noConst) (concat (map encodeConst es) @ r) = Inr (pre @ concat (map slots es), r)"
  using assms
proof (induction es arbitrary: pre i)
  case Nil
  then have "\<not> i < n" by (simp add: word_less_nat_alt)
  then show ?case using Nil by (simp add: readConsts.simps)
next
  case (Cons e es)
  have b: "unat n < 2 ^ 16" using unsigned_less [of n] by simp
  have e: "entry_ok e" "list_all entry_ok es" using Cons.prems(1) by simp_all
  let ?w = "if wide e then 1 else 0 :: nat"
  let ?j = "if wide e then i + 1 else i"
  have l: "unat i + (?w + 1) + length (concat (map slots es)) = unat n" using Cons.prems(3) by (simp add: length_slots split: if_splits)
  then have i: "i < n" by (simp add: word_less_nat_alt split: if_splits)
  have j: "unat ?j = unat i + ?w" using l b unat_next [of i] by (simp split: if_splits)
  then have j1: "unat (?j + 1) = unat i + ?w + 1" using l b unat_next [of ?j] by (simp split: if_splits)
  have rep: "(pre @ replicate (unat n - unat i) noConst)[unat ?j := constOf e] = (pre @ slots e) @ replicate (unat n - unat (?j + 1)) noConst"
  proof (cases "wide e")
    case True
    then have "unat n - unat i = Suc (Suc (unat n - unat (?j + 1)))" using l j1 by simp
    then show ?thesis using True j Cons.prems(2) by (simp add: list_update_append slots_def)
  next
    case False
    then have "unat n - unat i = Suc (unat n - unat (?j + 1))" using l j1 by simp
    then show ?thesis using False j Cons.prems(2) by (simp add: list_update_append slots_def)
  qed
  have len: "unat ?j < length (pre @ replicate (unat n - unat i) noConst)" using l j Cons.prems(2) by (simp split: if_splits)
  have "readConsts i n (pre @ replicate (unat n - unat i) noConst) (concat (map encodeConst (e # es)) @ r) =
      readConsts (?j + 1) n ((pre @ slots e) @ replicate (unat n - unat (?j + 1)) noConst) (concat (map encodeConst es) @ r)"
    using i len readConst_complete [OF e(1), of "concat (map encodeConst es) @ r"]
    by (subst readConsts.simps) (simp only: if_True rep list.map concat.simps append_assoc sum.case prod.case Let_def wide_def [symmetric] if_True)
  also have "\<dots> = Inr ((pre @ slots e) @ concat (map slots es), r)"
    by (rule Cons.IH [OF e(2)]) (use l j1 Cons.prems(2) in \<open>simp_all add: length_slots\<close>)
  finally show ?case by simp
qed

text \<open>The program panics exactly if a long or a double is read for the last index.\<close>

definition wideLast :: "nat \<Rightarrow> nat \<Rightarrow> bytes \<Rightarrow> bool" where
  "wideLast i n r \<longleftrightarrow> (\<exists>es e rest. list_all entry_ok (es @ [e]) \<and> wide e \<and> r = concat (map encodeConst (es @ [e])) @ rest \<and>
     i + length (concat (map slots es)) + 1 = n)"

lemma wideLast_step:
  assumes "entry_ok e" and "i < n"
  shows "wideLast i n (encodeConst e @ r) \<longleftrightarrow> (wide e \<and> i + 1 = n) \<or> (i + length (slots e) < n \<and> wideLast (i + length (slots e)) n r)"
    (is "?l \<longleftrightarrow> ?r")
proof
  assume ?l
  then obtain es x rest where h: "list_all entry_ok (es @ [x])" "wide x" "encodeConst e @ r = concat (map encodeConst (es @ [x])) @ rest"
    "i + length (concat (map slots es)) + 1 = n" unfolding wideLast_def by blast
  show ?r
  proof (cases es)
    case Nil
    then have "readConst (encodeConst e @ r) = Inr (constOf x, rest)" using h readConst_complete [of x rest] by simp
    then have "constOf x = constOf e" using readConst_complete [OF assms(1), of r] by simp
    then show ?thesis using h(2,4) Nil by (simp add: wide_def)
  next
    case (Cons y ys)
    let ?r = "concat (map encodeConst (ys @ [x])) @ rest"
    have y: "entry_ok y" "encodeConst e @ r = encodeConst y @ ?r" using h(1,3) Cons by simp_all
    then have "readConst (encodeConst e @ r) = Inr (constOf y, ?r)" using readConst_complete [OF y(1), of ?r] by simp
    then have c: "constOf y = constOf e" "r = ?r" using readConst_complete [OF assms(1), of r] by simp_all
    then have "slots y = slots e" by (simp add: slots_def wide_def)
    then have "i + length (slots e) + length (concat (map slots ys)) + 1 = n" using h(4) Cons by simp
    moreover have "wideLast (i + length (slots e)) n r"
      unfolding wideLast_def using h(1,2) c(2) Cons calculation by (intro exI [of _ ys] exI [of _ x] exI [of _ rest]) simp
    ultimately show ?thesis by simp
  qed
next
  assume ?r
  then show ?l
  proof
    assume "wide e \<and> i + 1 = n"
    then show ?l unfolding wideLast_def using assms(1) by (intro exI [of _ "[]"] exI [of _ e] exI [of _ r]) simp
  next
    assume "i + length (slots e) < n \<and> wideLast (i + length (slots e)) n r"
    then obtain es x rest where h: "list_all entry_ok (es @ [x])" "wide x" "r = concat (map encodeConst (es @ [x])) @ rest"
      "i + length (slots e) + length (concat (map slots es)) + 1 = n" unfolding wideLast_def by blast
    then show ?l unfolding wideLast_def using assms(1) by (intro exI [of _ "e # es"] exI [of _ x] exI [of _ rest]) simp
  qed
qed

lemma readConst_no_panic: "readConst r \<noteq> Inl IndexPanic"
  by (auto simp: readConst_def afterTag_def u1_def u2_def bindR_def readBytes_def retR_def failR_def split: sum.splits if_splits)

lemma readConsts_panics:
  assumes "length pool = unat n" and "i \<noteq> 0"
  shows "readConsts i n pool r = Inl IndexPanic \<longleftrightarrow> wideLast (unat i) (unat n) r"
  using assms
proof (induction i n pool r rule: readConsts.induct)
  case (1 i n pool r)
  have b: "unat n < 2 ^ 16" using unsigned_less [of n] by simp
  show ?case
  proof (cases "i < n")
    case False
    then have "\<not> wideLast (unat i) (unat n) r" by (auto simp: wideLast_def word_less_nat_alt)
    then show ?thesis using False by (simp add: readConsts.simps)
  next
    case True
    then have i: "unat i < unat n" by (simp add: word_less_nat_alt)
    show ?thesis
    proof (cases "readConst r")
      case (Inl e)
      have "\<not> wideLast (unat i) (unat n) r"
      proof
        assume "wideLast (unat i) (unat n) r"
        then obtain es x rest where h: "list_all entry_ok (es @ [x])" "r = concat (map encodeConst (es @ [x])) @ rest"
          unfolding wideLast_def by blast
        then obtain y r' where "entry_ok y" "r = encodeConst y @ r'" by (cases es) auto
        then show False using Inl readConst_complete by simp
      qed
      then show ?thesis using True Inl readConst_no_panic [of r] by (auto simp: readConsts.simps)
    next
      case (Inr p)
      obtain c r' where p: "p = (c, r')" by fastforce
      obtain e where e: "entry_ok e" "r = encodeConst e @ r'" "c = constOf e" using readConst_sound Inr p by blast
      define j where "j = (if cc_tag c \<in> {5, 6} then i + 1 else i)"
      have step: "readConsts i n pool r = (if unat j < length pool then readConsts (j + 1) n (pool[unat j := c]) r' else Inl IndexPanic)"
        using True Inr p by (simp add: readConsts.simps [of i] j_def)
      have w: "cc_tag c \<in> {5, 6} \<longleftrightarrow> wide e" by (simp add: e(3) wide_def)
      have j: "unat j = unat i + (if wide e then 1 else 0)" unfolding j_def w using i b unat_next [of i] by auto
      show ?thesis
      proof (cases "unat j < length pool")
        case False
        then have "wide e \<and> unat i + 1 = unat n" using j i "1.prems"(1) by (auto split: if_splits)
        then show ?thesis using False step wideLast_step [OF e(1) i, of r'] e(2) by simp
      next
        case less: True
        then have jn: "unat (j + 1) = unat i + length (slots e)" using j b "1.prems"(1) unat_next [of j] by (auto simp: length_slots split: if_splits)
        then have "j + 1 \<noteq> 0" using i by (metis add_is_0 length_slots not_less_zero unat_0 One_nat_def zero_neq_numeral nat.distinct(1))
        then have "readConsts (j + 1) n (pool[unat j := c]) r' = Inl IndexPanic \<longleftrightarrow> wideLast (unat (j + 1)) (unat n) r'"
          using 1(1) [OF True Inr p [symmetric] j_def less] "1.prems"(1) by simp
        moreover have "\<not> (wide e \<and> unat i + 1 = unat n)" using less j "1.prems"(1) by auto
        moreover have "wideLast (unat i + length (slots e)) (unat n) r' \<Longrightarrow> unat i + length (slots e) < unat n" by (auto simp: wideLast_def)
        ultimately show ?thesis using step less wideLast_step [OF e(1) i, of r'] e(2) jn by auto
      qed
    qed
  qed
qed

definition noPanic :: "'a reader \<Rightarrow> bool" where
  "noPanic m \<longleftrightarrow> (\<forall>r. m r \<noteq> Inl IndexPanic)"

lemma noPanicD: "noPanic m \<Longrightarrow> m r \<noteq> Inl IndexPanic"
  by (simp add: noPanic_def)

lemma noPanic_basic [intro]: "noPanic (retR a)" "noPanic (readBytes n)"
  by (simp_all add: noPanic_def retR_def readBytes_def)

lemma noPanic_bind [intro]: "noPanic m \<Longrightarrow> (\<And>a. noPanic (f a)) \<Longrightarrow> noPanic (bindR m f)"
  by (auto simp: noPanic_def bindR_def split: sum.split)

lemma noPanic_words [intro]: "noPanic u1" "noPanic u2" "noPanic u4"
  by (auto simp: u1_def u2_def u4_def)

lemma noPanic_skipAttributes [intro]: "noPanic (skipAttributes n)"
  by (induction n) auto

lemma noPanic_skipMembers [intro]: "noPanic (skipMembers n)"
  by (induction n) (auto simp: skipMember_def)

lemma noPanic_readAttributes [intro]: "noPanic (readAttributes n cs mi)"
  by (induction n arbitrary: mi) auto

lemma noPanic_parseBody [intro]: "noPanic (parseBody cs)"
  unfolding parseBody_def by (intro noPanic_bind noPanic_basic noPanic_words noPanic_skipMembers noPanic_readAttributes)

lemma bindR_panic: "noPanic m \<Longrightarrow> bindR m f r = Inl IndexPanic \<longleftrightarrow> (\<exists>a r'. m r = Inr (a, r') \<and> f a r' = Inl IndexPanic)"
  by (auto simp: bindR_def dest: noPanicD split: sum.split)

text \<open>The start of a class file: magic number, minor and major version and the size of the constant pool.\<close>

definition classHeader :: "16 word \<Rightarrow> 16 word \<Rightarrow> 16 word \<Rightarrow> bytes" where
  "classHeader minor major cpCount = putBig 4 0xCAFEBABE @ putBig 2 (unat minor) @ putBig 2 (unat major) @ putBig 2 (unat cpCount)"

lemma parse_header:
  "parseModuleInfo (classHeader minor major n @ r) =
     (case bindR (readConsts 1 n (replicate (unat n) noConst)) parseBody r of
        Inl e \<Rightarrow> Inl e | Inr (mi, _) \<Rightarrow> if mi_Name mi = '''' then Inl NoModuleName else Inr mi)"
proof -
  have "u4 (classHeader minor major n @ r) = Inr (0xCAFEBABE, putBig 2 (unat minor) @ putBig 2 (unat major) @ putBig 2 (unat n) @ r)"
    by (simp add: u_iff classHeader_def)
  then show ?thesis by (simp add: parseModuleInfo_def bindR_def)
qed

lemma panic_has_header:
  assumes "parseModuleInfo b = Inl IndexPanic" shows "\<exists>minor major n r. b = classHeader minor major n @ r"
proof -
  obtain r where r: "b = putBig 4 (unat (0xCAFEBABE :: 32 word)) @ r"
    "bindR u2 (\<lambda>minor. bindR u2 (\<lambda>major. bindR u2 (\<lambda>cpCount.
       bindR (readConsts 1 cpCount (replicate (unat cpCount) noConst)) parseBody))) r = Inl IndexPanic"
    using assms unfolding parseModuleInfo_def by (auto simp: u_iff split: sum.splits if_splits)
  obtain minor major n :: "16 word" and r' where "r = putBig 2 (unat minor) @ putBig 2 (unat major) @ putBig 2 (unat n) @ r'"
    using r(2) unfolding bindR_panic [OF noPanic_words(2)] u_iff by auto
  then show ?thesis using r(1) by (auto simp: classHeader_def)
qed

text \<open>C36: Reading a \<open>module-info.class\<close> panics on exactly these inputs: after a well-formed header the constant pool has
  well-formed entries up to the last index, and the entry there is a long or a double, which takes two indices. Every other
  input, truncated or malformed in any way, gives a module or an error value.\<close>

theorem class_reader_panics_iff:
  "parseModuleInfo b = Inl IndexPanic \<longleftrightarrow>
    (\<exists>minor major n r. b = classHeader minor major n @ r \<and> wideLast 1 (unat n) r)"
proof -
  have "parseModuleInfo (classHeader minor major n @ r) = Inl IndexPanic \<longleftrightarrow> wideLast 1 (unat n) r" for minor major n r
  proof -
    let ?p = "readConsts 1 n (replicate (unat n) noConst)"
    have "bindR ?p parseBody r = Inl IndexPanic \<longleftrightarrow> ?p r = Inl IndexPanic"
      by (auto simp: bindR_def noPanicD [OF noPanic_parseBody] split: sum.split)
    then show ?thesis using readConsts_panics [of "replicate (unat n) noConst" n 1 r] unfolding parse_header
      by (auto split: sum.splits if_splits)
  qed
  then show ?thesis using panic_has_header [of b] by metis
qed

section \<open>Reading a well-formed class file\<close>

record class_member =
  cm_Head :: bytes
  cm_Attributes :: "(bytes \<times> bytes) list"

record class_file =
  cf_Minor :: "16 word"
  cf_Major :: "16 word"
  cf_Pool :: "cp_entry list"
  cf_Flags :: bytes
  cf_Interfaces :: "16 word list"
  cf_Fields :: "class_member list"
  cf_Methods :: "class_member list"
  cf_Attributes :: "(16 word \<times> bytes) list"

definition putMember :: "class_member \<Rightarrow> bytes" where
  "putMember m = cm_Head m @ putBig 2 (length (cm_Attributes m)) @
     concat (map (\<lambda>(name, body). name @ putBig 4 (length body) @ body) (cm_Attributes m))"

definition putAttribute :: "16 word \<times> bytes \<Rightarrow> bytes" where
  "putAttribute a = putBig 2 (unat (fst a)) @ putBig 4 (length (snd a)) @ snd a"

definition encodeClass :: "class_file \<Rightarrow> bytes" where
  "encodeClass cf =
     classHeader (cf_Minor cf) (cf_Major cf) (word_of_nat (length (poolOf (cf_Pool cf)))) @ concat (map encodeConst (cf_Pool cf)) @
     cf_Flags cf @ putBig 2 (length (cf_Interfaces cf)) @ concat (map (\<lambda>i. putBig 2 (unat i)) (cf_Interfaces cf)) @
     putBig 2 (length (cf_Fields cf)) @ concat (map putMember (cf_Fields cf)) @
     putBig 2 (length (cf_Methods cf)) @ concat (map putMember (cf_Methods cf)) @
     putBig 2 (length (cf_Attributes cf)) @ concat (map putAttribute (cf_Attributes cf))"

definition member_ok :: "class_member \<Rightarrow> bool" where
  "member_ok m \<longleftrightarrow> length (cm_Head m) = 6 \<and> length (cm_Attributes m) < 2 ^ 16 \<and>
     list_all (\<lambda>(name, body). length name = 2 \<and> length body < 2 ^ 32) (cm_Attributes m)"

definition class_ok :: "class_file \<Rightarrow> bool" where
  "class_ok cf \<longleftrightarrow> list_all entry_ok (cf_Pool cf) \<and> length (poolOf (cf_Pool cf)) < 2 ^ 16 \<and> length (cf_Flags cf) = 6 \<and>
     length (cf_Interfaces cf) < 2 ^ 16 \<and> length (cf_Fields cf) < 2 ^ 16 \<and> list_all member_ok (cf_Fields cf) \<and>
     length (cf_Methods cf) < 2 ^ 16 \<and> list_all member_ok (cf_Methods cf) \<and>
     length (cf_Attributes cf) < 2 ^ 16 \<and> list_all (\<lambda>(_, body). length body < 2 ^ 32) (cf_Attributes cf)"

text \<open>The name that the last attribute of a kind refers to: through a Class or Module constant to a string.\<close>

definition referenced :: "class_file \<Rightarrow> string \<Rightarrow> string" where
  "referenced cf kind =
     (let pool = poolOf (cf_Pool cf) in
      case find (\<lambda>(idx, body). utf8At pool idx = kind \<and> length body \<ge> 2) (rev (cf_Attributes cf)) of
        None \<Rightarrow> '''' | Some (_, body) \<Rightarrow> nameOf pool (word_of_nat (bigEndian (take 2 body))))"

lemma skip_attributes:
  "list_all (\<lambda>(name, body). length name = 2 \<and> length body < 2 ^ 32) as \<Longrightarrow>
   skipAttributes (length as) (concat (map (\<lambda>(name, body). name @ putBig 4 (length body) @ body) as) @ r) = Inr ((), r)"
  by (induction as) (auto simp: bindR_def retR_def unat_of_nat)

lemma skip_members: "list_all member_ok ms \<Longrightarrow> skipMembers (length ms) (concat (map putMember ms) @ r) = Inr ((), r)"
  by (induction ms) (auto simp: bindR_def retR_def unat_of_nat skipMember_def putMember_def member_ok_def skip_attributes)

lemma read_attributes:
  "list_all (\<lambda>(_, body). length body < 2 ^ 32) as \<Longrightarrow>
   readAttributes (length as) pool mi (concat (map putAttribute as) @ r) =
     Inr (foldl (\<lambda>mi (idx, body). applyAttribute pool (utf8At pool idx) body mi) mi as, r)"
  by (induction as arbitrary: mi) (auto simp: bindR_def retR_def unat_of_nat putAttribute_def)

definition dotted :: "string \<Rightarrow> string" where
  "dotted s = map (\<lambda>c. if c = slash then CHR ''.'' else c) s"

lemma applied_attributes:
  "foldl (\<lambda>mi (idx, body). applyAttribute pool (utf8At pool idx) body mi) \<lparr>mi_Name = '''', mi_MainClass = ''''\<rparr> as =
   (let ref = (\<lambda>kind. case find (\<lambda>(idx, body). utf8At pool idx = kind \<and> length body \<ge> 2) (rev as) of
        None \<Rightarrow> '''' | Some (_, body) \<Rightarrow> nameOf pool (word_of_nat (bigEndian (take 2 body))))
    in \<lparr>mi_Name = ref ''Module'', mi_MainClass = dotted (ref ''ModuleMainClass'')\<rparr>)"
proof (induction as rule: rev_induct)
  case Nil
  then show ?case by (simp add: dotted_def)
next
  case (snoc a as)
  then show ?case by (cases a) (simp add: applyAttribute_def Let_def dotted_def)
qed

lemma interfaces_length: "length (concat (map (\<lambda>i. putBig 2 (unat i)) is)) = length is * 2"
  by (induction "is") simp_all

text \<open>C37: The reader finds what a class file declares. From the bytes of any well-formed class file, whatever constants, interfaces,
  fields, methods and other attributes it has and whatever follows it, the module name is the one that the last Module
  attribute refers to, the main class is the one of the last ModuleMainClass attribute with dots for slashes, and a file
  without a module name is an error.\<close>

theorem module_info_is_read:
  assumes "class_ok cf"
  shows "parseModuleInfo (encodeClass cf @ rest) =
    (if referenced cf ''Module'' = '''' then Inl NoModuleName
     else Inr \<lparr>mi_Name = referenced cf ''Module'', mi_MainClass = dotted (referenced cf ''ModuleMainClass'')\<rparr>)"
proof -
  let ?n = "word_of_nat (length (poolOf (cf_Pool cf))) :: 16 word" and ?pool = "poolOf (cf_Pool cf)"
  note ok = assms [unfolded class_ok_def]
  have n: "unat ?n = length ?pool" using ok by (simp add: unat_of_nat)
  have "replicate (unat ?n) noConst = [noConst] @ replicate (unat ?n - unat (1 :: 16 word)) noConst"
    unfolding n by (simp add: poolOf_def flip: replicate_Suc)
  moreover have "unat (1 :: 16 word) + length (concat (map slots (cf_Pool cf))) = unat ?n" unfolding n by (simp add: poolOf_def)
  ultimately have p: "readConsts 1 ?n (replicate (unat ?n) noConst) (concat (map encodeConst (cf_Pool cf)) @ r) = Inr (?pool, r)" for r
    using readConsts_complete [of "cf_Pool cf" "[noConst]" 1 ?n r] ok by (simp add: poolOf_def)
  have b: "parseBody ?pool (cf_Flags cf @ putBig 2 (length (cf_Interfaces cf)) @ concat (map (\<lambda>i. putBig 2 (unat i)) (cf_Interfaces cf)) @
     putBig 2 (length (cf_Fields cf)) @ concat (map putMember (cf_Fields cf)) @
     putBig 2 (length (cf_Methods cf)) @ concat (map putMember (cf_Methods cf)) @
     putBig 2 (length (cf_Attributes cf)) @ concat (map putAttribute (cf_Attributes cf)) @ rest) =
     Inr (\<lparr>mi_Name = referenced cf ''Module'', mi_MainClass = dotted (referenced cf ''ModuleMainClass'')\<rparr>, rest)"
    using ok by (simp add: parseBody_def bindR_def unat_of_nat interfaces_length skip_members read_attributes applied_attributes referenced_def Let_def)
  show ?thesis unfolding encodeClass_def append_assoc parse_header by (simp add: bindR_def p b)
qed

text \<open>The class of a module \<open>m\<close> with the main class \<open>a/B\<close>, in a pool with a long before its names.\<close>

definition sampleClass :: class_file where
  "sampleClass = \<lparr>cf_Minor = 0, cf_Major = 53,
     cf_Pool = [CpUtf8 ''Module'', CpOther 5 (replicate 8 (CHR 0x00)), CpUtf8 ''m'', CpName 19 4, CpUtf8 ''ModuleMainClass'', CpUtf8 ''a/B'', CpName 7 7],
     cf_Flags = replicate 6 (CHR 0x00), cf_Interfaces = [8], cf_Fields = [],
     cf_Methods = [\<lparr>cm_Head = replicate 6 (CHR 0x00), cm_Attributes = [(''ab'', ''xyz'')]\<rparr>],
     cf_Attributes = [(6, [CHR 0x00, CHR 0x08]), (1, [CHR 0x00, CHR 0x05, CHR 0x00])]\<rparr>"

lemmas sampleClass_eval = referenced_def sampleClass_def poolOf_def slots_def wide_def noConst_def utf8At_def nameOf_def bigEndian_def dotted_def Let_def

theorem module_info_is_read_witness:
  "class_ok sampleClass \<and> parseModuleInfo (encodeClass sampleClass @ ''tail'') = Inr \<lparr>mi_Name = ''m'', mi_MainClass = ''a.B''\<rparr>"
proof -
  have ok: "class_ok sampleClass" by (simp add: class_ok_def sampleClass_def poolOf_def slots_def wide_def noConst_def member_ok_def)
  moreover have "referenced sampleClass ''Module'' = ''m''" "dotted (referenced sampleClass ''ModuleMainClass'') = ''a.B''"
    by (simp_all add: sampleClass_eval)
  ultimately show ?thesis using module_info_is_read [OF ok, of "''tail''"] by simp
qed

text \<open>A class file of 19 bytes that panics the tool.\<close>

lemma wide_last_slot_panics: "parseModuleInfo (classHeader 0 53 2 @ encodeConst (CpOther 5 (replicate 8 (CHR 0x00)))) = Inl IndexPanic"
proof -
  let ?e = "CpOther 5 (replicate 8 (CHR 0x00))"
  have "wideLast 1 2 (encodeConst ?e)" unfolding wideLast_def by (intro exI [of _ "[]"] exI [of _ ?e]) (simp add: wide_def noConst_def)
  then have "readConsts 1 2 (replicate (unat (2 :: 16 word)) noConst) (encodeConst ?e) = Inl IndexPanic"
    using readConsts_panics [of "replicate 2 noConst" 2 1 "encodeConst ?e"] by simp
  then show ?thesis unfolding parse_header by (simp add: bindR_def)
qed

section \<open>Native libraries and embedded JARs\<close>

definition nativeEntry :: "zip_entry \<Rightarrow> bool" where
  "nativeEntry f \<longleftrightarrow> \<not> ze_IsDir f \<and> isNativeLib (ze_Name f)"

lemma scanEntries_exact:
  "ns_NativeLibs (scanEntries fs s) = ns_NativeLibs s + length (filter nativeEntry fs)"
  "set (ns_Arches (scanEntries fs s)) = set (ns_Arches s) \<union> (\<Union>f \<in> set (filter nativeEntry fs). set (archOf (ze_Name f)))"
  "ns_Unrecognized (scanEntries fs s) = ns_Unrecognized s @ map ze_Name (filter (\<lambda>f. nativeEntry f \<and> archOf (ze_Name f) = []) fs)"
  by (induction fs arbitrary: s) (auto simp: nativeEntry_def Let_def)

lemma scanEntries_distinct: "distinct (ns_Arches s) \<Longrightarrow> distinct (ns_Arches (scanEntries fs s))"
  by (induction fs arbitrary: s) (auto simp: Let_def)

lemma sort_set_eq: "set xs = set ys \<Longrightarrow> distinct xs \<Longrightarrow> distinct ys \<Longrightarrow> sort xs = sort ys" for xs :: "'a::linorder list"
  by (rule sorted_distinct_set_unique) simp_all

text \<open>The scan of a JAR in one line each: how many native libraries it has, the sorted set of the architectures their
  names show, and the names that show none.\<close>

lemma ScanNativeArch_exact:
  assumes "zr jar = Some files"
  shows "ScanNativeArch zr jar = Inr \<lparr>
    ns_Arches = sorted_list_of_set (\<Union>f \<in> set (filter nativeEntry files). set (archOf (ze_Name f))),
    ns_NativeLibs = length (filter nativeEntry files),
    ns_Unrecognized = map ze_Name (filter (\<lambda>f. nativeEntry f \<and> archOf (ze_Name f) = []) files)\<rparr>"
proof -
  let ?s = "\<lparr>ns_Arches = [], ns_NativeLibs = 0, ns_Unrecognized = []\<rparr>"
  have "sort (ns_Arches (scanEntries files ?s)) = sorted_list_of_set (set (ns_Arches (scanEntries files ?s)))"
    using scanEntries_distinct [of ?s files] by (simp add: sorted_list_of_set_sort_remdups distinct_remdups_id)
  then have "sort (ns_Arches (scanEntries files ?s)) = sorted_list_of_set (\<Union>f \<in> set (filter nativeEntry files). set (archOf (ze_Name f)))"
    by (simp add: scanEntries_exact(2))
  then show ?thesis using assms scanEntries_exact(1,3) [of files ?s] by (simp add: ScanNativeArch_def Let_def)
qed

lemma ValidateThinJar_iff:
  "ValidateThinJar zr path = None \<longleftrightarrow>
   (\<exists>files. zr path = Some files \<and> (\<forall>f \<in> set files. ze_IsDir f \<or> \<not> HasSuffix (ToLower (ze_Name f)) ''.jar''))"
proof (cases "zr path")
  case (Some files)
  let ?jar = "\<lambda>entry. \<not> ze_IsDir entry \<and> HasSuffix (ToLower (ze_Name entry)) ''.jar''"
  have "ValidateThinJar zr path = None \<longleftrightarrow> find ?jar files = None"
    by (cases "find ?jar files") (simp_all add: ValidateThinJar_def Some)
  then show ?thesis unfolding find_None_iff using Some by auto
qed (simp add: ValidateThinJar_def)

end
