(* ===== verification/Inventory.thy ===== *)
theory Inventory
  imports Json Go_IO "HOL-Library.Product_Lexorder"
begin

text \<open>
  What the command line tool reads from a cluster with \<open>kubectl\<close>: the JDKs that the nodes advertise
  (\<open>src/core/internal/inventory/inventory.go\<close>) and the checks of \<open>brewlet doctor\<close> (\<open>src/core/internal/doctor/doctor.go\<close>).
  The rendered tables are the text written. \<open>kubectl\<close> is a parameter of the doctor, a function from the arguments to the output and,
  if the command fails, the text of the error; every command line is run once. The text of an error of \<open>encoding/json\<close> is a
  parameter too. A cell of a table is padded by characters: a byte counts unless it continues a UTF-8 sequence, so
  that invalid UTF-8 is outside the model.
\<close>

section \<open>Package inventory\<close>

definition Annotation :: string where "Annotation = ''brewlet.sh/jdks-info''"
definition LegacyAnnotation :: string where "LegacyAnnotation = ''brewlet.sh/jdks''"

record JDKInfo =
  ji_Distribution :: string
  ji_Vendor :: string
  ji_Feature :: int
  ji_Version :: string
  ji_Arch :: string

definition jdkKey :: "JDKInfo \<Rightarrow> string" where
  "jdkKey j = ji_Distribution j @ ''|'' @ ji_Vendor j @ ''|'' @ Itoa (ji_Feature j) @ ''|'' @ ji_Version j @ ''|'' @ ji_Arch j"

record NodeJDKs =
  nj_Node :: string
  nj_JDKs :: "JDKInfo list"

record AggregatedJDK =
  ag_JDKInfo :: JDKInfo
  ag_Nodes :: "string list"

text \<open>The members of a node that the package decodes.\<close>

record nodeItem =
  ni_Name :: string
  ni_Annotations :: stralist

definition decodeNodeItem :: "json \<Rightarrow> nodeItem option" where
  "decodeNodeItem j =
     Option.bind (asMembers j) (\<lambda>fs.
     Option.bind (asMembers (member fs ''metadata'')) (\<lambda>meta.
     Option.bind (asString (member meta ''name'')) (\<lambda>name.
     Option.bind (asStrMap (member meta ''annotations'')) (\<lambda>ann.
     Some \<lparr>ni_Name = name, ni_Annotations = ann\<rparr>))))"

definition decodeNodeList :: "json \<Rightarrow> nodeItem list option" where
  "decodeNodeList j = Option.bind (asMembers j) (\<lambda>fs. asList decodeNodeItem (member fs ''items''))"

definition decodeJDKInfo :: "json \<Rightarrow> JDKInfo option" where
  "decodeJDKInfo j =
     Option.bind (asMembers j) (\<lambda>fs.
     Option.bind (asString (member fs ''distribution'')) (\<lambda>di.
     Option.bind (asString (member fs ''vendor'')) (\<lambda>ve.
     Option.bind (asInt (member fs ''feature'')) (\<lambda>fe.
     Option.bind (asString (member fs ''version'')) (\<lambda>vr.
     Option.bind (asString (member fs ''arch'')) (\<lambda>ar.
     Some \<lparr>ji_Distribution = di, ji_Vendor = ve, ji_Feature = fe, ji_Version = vr, ji_Arch = ar\<rparr>))))))"

datatype inv_error = BadNodesJSON bytes | BadAnnotation string string

text \<open>\<open>fmt.Sscanf(s, "%d", &n)\<close>: spaces but no line break, an optional sign and digits; the rest is left. On an error the
  variable keeps its value.\<close>

definition Sscanf_d :: "string \<Rightarrow> int option" where
  "Sscanf_d s =
     (let r = dropWhile (\<lambda>c. is_space c \<and> c \<noteq> CHR 0x0A) s;
          (sign, body) = (case r of [] \<Rightarrow> ('''', '''') | c # cs \<Rightarrow> if c \<in> {CHR ''+'', CHR ''-''} then ([c], cs) else ('''', r));
          digits = takeWhile is_digit body
      in if digits = [] then None else Atoi (sign @ digits))"

definition legacyJDK :: "string \<Rightarrow> JDKInfo" where
  "legacyJDK tok =
     (case CutAtLast (CHR ''-'') tok of
        None \<Rightarrow> \<lparr>ji_Distribution = tok, ji_Vendor = '''', ji_Feature = 0, ji_Version = '''', ji_Arch = ''''\<rparr>
      | Some (dist, rest) \<Rightarrow>
          \<lparr>ji_Distribution = dist, ji_Vendor = '''', ji_Feature = (case Sscanf_d rest of None \<Rightarrow> 0 | Some n \<Rightarrow> n),
           ji_Version = '''', ji_Arch = ''''\<rparr>)"

definition parseLegacy :: "string \<Rightarrow> JDKInfo list" where
  "parseLegacy raw = map legacyJDK (trimmedTokens (SplitOn (CHR '','') raw))"

definition annotated :: "stralist \<Rightarrow> string \<Rightarrow> string option" where
  "annotated ann k = (case map_of ann k of None \<Rightarrow> None | Some raw \<Rightarrow> if TrimSpace raw = '''' then None else Some raw)"

definition parseNodeAnnotations :: "stralist \<Rightarrow> string + JDKInfo list" where
  "parseNodeAnnotations ann =
     (case annotated ann Annotation of
        Some raw \<Rightarrow> (case Option.bind (parseJson raw) (asList decodeJDKInfo) of None \<Rightarrow> Inl raw | Some jdks \<Rightarrow> Inr jdks)
      | None \<Rightarrow> (case annotated ann LegacyAnnotation of Some raw \<Rightarrow> Inr (parseLegacy raw) | None \<Rightarrow> Inr []))"

fun parseItems :: "nodeItem list \<Rightarrow> inv_error + NodeJDKs list" where
  "parseItems [] = Inr []"
| "parseItems (item # rest) =
     (case parseNodeAnnotations (ni_Annotations item) of
        Inl raw \<Rightarrow> Inl (BadAnnotation (ni_Name item) raw)
      | Inr jdks \<Rightarrow>
          (case parseItems rest of Inl e \<Rightarrow> Inl e
           | Inr out \<Rightarrow> Inr (if jdks = [] then out else \<lparr>nj_Node = ni_Name item, nj_JDKs = jdks\<rparr> # out)))"

definition ParseNodes :: "bytes \<Rightarrow> inv_error + NodeJDKs list" where
  "ParseNodes kubectlJSON =
     (case Option.bind (parseJson kubectlJSON) decodeNodeList of
        None \<Rightarrow> Inl (BadNodesJSON kubectlJSON) | Some items \<Rightarrow> parseItems items)"

text \<open>The map \<open>byKey\<close> together with the slice \<open>order\<close> is an association list in the order of insertion.\<close>

definition containsStr :: "string list \<Rightarrow> string \<Rightarrow> bool" where
  "containsStr s v = list_ex (\<lambda>x. x = v) s"

definition addNode :: "string \<Rightarrow> AggregatedJDK \<Rightarrow> AggregatedJDK" where
  "addNode node agg = (if containsStr (ag_Nodes agg) node then agg else agg\<lparr>ag_Nodes := ag_Nodes agg @ [node]\<rparr>)"

fun addJDK :: "string \<Rightarrow> JDKInfo \<Rightarrow> (string \<times> AggregatedJDK) list \<Rightarrow> (string \<times> AggregatedJDK) list" where
  "addJDK node j [] = [(jdkKey j, addNode node \<lparr>ag_JDKInfo = j, ag_Nodes = []\<rparr>)]"
| "addJDK node j ((k, agg) # rest) =
     (if k = jdkKey j then (k, addNode node agg) # rest else (k, agg) # addJDK node j rest)"

definition byKey :: "NodeJDKs list \<Rightarrow> (string \<times> AggregatedJDK) list" where
  "byKey nodes = foldl (\<lambda>m n. foldl (\<lambda>m j. addJDK (nj_Node n) j m) m (nj_JDKs n)) [] nodes"

definition lessJDK :: "AggregatedJDK \<Rightarrow> AggregatedJDK \<Rightarrow> bool" where
  "lessJDK a b =
     (let x = ag_JDKInfo a; y = ag_JDKInfo b in
      if ji_Distribution x \<noteq> ji_Distribution y then ji_Distribution x < ji_Distribution y
      else if ji_Feature x \<noteq> ji_Feature y then ji_Feature x < ji_Feature y
      else if ji_Version x \<noteq> ji_Version y then ji_Version x < ji_Version y
      else ji_Arch x < ji_Arch y)"

text \<open>\<open>sort.SliceStable\<close>.\<close>

fun insertBy :: "('a \<Rightarrow> 'a \<Rightarrow> bool) \<Rightarrow> 'a \<Rightarrow> 'a list \<Rightarrow> 'a list" where
  "insertBy lt x [] = [x]"
| "insertBy lt x (y # ys) = (if lt y x then y # insertBy lt x ys else x # y # ys)"

definition SliceStable :: "('a \<Rightarrow> 'a \<Rightarrow> bool) \<Rightarrow> 'a list \<Rightarrow> 'a list" where
  "SliceStable lt xs = foldr (insertBy lt) xs []"

definition Aggregate :: "NodeJDKs list \<Rightarrow> AggregatedJDK list" where
  "Aggregate nodes = SliceStable lessJDK (map (\<lambda>(_, agg). agg\<lparr>ag_Nodes := sort (ag_Nodes agg)\<rparr>) (byKey nodes))"

section \<open>Rendering\<close>

definition dash :: "string \<Rightarrow> string" where
  "dash s = (if TrimSpace s = '''' then ''-'' else s)"

definition majorStr :: "int \<Rightarrow> string" where
  "majorStr feature = (if feature = 0 then ''-'' else Itoa feature)"

definition runeCount :: "string \<Rightarrow> nat" where
  "runeCount s = length (filter (\<lambda>c. \<not> (128 \<le> (of_char c :: nat) \<and> (of_char c :: nat) < 192)) s)"

text \<open>\<open>%-*s\<close>.\<close>

definition padRight :: "nat \<Rightarrow> string \<Rightarrow> string" where
  "padRight w c = c @ replicate (w - runeCount c) (CHR '' '')"

definition widen :: "nat list \<Rightarrow> string list \<Rightarrow> nat list" where
  "widen widths r = map (\<lambda>(w, c). max w (length c)) (zip widths r) @ drop (length r) widths"

definition columnWidths :: "string list list \<Rightarrow> nat list" where
  "columnWidths rows = foldl widen (replicate (length (hd rows)) 0) rows"

fun renderCells :: "(nat \<times> string) list \<Rightarrow> string" where
  "renderCells [] = ''''"
| "renderCells [(w, c)] = c"
| "renderCells ((w, c) # wc # rest) = padRight w c @ ''   '' @ renderCells (wc # rest)"

text \<open>A row that is longer than the first is an index out of range: the program panics.\<close>

definition writeTable :: "string list list \<Rightarrow> string option" where
  "writeTable rows =
     (if rows = [] then Some ''''
      else if list_ex (\<lambda>r. length (hd rows) < length r) rows then None
      else Some (concat (map (\<lambda>r. TrimRightChar (CHR '' '') (renderCells (zip (columnWidths rows) r)) @ [CHR 0x0A]) rows)))"

definition noInventory :: string where
  "noInventory = ''No Brewlet JDK inventory found on any node.'' @ [CHR 0x0A]"

definition tableRow :: "AggregatedJDK \<Rightarrow> string list" where
  "tableRow a = (let j = ag_JDKInfo a in
     [dash (ji_Vendor j), dash (ji_Distribution j), majorStr (ji_Feature j), dash (ji_Version j), dash (ji_Arch j),
      Itoa (int (length (ag_Nodes a)))])"

definition RenderTable :: "NodeJDKs list \<Rightarrow> string option" where
  "RenderTable nodes =
     (let agg = Aggregate nodes in
      if agg = [] then Some (noInventory @ ''(Nodes advertise JDKs once the node-provisioner has run; see https://github.com/brewlet/brewlet/blob/main/docs/jdk-management.md.)'' @ [CHR 0x0A])
      else writeTable ([''VENDOR'', ''DISTRIBUTION'', ''MAJOR'', ''VERSION'', ''ARCH'', ''NODES''] # map tableRow agg))"

definition nodeRow :: "string \<Rightarrow> JDKInfo \<Rightarrow> string list" where
  "nodeRow node j = [node, dash (ji_Vendor j), dash (ji_Distribution j), majorStr (ji_Feature j), dash (ji_Version j), dash (ji_Arch j)]"

definition RenderByNode :: "NodeJDKs list \<Rightarrow> string option" where
  "RenderByNode nodes =
     (if nodes = [] then Some noInventory
      else writeTable ([''NODE'', ''VENDOR'', ''DISTRIBUTION'', ''MAJOR'', ''VERSION'', ''ARCH''] #
        concat (map (\<lambda>n. map (nodeRow (nj_Node n)) (nj_JDKs n)) (SliceStable (\<lambda>a b. nj_Node a < nj_Node b) nodes))))"

definition encodeJDKInfo :: "JDKInfo \<Rightarrow> members" where
  "encodeJDKInfo j =
     [(''distribution'', JStr (ji_Distribution j)), (''vendor'', JStr (ji_Vendor j)), (''feature'', jint (ji_Feature j)),
      (''version'', JStr (ji_Version j)), (''arch'', JStr (ji_Arch j))]"

definition RenderJSON :: "NodeJDKs list \<Rightarrow> string" where
  "RenderJSON nodes =
     MarshalIndent (JArr (map (\<lambda>a. JObj (encodeJDKInfo (ag_JDKInfo a) @ [(''nodes'', JArr (map JStr (ag_Nodes a)))])) (Aggregate nodes)))
     @ [CHR 0x0A]"

section \<open>Correctness of the inventory\<close>

definition jdkOrder :: "AggregatedJDK \<Rightarrow> string \<times> int \<times> string \<times> string" where
  "jdkOrder a = (let j = ag_JDKInfo a in (ji_Distribution j, ji_Feature j, ji_Version j, ji_Arch j))"

lemma lessJDK_order: "lessJDK a b \<longleftrightarrow> jdkOrder a < jdkOrder b"
  by (auto simp: lessJDK_def jdkOrder_def Let_def less_prod_def)

lemma insertBy_insort: "(\<And>x y. lt x y \<longleftrightarrow> f x < f y) \<Longrightarrow> insertBy lt x xs = insort_key f x xs"
  by (induction xs) (auto simp: not_less)

lemma SliceStable_sort: "(\<And>x y. lt x y \<longleftrightarrow> f x < f y) \<Longrightarrow> SliceStable lt xs = sort_key f xs"
  unfolding SliceStable_def sort_key_def by (induction xs) (simp_all add: insertBy_insort)

lemma Aggregate_sort: "Aggregate nodes = sort_key jdkOrder (map (\<lambda>(_, agg). agg\<lparr>ag_Nodes := sort (ag_Nodes agg)\<rparr>) (byKey nodes))"
  unfolding Aggregate_def by (rule SliceStable_sort) (rule lessJDK_order)

text \<open>The pairs of a node and a JDK that the fleet advertises, in order.\<close>

definition advertised :: "NodeJDKs list \<Rightarrow> (string \<times> JDKInfo) list" where
  "advertised nodes = concat (map (\<lambda>n. map (Pair (nj_Node n)) (nj_JDKs n)) nodes)"

lemma byKey_advertised: "byKey nodes = foldl (\<lambda>m (node, j). addJDK node j m) [] (advertised nodes)"
proof -
  have "foldl (\<lambda>m n. foldl (\<lambda>m j. addJDK (nj_Node n) j m) m (nj_JDKs n)) m nodes = foldl (\<lambda>m (node, j). addJDK node j m) m (advertised nodes)" for m
    by (induction nodes arbitrary: m) (simp_all add: advertised_def foldl_map)
  then show ?thesis by (simp add: byKey_def)
qed

text \<open>The invariant of the collection: one entry per key, which holds a JDK with this key and every node that advertises one.\<close>

definition entryFor :: "(string \<times> JDKInfo) set \<Rightarrow> string \<times> AggregatedJDK \<Rightarrow> bool" where
  "entryFor ps e \<longleftrightarrow> (\<exists>node. (node, ag_JDKInfo (snd e)) \<in> ps) \<and> jdkKey (ag_JDKInfo (snd e)) = fst e \<and>
     distinct (ag_Nodes (snd e)) \<and> set (ag_Nodes (snd e)) = {node. \<exists>j. (node, j) \<in> ps \<and> jdkKey j = fst e}"

lemma entryForD: "entryFor ps e \<Longrightarrow> jdkKey (ag_JDKInfo (snd e)) = fst e \<and> ag_JDKInfo (snd e) \<in> snd ` ps"
  unfolding entryFor_def by (metis image_eqI snd_conv)

lemma set_addJDK_keys: "fst ` set (addJDK node j m) = insert (jdkKey j) (fst ` set m)"
  by (induction node j m rule: addJDK.induct) (simp_all add: insert_commute)

lemma distinct_addJDK: "distinct (map fst m) \<Longrightarrow> distinct (map fst (addJDK node j m))"
proof (induction m)
  case (Cons e m)
  then show ?case using set_addJDK_keys [of node j m] by (cases e) auto
qed simp

lemma entryFor_addNode:
  assumes "entryFor ps (k, agg)" and "k = jdkKey j"
  shows "entryFor (insert (node, j) ps) (k, addNode node agg)"
  using assms by (auto simp: entryFor_def addNode_def containsStr_def list_ex_iff)

lemma entryFor_other: "entryFor ps e \<Longrightarrow> fst e \<noteq> jdkKey j \<Longrightarrow> entryFor (insert (node, j) ps) e"
  by (auto simp: entryFor_def)

lemma entryFor_new:
  "jdkKey j \<notin> jdkKey ` snd ` ps \<Longrightarrow> entryFor (insert (node, j) ps) (jdkKey j, addNode node \<lparr>ag_JDKInfo = j, ag_Nodes = []\<rparr>)"
  unfolding entryFor_def addNode_def containsStr_def by (auto simp: image_iff)

lemma addJDK_entries:
  assumes "distinct (map fst m)" and "\<And>e. e \<in> set m \<Longrightarrow> entryFor ps e" and "jdkKey j \<in> jdkKey ` snd ` ps \<Longrightarrow> jdkKey j \<in> fst ` set m"
    and "e \<in> set (addJDK node j m)"
  shows "entryFor (insert (node, j) ps) e"
  using assms
proof (induction m)
  case Nil
  then show ?case using entryFor_new [of j ps node] by auto
next
  case (Cons f m)
  show ?case
  proof (cases "fst f = jdkKey j")
    case True
    then consider "e = (fst f, addNode node (snd f))" | "e \<in> set m" using Cons.prems(4) by (cases f) auto
    then show ?thesis
    proof cases
      case 1
      then show ?thesis using entryFor_addNode [of ps "fst f" "snd f" j node, unfolded prod.collapse] Cons.prems(2) [of f] True by simp
    next
      case 2
      then have "fst e \<noteq> jdkKey j" using Cons.prems(1) True by (auto simp: image_iff)
      then show ?thesis using entryFor_other [OF Cons.prems(2) [of e]] 2 by simp
    qed
  next
    case False
    then consider "e = f" | "e \<in> set (addJDK node j m)" using Cons.prems(4) by (cases f) auto
    then show ?thesis
    proof cases
      case 1
      then show ?thesis using entryFor_other [OF Cons.prems(2) [of f]] False by simp
    next
      case 2
      then show ?thesis using Cons.IH Cons.prems(1-3) False by auto
    qed
  qed
qed

lemma collected_invariant:
  fixes ps :: "(string \<times> JDKInfo) list"
  defines "m \<equiv> foldl (\<lambda>m (node, j). addJDK node j m) [] ps"
  shows "distinct (map fst m) \<and> fst ` set m = jdkKey ` snd ` set ps \<and> (\<forall>e \<in> set m. entryFor (set ps) e)"
  unfolding m_def
proof (induction ps rule: rev_induct)
  case (snoc p ps)
  obtain node j where p: "p = (node, j)" by fastforce
  let ?m = "foldl (\<lambda>m (node, j). addJDK node j m) [] ps"
  have "entryFor (insert (node, j) (set ps)) e" if "e \<in> set (addJDK node j ?m)" for e
    by (rule addJDK_entries [of ?m "set ps" j e node]) (use snoc that in auto)
  then show ?case using snoc distinct_addJDK [of ?m node j] set_addJDK_keys [of node j ?m] by (simp add: p)
qed simp

lemmas byKey_invariant = collected_invariant [of "advertised nodes" for nodes, folded byKey_advertised]

text \<open>The key is made of the fields with bars between them: it tells two JDKs apart if no field has a bar.\<close>

definition noBar :: "JDKInfo \<Rightarrow> bool" where
  "noBar j \<longleftrightarrow> CHR ''|'' \<notin> set (ji_Distribution j @ ji_Vendor j @ ji_Version j @ ji_Arch j)"

lemma Itoa_no_bar: "CHR ''|'' \<notin> set (Itoa n)"
  using Itoa_chars [of "CHR ''|''" n] by (auto simp: is_digit_def)

lemma key_fields: "noBar j \<Longrightarrow> SplitOn (CHR ''|'') (jdkKey j) = [ji_Distribution j, ji_Vendor j, Itoa (ji_Feature j), ji_Version j, ji_Arch j]"
  using Itoa_no_bar [of "ji_Feature j"] by (simp add: noBar_def jdkKey_def SplitOn_append SplitOn_no_sep)

lemma key_inj: "noBar i \<Longrightarrow> noBar j \<Longrightarrow> jdkKey i = jdkKey j \<Longrightarrow> i = j"
  using key_fields [of i] key_fields [of j] by (auto dest: Itoa_inj)

lemma key_collision:
  "jdkKey \<lparr>ji_Distribution = ''a|b'', ji_Vendor = ''c'', ji_Feature = 1, ji_Version = ''v'', ji_Arch = ''x''\<rparr> =
   jdkKey \<lparr>ji_Distribution = ''a'', ji_Vendor = ''b|c'', ji_Feature = 1, ji_Version = ''v'', ji_Arch = ''x''\<rparr>"
  by (simp add: jdkKey_def)

definition providers :: "NodeJDKs list \<Rightarrow> JDKInfo \<Rightarrow> string set" where
  "providers nodes j = {node. (node, j) \<in> set (advertised nodes)}"

lemma entry_exact:
  assumes "\<And>node j. (node, j) \<in> set (advertised nodes) \<Longrightarrow> noBar j" and "entryFor (set (advertised nodes)) e"
  shows "(snd e)\<lparr>ag_Nodes := sort (ag_Nodes (snd e))\<rparr> = \<lparr>ag_JDKInfo = ag_JDKInfo (snd e), ag_Nodes = sorted_list_of_set (providers nodes (ag_JDKInfo (snd e)))\<rparr>"
proof -
  let ?j = "ag_JDKInfo (snd e)"
  have j: "noBar ?j" "jdkKey ?j = fst e" "distinct (ag_Nodes (snd e))" using assms by (auto simp: entryFor_def)
  have "set (ag_Nodes (snd e)) = {node. \<exists>i. (node, i) \<in> set (advertised nodes) \<and> jdkKey i = jdkKey ?j}"
    using assms(2) j(2) unfolding entryFor_def by simp
  also have "\<dots> = providers nodes ?j" unfolding providers_def using key_inj [OF _ j(1)] assms(1) by blast
  finally have "set (ag_Nodes (snd e)) = providers nodes ?j" .
  then have "sort (ag_Nodes (snd e)) = sorted_list_of_set (providers nodes ?j)"
    using j(3) by (metis distinct_remdups_id sorted_list_of_set_sort_remdups)
  then show ?thesis by (cases "snd e") simp
qed

text \<open>C38: \<open>brewlet jdks\<close> shows the fleet: if no field of an advertised JDK has a bar, the aggregated inventory lists every JDK
  that some node advertises exactly once, with exactly the nodes that advertise it, each once and sorted, and the list is ordered by
  distribution, feature version, version and architecture. (Two JDKs that differ only in where a bar stands are
  merged, since the key joins the fields with bars.)\<close>

theorem Aggregate_exact:
  assumes "\<And>node j. (node, j) \<in> set (advertised nodes) \<Longrightarrow> noBar j"
  shows "mset (Aggregate nodes) = mset_set ((\<lambda>j. \<lparr>ag_JDKInfo = j, ag_Nodes = sorted_list_of_set (providers nodes j)\<rparr>) ` snd ` set (advertised nodes)) \<and>
    sorted (map jdkOrder (Aggregate nodes))"
proof -
  let ?f = "\<lambda>j. \<lparr>ag_JDKInfo = j, ag_Nodes = sorted_list_of_set (providers nodes j)\<rparr>" and ?ps = "set (advertised nodes)"
  let ?g = "\<lambda>(_ :: string, agg). agg\<lparr>ag_Nodes := sort (ag_Nodes agg)\<rparr>"
  note inv = byKey_invariant [of nodes]
  have g: "?g e = ?f (ag_JDKInfo (snd e))" if "e \<in> set (byKey nodes)" for e
    using entry_exact [of nodes e] assms bspec [OF conjunct2 [OF conjunct2 [OF inv]] that] by (cases e) (simp only: prod.case snd_conv)
  have key: "jdkKey (ag_JDKInfo (snd e)) = fst e" "ag_JDKInfo (snd e) \<in> snd ` ?ps" if "e \<in> set (byKey nodes)" for e
    using entryForD [OF bspec [OF conjunct2 [OF conjunct2 [OF inv]] that]] by simp_all
  have infos: "(\<lambda>e. ag_JDKInfo (snd e)) ` set (byKey nodes) = snd ` ?ps"
  proof (rule set_eqI, rule iffI)
    fix j assume "j \<in> snd ` ?ps"
    then have "jdkKey j \<in> fst ` set (byKey nodes)" and nb: "noBar j" using inv assms by auto
    then obtain e where e: "e \<in> set (byKey nodes)" "fst e = jdkKey j" by auto
    then have "ag_JDKInfo (snd e) = j" using key [OF e(1)] key_inj [of _ j] nb assms by (metis imageE prod.collapse)
    then show "j \<in> (\<lambda>e. ag_JDKInfo (snd e)) ` set (byKey nodes)" using e(1) by blast
  qed (use key(2) in blast)
  let ?infos = "map (\<lambda>e. ag_JDKInfo (snd e)) (byKey nodes)"
  have "map fst (byKey nodes) = map jdkKey ?infos" using key(1) by simp
  then have "distinct ?infos" using inv distinct_map by metis
  then have d: "distinct (map ?f ?infos)" by (simp only: distinct_map) (simp add: inj_on_def)
  have "map ?g (byKey nodes) = map ?f ?infos" unfolding map_map comp_def using g by (rule map_cong [OF refl])
  moreover have "set (map ?f ?infos) = ?f ` snd ` ?ps" unfolding infos [symmetric] by (simp only: set_map)
  ultimately have "mset (map ?g (byKey nodes)) = mset_set (?f ` snd ` ?ps)" using mset_set_set [OF d] by (simp only:)
  then show ?thesis by (simp add: Aggregate_sort)
qed

text \<open>A fleet of two nodes.\<close>

definition temurin :: JDKInfo where
  "temurin = \<lparr>ji_Distribution = ''temurin'', ji_Vendor = ''Eclipse'', ji_Feature = 21, ji_Version = ''21.0.5'', ji_Arch = ''amd64''\<rparr>"

definition fleet :: "NodeJDKs list" where
  "fleet = [\<lparr>nj_Node = ''b'', nj_JDKs = [temurin, temurin\<lparr>ji_Feature := 17\<rparr>]\<rparr>, \<lparr>nj_Node = ''a'', nj_JDKs = [temurin]\<rparr>]"

theorem Aggregate_exact_witness:
  "list_all (\<lambda>(node, j). noBar j) (advertised fleet) \<and> size (mset (Aggregate fleet)) = 2"
proof -
  have nb: "\<forall>(node, j) \<in> set (advertised fleet). noBar j" by (simp add: advertised_def fleet_def noBar_def temurin_def)
  have "snd ` set (advertised fleet) = {temurin, temurin\<lparr>ji_Feature := 17\<rparr>}" by (auto simp: advertised_def fleet_def)
  moreover have "temurin \<noteq> temurin\<lparr>ji_Feature := 17\<rparr>" by (simp add: temurin_def)
  moreover have "mset (Aggregate fleet) = mset_set ((\<lambda>j. \<lparr>ag_JDKInfo = j, ag_Nodes = sorted_list_of_set (providers fleet j)\<rparr>) ` snd ` set (advertised fleet))"
    using Aggregate_exact [of fleet] nb by blast
  ultimately have "size (mset (Aggregate fleet)) = 2" by simp
  then show ?thesis using nb by (simp add: list_all_iff)
qed

text \<open>A node that writes its JDKs in the coarse form, as the tokens \<open>distribution-feature\<close>, is read as written.\<close>

lemma Sscanf_Itoa: "in_int64 n \<Longrightarrow> Sscanf_d (Itoa n) = Some n"
proof -
  assume n: "in_int64 n"
  obtain c cs where d: "dec_digits (nat (abs n)) = c # cs" by (cases "dec_digits (nat (abs n))") auto
  have c: "is_digit c" "\<not> is_space c" "c \<noteq> CHR ''+''" "c \<noteq> CHR ''-''"
    using dec_digits_chars [of c "nat (abs n)"] is_digit_not [of c] d by auto
  have t: "takeWhile is_digit (c # cs) = c # cs" using dec_digits_chars [of _ "nat (abs n)"] d by (auto intro!: takeWhile_eq_all_conv [THEN iffD2])
  show ?thesis
  proof (cases "n < 0")
    case True
    then have "Itoa n = CHR ''-'' # c # cs" using d by (simp add: Itoa_def)
    then show ?thesis using Atoi_Itoa [OF n] t by (simp add: Sscanf_d_def is_space_def)
  next
    case False
    then have "Itoa n = c # cs" using d by (simp add: Itoa_def)
    then show ?thesis using Atoi_Itoa [OF n] c by (simp add: Sscanf_d_def Let_def t del: takeWhile.simps)
  qed
qed

definition legacyToken :: "string \<times> int \<Rightarrow> string" where
  "legacyToken t = fst t @ ''-'' @ Itoa (snd t)"

definition legacyInfo :: "string \<times> int \<Rightarrow> JDKInfo" where
  "legacyInfo t = \<lparr>ji_Distribution = fst t, ji_Vendor = '''', ji_Feature = snd t, ji_Version = '''', ji_Arch = ''''\<rparr>"

definition legacyOk :: "string \<times> int \<Rightarrow> bool" where
  "legacyOk t \<longleftrightarrow> list_all (\<lambda>c. \<not> is_space c \<and> c \<noteq> CHR '','') (fst t) \<and> 0 \<le> snd t \<and> in_int64 (snd t)"

lemma legacyToken_plain: "legacyOk t \<Longrightarrow> c \<in> set (legacyToken t) \<Longrightarrow> \<not> is_space c \<and> c \<noteq> CHR '',''"
  using Itoa_chars [of c "snd t"] is_digit_not [of c] by (auto simp: legacyOk_def legacyToken_def list_all_iff is_space_def)

lemma legacyJDK_token: "legacyOk t \<Longrightarrow> legacyJDK (legacyToken t) = legacyInfo t"
proof -
  assume t: "legacyOk t"
  then have n: "0 \<le> snd t" "in_int64 (snd t)" by (simp_all add: legacyOk_def)
  then have "CHR ''-'' \<notin> set (Itoa (snd t))" using dec_digits_chars [of "CHR ''-''"] by (auto simp: Itoa_pos is_digit_def)
  then have "CutAtLast (CHR ''-'') (legacyToken t) = Some (fst t, Itoa (snd t))" by (simp add: legacyToken_def CutAtLast_append)
  then show ?thesis using Sscanf_Itoa [OF n(2)] by (simp add: legacyJDK_def legacyInfo_def)
qed

theorem parseLegacy_tokens:
  assumes "list_all legacyOk ts" and "ts \<noteq> []"
  shows "parseLegacy (JoinWith '','' (map legacyToken ts)) = map legacyInfo ts"
proof -
  have p: "CHR '','' \<notin> set (legacyToken t)" "TrimSpace (legacyToken t) = legacyToken t" "legacyToken t \<noteq> ''''" if "t \<in> set ts" for t
  proof -
    have t: "legacyOk t" using assms(1) that by (simp add: list_all_iff)
    show "CHR '','' \<notin> set (legacyToken t)" using legacyToken_plain [OF t, of "CHR '',''"] by auto
    show "TrimSpace (legacyToken t) = legacyToken t" by (rule TrimSpace_id) (use legacyToken_plain [OF t] in \<open>auto simp: list_all_iff\<close>)
  qed (simp add: legacyToken_def)
  have "SplitOn (CHR '','') (JoinWith '','' (map legacyToken ts)) = map legacyToken ts"
    by (rule SplitOn_JoinWith) (use p assms(2) in \<open>auto simp: list_all_iff\<close>)
  moreover have "trimmedTokens (map legacyToken ts) = map legacyToken ts"
    by (rule trimmedTokens_id) (use p in \<open>auto simp: list_all_iff\<close>)
  ultimately show ?thesis using assms(1) legacyJDK_token by (auto simp: parseLegacy_def list_all_iff)
qed

text \<open>The tables are aligned: in every row, the cell of a column starts after the same number of characters.\<close>

lemma runeCount_append [simp]: "runeCount (s @ t) = runeCount s + runeCount t"
  by (simp add: runeCount_def)

lemma runeCount_le: "runeCount s \<le> length s"
  by (simp add: runeCount_def)

lemma runeCount_padRight: "runeCount c \<le> w \<Longrightarrow> runeCount (padRight w c) = w"
  by (simp add: padRight_def runeCount_def)

lemma cell_offset:
  "list_all (\<lambda>(w, c). length c \<le> w) wcs \<Longrightarrow> k < length wcs \<Longrightarrow>
   \<exists>left right. renderCells wcs = left @ snd (wcs ! k) @ right \<and> runeCount left = (\<Sum>(w, c) \<leftarrow> take k wcs. w + 3)"
proof (induction wcs arbitrary: k rule: renderCells.induct)
  case (2 w c)
  then show ?case by (intro exI [of _ "''''"]) (simp add: runeCount_def)
next
  case (3 w c wc rest)
  show ?case
  proof (cases k)
    case 0
    then show ?thesis by (intro exI [of _ "''''"] exI [of _ "replicate (w - runeCount c) (CHR '' '') @ ''   '' @ renderCells (wc # rest)"])
      (simp add: padRight_def runeCount_def)
  next
    case (Suc i)
    then obtain left right where h: "renderCells (wc # rest) = left @ snd ((wc # rest) ! i) @ right"
      "runeCount left = (\<Sum>(w, c) \<leftarrow> take i (wc # rest). w + 3)" using "3.IH" [of i] "3.prems" by auto
    have "runeCount (padRight w c) = w" using "3.prems"(1) runeCount_le [of c] by (intro runeCount_padRight) simp
    then show ?thesis using Suc h by (intro exI [of _ "padRight w c @ ''   '' @ left"] exI [of _ right]) (simp add: runeCount_def)
  qed
qed simp

lemma length_widen: "length r \<le> length ws \<Longrightarrow> length (widen ws r) = length ws"
  by (simp add: widen_def)

lemma widen_ge: "length r \<le> length ws \<Longrightarrow> i < length ws \<Longrightarrow> ws ! i \<le> widen ws r ! i \<and> (i < length r \<longrightarrow> length (r ! i) \<le> widen ws r ! i)"
  by (auto simp: widen_def nth_append)

lemma widths_ge:
  assumes "\<forall>r \<in> set rows. length r \<le> length ws"
  shows "length (foldl widen ws rows) = length ws \<and> (\<forall>i < length ws. ws ! i \<le> foldl widen ws rows ! i \<and>
    (\<forall>r \<in> set rows. i < length r \<longrightarrow> length (r ! i) \<le> foldl widen ws rows ! i))"
  using assms
proof (induction rows arbitrary: ws)
  case (Cons r rows)
  then have l: "length r \<le> length ws" "length (widen ws r) = length ws" by (simp_all add: length_widen)
  then have ih: "length (foldl widen (widen ws r) rows) = length ws \<and> (\<forall>i < length ws. widen ws r ! i \<le> foldl widen (widen ws r) rows ! i \<and>
    (\<forall>q \<in> set rows. i < length q \<longrightarrow> length (q ! i) \<le> foldl widen (widen ws r) rows ! i))" using Cons.IH [of "widen ws r"] Cons.prems by simp
  then show ?case using widen_ge [OF l(1)] by (auto intro: order_trans)
qed simp

theorem table_aligned:
  assumes "writeTable rows = Some txt" and "r \<in> set rows" and "k < length r"
  shows "\<exists>left right. renderCells (zip (columnWidths rows) r) = left @ (r ! k) @ right \<and>
    runeCount left = sum_list (map (\<lambda>w. w + 3) (take k (columnWidths rows)))"
proof -
  let ?ws = "columnWidths rows"
  have len: "\<forall>r \<in> set rows. length r \<le> length (hd rows)" using assms(1,2) by (auto simp: writeTable_def list_ex_iff not_less split: if_splits)
  then have w: "length ?ws = length (hd rows)" "\<And>i. i < length r \<Longrightarrow> length (r ! i) \<le> ?ws ! i"
    using widths_ge [of rows "replicate (length (hd rows)) 0"] assms(2) by (auto simp: columnWidths_def)
  have l: "length r \<le> length ?ws" using len assms(2) w(1) by simp
  have "list_all (\<lambda>(w, c). length c \<le> w) (zip ?ws r)" using w(2) l by (auto simp: list_all_iff set_zip)
  then obtain left right where h: "renderCells (zip ?ws r) = left @ snd (zip ?ws r ! k) @ right"
    "runeCount left = (\<Sum>(w, c) \<leftarrow> take k (zip ?ws r). w + 3)" using cell_offset [of "zip ?ws r" k] l assms(3) by auto
  have "(\<Sum>(w, c) \<leftarrow> take k (zip ?ws r). w + 3) = sum_list (map (\<lambda>w. w + 3) (map fst (take k (zip ?ws r))))" by (simp add: case_prod_beta' comp_def)
  also have "map fst (take k (zip ?ws r)) = take k ?ws" using l assms(3) by (simp add: take_zip)
  finally show ?thesis using h l assms(3) by auto
qed

text \<open>The program's own tables have rows of one length, so that they are always printed.\<close>

lemma tables_print: "RenderTable nodes \<noteq> None" "RenderByNode nodes \<noteq> None"
  by (auto simp: RenderTable_def RenderByNode_def writeTable_def tableRow_def nodeRow_def Let_def list_ex_iff)

end
