(* ===== verification/Doctor.thy ===== *)
theory Doctor
  imports Inventory
begin

text \<open>
  The checks of \<open>brewlet doctor\<close> (\<open>src/core/internal/doctor/doctor.go\<close>). \<open>kubectl\<close> is a parameter: a function from the arguments
  to the output and, if the command fails, the text of the error (no command line is run twice). The text of an
  error of \<open>encoding/json\<close> for a document is a parameter too, \<open>je\<close>.
\<close>

section \<open>Package doctor\<close>

datatype Status = Pass | Warn | Fail

record Check =
  ck_Name :: string
  ck_Status :: Status
  ck_Detail :: string
  ck_Remediation :: string

type_synonym Report = "Check list"

definition ReportOK :: "Report \<Rightarrow> bool" where
  "ReportOK r = (\<not> list_ex (\<lambda>check. ck_Status check = Fail) r)"

record DoctorOptions =
  do_Kubeconfig :: string
  do_Context :: string
  do_Namespace :: string

type_synonym Executor = "string list \<Rightarrow> bytes \<times> string option"
type_synonym json_text = "bytes \<Rightarrow> string"

text \<open>\<open>%q\<close>, for a text of printable characters.\<close>

definition quoteGo :: "string \<Rightarrow> string" where
  "quoteGo s = quoteMark # concat (map (\<lambda>c. if c \<in> {quoteMark, backslash} then [backslash, c] else [c]) s) @ [quoteMark]"

definition inventoryError :: "json_text \<Rightarrow> inv_error \<Rightarrow> string" where
  "inventoryError je e =
     (case e of
        BadNodesJSON raw \<Rightarrow> ''parsing kubectl nodes JSON: '' @ je raw
      | BadAnnotation node raw \<Rightarrow> ''node '' @ quoteGo node @ '': parsing '' @ Annotation @ '' annotation: '' @ je raw)"

definition failed :: "string \<Rightarrow> string \<Rightarrow> string \<Rightarrow> Check" where
  "failed name err remediation = \<lparr>ck_Name = name, ck_Status = Fail, ck_Detail = err, ck_Remediation = remediation\<rparr>"

definition passed :: "string \<Rightarrow> string \<Rightarrow> Check" where
  "passed name detail = \<lparr>ck_Name = name, ck_Status = Pass, ck_Detail = detail, ck_Remediation = ''''\<rparr>"

definition commandError :: "bytes \<Rightarrow> string \<Rightarrow> string" where
  "commandError out err = (if TrimSpace out \<noteq> '''' then TrimSpace out else err)"

text \<open>The members of a node that this package decodes.\<close>

record doctorNode =
  dn_Name :: string
  dn_Labels :: stralist
  dn_Unschedulable :: bool
  dn_Taints :: "string list"
  dn_RuntimeVersion :: string

definition decodeTaint :: "json \<Rightarrow> string option" where
  "decodeTaint j = Option.bind (asMembers j) (\<lambda>fs. asString (member fs ''effect''))"

definition decodeDoctorNode :: "json \<Rightarrow> doctorNode option" where
  "decodeDoctorNode j =
     Option.bind (asMembers j) (\<lambda>fs.
     Option.bind (asMembers (member fs ''metadata'')) (\<lambda>meta.
     Option.bind (asString (member meta ''name'')) (\<lambda>name.
     Option.bind (asStrMap (member meta ''labels'')) (\<lambda>labels.
     Option.bind (asMembers (member fs ''spec'')) (\<lambda>spec.
     Option.bind (asBool (member spec ''unschedulable'')) (\<lambda>unschedulable.
     Option.bind (asList decodeTaint (member spec ''taints'')) (\<lambda>taints.
     Option.bind (asMembers (member fs ''status'')) (\<lambda>status.
     Option.bind (asMembers (member status ''nodeInfo'')) (\<lambda>info.
     Option.bind (asString (member info ''containerRuntimeVersion'')) (\<lambda>runtime.
     Some \<lparr>dn_Name = name, dn_Labels = labels, dn_Unschedulable = unschedulable, dn_Taints = taints, dn_RuntimeVersion = runtime\<rparr>))))))))))"

definition decodeDoctorNodes :: "json \<Rightarrow> doctorNode list option" where
  "decodeDoctorNodes j = Option.bind (asMembers j) (\<lambda>fs. asList decodeDoctorNode (member fs ''items''))"

definition blocksScheduling :: "string list \<Rightarrow> bool" where
  "blocksScheduling taints = list_ex (\<lambda>effect. effect = ''NoSchedule'' \<or> effect = ''NoExecute'') taints"

fun countReady :: "doctorNode list \<Rightarrow> nat \<Rightarrow> string list \<Rightarrow> nat \<times> string list" where
  "countReady [] ready incompatible = (ready, incompatible)"
| "countReady (node # rest) ready incompatible =
     (if alget (dn_Labels node) ''brewlet.sh/runtime'' \<noteq> ''ready'' \<or> dn_Unschedulable node \<or> blocksScheduling (dn_Taints node)
      then countReady rest ready incompatible
      else countReady rest (ready + 1)
        (if \<not> HasPrefix (dn_RuntimeVersion node) ''containerd://'' then incompatible @ [dn_Name node] else incompatible))"

definition diagnoseNodes :: "json_text \<Rightarrow> bytes \<Rightarrow> Check \<times> Check" where
  "diagnoseNodes je raw =
     (case Option.bind (parseJson raw) decodeDoctorNodes of
        None \<Rightarrow> (failed ''brewlet-nodes'' (je raw) ''Run kubectl get nodes -o json and inspect the response.'',
                 failed ''jdk-inventory'' ''node inventory unavailable'' '''')
      | Some nodes \<Rightarrow>
        (let (ready, incompatible) = countReady nodes 0 [];
             nodeCheck =
               (if ready = 0 then failed ''brewlet-nodes'' ''no schedulable node has brewlet.sh/runtime=ready'' ''Check the NodeProfile and node-provisioner status.''
                else if length incompatible > 0
                then failed ''brewlet-nodes'' (''Brewlet-ready nodes without containerd: '' @ JoinWith '', '' incompatible) ''Brewlet requires containerd nodes.''
                else passed ''brewlet-nodes'' (Itoa (int ready) @ '' schedulable Brewlet-ready node(s)''))
         in
         case ParseNodes raw of
           Inl e \<Rightarrow> (nodeCheck, failed ''jdk-inventory'' (inventoryError je e) ''Inspect the Brewlet JDK annotations on each node.'')
         | Inr nodeJDKs \<Rightarrow>
             (let jdks = Aggregate nodeJDKs in
              if length jdks = 0
              then (nodeCheck, failed ''jdk-inventory'' ''no Brewlet JDK inventory is advertised'' ''Configure at least one JDK in the active NodeProfile.'')
              else (nodeCheck, passed ''jdk-inventory'' (Itoa (int (length jdks)) @ '' distinct JDK runtime(s) advertised'')))))"

definition kubectlArgs :: "DoctorOptions \<Rightarrow> string list \<Rightarrow> string list" where
  "kubectlArgs opts args =
     (if do_Kubeconfig opts \<noteq> '''' then [''--kubeconfig'', do_Kubeconfig opts] else []) @
     (if do_Context opts \<noteq> '''' then [''--context'', do_Context opts] else []) @ args"

text \<open>A check that passes with the output of a command and fails with its error.\<close>

definition outputCheck :: "string \<Rightarrow> string \<Rightarrow> bytes \<times> string option \<Rightarrow> Check" where
  "outputCheck name remediation res =
     (case snd res of Some err \<Rightarrow> failed name (commandError (fst res) err) remediation | None \<Rightarrow> passed name (TrimSpace (fst res)))"

definition nodeChecks :: "json_text \<Rightarrow> bytes \<times> string option \<Rightarrow> Check list" where
  "nodeChecks je res =
     (case snd res of
        Some err \<Rightarrow> [failed ''brewlet-nodes'' (commandError (fst res) err) ''Grant node read access or ask Ops to run brewlet doctor.'']
      | None \<Rightarrow> (case diagnoseNodes je (fst res) of (nodeCheck, inventoryCheck) \<Rightarrow> [nodeCheck, inventoryCheck]))"

definition rbacCheck :: "string \<Rightarrow> bytes \<times> string option \<Rightarrow> Check" where
  "rbacCheck namespace res =
     (case snd res of
        Some err \<Rightarrow> failed ''developer-rbac'' (commandError (fst res) err) ''Ask Ops for permission to create JavaApplication resources in the target namespace.''
      | None \<Rightarrow>
          if TrimSpace (fst res) \<noteq> ''yes''
          then failed ''developer-rbac'' (''cannot create JavaApplication resources in namespace '' @ quoteGo namespace) ''Ask Ops for the application-developer role in this namespace.''
          else passed ''developer-rbac'' (''can create JavaApplication resources in namespace '' @ quoteGo namespace))"

definition RunDoctor :: "json_text \<Rightarrow> Executor \<Rightarrow> DoctorOptions \<Rightarrow> Report" where
  "RunDoctor je exec opts0 =
     (let opts = (if do_Namespace opts0 = '''' then opts0\<lparr>do_Namespace := ''default''\<rparr> else opts0);
          run = (\<lambda>args. exec (kubectlArgs opts args));
          (contextOut, contextErr) = run [''config'', ''current-context'']
      in case contextErr of
           Some err \<Rightarrow> [failed ''cluster-context'' err ''Install kubectl and select a valid Kubernetes context.'']
         | None \<Rightarrow>
             (let contextCheck = passed ''cluster-context'' (if do_Context opts \<noteq> '''' then do_Context opts else TrimSpace contextOut);
                  ready = run [''get'', ''--raw=/readyz''];
                  apiCheck = outputCheck ''api-server'' ''Check cluster connectivity and kubeconfig credentials.'' ready
              in if snd ready \<noteq> None then [contextCheck, apiCheck]
                 else [contextCheck, apiCheck,
                   outputCheck ''runtimeclass'' ''Ask the platform team to install Brewlet and create RuntimeClass brewlet.''
                     (run [''get'', ''runtimeclass'', ''brewlet'', ''-o'', ''name'']),
                   outputCheck ''javaapplication-crd'' ''Install or upgrade the Brewlet Helm chart.''
                     (run [''get'', ''crd'', ''javaapplications.apps.brewlet.sh'', ''-o'', ''name''])] @
                   nodeChecks je (run [''get'', ''nodes'', ''-o'', ''json'']) @
                   [rbacCheck (do_Namespace opts)
                     (run [''auth'', ''can-i'', ''create'', ''javaapplications.apps.brewlet.sh'', ''-n'', do_Namespace opts])]))"

section \<open>What a clean report means\<close>

text \<open>A node that can run workloads: provisioned, not cordoned and without a taint that keeps pods off.\<close>

definition usableNode :: "doctorNode \<Rightarrow> bool" where
  "usableNode n \<longleftrightarrow> alget (dn_Labels n) ''brewlet.sh/runtime'' = ''ready'' \<and> \<not> dn_Unschedulable n \<and>
     ''NoSchedule'' \<notin> set (dn_Taints n) \<and> ''NoExecute'' \<notin> set (dn_Taints n)"

definition clusterReady :: "Executor \<Rightarrow> DoctorOptions \<Rightarrow> bool" where
  "clusterReady exec opts \<longleftrightarrow>
     (let ok = (\<lambda>args. snd (exec (kubectlArgs opts args)) = None); out = (\<lambda>args. fst (exec (kubectlArgs opts args)));
          canI = [''auth'', ''can-i'', ''create'', ''javaapplications.apps.brewlet.sh'', ''-n'', orDefault (do_Namespace opts) ''default''];
          getNodes = [''get'', ''nodes'', ''-o'', ''json''] in
      ok [''config'', ''current-context''] \<and> ok [''get'', ''--raw=/readyz''] \<and>
      ok [''get'', ''runtimeclass'', ''brewlet'', ''-o'', ''name''] \<and> ok [''get'', ''crd'', ''javaapplications.apps.brewlet.sh'', ''-o'', ''name''] \<and>
      ok getNodes \<and> ok canI \<and> TrimSpace (out canI) = ''yes'' \<and>
      (\<exists>nodes jdks. Option.bind (parseJson (out getNodes)) decodeDoctorNodes = Some nodes \<and> ParseNodes (out getNodes) = Inr jdks \<and>
        filter usableNode nodes \<noteq> [] \<and> list_all (\<lambda>n. HasPrefix (dn_RuntimeVersion n) ''containerd://'') (filter usableNode nodes) \<and> jdks \<noteq> []))"

lemma countReady_filter:
  "countReady nodes r inc = (r + length (filter usableNode nodes),
     inc @ map dn_Name (filter (\<lambda>n. \<not> HasPrefix (dn_RuntimeVersion n) ''containerd://'') (filter usableNode nodes)))"
  by (induction nodes arbitrary: r inc) (auto simp: usableNode_def blocksScheduling_def list_ex_iff)

lemma parseItems_nonempty: "parseItems items = Inr out \<Longrightarrow> n \<in> set out \<Longrightarrow> nj_JDKs n \<noteq> []"
  by (induction items arbitrary: out) (auto split: sum.splits if_splits)

lemma Aggregate_Nil: "Aggregate nodes = [] \<longleftrightarrow> advertised nodes = []"
proof -
  have "Aggregate nodes = [] \<longleftrightarrow> fst ` set (byKey nodes) = {}"
    unfolding Aggregate_sort set_empty [symmetric] set_sort set_map image_is_empty by (rule refl)
  then show ?thesis using byKey_invariant [of nodes] by simp
qed

lemma inventory_Nil: "ParseNodes raw = Inr out \<Longrightarrow> Aggregate out = [] \<longleftrightarrow> out = []"
proof -
  assume "ParseNodes raw = Inr out"
  then obtain items where "parseItems items = Inr out" by (auto simp: ParseNodes_def split: option.splits)
  then show ?thesis using parseItems_nonempty unfolding Aggregate_Nil by (auto simp: advertised_def)
qed

lemma status_simps [simp]: "ck_Status (failed n e r) = Fail" "ck_Status (passed n d) = Pass"
  by (simp_all add: failed_def passed_def)

lemma outputCheck_fails: "ck_Status (outputCheck n r res) = Fail \<longleftrightarrow> snd res \<noteq> None"
  by (auto simp: outputCheck_def split: option.split)

lemma rbacCheck_fails: "ck_Status (rbacCheck ns res) = Fail \<longleftrightarrow> snd res \<noteq> None \<or> TrimSpace (fst res) \<noteq> ''yes''"
  by (auto simp: rbacCheck_def split: option.split)

lemma nodeChecks_pass:
  "ReportOK (nodeChecks je res) \<longleftrightarrow> snd res = None \<and>
   (\<exists>nodes jdks. Option.bind (parseJson (fst res)) decodeDoctorNodes = Some nodes \<and> ParseNodes (fst res) = Inr jdks \<and>
        filter usableNode nodes \<noteq> [] \<and> list_all (\<lambda>n. HasPrefix (dn_RuntimeVersion n) ''containerd://'') (filter usableNode nodes) \<and> jdks \<noteq> [])"
proof (cases "Option.bind (parseJson (fst res)) decodeDoctorNodes")
  case (Some nodes)
  then show ?thesis
    using inventory_Nil [of "fst res"]
    by (cases "ParseNodes (fst res)")
      (auto simp: ReportOK_def nodeChecks_def diagnoseNodes_def countReady_filter Let_def filter_empty_conv list_all_iff split: option.split)
qed (auto simp: ReportOK_def nodeChecks_def diagnoseNodes_def split: option.split)

lemma ReportOK_simps: "ReportOK []" "ReportOK (c # r) \<longleftrightarrow> ck_Status c \<noteq> Fail \<and> ReportOK r" "ReportOK (r @ q) \<longleftrightarrow> ReportOK r \<and> ReportOK q"
  by (simp_all add: ReportOK_def)

text \<open>C39: The doctor reports no failure for exactly the clusters that are ready: there is a context, the API server answers, the
  RuntimeClass and the CRD exist, the nodes can be read, at least one node is provisioned, schedulable and free of
  NoSchedule and NoExecute taints, all such nodes run containerd, some node advertises a JDK, and the user may create JavaApplications in the
  namespace (\<open>default\<close> if none is given).\<close>

theorem doctor_ok_iff: "ReportOK (RunDoctor je exec opts) \<longleftrightarrow> clusterReady exec opts"
proof -
  define o' where "o' = (if do_Namespace opts = '''' then opts\<lparr>do_Namespace := ''default''\<rparr> else opts)"
  have o': "do_Namespace o' = orDefault (do_Namespace opts) ''default''" "kubectlArgs o' = kubectlArgs opts"
    by (auto simp: o'_def orDefault_def kubectlArgs_def)
  obtain out err where c: "exec (kubectlArgs opts [''config'', ''current-context'']) = (out, err)" by fastforce
  show ?thesis unfolding RunDoctor_def o'_def [symmetric] Let_def o' c prod.case clusterReady_def
    by (cases err) (simp_all add: c ReportOK_simps outputCheck_fails rbacCheck_fails nodeChecks_pass conj_ac)
qed

end
