(* ===== verification/Supply_Chain.thy ===== *)
theory Supply_Chain
  imports Attest
begin

text \<open>
  Supply-chain evidence in the store (\<open>src/core/internal/artifact/supply_chain.go\<close>): the CycloneDX document of a
  dependency bundle, referrer manifests and their discovery, and publishing and verifying the evidence of a
  bundle and of an image. A referrer is found through the index of the layout; a descriptor that does not lead to
  a valid referrer is skipped by the search and counted by \<open>referrerDescriptorCount\<close>. The store hashes with the
  \<open>cr_sha\<close> of the record \<open>crypto\<close>.
\<close>

section \<open>Data\<close>

definition OCIEmptyConfigMediaType :: string where "OCIEmptyConfigMediaType = ''application/vnd.oci.empty.v1+json''"
definition CycloneDXMediaType :: string where "CycloneDXMediaType = ''application/vnd.cyclonedx+json''"
definition ReferrerSubjectAnnotation :: string where "ReferrerSubjectAnnotation = ''brewlet.sh/referrer-subject''"

record CycloneDXHash =
  ch_Algorithm :: string
  ch_Content :: string

record CycloneDXItem =
  ci_Type :: string
  ci_Group :: string
  ci_Name :: string
  ci_Version :: string
  ci_PURL :: string
  ci_Hashes :: "CycloneDXHash list"

record CycloneDXComponent =
  cc_Type :: string
  cc_Name :: string
  cc_Version :: string

record CycloneDXBOM =
  cb_BOMFormat :: string
  cb_SpecVersion :: string
  cb_Version :: int
  cb_Component :: CycloneDXComponent
  cb_Components :: "CycloneDXItem list"

record VerifiedBundleSupplyChain =
  vb_SBOMDigest :: string
  vb_BuilderIdentity :: string
  vb_Signed :: bool

record Referrer =
  rf_Descriptor :: Descriptor
  rf_Manifest :: Manifest
  rf_Document :: bytes

datatype chain_error =
    ChainStore store_error
  | ChainBundle bundle_error
  | ChainAttest attest_error
  | SubjectNotIndexed string
  | ReferrerMediaType
  | ReferrerUndecodable
  | ReferrerContract
  | ReferrerEmptyConfig
  | ReferrerLayerType
  | NoBuilderIdentity
  | SBOMCount nat nat
  | SBOMUndecodable
  | SBOMMetadata
  | SBOMComponent string string string
  | SBOMMissing
  | ProvenanceInvalid nat
  | TrustRequired
  | ProvenanceUndecodable
  | ProvenanceBindings
  | NoTrustedProvenance chain_error
  | NoMatchingProvenance
  | NoTrustedAttestation chain_error
  | AttestationMissing

section \<open>The bill of materials\<close>

text \<open>\<open>url.QueryEscape\<close>: unreserved bytes stay, a space becomes a plus sign, every other byte is escaped with two
  upper-case hexadecimal digits.\<close>

definition unreserved :: "char \<Rightarrow> bool" where
  "unreserved c =
     (let n = (of_char c :: nat) in
      is_digit c \<or> (65 \<le> n \<and> n \<le> 90) \<or> (97 \<le> n \<and> n \<le> 122) \<or> c \<in> set ''-_.~'')"

definition upperHex :: "nat \<Rightarrow> char" where
  "upperHex n = ''0123456789ABCDEF'' ! n"

definition escapeByte :: "char \<Rightarrow> string" where
  "escapeByte c =
     (if unreserved c then [c]
      else if c = CHR '' '' then ''+''
      else [CHR ''%'', upperHex (of_char c div 16), upperHex (of_char c mod 16)])"

definition QueryEscape :: "string \<Rightarrow> string" where
  "QueryEscape s = concat (map escapeByte s)"

definition purlEscape :: "string \<Rightarrow> string" where
  "purlEscape value = concat (map (\<lambda>c. if c = CHR ''+'' then ''%20'' else [c]) (QueryEscape value))"

definition mavenPURL :: "DependencyLockEntry \<Rightarrow> string" where
  "mavenPURL entry =
     (let qualifiers = (if le_Type entry \<noteq> ''jar'' then [''type='' @ purlEscape (le_Type entry)] else []) @
                       (if le_Classifier entry \<noteq> '''' then [''classifier='' @ purlEscape (le_Classifier entry)] else [])
      in ''pkg:maven/'' @ purlEscape (le_GroupID entry) @ ''/'' @ purlEscape (le_ArtifactID entry) @ ''@'' @
         purlEscape (le_Version entry) @ (if qualifiers \<noteq> [] then ''?'' @ JoinWith ''&'' qualifiers else ''''))"

definition sbomItem :: "DependencyLockEntry \<Rightarrow> CycloneDXItem" where
  "sbomItem entry =
     \<lparr>ci_Type = ''library'', ci_Group = le_GroupID entry, ci_Name = le_ArtifactID entry, ci_Version = le_Version entry,
      ci_PURL = mavenPURL entry, ci_Hashes = [\<lparr>ch_Algorithm = ''SHA-256'', ch_Content = le_SHA256 entry\<rparr>]\<rparr>"

definition encodeItem :: "CycloneDXItem \<Rightarrow> json" where
  "encodeItem i =
     JObj [(''type'', JStr (ci_Type i)), (''group'', JStr (ci_Group i)), (''name'', JStr (ci_Name i)), (''version'', JStr (ci_Version i)),
       (''purl'', JStr (ci_PURL i)),
       (''hashes'', JArr (map (\<lambda>h. JObj [(''alg'', JStr (ch_Algorithm h)), (''content'', JStr (ch_Content h))]) (ci_Hashes i)))]"

definition encodeBOM :: "CycloneDXBOM \<Rightarrow> json" where
  "encodeBOM b =
     JObj [(''bomFormat'', JStr (cb_BOMFormat b)), (''specVersion'', JStr (cb_SpecVersion b)), (''version'', jint (cb_Version b)),
       (''metadata'', JObj [(''component'',
          JObj [(''type'', JStr (cc_Type (cb_Component b))), (''name'', JStr (cc_Name (cb_Component b))),
                (''version'', JStr (cc_Version (cb_Component b)))])]),
       (''components'', JArr (map encodeItem (cb_Components b)))]"

definition decodeHash :: "json \<Rightarrow> CycloneDXHash option" where
  "decodeHash j =
     Option.bind (asMembers j) (\<lambda>fs.
     Option.bind (asString (member fs ''alg'')) (\<lambda>a.
     Option.bind (asString (member fs ''content'')) (\<lambda>c.
     Some \<lparr>ch_Algorithm = a, ch_Content = c\<rparr>)))"

definition decodeItem :: "json \<Rightarrow> CycloneDXItem option" where
  "decodeItem j =
     Option.bind (asMembers j) (\<lambda>fs.
     Option.bind (asString (member fs ''type'')) (\<lambda>t.
     Option.bind (asString (member fs ''group'')) (\<lambda>g.
     Option.bind (asString (member fs ''name'')) (\<lambda>n.
     Option.bind (asString (member fs ''version'')) (\<lambda>v.
     Option.bind (asString (member fs ''purl'')) (\<lambda>p.
     Option.bind (asList decodeHash (member fs ''hashes'')) (\<lambda>hs.
     Some \<lparr>ci_Type = t, ci_Group = g, ci_Name = n, ci_Version = v, ci_PURL = p, ci_Hashes = hs\<rparr>)))))))"

definition decodeComponent :: "json \<Rightarrow> CycloneDXComponent option" where
  "decodeComponent j =
     Option.bind (asMembers j) (\<lambda>fs.
     Option.bind (asString (member fs ''type'')) (\<lambda>t.
     Option.bind (asString (member fs ''name'')) (\<lambda>n.
     Option.bind (asString (member fs ''version'')) (\<lambda>v.
     Some \<lparr>cc_Type = t, cc_Name = n, cc_Version = v\<rparr>))))"

definition decodeBOM :: "json \<Rightarrow> CycloneDXBOM option" where
  "decodeBOM j =
     Option.bind (asMembers j) (\<lambda>fs.
     Option.bind (asString (member fs ''bomFormat'')) (\<lambda>f.
     Option.bind (asString (member fs ''specVersion'')) (\<lambda>s.
     Option.bind (asInt (member fs ''version'')) (\<lambda>v.
     Option.bind (asMembers (member fs ''metadata'')) (\<lambda>ms.
     Option.bind (decodeComponent (member ms ''component'')) (\<lambda>c.
     Option.bind (asList decodeItem (member fs ''components'')) (\<lambda>is.
     Some \<lparr>cb_BOMFormat = f, cb_SpecVersion = s, cb_Version = v, cb_Component = c, cb_Components = is\<rparr>)))))))"

definition bomOf :: "DependencyLock \<Rightarrow> DependencyBundleConfig \<Rightarrow> CycloneDXBOM" where
  "bomOf lock cfg =
     \<lparr>cb_BOMFormat = ''CycloneDX'', cb_SpecVersion = ''1.5'', cb_Version = 1,
      cb_Component = \<lparr>cc_Type = ''library'', cc_Name = bc_Name cfg, cc_Version = bc_Version cfg\<rparr>,
      cb_Components = map sbomItem (lk_Artifacts lock)\<rparr>"

definition GenerateCycloneDX :: "DependencyLock \<Rightarrow> DependencyBundleConfig \<Rightarrow> chain_error + bytes" where
  "GenerateCycloneDX lock cfg =
     (case ValidateLock lock of Some e \<Rightarrow> Inl (ChainBundle e) | None \<Rightarrow> Inr (Marshal (encodeBOM (bomOf lock cfg))))"

text \<open>The entries still expected are a Go map by package URL; an accepted component deletes its entry.\<close>

type_synonym expected = "(string \<times> DependencyLockEntry) list"

definition itemMatches :: "CycloneDXItem \<Rightarrow> DependencyLockEntry \<Rightarrow> bool" where
  "itemMatches component entry \<longleftrightarrow>
     ci_Group component = le_GroupID entry \<and> ci_Name component = le_ArtifactID entry \<and> ci_Version component = le_Version entry \<and>
     ci_Hashes component = [\<lparr>ch_Algorithm = ''SHA-256'', ch_Content = le_SHA256 entry\<rparr>]"

fun checkComponents :: "expected \<Rightarrow> CycloneDXItem list \<Rightarrow> chain_error + expected" where
  "checkComponents expected [] = Inr expected"
| "checkComponents expected (component # rest) =
     (case map_of expected (ci_PURL component) of
        Some entry \<Rightarrow>
          if itemMatches component entry then checkComponents (filter (\<lambda>(k, _). k \<noteq> ci_PURL component) expected) rest
          else Inl (SBOMComponent (ci_Group component) (ci_Name component) (ci_Version component))
      | None \<Rightarrow> Inl (SBOMComponent (ci_Group component) (ci_Name component) (ci_Version component)))"

definition validateCycloneDX :: "bytes \<Rightarrow> DependencyLock \<Rightarrow> DependencyBundleConfig \<Rightarrow> chain_error option" where
  "validateCycloneDX raw lock cfg =
     (case Option.bind (parseJson raw) decodeBOM of None \<Rightarrow> Some SBOMUndecodable
      | Some sbom \<Rightarrow>
          if cb_BOMFormat sbom \<noteq> ''CycloneDX'' \<or> cb_SpecVersion sbom \<noteq> ''1.5'' \<or> cb_Version sbom \<noteq> 1 \<or>
             cc_Name (cb_Component sbom) \<noteq> bc_Name cfg \<or> cc_Version (cb_Component sbom) \<noteq> bc_Version cfg \<or>
             length (cb_Components sbom) \<noteq> length (lk_Artifacts lock) then Some SBOMMetadata
          else
            (case checkComponents (lastWins (map (\<lambda>entry. (mavenPURL entry, entry)) (lk_Artifacts lock))) (cb_Components sbom) of
               Inl e \<Rightarrow> Some e
             | Inr expected \<Rightarrow> if expected \<noteq> [] then Some SBOMMissing else None))"

section \<open>Referrers\<close>

definition referrerManifest :: "Descriptor \<Rightarrow> string \<Rightarrow> Descriptor \<Rightarrow> Descriptor \<Rightarrow> stralist \<Rightarrow> Manifest" where
  "referrerManifest subject artifactType emptyDesc documentDesc annotations =
     \<lparr>m_SchemaVersion = 2, m_MediaType = ociManifestMediaType, m_ArtifactType = artifactType,
      m_Subject = Some (emptyDescriptor\<lparr>d_MediaType := d_MediaType subject, d_Digest := d_Digest subject, d_Size := d_Size subject\<rparr>),
      m_Config = emptyDesc, m_Layers = [documentDesc], m_Annotations = annotations\<rparr>"

definition referrerAnnotations :: "Descriptor \<Rightarrow> stralist \<Rightarrow> stralist" where
  "referrerAnnotations subject annotations =
     (let predicate = alget annotations PredicateTypeAnnotation in
      goMap ([(ReferrerSubjectAnnotation, d_Digest subject)] @ (if predicate \<noteq> '''' then [(PredicateTypeAnnotation, predicate)] else [])))"

definition PublishReferrer ::
  "(bytes \<Rightarrow> string) \<Rightarrow> disk \<Rightarrow> string \<Rightarrow> Descriptor \<Rightarrow> string \<Rightarrow> string \<Rightarrow> bytes \<Rightarrow> stralist \<Rightarrow> (chain_error, Descriptor) fsm" where
  "PublishReferrer sha dk root subject artifactType layerMediaType document annotations =
     mapErrF ChainStore
     (bindF (writeBlob sha dk root ''{}'') (\<lambda>emptyDesc.
      bindF (writeBlob sha dk root document) (\<lambda>documentDesc.
      let manifest = referrerManifest subject artifactType (emptyDesc\<lparr>d_MediaType := OCIEmptyConfigMediaType\<rparr>)
            (documentDesc\<lparr>d_MediaType := layerMediaType\<rparr>) annotations in
      bindF (writeBlob sha dk root (Marshal (encodeManifest manifest))) (\<lambda>d.
      let desc = d\<lparr>d_MediaType := ociManifestMediaType, d_ArtifactType := artifactType,
            d_Annotations := referrerAnnotations subject annotations\<rparr> in
      thenF (appendIndex dk root desc) (thenF (writeLayoutMarker dk root) (retF desc))))))"

definition readReferrer :: "(bytes \<Rightarrow> string) \<Rightarrow> string \<Rightarrow> fsys \<Rightarrow> Descriptor \<Rightarrow> Descriptor \<Rightarrow> chain_error + Referrer" where
  "readReferrer sha root fs desc subject =
     (if d_MediaType desc \<noteq> ociManifestMediaType then Inl ReferrerMediaType
      else
        (case readVerifiedBlob sha (BlobPath root) fs desc of Inl e \<Rightarrow> Inl (ChainStore e)
         | Inr raw \<Rightarrow>
           (case decodeStrict (decodeManifest True) raw of None \<Rightarrow> Inl ReferrerUndecodable
            | Some manifest \<Rightarrow>
              (case m_Subject manifest of None \<Rightarrow> Inl ReferrerContract
               | Some s \<Rightarrow>
                   if m_SchemaVersion manifest \<noteq> 2 \<or> m_MediaType manifest \<noteq> ociManifestMediaType \<or>
                      m_ArtifactType manifest \<noteq> d_ArtifactType desc \<or> d_MediaType s \<noteq> d_MediaType subject \<or>
                      d_Digest s \<noteq> d_Digest subject \<or> d_Size s \<noteq> d_Size subject \<or>
                      d_MediaType (m_Config manifest) \<noteq> OCIEmptyConfigMediaType \<or> length (m_Layers manifest) \<noteq> 1 then Inl ReferrerContract
                   else
                     (case readVerifiedBlob sha (BlobPath root) fs (m_Config manifest) of
                        Inl e \<Rightarrow> Inl (case e of DigestTooShort _ \<Rightarrow> ChainStore e | _ \<Rightarrow> ReferrerEmptyConfig)
                      | Inr emptyRaw \<Rightarrow>
                          if emptyRaw \<noteq> ''{}'' then Inl ReferrerEmptyConfig
                          else if d_MediaType (hd (m_Layers manifest)) \<noteq>
                              (if m_ArtifactType manifest = CycloneDXMediaType then CycloneDXMediaType else DSSEEnvelopeMediaType)
                            then Inl ReferrerLayerType
                          else
                            (case readVerifiedBlob sha (BlobPath root) fs (hd (m_Layers manifest)) of Inl e \<Rightarrow> Inl (ChainStore e)
                             | Inr document \<Rightarrow>
                                 Inr \<lparr>rf_Descriptor = desc, rf_Manifest = manifest, rf_Document = document\<rparr>))))))"

text \<open>The searches skip a descriptor whose referrer cannot be read, but the panic on a digest that is too short to be
  cut is not an error value and ends them.\<close>

fun panics :: "chain_error \<Rightarrow> bool" where
  "panics (ChainStore (DigestTooShort d)) = True"
| "panics _ = False"

definition findSubject :: "Index \<Rightarrow> string \<Rightarrow> chain_error + Descriptor" where
  "findSubject idx subjectDigest =
     (case find (\<lambda>desc. d_Digest desc = subjectDigest) (x_Manifests idx) of
        None \<Rightarrow> Inl (SubjectNotIndexed subjectDigest)
      | Some subject \<Rightarrow> if d_Digest subject = '''' then Inl (SubjectNotIndexed subjectDigest) else Inr subject)"

fun readReferrers :: "(bytes \<Rightarrow> string) \<Rightarrow> string \<Rightarrow> fsys \<Rightarrow> Descriptor \<Rightarrow> string \<Rightarrow> string \<Rightarrow> Descriptor list \<Rightarrow> chain_error + Referrer list" where
  "readReferrers sha root fs subject subjectDigest artifactType [] = Inr []"
| "readReferrers sha root fs subject subjectDigest artifactType (desc # rest) =
     (if artifactType \<noteq> '''' \<and> d_ArtifactType desc \<noteq> artifactType then readReferrers sha root fs subject subjectDigest artifactType rest
      else
        (case readReferrer sha root fs desc subject of
           Inl e \<Rightarrow> if panics e then Inl e else readReferrers sha root fs subject subjectDigest artifactType rest
         | Inr referrer \<Rightarrow>
             (case m_Subject (rf_Manifest referrer) of
                None \<Rightarrow> readReferrers sha root fs subject subjectDigest artifactType rest
              | Some s \<Rightarrow>
                  if d_Digest s \<noteq> subjectDigest then readReferrers sha root fs subject subjectDigest artifactType rest
                  else (case readReferrers sha root fs subject subjectDigest artifactType rest of
                          Inl e \<Rightarrow> Inl e | Inr out \<Rightarrow> Inr (referrer # out)))))"

definition Referrers :: "(bytes \<Rightarrow> string) \<Rightarrow> string \<Rightarrow> fsys \<Rightarrow> string \<Rightarrow> string \<Rightarrow> chain_error + Referrer list" where
  "Referrers sha root fs subjectDigest artifactType =
     (case readIndex root fs of Inl e \<Rightarrow> Inl (ChainStore e)
      | Inr idx \<Rightarrow>
        (case findSubject idx subjectDigest of Inl e \<Rightarrow> Inl e
         | Inr subject \<Rightarrow> readReferrers sha root fs subject subjectDigest artifactType (x_Manifests idx)))"

fun countReferrers :: "(bytes \<Rightarrow> string) \<Rightarrow> string \<Rightarrow> fsys \<Rightarrow> Descriptor \<Rightarrow> string \<Rightarrow> string \<Rightarrow> nat \<Rightarrow> Descriptor list \<Rightarrow> chain_error + nat" where
  "countReferrers sha root fs subject subjectDigest artifactType n [] = Inr n"
| "countReferrers sha root fs subject subjectDigest artifactType n (desc # rest) =
     (if artifactType \<noteq> '''' \<and> d_ArtifactType desc \<noteq> artifactType
      then countReferrers sha root fs subject subjectDigest artifactType n rest
      else if alget (d_Annotations desc) ReferrerSubjectAnnotation = subjectDigest
      then countReferrers sha root fs subject subjectDigest artifactType (n + 1) rest
      else
        (case readReferrer sha root fs desc subject of
           Inl e \<Rightarrow> if panics e then Inl e else countReferrers sha root fs subject subjectDigest artifactType n rest
         | Inr _ \<Rightarrow> countReferrers sha root fs subject subjectDigest artifactType (n + 1) rest))"

definition referrerDescriptorCount :: "(bytes \<Rightarrow> string) \<Rightarrow> string \<Rightarrow> fsys \<Rightarrow> string \<Rightarrow> string \<Rightarrow> chain_error + nat" where
  "referrerDescriptorCount sha root fs subjectDigest artifactType =
     (case readIndex root fs of Inl e \<Rightarrow> Inl (ChainStore e)
      | Inr idx \<Rightarrow>
        (case findSubject idx subjectDigest of Inl e \<Rightarrow> Inl e
         | Inr subject \<Rightarrow> countReferrers sha root fs subject subjectDigest artifactType 0 (x_Manifests idx)))"

section \<open>The evidence of a bundle\<close>

definition publishBundleSBOM ::
  "(bytes \<Rightarrow> string) \<Rightarrow> disk \<Rightarrow> string \<Rightarrow> Descriptor \<Rightarrow> DependencyBundleConfig \<Rightarrow> DependencyLock \<Rightarrow> (chain_error, bytes \<times> string) fsm" where
  "publishBundleSBOM sha dk root b cfg lock =
     bindF (liftF (GenerateCycloneDX lock cfg)) (\<lambda>sbom.
     bindF (PublishReferrer sha dk root b CycloneDXMediaType CycloneDXMediaType sbom []) (\<lambda>_.
     retF (sbom, digestOf sha sbom)))"

definition PublishBundleSBOM ::
  "(bytes \<Rightarrow> string) \<Rightarrow> disk \<Rightarrow> string \<Rightarrow> Descriptor \<Rightarrow> DependencyBundleConfig \<Rightarrow> DependencyLock \<Rightarrow> (chain_error, string) fsm" where
  "PublishBundleSBOM sha dk root b cfg lock = bindF (publishBundleSBOM sha dk root b cfg lock) (\<lambda>(_, sbomDigest). retF sbomDigest)"

definition bundleProvenance :: "Descriptor \<Rightarrow> DependencyBundleConfig \<Rightarrow> string \<Rightarrow> string \<Rightarrow> BundleProvenance" where
  "bundleProvenance b cfg sbomDigest identity =
     \<lparr>bp_SchemaVersion = 1, bp_DependencyBundleDigest = d_Digest b, bp_DependencyLayerDigest = bc_LayerDigest cfg,
      bp_DependencyLockDigest = bc_LockDigest cfg, bp_SBOMDigest = sbomDigest, bp_SourceBOM = bc_SourceBOM cfg,
      bp_BuilderIdentity = identity\<rparr>"

definition attestF :: "attest_error + 'a \<Rightarrow> (chain_error, 'a) fsm" where
  "attestF r = liftF (case r of Inl e \<Rightarrow> Inl (ChainAttest e) | Inr a \<Rightarrow> Inr a)"

definition PublishBundleSupplyChain ::
  "crypto \<Rightarrow> disk \<Rightarrow> string \<Rightarrow> Descriptor \<Rightarrow> DependencyBundleConfig \<Rightarrow> DependencyLock \<Rightarrow> privkey \<Rightarrow> string \<Rightarrow> (chain_error, string) fsm" where
  "PublishBundleSupplyChain c dk root b cfg lock key identity =
     (if TrimSpace identity = '''' then failF NoBuilderIdentity
      else
        bindF (publishBundleSBOM (cr_sha c) dk root b cfg lock) (\<lambda>(sbom, sbomDigest).
        bindF (attestF (SignStatement c (NewStatement ''dependency-bundle'' (d_Digest b) BundlePredicateType
                 (encodeProvenance (bundleProvenance b cfg sbomDigest identity))) key)) (\<lambda>envelope.
        bindF (PublishReferrer (cr_sha c) dk root b AttestationArtifactType DSSEEnvelopeMediaType envelope
                 [(PredicateTypeAnnotation, BundlePredicateType)]) (\<lambda>_.
        retF (digestOf (cr_sha c) sbom)))))"

text \<open>Both verifiers run through the attestations of their predicate type and return the first that passes, or the last
  failure.\<close>

fun firstTrusted :: "string \<Rightarrow> (bytes \<Rightarrow> chain_error + 'a) \<Rightarrow> chain_error option \<Rightarrow> Referrer list \<Rightarrow> chain_error option + 'a" where
  "firstTrusted predicateType check verificationErr [] = Inl verificationErr"
| "firstTrusted predicateType check verificationErr (attestation # rest) =
     (if alget (m_Annotations (rf_Manifest attestation)) PredicateTypeAnnotation \<noteq> predicateType
      then firstTrusted predicateType check verificationErr rest
      else
        (case check (rf_Document attestation) of
           Inl e \<Rightarrow> firstTrusted predicateType check (Some e) rest
         | Inr a \<Rightarrow> Inr a))"

definition checkProvenance ::
  "crypto \<Rightarrow> (string \<Rightarrow> string option) \<Rightarrow> ResolvedDependencyBundle \<Rightarrow> string \<Rightarrow> pubkey \<Rightarrow> string \<Rightarrow> bytes \<Rightarrow> chain_error + BundleProvenance" where
  "checkProvenance c fl b sbomDigest key identity document =
     (case VerifyStatement c fl document key BundlePredicateType (rd_ManifestDigest b) of Inl e \<Rightarrow> Inl (ChainAttest e)
      | Inr statement \<Rightarrow>
        (case decodeStrict decodeProvenance (Marshal (st_Predicate statement)) of None \<Rightarrow> Inl ProvenanceUndecodable
         | Some predicate \<Rightarrow>
             if bp_SchemaVersion predicate \<noteq> 1 \<or> bp_BuilderIdentity predicate \<noteq> identity \<or>
                bp_DependencyBundleDigest predicate \<noteq> rd_ManifestDigest b \<or>
                bp_DependencyLayerDigest predicate \<noteq> bc_LayerDigest (rd_Config b) \<or>
                bp_DependencyLockDigest predicate \<noteq> bc_LockDigest (rd_Config b) \<or>
                bp_SBOMDigest predicate \<noteq> sbomDigest \<or> bp_SourceBOM predicate \<noteq> bc_SourceBOM (rd_Config b)
             then Inl ProvenanceBindings else Inr predicate))"

definition VerifyBundleSupplyChain ::
  "crypto \<Rightarrow> (string \<Rightarrow> string option) \<Rightarrow> string \<Rightarrow> fsys \<Rightarrow> ResolvedDependencyBundle \<Rightarrow> pubkey option \<Rightarrow> string \<Rightarrow>
   chain_error + VerifiedBundleSupplyChain" where
  "VerifyBundleSupplyChain c fl root fs b key identity =
     (case referrerDescriptorCount (cr_sha c) root fs (rd_ManifestDigest b) CycloneDXMediaType of Inl e \<Rightarrow> Inl e
      | Inr sbomCount \<Rightarrow>
     (case Referrers (cr_sha c) root fs (rd_ManifestDigest b) CycloneDXMediaType of Inl e \<Rightarrow> Inl e
      | Inr sboms \<Rightarrow>
     if sbomCount \<noteq> 1 \<or> length sboms \<noteq> 1 then Inl (SBOMCount sbomCount (length sboms)) else
     (case validateCycloneDX (rf_Document (hd sboms)) (rd_Lock b) (rd_Config b) of Some e \<Rightarrow> Inl e
      | None \<Rightarrow>
     (let sbomDigest = digestOf (cr_sha c) (rf_Document (hd sboms)) in
      case Referrers (cr_sha c) root fs (rd_ManifestDigest b) AttestationArtifactType of Inl e \<Rightarrow> Inl e
      | Inr attestations \<Rightarrow>
     if attestations = [] then
       (case referrerDescriptorCount (cr_sha c) root fs (rd_ManifestDigest b) AttestationArtifactType of Inl e \<Rightarrow> Inl e
        | Inr n \<Rightarrow>
            if n \<noteq> 0 then Inl (ProvenanceInvalid n)
            else Inr \<lparr>vb_SBOMDigest = sbomDigest, vb_BuilderIdentity = '''', vb_Signed = False\<rparr>)
     else
       (case key of None \<Rightarrow> Inl TrustRequired
        | Some k \<Rightarrow>
            if TrimSpace identity = '''' then Inl TrustRequired
            else
              (case firstTrusted BundlePredicateType (checkProvenance c fl b sbomDigest k identity) None attestations of
                 Inr predicate \<Rightarrow> Inr \<lparr>vb_SBOMDigest = bp_SBOMDigest predicate, vb_BuilderIdentity = identity, vb_Signed = True\<rparr>
               | Inl (Some e) \<Rightarrow> Inl (NoTrustedProvenance e)
               | Inl None \<Rightarrow> Inl NoMatchingProvenance))))))"

section \<open>The attestation of an image\<close>

definition PublishManagedAttestation ::
  "crypto \<Rightarrow> disk \<Rightarrow> string \<Rightarrow> Descriptor \<Rightarrow> ManagedDependencyPredicate \<Rightarrow> privkey \<Rightarrow> (chain_error, Descriptor) fsm" where
  "PublishManagedAttestation c dk root img predicate key =
     (case ValidateManaged predicate (d_Digest img) of Some e \<Rightarrow> failF (ChainAttest e)
      | None \<Rightarrow>
        bindF (attestF (SignStatement c (NewStatement ''application-image'' (d_Digest img) ManagedPredicateType (encodeManaged predicate)) key))
          (\<lambda>envelope. PublishReferrer (cr_sha c) dk root img AttestationArtifactType DSSEEnvelopeMediaType envelope
             [(PredicateTypeAnnotation, ManagedPredicateType)]))"

definition checkManaged ::
  "crypto \<Rightarrow> (string \<Rightarrow> string option) \<Rightarrow> string \<Rightarrow> pubkey \<Rightarrow> string \<Rightarrow> bytes \<Rightarrow> chain_error + ManagedDependencyPredicate" where
  "checkManaged c fl imageDigest key identity document =
     (case VerifyStatement c fl document key ManagedPredicateType imageDigest of Inl e \<Rightarrow> Inl (ChainAttest e)
      | Inr statement \<Rightarrow>
        (case decodeStrict decodeManaged (Marshal (st_Predicate statement)) of None \<Rightarrow> Inl (ChainAttest BadPredicate)
         | Some predicate \<Rightarrow>
           (case ValidateManaged predicate imageDigest of Some e \<Rightarrow> Inl (ChainAttest e)
            | None \<Rightarrow> if mp_BuilderIdentity predicate \<noteq> identity then Inl (ChainAttest IdentityMismatch) else Inr predicate)))"

definition VerifyImageAttestation ::
  "crypto \<Rightarrow> (string \<Rightarrow> string option) \<Rightarrow> string \<Rightarrow> fsys \<Rightarrow> Descriptor \<Rightarrow> pubkey \<Rightarrow> string \<Rightarrow> chain_error + ManagedDependencyPredicate" where
  "VerifyImageAttestation c fl root fs img key identity =
     (case Referrers (cr_sha c) root fs (d_Digest img) AttestationArtifactType of Inl e \<Rightarrow> Inl e
      | Inr attestations \<Rightarrow>
        (case firstTrusted ManagedPredicateType (checkManaged c fl (d_Digest img) key identity) None attestations of
           Inr predicate \<Rightarrow> Inr predicate
         | Inl (Some e) \<Rightarrow> Inl (NoTrustedAttestation e)
         | Inl None \<Rightarrow> Inl AttestationMissing))"

section \<open>Package URLs\<close>

definition pctByte :: "char \<Rightarrow> string" where
  "pctByte c = (if unreserved c then [c] else [CHR ''%'', upperHex (of_char c div 16), upperHex (of_char c mod 16)])"

lemma upperHex_facts:
  "\<forall>m \<in> set [0..<16]. (\<forall>n \<in> set [0..<16]. upperHex m = upperHex n \<longrightarrow> m = n) \<and> unreserved (upperHex m)"
  by code_simp

lemma upperHex_inj: "m < 16 \<Longrightarrow> n < 16 \<Longrightarrow> upperHex m = upperHex n \<Longrightarrow> m = n"
  using upperHex_facts by simp

lemma upperHex_unreserved: "m < 16 \<Longrightarrow> unreserved (upperHex m)"
  using upperHex_facts by simp

lemma reserved_marks: "\<not> unreserved (CHR ''%'')" "\<not> unreserved (CHR ''+'')" "\<not> unreserved (CHR '' '')" "\<not> unreserved (CHR ''/'')"
  "\<not> unreserved (CHR ''@'')" "\<not> unreserved (CHR ''?'')" "\<not> unreserved (CHR ''&'')"
  by code_simp+

lemma byte_digits: "byte c div 16 < 16" "byte c mod 16 < 16"
proof -
  have "byte c < 16 * 16" by simp
  then show "byte c div 16 < 16" by (rule less_mult_imp_div_less)
qed simp

lemma purlEscape_bytes: "purlEscape s = concat (map pctByte s)"
proof -
  have "concat (map (\<lambda>c. if c = CHR ''+'' then ''%20'' else [c]) (escapeByte c)) = pctByte c" for c
    using upperHex_unreserved [OF byte_digits(1), of c] upperHex_unreserved [OF byte_digits(2), of c] reserved_marks
    by (auto simp: escapeByte_def pctByte_def upperHex_def)
  then show ?thesis by (induction s) (simp_all add: purlEscape_def QueryEscape_def)
qed

lemma pctByte_prefix: "pctByte c @ x = pctByte d @ y \<Longrightarrow> c = d \<and> x = y"
proof -
  assume e: "pctByte c @ x = pctByte d @ y"
  show ?thesis
  proof (cases "unreserved c \<or> unreserved d")
    case True
    then show ?thesis using e reserved_marks(1) by (auto simp: pctByte_def split: if_splits)
  next
    case False
    then have "byte c div 16 = byte d div 16" "byte c mod 16 = byte d mod 16" "x = y"
      using e upperHex_inj [OF byte_digits(1) byte_digits(1)] upperHex_inj [OF byte_digits(2) byte_digits(2)] by (auto simp: pctByte_def)
    then have "byte c = byte d" by (metis div_mult_mod_eq)
    then show ?thesis using \<open>x = y\<close> by simp
  qed
qed

lemma pctByte_not_Nil [simp]: "pctByte c \<noteq> []"
  by (simp add: pctByte_def)

lemma purlEscape_inj: "purlEscape s = purlEscape t \<Longrightarrow> s = t"
  unfolding purlEscape_bytes
proof (induction s arbitrary: t)
  case Nil
  then show ?case by (cases t) auto
next
  case (Cons c s)
  then obtain d u where t: "t = d # u" by (cases t) auto
  then show ?case using Cons.prems pctByte_prefix [of c "concat (map pctByte s)" d "concat (map pctByte u)"] Cons.IH [of u] by simp
qed

lemma purlEscape_chars: "c \<in> set (purlEscape s) \<Longrightarrow> unreserved c \<or> c = CHR ''%''"
  using upperHex_unreserved byte_digits by (auto simp: purlEscape_bytes pctByte_def split: if_splits)

lemma purlEscape_marks [simp]:
  "CHR ''/'' \<notin> set (purlEscape s)" "CHR ''@'' \<notin> set (purlEscape s)" "CHR ''?'' \<notin> set (purlEscape s)" "CHR ''&'' \<notin> set (purlEscape s)"
  using purlEscape_chars reserved_marks by fastforce+

definition purlSuffix :: "string \<Rightarrow> string \<Rightarrow> string" where
  "purlSuffix ty cl =
     (if ty \<noteq> ''jar'' then ''?type='' @ purlEscape ty @ (if cl \<noteq> '''' then ''&classifier='' @ purlEscape cl else '''')
      else if cl \<noteq> '''' then ''?classifier='' @ purlEscape cl else '''')"

lemma mavenPURL_parts:
  "mavenPURL e = ''pkg:maven/'' @ purlEscape (le_GroupID e) @ ''/'' @ purlEscape (le_ArtifactID e) @ ''@'' @ purlEscape (le_Version e) @
     purlSuffix (le_Type e) (le_Classifier e)"
  by (simp add: mavenPURL_def purlSuffix_def)

lemma purlSuffix_start: "takeWhile (\<lambda>c. c \<noteq> CHR ''?'') (purlSuffix ty cl) = ''''"
  by (simp add: purlSuffix_def)

lemma split_purl:
  assumes "CHR ''?'' \<notin> set v" and "CHR ''?'' \<notin> set w" and "v @ purlSuffix ty cl = w @ purlSuffix ty' cl'"
  shows "v = w \<and> purlSuffix ty cl = purlSuffix ty' cl'"
proof -
  have "takeWhile (\<lambda>c. c \<noteq> CHR ''?'') (u @ purlSuffix t k) = u" if "CHR ''?'' \<notin> set u" for u t k
    using that purlSuffix_start [of t k] by (subst takeWhile_append2) auto
  then have "v = w" using assms by metis
  then show ?thesis using assms(3) by simp
qed

lemma qualifier_end:
  assumes "purlEscape s @ (if cl \<noteq> '''' then ''&classifier='' @ x else '''') = purlEscape t @ (if cl' \<noteq> '''' then ''&classifier='' @ y else '''')"
  shows "s = t \<and> (cl = '''' \<longleftrightarrow> cl' = '''') \<and> (cl \<noteq> '''' \<longrightarrow> x = y)"
proof -
  have "takeWhile (\<lambda>c. c \<noteq> CHR ''&'') (purlEscape u @ (if k \<noteq> '''' then ''&classifier='' @ z else '''')) = purlEscape u" for u z k
    by (subst takeWhile_append2) auto
  then have "purlEscape s = purlEscape t" using assms by metis
  then show ?thesis using assms purlEscape_inj [of s t] by (auto split: if_splits)
qed

lemma purlSuffix_inj: "purlSuffix ty cl = purlSuffix ty' cl' \<Longrightarrow> ty = ty' \<and> cl = cl'"
proof -
  assume e: "purlSuffix ty cl = purlSuffix ty' cl'"
  consider "ty = ''jar''" "ty' = ''jar''" | "ty \<noteq> ''jar''" "ty' \<noteq> ''jar''" | "ty = ''jar''" "ty' \<noteq> ''jar''" | "ty \<noteq> ''jar''" "ty' = ''jar''"
    by blast
  then show ?thesis
  proof cases
    case 1
    then show ?thesis using e purlEscape_inj [of cl cl'] by (auto simp: purlSuffix_def split: if_splits)
  next
    case 2
    then have "purlEscape ty @ (if cl \<noteq> '''' then ''&classifier='' @ purlEscape cl else '''') =
        purlEscape ty' @ (if cl' \<noteq> '''' then ''&classifier='' @ purlEscape cl' else '''')"
      using e by (simp add: purlSuffix_def)
    then have "ty = ty' \<and> (cl = '''' \<longleftrightarrow> cl' = '''') \<and> (cl \<noteq> '''' \<longrightarrow> purlEscape cl = purlEscape cl')" by (rule qualifier_end)
    then show ?thesis using purlEscape_inj [of cl cl'] by (cases "cl = ''''") auto
  qed (use e in \<open>auto simp: purlSuffix_def split: if_splits\<close>)
qed

lemma mavenPURL_inj:
  assumes "mavenPURL e = mavenPURL e'"
  shows "le_GroupID e = le_GroupID e' \<and> le_ArtifactID e = le_ArtifactID e' \<and> le_Version e = le_Version e' \<and>
    le_Type e = le_Type e' \<and> le_Classifier e = le_Classifier e'"
proof -
  have 1: "purlEscape (le_GroupID e) = purlEscape (le_GroupID e') \<and>
      purlEscape (le_ArtifactID e) @ [CHR ''@''] @ purlEscape (le_Version e) @ purlSuffix (le_Type e) (le_Classifier e) =
      purlEscape (le_ArtifactID e') @ [CHR ''@''] @ purlEscape (le_Version e') @ purlSuffix (le_Type e') (le_Classifier e')"
    by (rule split_at [of "CHR ''/''"]) (use assms in \<open>simp_all add: mavenPURL_parts\<close>)
  have 2: "purlEscape (le_ArtifactID e) = purlEscape (le_ArtifactID e') \<and>
      purlEscape (le_Version e) @ purlSuffix (le_Type e) (le_Classifier e) = purlEscape (le_Version e') @ purlSuffix (le_Type e') (le_Classifier e')"
    by (rule split_at [of "CHR ''@''"]) (use 1 in simp_all)
  have 3: "purlEscape (le_Version e) = purlEscape (le_Version e') \<and> purlSuffix (le_Type e) (le_Classifier e) = purlSuffix (le_Type e') (le_Classifier e')"
    by (rule split_purl) (use 2 in simp_all)
  show ?thesis using 1 2 3 by (auto dest: purlEscape_inj purlSuffix_inj)
qed

lemma coordinate_of_purl: "mavenPURL e = mavenPURL e' \<Longrightarrow> lockCoordinate e = lockCoordinate e'"
  using mavenPURL_inj [of e e'] by (simp add: lockCoordinate_def)

lemma purls_distinct:
  assumes "distinct (map lockCoordinate es)" shows "distinct (map mavenPURL es)"
proof -
  have "inj_on lockCoordinate (set es)" "distinct es" using assms by (simp_all add: distinct_map)
  then show ?thesis unfolding distinct_map by (auto intro!: inj_onI dest: coordinate_of_purl inj_onD)
qed

section \<open>What a validated bill of materials lists\<close>

lemma checkComponents_iff:
  assumes "distinct (map fst ex)"
  shows "checkComponents ex items = Inr [] \<longleftrightarrow>
    mset (map ci_PURL items) = mset (map fst ex) \<and> (\<forall>i \<in> set items. \<exists>e. (ci_PURL i, e) \<in> set ex \<and> itemMatches i e)"
  using assms
proof (induction items arbitrary: ex)
  case (Cons i items)
  let ?p = "ci_PURL i" and ?ex = "filter (\<lambda>(k, _). k \<noteq> ci_PURL i) ex"
  show ?case
  proof (cases "map_of ex ?p")
    case None
    then have "?p \<notin> set (map fst ex)" by (simp add: map_of_eq_None_iff)
    then have "mset (map ci_PURL (i # items)) \<noteq> mset (map fst ex)" by (metis list.set_intros(1) list.simps(9) mset_eq_setD)
    then show ?thesis using None by simp
  next
    case (Some e)
    then have m: "(?p, e) \<in> set ex" by (rule map_of_SomeD)
    have u: "e' = e" if "(?p, e') \<in> set ex" for e' using map_of_is_SomeI [OF Cons.prems that] Some by simp
    have d: "distinct (map fst ?ex)" using Cons.prems by (simp add: distinct_map_filter)
    have f: "map fst ?ex = filter (\<lambda>k. k \<noteq> ?p) (map fst ex)" by (induction ex) auto
    have "mset (map fst ex) = {#?p#} + mset (map fst ?ex)"
    proof -
      have "?p \<in> set (map fst ex)" using m by force
      then have "filter_mset (\<lambda>k. k = ?p) (mset (map fst ex)) = {#?p#}"
        using Cons.prems by (simp add: filter_eq_replicate_mset distinct_count_atmost_1 flip: mset_filter)
      then show ?thesis using multiset_partition [of "mset (map fst ex)" "\<lambda>k. k = ?p"] unfolding f mset_filter by simp
    qed
    then have ms: "mset (map ci_PURL (i # items)) = mset (map fst ex) \<longleftrightarrow> mset (map ci_PURL items) = mset (map fst ?ex)" by simp
    have rest: "(\<forall>j \<in> set items. \<exists>e. (ci_PURL j, e) \<in> set ?ex \<and> itemMatches j e) \<longleftrightarrow>
        (\<forall>j \<in> set items. \<exists>e. (ci_PURL j, e) \<in> set ex \<and> itemMatches j e)" if "mset (map ci_PURL items) = mset (map fst ?ex)"
    proof -
      have "ci_PURL j \<noteq> ?p" if "j \<in> set items" for j
      proof -
        have "set (map ci_PURL items) = set (map fst ?ex)" using \<open>mset (map ci_PURL items) = mset (map fst ?ex)\<close> by (rule mset_eq_setD)
        then have "ci_PURL j \<in> set (map fst ?ex)" using that by auto
        then show ?thesis by auto
      qed
      then show ?thesis by auto
    qed
    have first: "(\<exists>e'. (?p, e') \<in> set ex \<and> itemMatches i e') \<longleftrightarrow> itemMatches i e" using m u by blast
    have step: "checkComponents ex (i # items) = Inr [] \<longleftrightarrow> itemMatches i e \<and> checkComponents ?ex items = Inr []" using Some by simp
    show ?thesis unfolding step Cons.IH [OF d] ms list.set ball_simps(5) ball_simps(7) first using rest by blast
  qed
qed auto

definition libraryItem :: "CycloneDXItem \<Rightarrow> CycloneDXItem" where
  "libraryItem i = i\<lparr>ci_Type := ''library''\<rparr>"

lemma libraryItem_matches: "libraryItem i = sbomItem e \<longleftrightarrow> ci_PURL i = mavenPURL e \<and> itemMatches i e"
  by (cases i) (auto simp: libraryItem_def sbomItem_def itemMatches_def)

lemma libraryItem_PURL: "map ci_PURL (map libraryItem is) = map ci_PURL is" "map ci_PURL (map sbomItem es) = map mavenPURL es"
  by (simp_all add: libraryItem_def sbomItem_def)

lemma components_exact:
  assumes d: "distinct (map mavenPURL es)"
  shows "checkComponents (map (\<lambda>e. (mavenPURL e, e)) es) is = Inr [] \<longleftrightarrow> mset (map libraryItem is) = mset (map sbomItem es)"
proof -
  let ?ex = "map (\<lambda>e. (mavenPURL e, e)) es"
  have k: "map fst ?ex = map mavenPURL es" by simp
  have c: "checkComponents ?ex is = Inr [] \<longleftrightarrow> mset (map ci_PURL is) = mset (map mavenPURL es) \<and>
      (\<forall>i \<in> set is. \<exists>e \<in> set es. libraryItem i = sbomItem e)"
    using checkComponents_iff [of ?ex "is"] d unfolding k libraryItem_matches by auto
  show ?thesis
  proof
    assume "checkComponents ?ex is = Inr []"
    then have p: "mset (map ci_PURL is) = mset (map mavenPURL es)" and m: "\<forall>i \<in> set is. \<exists>e \<in> set es. libraryItem i = sbomItem e"
      using c by simp_all
    have "distinct (map ci_PURL (map libraryItem is))" "distinct (map ci_PURL (map sbomItem es))"
      unfolding libraryItem_PURL using d mset_eq_imp_distinct_iff [OF p] by simp_all
    then have ds: "distinct (map libraryItem is)" "distinct (map sbomItem es)"
      by (blast intro: distinct_map [THEN iffD1, THEN conjunct1])+
    have "sbomItem e \<in> set (map libraryItem is)" if e: "e \<in> set es" for e
    proof -
      have "mavenPURL e \<in> set (map ci_PURL is)" using mset_eq_setD [OF p] e by simp
      then obtain i where i: "i \<in> set is" "ci_PURL i = mavenPURL e" by auto
      then obtain e' where e': "e' \<in> set es" "libraryItem i = sbomItem e'" using m by blast
      then have "e' = e" using i(2) d e by (auto simp: libraryItem_matches distinct_map dest: inj_onD)
      then show ?thesis using i(1) e'(2) by (metis image_eqI set_map)
    qed
    then have "set (map libraryItem is) = set (map sbomItem es)" using m by auto
    then show "mset (map libraryItem is) = mset (map sbomItem es)" using ds set_eq_iff_mset_eq_distinct by blast
  next
    assume e: "mset (map libraryItem is) = mset (map sbomItem es)"
    then have "mset (map ci_PURL (map libraryItem is)) = mset (map ci_PURL (map sbomItem es))" by (metis mset_map)
    then have p: "mset (map ci_PURL is) = mset (map mavenPURL es)" unfolding libraryItem_PURL .
    have "set (map libraryItem is) = set (map sbomItem es)" using e by (rule mset_eq_setD)
    then show "checkComponents ?ex is = Inr []" unfolding c using p by auto
  qed
qed

text \<open>C27: The bill of materials of a bundle is accepted exactly if it decodes, names the bundle and its version, and its
  components are, in some order, the components of the artifacts of the lock: the same group, name, version, package URL and
  SHA-256 for each, none missing, none added, none twice. The code checks this with a map from package URLs, which is right
  because different coordinates never share a package URL.\<close>

theorem validateCycloneDX_exact:
  assumes "ValidateLock lock = None"
  shows "validateCycloneDX raw lock cfg = None \<longleftrightarrow>
    (\<exists>sbom. Option.bind (parseJson raw) decodeBOM = Some sbom \<and>
       cb_BOMFormat sbom = ''CycloneDX'' \<and> cb_SpecVersion sbom = ''1.5'' \<and> cb_Version sbom = 1 \<and>
       cc_Name (cb_Component sbom) = bc_Name cfg \<and> cc_Version (cb_Component sbom) = bc_Version cfg \<and>
       mset (map libraryItem (cb_Components sbom)) = mset (map sbomItem (lk_Artifacts lock)))"
proof -
  have d: "distinct (map mavenPURL (lk_Artifacts lock))" using ValidateLock_ok(2) [OF assms] by (rule purls_distinct)
  then have l: "lastWins (map (\<lambda>entry. (mavenPURL entry, entry)) (lk_Artifacts lock)) = map (\<lambda>entry. (mavenPURL entry, entry)) (lk_Artifacts lock)"
    by (intro lastWins_distinct) (simp add: comp_def)
  have n: "mset (map libraryItem is) = mset (map sbomItem (lk_Artifacts lock)) \<Longrightarrow> length is = length (lk_Artifacts lock)" for "is"
    by (metis length_map mset_eq_length)
  have "validateCycloneDX raw lock cfg = None \<longleftrightarrow>
    (\<exists>sbom. Option.bind (parseJson raw) decodeBOM = Some sbom \<and>
       cb_BOMFormat sbom = ''CycloneDX'' \<and> cb_SpecVersion sbom = ''1.5'' \<and> cb_Version sbom = 1 \<and>
       cc_Name (cb_Component sbom) = bc_Name cfg \<and> cc_Version (cb_Component sbom) = bc_Version cfg \<and>
       length (cb_Components sbom) = length (lk_Artifacts lock) \<and>
       checkComponents (map (\<lambda>entry. (mavenPURL entry, entry)) (lk_Artifacts lock)) (cb_Components sbom) = Inr [])"
    unfolding validateCycloneDX_def l by (auto split: option.splits sum.splits)
  then show ?thesis unfolding components_exact [OF d] using n by blast
qed

lemma sbomFoldNames [json_simps]:
  "foldName ''group'' = ''group''" "foldName ''purl'' = ''purl''" "foldName ''hashes'' = ''hashes''" "foldName ''alg'' = ''alg''"
  "foldName ''content'' = ''content''" "foldName ''bomFormat'' = ''bomformat''" "foldName ''specVersion'' = ''specversion''"
  "foldName ''metadata'' = ''metadata''" "foldName ''component'' = ''component''" "foldName ''components'' = ''components''"
  by code_simp+

lemma decode_encode_Item: "decodeItem (encodeItem i) = Some i"
proof -
  have "asList decodeHash (JArr (map (\<lambda>h. JObj [(''alg'', JStr (ch_Algorithm h)), (''content'', JStr (ch_Content h))]) hs)) = Some hs" for hs
    by (rule asList_JArr) (simp add: decodeHash_def json_simps)
  then show ?thesis by (simp add: decodeItem_def encodeItem_def json_simps)
qed

lemma decode_encode_BOM:
  assumes "in_int64 (cb_Version b)" shows "decodeBOM (encodeBOM b) = Some b"
proof -
  have "asList decodeItem (JArr (map encodeItem is)) = Some is" for "is" by (rule asList_JArr) (simp add: decode_encode_Item)
  then show ?thesis using assms by (simp add: decodeBOM_def encodeBOM_def decodeComponent_def json_simps)
qed

lemma json_wf_BOM [simp]: "json_wf (encodeBOM b)"
proof -
  have "list_all json_wf (map (\<lambda>h. JObj [(''alg'', JStr (ch_Algorithm h)), (''content'', JStr (ch_Content h))]) hs)" for hs
    by (induction hs) simp_all
  then have "json_wf (encodeItem i)" for i by (simp add: encodeItem_def)
  then have "list_all json_wf (map encodeItem is)" for "is" by (induction "is") simp_all
  then show ?thesis by (simp add: encodeBOM_def json_simps)
qed

lemma generated_sbom_validates:
  assumes "ValidateLock lock = None"
  shows "validateCycloneDX (Marshal (encodeBOM (bomOf lock cfg))) lock cfg = None"
proof -
  have d: "distinct (map mavenPURL (lk_Artifacts lock))" using ValidateLock_ok(2) [OF assms] by (rule purls_distinct)
  then have l: "lastWins (map (\<lambda>entry. (mavenPURL entry, entry)) (lk_Artifacts lock)) = map (\<lambda>entry. (mavenPURL entry, entry)) (lk_Artifacts lock)"
    by (intro lastWins_distinct) (simp add: comp_def)
  have "map libraryItem (map sbomItem es) = map sbomItem es" for es by (simp add: libraryItem_def sbomItem_def)
  then have "checkComponents (map (\<lambda>e. (mavenPURL e, e)) (lk_Artifacts lock)) (map sbomItem (lk_Artifacts lock)) = Inr []"
    using components_exact [OF d, of "map sbomItem (lk_Artifacts lock)"] by (metis)
  then show ?thesis unfolding validateCycloneDX_def l by (simp add: parse_Marshal decode_encode_BOM bomOf_def)
qed

section \<open>The two verifiers of an image agree\<close>

lemma first_split:
  "(\<exists>pre y post. x # as = pre @ y # post \<and> P y \<and> (\<forall>z \<in> set pre. N z)) \<longleftrightarrow>
    P x \<or> (N x \<and> (\<exists>pre y post. as = pre @ y # post \<and> P y \<and> (\<forall>z \<in> set pre. N z)))" (is "?l \<longleftrightarrow> ?r")
proof
  assume ?l
  then obtain pre y post where h: "x # as = pre @ y # post" "P y" "\<forall>z \<in> set pre. N z" by blast
  then show ?r by (cases pre) auto
next
  assume r: ?r
  show ?l
  proof (cases "P x")
    case True
    then show ?thesis by (intro exI [of _ "[]"] exI [of _ x] exI [of _ as]) simp
  next
    case False
    then obtain pre y post where h: "N x" "as = pre @ y # post" "P y" "\<forall>z \<in> set pre. N z" using r by blast
    then show ?thesis by (intro exI [of _ "x # pre"] exI [of _ y] exI [of _ post]) simp
  qed
qed

definition ofPredicateType :: "string \<Rightarrow> Referrer \<Rightarrow> bool" where
  "ofPredicateType pt x \<longleftrightarrow> alget (m_Annotations (rf_Manifest x)) PredicateTypeAnnotation = pt"

lemma firstTrusted_Inr:
  "firstTrusted pt check err as = Inr a \<longleftrightarrow>
    (\<exists>pre x post. as = pre @ x # post \<and> (ofPredicateType pt x \<and> check (rf_Document x) = Inr a) \<and>
       (\<forall>y \<in> set pre. ofPredicateType pt y \<longrightarrow> isl (check (rf_Document y))))"
proof (induction as arbitrary: err)
  case (Cons x as)
  show ?case unfolding first_split Cons.IH [symmetric, of err] using Cons.IH by (cases "check (rf_Document x)") (auto simp: ofPredicateType_def)
qed simp

lemma checkManaged_attest:
  "checkManaged c fl digest key identity doc = Inr p \<longleftrightarrow> VerifyManagedAttestation c fl doc (Some key) identity digest = Inr p"
proof (cases "TrimSpace identity = ''''")
  case True
  have "mp_BuilderIdentity q \<noteq> identity" if "ValidateManaged q digest = None" for q
    using that True by (auto simp: ValidateManaged_def split: if_splits)
  then have "checkManaged c fl digest key identity doc \<noteq> Inr p"
    by (auto simp: checkManaged_def split: sum.splits option.splits if_splits)
  then show ?thesis using True by (simp add: VerifyManagedAttestation_def)
next
  case False
  then show ?thesis by (auto simp: checkManaged_def VerifyManagedAttestation_def split: sum.splits option.splits if_splits)
qed

lemma isl_iff: "isl r \<longleftrightarrow> (\<forall>a. r \<noteq> Inr a)"
  by (cases r) auto

lemma checkManaged_rejects: "isl (checkManaged c fl digest key identity doc) \<longleftrightarrow> isl (VerifyManagedAttestation c fl doc (Some key) identity digest)"
  by (simp add: isl_iff checkManaged_attest)

text \<open>An attestation that the search passes over: it is of another predicate type, or the exported verifier rejects it.\<close>

definition passedOver :: "crypto \<Rightarrow> (string \<Rightarrow> string option) \<Rightarrow> pubkey \<Rightarrow> string \<Rightarrow> string \<Rightarrow> Referrer \<Rightarrow> bool" where
  "passedOver c fl key identity digest y \<longleftrightarrow>
     (ofPredicateType ManagedPredicateType y \<longrightarrow> isl (VerifyManagedAttestation c fl (rf_Document y) (Some key) identity digest))"

text \<open>The store verifies the attestation of an image with its own copy of the predicate checks, and admission verifiers use
  the exported \<open>attest.VerifyManagedAttestation\<close>. Both accept the same evidence: the store returns a predicate exactly if it is
  what the exported verifier returns for the first referrer of the managed predicate type that this verifier accepts.\<close>

lemma store_verifies_like_attest:
  "VerifyImageAttestation c fl root fs img key identity = Inr p \<longleftrightarrow>
    (\<exists>pre x post. Referrers (cr_sha c) root fs (d_Digest img) AttestationArtifactType = Inr (pre @ x # post) \<and>
       ofPredicateType ManagedPredicateType x \<and> VerifyManagedAttestation c fl (rf_Document x) (Some key) identity (d_Digest img) = Inr p \<and>
       list_all (passedOver c fl key identity (d_Digest img)) pre)"
proof -
  have "VerifyImageAttestation c fl root fs img key identity = Inr p \<longleftrightarrow>
      (\<exists>as. Referrers (cr_sha c) root fs (d_Digest img) AttestationArtifactType = Inr as \<and>
        firstTrusted ManagedPredicateType (checkManaged c fl (d_Digest img) key identity) None as = Inr p)"
    by (auto simp: VerifyImageAttestation_def split: sum.splits option.splits)
  then show ?thesis unfolding firstTrusted_Inr checkManaged_attest checkManaged_rejects list_all_iff passedOver_def by blast
qed

section \<open>What a verified bundle has\<close>

lemma readReferrers_sound:
  assumes "readReferrers sha root fs subject sd at ds = Inr rs" and "r \<in> set rs"
  shows "\<exists>d \<in> set ds. readReferrer sha root fs d subject = Inr r \<and> (at \<noteq> '''' \<longrightarrow> d_ArtifactType d = at)"
  using assms
proof (induction ds arbitrary: rs)
  case (Cons d ds)
  show ?case
  proof (cases "\<exists>rs'. readReferrers sha root fs subject sd at ds = Inr rs' \<and> r \<in> set rs'")
    case True
    then show ?thesis using Cons.IH by auto
  next
    case False
    then show ?thesis using Cons.prems by (auto split: if_splits sum.splits option.splits)
  qed
qed simp

lemma checkProvenance_Inr:
  "checkProvenance c fl b sd key identity doc = Inr p \<longleftrightarrow>
    p = \<lparr>bp_SchemaVersion = 1, bp_DependencyBundleDigest = rd_ManifestDigest b, bp_DependencyLayerDigest = bc_LayerDigest (rd_Config b),
      bp_DependencyLockDigest = bc_LockDigest (rd_Config b), bp_SBOMDigest = sd, bp_SourceBOM = bc_SourceBOM (rd_Config b), bp_BuilderIdentity = identity\<rparr> \<and>
    (\<exists>st. VerifyStatement c fl doc key BundlePredicateType (rd_ManifestDigest b) = Inr st \<and>
       decodeStrict decodeProvenance (Marshal (st_Predicate st)) = Some p)"
  by (auto simp: checkProvenance_def split: sum.splits option.splits if_splits)

lemma VerifyBundleSupplyChain_elim:
  assumes "VerifyBundleSupplyChain c fl root fs b key identity = Inr v"
  obtains (unsigned) sbom where "Referrers (cr_sha c) root fs (rd_ManifestDigest b) CycloneDXMediaType = Inr [sbom]"
      and "validateCycloneDX (rf_Document sbom) (rd_Lock b) (rd_Config b) = None" and "vb_SBOMDigest v = digestOf (cr_sha c) (rf_Document sbom)"
      and "\<not> vb_Signed v" and "referrerDescriptorCount (cr_sha c) root fs (rd_ManifestDigest b) AttestationArtifactType = Inr 0"
  | (signed) sbom k as p where "Referrers (cr_sha c) root fs (rd_ManifestDigest b) CycloneDXMediaType = Inr [sbom]"
      and "validateCycloneDX (rf_Document sbom) (rd_Lock b) (rd_Config b) = None" and "vb_SBOMDigest v = digestOf (cr_sha c) (rf_Document sbom)"
      and "vb_Signed v" and "vb_BuilderIdentity v = identity" and "key = Some k"
      and "firstTrusted BundlePredicateType (checkProvenance c fl b (vb_SBOMDigest v) k identity) None as = Inr p"
proof -
  obtain sboms as where r: "Referrers (cr_sha c) root fs (rd_ManifestDigest b) CycloneDXMediaType = Inr sboms" "length sboms = 1"
    "validateCycloneDX (rf_Document (hd sboms)) (rd_Lock b) (rd_Config b) = None"
    "Referrers (cr_sha c) root fs (rd_ManifestDigest b) AttestationArtifactType = Inr as"
    using assms by (auto simp: VerifyBundleSupplyChain_def Let_def split: sum.splits option.splits if_splits)
  obtain sbom where s: "sboms = [sbom]" using r(2) by (cases sboms) auto
  let ?d = "digestOf (cr_sha c) (rf_Document sbom)"
  show thesis
  proof (cases "as = []")
    case True
    then have "v = \<lparr>vb_SBOMDigest = ?d, vb_BuilderIdentity = '''', vb_Signed = False\<rparr>"
      "referrerDescriptorCount (cr_sha c) root fs (rd_ManifestDigest b) AttestationArtifactType = Inr 0"
      using assms r s by (auto simp: VerifyBundleSupplyChain_def Let_def split: sum.splits if_splits)
    then show ?thesis using unsigned [of sbom] r(1,3) s by simp
  next
    case False
    obtain k p where k: "key = Some k" "firstTrusted BundlePredicateType (checkProvenance c fl b ?d k identity) None as = Inr p"
      "v = \<lparr>vb_SBOMDigest = bp_SBOMDigest p, vb_BuilderIdentity = identity, vb_Signed = True\<rparr>"
      using assms r s False by (auto simp: VerifyBundleSupplyChain_def Let_def split: sum.splits option.splits if_splits)
    have "bp_SBOMDigest p = ?d" using k(2) unfolding firstTrusted_Inr checkProvenance_Inr by auto
    then show ?thesis using signed [of sbom k as p] r(1,3) s k by simp
  qed
qed

text \<open>C25: What a verified bundle has. Whether signed or not, its SBOM is the document of a referrer manifest of the bundle, it lists
  exactly the lock, and its digest is the one that is reported. A bundle reported as signed has a provenance statement that the
  trusted key signed, about this bundle, and the statement binds the layer, the lock, this SBOM, the source BOM and the expected
  builder; a bundle reported as unsigned has no provenance at all in the store, not even an invalid one. As for images,
  a signature is taken to verify only for the messages of the signed statements, and their hashes to be free of collisions.\<close>

theorem verified_bundle_is_bound:
  assumes v: "VerifyBundleSupplyChain c fl root fs b key identity = Inr v"
    and u: "\<forall>k d sig. key = Some k \<longrightarrow> cr_verify c k d sig \<longrightarrow> (\<exists>s \<in> signed. d = cr_sha c (signedMessage s))"
    and w: "\<forall>s \<in> signed. wellFormedStatement s \<and> \<not> collides c (signedMessage s)"
  shows "\<exists>sbom. digestOf (cr_sha c) sbom = vb_SBOMDigest v \<and> validateCycloneDX sbom (rd_Lock b) (rd_Config b) = None \<and>
    (if vb_Signed v then
       \<exists>s \<in> signed. st_PredicateType s = BundlePredicateType \<and>
         map (\<lambda>x. ''sha256:'' @ alget (su_Digest x) ''sha256'') (st_Subject s) = [rd_ManifestDigest b] \<and>
         Option.bind (anyOf fl (st_Predicate s)) (\<lambda>j. decodeStrict decodeProvenance (Marshal j)) =
           Some \<lparr>bp_SchemaVersion = 1, bp_DependencyBundleDigest = rd_ManifestDigest b,
             bp_DependencyLayerDigest = bc_LayerDigest (rd_Config b), bp_DependencyLockDigest = bc_LockDigest (rd_Config b),
             bp_SBOMDigest = digestOf (cr_sha c) sbom, bp_SourceBOM = bc_SourceBOM (rd_Config b), bp_BuilderIdentity = identity\<rparr>
     else referrerDescriptorCount (cr_sha c) root fs (rd_ManifestDigest b) AttestationArtifactType = Inr 0)"
  using v
proof (cases rule: VerifyBundleSupplyChain_elim)
  case (unsigned sbom)
  then show ?thesis by auto
next
  case (signed sbom k as p)
  obtain doc where "checkProvenance c fl b (vb_SBOMDigest v) k identity doc = Inr p"
    using signed(7) unfolding firstTrusted_Inr by blast
  then obtain st where p: "p = \<lparr>bp_SchemaVersion = 1, bp_DependencyBundleDigest = rd_ManifestDigest b,
        bp_DependencyLayerDigest = bc_LayerDigest (rd_Config b), bp_DependencyLockDigest = bc_LockDigest (rd_Config b),
        bp_SBOMDigest = vb_SBOMDigest v, bp_SourceBOM = bc_SourceBOM (rd_Config b), bp_BuilderIdentity = identity\<rparr>"
    and st: "VerifyStatement c fl doc k BundlePredicateType (rd_ManifestDigest b) = Inr st"
      "decodeStrict decodeProvenance (Marshal (st_Predicate st)) = Some p"
    unfolding checkProvenance_Inr by blast
  obtain s where s: "s \<in> signed" "st_PredicateType s = BundlePredicateType" "length (st_Subject s) = 1"
    "''sha256:'' @ alget (su_Digest (hd (st_Subject s))) ''sha256'' = rd_ManifestDigest b" "anyOf fl (st_Predicate s) = Some (st_Predicate st)"
    using verified_was_signed [OF st(1), of signed] u w signed(6) by blast
  have "map (\<lambda>x. ''sha256:'' @ alget (su_Digest x) ''sha256'') (st_Subject s) = [rd_ManifestDigest b]"
    using s(3,4) by (cases "st_Subject s") auto
  then show ?thesis using s(1,2,5) st(2) signed(2,3,4) unfolding p by (intro exI [of _ "rf_Document sbom"]) auto
qed

section \<open>Publishing a referrer\<close>

definition blobDesc :: "(bytes \<Rightarrow> string) \<Rightarrow> string \<Rightarrow> bytes \<Rightarrow> Descriptor" where
  "blobDesc sha mt b = emptyDescriptor\<lparr>d_MediaType := mt, d_Digest := digestOf sha b, d_Size := int (length b)\<rparr>"

definition referrerDoc :: "(bytes \<Rightarrow> string) \<Rightarrow> Descriptor \<Rightarrow> string \<Rightarrow> string \<Rightarrow> bytes \<Rightarrow> stralist \<Rightarrow> Manifest" where
  "referrerDoc sha subject at lt doc ann =
     referrerManifest subject at (blobDesc sha OCIEmptyConfigMediaType ''{}'') (blobDesc sha lt doc) ann"

definition referrerRaw :: "(bytes \<Rightarrow> string) \<Rightarrow> Descriptor \<Rightarrow> string \<Rightarrow> string \<Rightarrow> bytes \<Rightarrow> stralist \<Rightarrow> bytes" where
  "referrerRaw sha subject at lt doc ann = Marshal (encodeManifest (referrerDoc sha subject at lt doc ann))"

definition referrerDesc :: "(bytes \<Rightarrow> string) \<Rightarrow> Descriptor \<Rightarrow> string \<Rightarrow> string \<Rightarrow> bytes \<Rightarrow> stralist \<Rightarrow> Descriptor" where
  "referrerDesc sha subject at lt doc ann =
     (blobDesc sha ociManifestMediaType (referrerRaw sha subject at lt doc ann))
       \<lparr>d_ArtifactType := at, d_Annotations := referrerAnnotations subject ann\<rparr>"

definition withReferrer :: "Index \<Rightarrow> Descriptor \<Rightarrow> Index" where
  "withReferrer idx desc = idx\<lparr>x_Manifests := x_Manifests idx @ [desc]\<rparr>"

definition referred :: "(bytes \<Rightarrow> string) \<Rightarrow> string \<Rightarrow> bytes list \<Rightarrow> Index \<Rightarrow> fsys \<Rightarrow> fsys" where
  "referred sha root bs idx fs = (putBlobs sha root bs fs)(indexKey root \<mapsto> MarshalIndent (encodeIndex idx), markerKey root \<mapsto> layoutMarker)"

lemma readIndex_putBlobs:
  assumes "\<And>b. plainName (sha b)" shows "readIndex root (putBlobs sha root bs fs) = readIndex root fs"
proof -
  have "putBlobs sha root bs fs (indexKey root) = fs (indexKey root)" by (rule putBlobs_other) (use assms in auto)
  then show ?thesis by (simp add: readIndex_def fileAt_def indexKey_def)
qed

lemma appendIndex_ok:
  assumes "appendIndex dk root desc fs = (Inr u, fs')" and "readIndex root fs = Inr idx"
    and "\<forall>d \<in> set (x_Manifests idx). d_Digest d \<noteq> d_Digest desc"
  shows "fs' = fs(indexKey root \<mapsto> MarshalIndent (encodeIndex (withReferrer idx desc)))"
proof -
  obtain b where b: "fileAt fs (indexPath root) = Some b" "parseIndexInto 2 OCIImageIndexMediaType b = Some idx"
    using assms(2) by (auto simp: readIndex_def split: option.splits)
  have "\<not> list_ex (\<lambda>d. d_Digest d = d_Digest desc) (x_Manifests idx)" using assms(3) by (simp add: list_ex_iff)
  then show ?thesis using assms(1) b by (simp add: appendIndex_def fsm_ok withReferrer_def indexKey_def)
qed

lemma PublishReferrer_ok:
  assumes run: "PublishReferrer sha dk root subject at lt doc ann fs = (Inr desc, fs')" and sha: "\<And>b. plainName (sha b)"
    and idx: "readIndex root fs = Inr idx"
    and new: "\<forall>d \<in> set (x_Manifests idx). d_Digest d \<noteq> digestOf sha (referrerRaw sha subject at lt doc ann)"
  shows "fs' = referred sha root [''{}'', doc, referrerRaw sha subject at lt doc ann] (withReferrer idx (referrerDesc sha subject at lt doc ann)) fs"
proof -
  let ?raw = "referrerRaw sha subject at lt doc ann" and ?desc = "referrerDesc sha subject at lt doc ann"
  obtain e fs1 d fs2 where 1: "writeBlob sha dk root ''{}'' fs = (Inr e, fs1)" and 2: "writeBlob sha dk root doc fs1 = (Inr d, fs2)"
    using run by (auto simp: PublishReferrer_def fsm_ok)
  have ed: "e\<lparr>d_MediaType := OCIEmptyConfigMediaType\<rparr> = blobDesc sha OCIEmptyConfigMediaType ''{}''" "d\<lparr>d_MediaType := lt\<rparr> = blobDesc sha lt doc"
    "fs2 = putBlobs sha root [''{}'', doc] fs"
    using writeBlob_ok [OF 1] writeBlob_ok [OF 2] by (simp_all add: blobDesc_def)
  obtain m fs3 fs4 where 3: "writeBlob sha dk root ?raw fs2 = (Inr m, fs3)"
    and 4: "appendIndex dk root (m\<lparr>d_MediaType := ociManifestMediaType, d_ArtifactType := at, d_Annotations := referrerAnnotations subject ann\<rparr>) fs3 = (Inr (), fs4)"
    and 5: "fs' = fs4(markerKey root \<mapsto> layoutMarker)"
    using run 1 2 unfolding PublishReferrer_def
    by (auto simp: fsm_ok Let_def ed referrerRaw_def referrerDoc_def writeLayoutMarker_def markerKey_def)
  have m: "m\<lparr>d_MediaType := ociManifestMediaType, d_ArtifactType := at, d_Annotations := referrerAnnotations subject ann\<rparr> = ?desc"
    "fs3 = putBlobs sha root [''{}'', doc, ?raw] fs"
    using writeBlob_ok [OF 3] ed(3) by (simp_all add: referrerDesc_def blobDesc_def)
  have i: "readIndex root fs3 = Inr idx" unfolding m(2) using idx readIndex_putBlobs [where sha = sha, OF sha] by metis
  have n: "\<forall>d \<in> set (x_Manifests idx). d_Digest d \<noteq> d_Digest ?desc" using new by (simp add: referrerDesc_def blobDesc_def)
  have "fs4 = fs3(indexKey root \<mapsto> MarshalIndent (encodeIndex (withReferrer idx ?desc)))"
    by (rule appendIndex_ok [OF 4 [unfolded m(1)] i n])
  then show ?thesis unfolding 5 referred_def m(2) by simp
qed

lemma readIndex_ok: "readIndex root fs = Inr idx \<Longrightarrow> index_ok idx"
  using currentIndex_ok [of root fs] readIndex_currentIndex [of root fs idx] by simp

lemma readIndex_referred: "index_ok idx \<Longrightarrow> readIndex root (referred sha root bs idx fs) = Inr idx"
  using parseIndex_print [of idx] by (simp add: readIndex_def referred_def fileAt_def flip: indexKey_def)

lemma withReferrer_ok: "index_ok idx \<Longrightarrow> descriptor_ok d \<Longrightarrow> index_ok (withReferrer idx d)"
  by (simp add: withReferrer_def index_ok_def)

lemma referrerDesc_ok:
  "smallFile (referrerRaw sha subject at lt doc ann) \<Longrightarrow> descriptor_ok (referrerDesc sha subject at lt doc ann)"
  by (simp add: referrerDesc_def blobDesc_def descriptor_ok_def smallFile_def in_int64_def min_int64_def referrerAnnotations_def Let_def)

lemma blobDesc_ok: "smallFile b \<Longrightarrow> descriptor_ok (blobDesc sha mt b)"
  by (simp add: blobDesc_def emptyDescriptor_def descriptor_ok_def smallFile_def in_int64_def min_int64_def)

lemma stored_referred:
  assumes "\<And>b. plainName (sha b)" and "inj_on sha (insert b (set bs))" and "b \<in> set bs \<or> stored sha root fs b"
  shows "stored sha root (referred sha root bs idx fs) b"
proof (cases "b \<in> set bs")
  case True
  then show ?thesis using putBlobs_written [where sha = sha, OF assms(1) True] assms(1,2) by (simp add: stored_def referred_def insert_absorb)
next
  case False
  then have "blobKey root (sha b) \<notin> blobKey root ` sha ` set bs" using assms(1,2) by (auto simp: inj_on_def)
  then show ?thesis using False assms(1,3) by (simp add: stored_def referred_def putBlobs_other)
qed

lemma readReferrer_ok:
  assumes st: "\<forall>b \<in> {''{}'', doc, referrerRaw sha subject at lt doc ann}. stored sha root fs b"
    and sz: "descriptor_ok subject" "smallFile doc" and ann: "canonical ann"
    and lt: "lt = (if at = CycloneDXMediaType then CycloneDXMediaType else DSSEEnvelopeMediaType)"
  shows "readReferrer sha root fs (referrerDesc sha subject at lt doc ann) subject =
    Inr \<lparr>rf_Descriptor = referrerDesc sha subject at lt doc ann, rf_Manifest = referrerDoc sha subject at lt doc ann, rf_Document = doc\<rparr>"
proof -
  let ?m = "referrerDoc sha subject at lt doc ann"
  have s: "smallFile ''{}''" by (simp add: smallFile_def max_int64_def)
  have "manifest_ok ?m"
    using blobDesc_ok [OF s] blobDesc_ok [OF sz(2)] sz(1) ann
    by (simp add: manifest_ok_def referrerDoc_def referrerManifest_def in_int64_def min_int64_def max_int64_def descriptor_ok_def emptyDescriptor_def)
  then have d: "decodeStrict (decodeManifest True) (referrerRaw sha subject at lt doc ann) = Some ?m"
    by (simp add: decodeStrict_def referrerRaw_def parse_Marshal json_wf_encode decode_encode_Manifest)
  have r: "readVerifiedBlob sha (BlobPath root) fs (referrerDesc sha subject at lt doc ann) = Inr (referrerRaw sha subject at lt doc ann)"
    "readVerifiedBlob sha (BlobPath root) fs (blobDesc sha OCIEmptyConfigMediaType ''{}'') = Inr ''{}''"
    "readVerifiedBlob sha (BlobPath root) fs (blobDesc sha lt doc) = Inr doc"
    by (rule readVerified_stored; use st in \<open>simp add: referrerDesc_def blobDesc_def\<close>)+
  have f: "d_MediaType (referrerDesc sha subject at lt doc ann) = ociManifestMediaType" "d_ArtifactType (referrerDesc sha subject at lt doc ann) = at"
    "d_MediaType (blobDesc sha mt b) = mt" for mt b
    by (simp_all add: referrerDesc_def blobDesc_def)
  have m: "m_Subject ?m = Some (emptyDescriptor\<lparr>d_MediaType := d_MediaType subject, d_Digest := d_Digest subject, d_Size := d_Size subject\<rparr>)"
    "m_SchemaVersion ?m = 2" "m_MediaType ?m = ociManifestMediaType" "m_ArtifactType ?m = at" "m_Layers ?m = [blobDesc sha lt doc]"
    "m_Config ?m = blobDesc sha OCIEmptyConfigMediaType ''{}''"
    by (simp_all add: referrerDoc_def referrerManifest_def)
  show ?thesis by (simp add: readReferrer_def f r d m flip: lt)
qed

lemma skip_other_types:
  assumes "\<forall>d \<in> set ds. d_ArtifactType d \<noteq> at" and "at \<noteq> ''''"
  shows "readReferrers sha root fs subject sd at (ds @ es) = readReferrers sha root fs subject sd at es"
    "countReferrers sha root fs subject sd at n (ds @ es) = countReferrers sha root fs subject sd at n es"
  using assms by (induction ds) simp_all

section \<open>What is published verifies\<close>

lemma types_differ [simp]: "CycloneDXMediaType \<noteq> AttestationArtifactType" "AttestationArtifactType \<noteq> CycloneDXMediaType"
  "CycloneDXMediaType \<noteq> ''''" "AttestationArtifactType \<noteq> ''''"
  by (simp_all add: CycloneDXMediaType_def AttestationArtifactType_def)

lemma referrerDesc_simps [simp]:
  "d_ArtifactType (referrerDesc sha subject at lt doc ann) = at" "d_Digest (referrerDesc sha subject at lt doc ann) = digestOf sha (referrerRaw sha subject at lt doc ann)"
  by (simp_all add: referrerDesc_def blobDesc_def)

lemma referrer_subject: "alget (d_Annotations (referrerDesc sha subject at lt doc ann)) ReferrerSubjectAnnotation = d_Digest subject"
proof -
  have k: "ReferrerSubjectAnnotation \<noteq> PredicateTypeAnnotation" by (simp add: ReferrerSubjectAnnotation_def PredicateTypeAnnotation_def)
  have "map_of (goMap kvs) ReferrerSubjectAnnotation = Some v" if "(ReferrerSubjectAnnotation, v) \<in> set kvs" "distinct (map fst kvs)"
    for kvs and v :: string
  proof -
    have m: "mset (goMap kvs) = mset kvs" using that(2) by (simp add: goMap_def lastWins_distinct)
    have "distinct (map fst (goMap kvs))" using canonical_goMap canonical_distinct by blast
    then show ?thesis using that(1) mset_eq_setD [OF m] by (intro map_of_is_SomeI) auto
  qed
  then show ?thesis using k by (simp add: referrerDesc_def referrerAnnotations_def Let_def alget_def mget_def)
qed

text \<open>One referrer of a type in the index: the search finds it and the count is one.\<close>

lemma single_referrer:
  assumes idx: "readIndex root fs = Inr idx" and m: "x_Manifests idx = ds @ referrerDesc sha subject at lt doc ann # es"
    and sub: "findSubject idx (d_Digest subject) = Inr subject"
    and other: "\<forall>d \<in> set (ds @ es). d_ArtifactType d \<noteq> at" and at: "at \<noteq> ''''"
    and read: "readReferrer sha root fs (referrerDesc sha subject at lt doc ann) subject =
      Inr \<lparr>rf_Descriptor = referrerDesc sha subject at lt doc ann, rf_Manifest = referrerDoc sha subject at lt doc ann, rf_Document = doc\<rparr>"
  shows "Referrers sha root fs (d_Digest subject) at =
      Inr [\<lparr>rf_Descriptor = referrerDesc sha subject at lt doc ann, rf_Manifest = referrerDoc sha subject at lt doc ann, rf_Document = doc\<rparr>]"
    and "referrerDescriptorCount sha root fs (d_Digest subject) at = Inr 1"
proof -
  have d: "\<forall>d \<in> set ds. d_ArtifactType d \<noteq> at" "\<forall>d \<in> set es. d_ArtifactType d \<noteq> at" using other by auto
  note s = skip_other_types [OF d(1) at]
  have j: "m_Subject (referrerDoc sha subject at lt doc ann) =
      Some (emptyDescriptor\<lparr>d_MediaType := d_MediaType subject, d_Digest := d_Digest subject, d_Size := d_Size subject\<rparr>)"
    by (simp add: referrerDoc_def referrerManifest_def)
  have e: "readReferrers sha root fs subject sd at es = Inr []" "countReferrers sha root fs subject sd at n es = Inr n" for sd n
    using skip_other_types(1) [OF d(2) at, of sha root fs subject sd "[]"] skip_other_types(2) [OF d(2) at, of sha root fs subject sd n "[]"]
    by simp_all
  show "Referrers sha root fs (d_Digest subject) at =
      Inr [\<lparr>rf_Descriptor = referrerDesc sha subject at lt doc ann, rf_Manifest = referrerDoc sha subject at lt doc ann, rf_Document = doc\<rparr>]"
    by (simp add: Referrers_def idx sub m s e read j)
  show "referrerDescriptorCount sha root fs (d_Digest subject) at = Inr 1"
    by (simp add: referrerDescriptorCount_def idx sub m s e referrer_subject)
qed

lemma find_before: "find P xs = Some x \<Longrightarrow> find P (xs @ ys) = Some x"
  by (simp add: find_append)

lemma findSubject_withReferrer: "findSubject idx d = Inr s \<Longrightarrow> findSubject (withReferrer idx x) d = Inr s"
  by (auto simp: findSubject_def withReferrer_def find_append split: option.splits if_splits)

definition bundleStatement :: "Descriptor \<Rightarrow> DependencyBundleConfig \<Rightarrow> string \<Rightarrow> string \<Rightarrow> InTotoStatement" where
  "bundleStatement b cfg sbomDigest identity =
     NewStatement ''dependency-bundle'' (d_Digest b) BundlePredicateType (encodeProvenance (bundleProvenance b cfg sbomDigest identity))"

text \<open>The blobs of a publication, with its envelope: the empty config, the SBOM and its manifest, the envelope and its manifest.\<close>

definition supplyBlobs :: "(bytes \<Rightarrow> string) \<Rightarrow> Descriptor \<Rightarrow> DependencyBundleConfig \<Rightarrow> DependencyLock \<Rightarrow> bytes \<Rightarrow> bytes list" where
  "supplyBlobs sha b cfg lock envelope =
     (let sbom = Marshal (encodeBOM (bomOf lock cfg)) in
      [''{}'', sbom, referrerRaw sha b CycloneDXMediaType CycloneDXMediaType sbom [], envelope,
       referrerRaw sha b AttestationArtifactType DSSEEnvelopeMediaType envelope [(PredicateTypeAnnotation, BundlePredicateType)]])"

lemma attestF_ok [fsm_ok]: "attestF r fs = (Inr a, fs') \<longleftrightarrow> r = Inr a \<and> fs' = fs"
  by (cases r) (auto simp: attestF_def liftF_def)

lemma PublishBundleSupplyChain_elim:
  assumes run: "PublishBundleSupplyChain c dk root b cfg lock key identity fs = (Inr d, fs')"
  obtains sbom envelope d1 fs1 d2 where "TrimSpace identity \<noteq> ''''" and "ValidateLock lock = None" and "sbom = Marshal (encodeBOM (bomOf lock cfg))"
    and "PublishReferrer (cr_sha c) dk root b CycloneDXMediaType CycloneDXMediaType sbom [] fs = (Inr d1, fs1)"
    and "SignStatement c (bundleStatement b cfg (digestOf (cr_sha c) sbom) identity) key = Inr envelope"
    and "PublishReferrer (cr_sha c) dk root b AttestationArtifactType DSSEEnvelopeMediaType envelope
      [(PredicateTypeAnnotation, BundlePredicateType)] fs1 = (Inr d2, fs')"
    and "d = digestOf (cr_sha c) sbom"
proof -
  have i: "TrimSpace identity \<noteq> ''''" using run by (auto simp: PublishBundleSupplyChain_def fsm_ok)
  obtain sbom envelope d1 fs1 d2 where h: "GenerateCycloneDX lock cfg = Inr sbom"
    "PublishReferrer (cr_sha c) dk root b CycloneDXMediaType CycloneDXMediaType sbom [] fs = (Inr d1, fs1)"
    "SignStatement c (bundleStatement b cfg (digestOf (cr_sha c) sbom) identity) key = Inr envelope"
    "PublishReferrer (cr_sha c) dk root b AttestationArtifactType DSSEEnvelopeMediaType envelope
      [(PredicateTypeAnnotation, BundlePredicateType)] fs1 = (Inr d2, fs')" "d = digestOf (cr_sha c) sbom"
    using run i by (auto simp: PublishBundleSupplyChain_def publishBundleSBOM_def bundleStatement_def fsm_ok)
  have "ValidateLock lock = None" "sbom = Marshal (encodeBOM (bomOf lock cfg))"
    using h(1) by (auto simp: GenerateCycloneDX_def split: option.splits)
  then show thesis using that i h by blast
qed

lemma two_referrers:
  assumes sha: "\<And>x. plainName (sha x)" and idx: "readIndex root fs = Inr idx" and sub: "findSubject idx (d_Digest b) = Inr b"
    and p1: "PublishReferrer sha dk root b t1 l1 doc1 an1 fs = (Inr d1, fs1)"
    and p2: "PublishReferrer sha dk root b t2 l2 doc2 an2 fs1 = (Inr d2, fs2)"
    and bs: "bs = [''{}'', doc1, referrerRaw sha b t1 l1 doc1 an1, doc2, referrerRaw sha b t2 l2 doc2 an2]"
    and dist: "distinct (map sha bs)" and small: "list_all smallFile bs"
    and new: "\<forall>d \<in> set (x_Manifests idx). d_Digest d \<notin> digestOf sha ` set bs"
    and b: "descriptor_ok b" and an: "canonical an1" "canonical an2"
    and lt: "l1 = (if t1 = CycloneDXMediaType then CycloneDXMediaType else DSSEEnvelopeMediaType)"
      "l2 = (if t2 = CycloneDXMediaType then CycloneDXMediaType else DSSEEnvelopeMediaType)"
    and ty: "t1 \<noteq> t2" "t1 \<noteq> ''''" "t2 \<noteq> ''''" "\<forall>d \<in> set (x_Manifests idx). d_ArtifactType d \<notin> {t1, t2}"
  shows "Referrers sha root fs2 (d_Digest b) t1 =
      Inr [\<lparr>rf_Descriptor = referrerDesc sha b t1 l1 doc1 an1, rf_Manifest = referrerDoc sha b t1 l1 doc1 an1, rf_Document = doc1\<rparr>]"
    "referrerDescriptorCount sha root fs2 (d_Digest b) t1 = Inr 1"
    "Referrers sha root fs2 (d_Digest b) t2 =
      Inr [\<lparr>rf_Descriptor = referrerDesc sha b t2 l2 doc2 an2, rf_Manifest = referrerDoc sha b t2 l2 doc2 an2, rf_Document = doc2\<rparr>]"
proof -
  let ?r1 = "referrerRaw sha b t1 l1 doc1 an1" and ?r2 = "referrerRaw sha b t2 l2 doc2 an2"
  let ?d1 = "referrerDesc sha b t1 l1 doc1 an1" and ?d2 = "referrerDesc sha b t2 l2 doc2 an2"
  let ?i1 = "withReferrer idx ?d1" and ?i2 = "withReferrer (withReferrer idx ?d1) ?d2"
  have inj: "inj_on sha (set bs)" using dist by (simp only: distinct_map)
  have ne: "sha ?r1 \<noteq> sha ?r2" using dist by (simp add: bs)
  have ok: "index_ok ?i1" "index_ok ?i2" using readIndex_ok [OF idx] small by (simp_all add: withReferrer_ok referrerDesc_ok bs)
  have f1: "fs1 = referred sha root [''{}'', doc1, ?r1] ?i1 fs" by (rule PublishReferrer_ok [OF p1 sha idx]) (use new in \<open>auto simp: bs\<close>)
  have x1: "readIndex root fs1 = Inr ?i1" unfolding f1 using ok(1) by (rule readIndex_referred)
  have f2: "fs2 = referred sha root [''{}'', doc2, ?r2] ?i2 fs1"
    by (rule PublishReferrer_ok [OF p2 sha x1]) (use new ne in \<open>auto simp: bs withReferrer_def digestOf_def\<close>)
  have x2: "readIndex root fs2 = Inr ?i2" unfolding f2 using ok(2) by (rule readIndex_referred)
  have sub_inj: "inj_on sha (insert x (set xs))" if "insert x (set xs) \<subseteq> set bs" for x xs using inj that by (rule inj_on_subset)
  have st1: "stored sha root fs1 x" if "x \<in> {''{}'', doc1, ?r1}" for x
    unfolding f1 by (rule stored_referred [OF sha sub_inj]) (use that in \<open>auto simp: bs\<close>)
  have st2: "stored sha root fs2 x" if "x \<in> set bs" for x
    unfolding f2 by (rule stored_referred [OF sha sub_inj]) (use that st1 in \<open>auto simp: bs\<close>)
  have sm: "smallFile doc1" "smallFile doc2" using small by (simp_all add: bs)
  have rd: "readReferrer sha root fs2 ?d1 b = Inr \<lparr>rf_Descriptor = ?d1, rf_Manifest = referrerDoc sha b t1 l1 doc1 an1, rf_Document = doc1\<rparr>"
    "readReferrer sha root fs2 ?d2 b = Inr \<lparr>rf_Descriptor = ?d2, rf_Manifest = referrerDoc sha b t2 l2 doc2 an2, rf_Document = doc2\<rparr>"
    using st2 readReferrer_ok [OF _ b sm(1) an(1) lt(1)] readReferrer_ok [OF _ b sm(2) an(2) lt(2)] by (simp_all add: bs)
  have sb: "findSubject ?i2 (d_Digest b) = Inr b" by (intro findSubject_withReferrer sub)
  have m1: "x_Manifests ?i2 = x_Manifests idx @ ?d1 # [?d2]" and m2: "x_Manifests ?i2 = (x_Manifests idx @ [?d1]) @ ?d2 # []"
    by (simp_all add: withReferrer_def)
  have o1: "\<forall>d \<in> set (x_Manifests idx @ [?d2]). d_ArtifactType d \<noteq> t1" and o2: "\<forall>d \<in> set ((x_Manifests idx @ [?d1]) @ []). d_ArtifactType d \<noteq> t2"
    using ty by auto
  show "Referrers sha root fs2 (d_Digest b) t1 = Inr [\<lparr>rf_Descriptor = ?d1, rf_Manifest = referrerDoc sha b t1 l1 doc1 an1, rf_Document = doc1\<rparr>]"
    "referrerDescriptorCount sha root fs2 (d_Digest b) t1 = Inr 1"
    by (rule single_referrer [OF x2 m1 sb o1 ty(2) rd(1)])+
  show "Referrers sha root fs2 (d_Digest b) t2 = Inr [\<lparr>rf_Descriptor = ?d2, rf_Manifest = referrerDoc sha b t2 l2 doc2 an2, rf_Document = doc2\<rparr>]"
    by (rule single_referrer [OF x2 m2 sb o2 ty(3) rd(2)])
qed

lemma published_verifies:
  assumes c: "crypto_ok c" "float_ok fl" "\<And>x. plainName (cr_sha c x)"
    and idx: "readIndex root fs = Inr idx" "find (\<lambda>d. d_Digest d = d_Digest b) (x_Manifests idx) = Some b" "isSHA256Digest (d_Digest b)"
    and free: "\<forall>d \<in> set (x_Manifests idx). d_ArtifactType d \<notin> {CycloneDXMediaType, AttestationArtifactType}"
    and sign: "SignStatement c (bundleStatement b cfg (digestOf (cr_sha c) (Marshal (encodeBOM (bomOf lock cfg)))) identity) key = Inr envelope"
    and dist: "distinct (map (cr_sha c) (supplyBlobs (cr_sha c) b cfg lock envelope))" "list_all smallFile (supplyBlobs (cr_sha c) b cfg lock envelope)"
      "\<forall>d \<in> set (x_Manifests idx). d_Digest d \<notin> digestOf (cr_sha c) ` set (supplyBlobs (cr_sha c) b cfg lock envelope)"
    and run: "PublishBundleSupplyChain c dk root b cfg lock key identity fs = (Inr digest, fs')"
    and r: "rd_ManifestDigest r = d_Digest b" "rd_Config r = cfg" "rd_Lock r = lock"
  shows "VerifyBundleSupplyChain c fl root fs' r (Some (cr_pub c key)) identity =
    Inr \<lparr>vb_SBOMDigest = digest, vb_BuilderIdentity = identity, vb_Signed = True\<rparr>"
proof -
  obtain sbom d1 fs1 d2 where p: "TrimSpace identity \<noteq> ''''" "ValidateLock lock = None" "sbom = Marshal (encodeBOM (bomOf lock cfg))"
    "PublishReferrer (cr_sha c) dk root b CycloneDXMediaType CycloneDXMediaType sbom [] fs = (Inr d1, fs1)"
    "PublishReferrer (cr_sha c) dk root b AttestationArtifactType DSSEEnvelopeMediaType envelope
      [(PredicateTypeAnnotation, BundlePredicateType)] fs1 = (Inr d2, fs')" "digest = digestOf (cr_sha c) sbom"
    using PublishBundleSupplyChain_elim [OF run] sign by (metis sum.inject(2))
  have b: "descriptor_ok b" using readIndex_ok [OF idx(1)] idx(2) by (auto simp: index_ok_def list_all_iff find_Some_iff)
  have sub: "findSubject idx (d_Digest b) = Inr b" using idx(2,3) by (auto simp: findSubject_def isSHA256Digest_def)
  note bl = dist [unfolded supplyBlobs_def Let_def, folded p(3)]
  note two = two_referrers [OF c(3) idx(1) sub p(4,5) refl bl b _ _ _ _ _ _ _ free, simplified]
  let ?q = "bundleProvenance b cfg digest identity"
  obtain j where j: "anyOf fl (encodeProvenance ?q) = Some j" "json_wf j" "decodeProvenance j = Some ?q"
    using any_Provenance [OF c(2), of ?q] by (auto simp: bundleProvenance_def)
  have "VerifyStatement c fl envelope (cr_pub c key) BundlePredicateType (d_Digest b) = Inr ((bundleStatement b cfg digest identity)\<lparr>st_Predicate := j\<rparr>)"
    by (rule verify_signed [OF c(1) sign [folded p(3), folded p(6)] bundleStatement_def sha256_prefix [OF idx(3)] json_wf_attest(2) j(1)])
  then have k: "checkProvenance c fl r digest (cr_pub c key) identity envelope = Inr ?q"
    using j(2,3) by (simp add: checkProvenance_Inr r decodeStrict_def parse_Marshal bundleProvenance_def)
  have v: "validateCycloneDX sbom lock cfg = None" unfolding p(3) by (rule generated_sbom_validates [OF p(2)])
  show ?thesis using two v k p(1)
    by (simp add: VerifyBundleSupplyChain_def r Let_def flip: p(6)) (simp add: referrerDoc_def referrerManifest_def bundleProvenance_def)
qed


section \<open>An example\<close>

text \<open>A store that holds one bundle, and a key that signs one statement. The hash counts bytes, but no other message
  has the hash of the signed one.\<close>

definition chainDesc :: Descriptor where
  "chainDesc = emptyDescriptor\<lparr>d_MediaType := ociManifestMediaType, d_ArtifactType := DependencyBundleArtifactType,
     d_Digest := demoDigest (CHR ''a''), d_Size := 7\<rparr>"

definition chainIndex :: Index where
  "chainIndex = emptyIndex\<lparr>x_Manifests := [chainDesc]\<rparr>"

definition chainStore :: fsys where
  "chainStore = [indexKey ''/store'' \<mapsto> MarshalIndent (encodeIndex chainIndex)]"

definition chainSbom :: bytes where
  "chainSbom = Marshal (encodeBOM (bomOf demoLock demoBundle))"

definition chainStatement :: InTotoStatement where
  "chainStatement = bundleStatement chainDesc demoBundle (digestOf countSha chainSbom) ''ci@acme''"

definition chainSha :: "bytes \<Rightarrow> string" where
  "chainSha b = (if b = signedMessage chainStatement then ''signed'' else countSha b)"

lemma chainSha_unique: "chainSha b = ''signed'' \<longleftrightarrow> b = signedMessage chainStatement"
proof -
  have "length (countSha b) \<noteq> length ''signed''" using countSha_hex [of b] by (simp add: hex64_def)
  then show ?thesis by (auto simp: chainSha_def)
qed

lemma chainSha_other: "hd b \<noteq> CHR ''D'' \<Longrightarrow> chainSha b = countSha b"
  by (auto simp: chainSha_def signedMessage_def dssePAE_fields)

lemma chainSha_plain: "plainName (chainSha b)"
proof -
  have "plainName ''signed''" by code_simp
  then show ?thesis using hex64_plain [OF countSha_hex] by (simp add: chainSha_def)
qed

definition chainCrypto :: crypto where
  "chainCrypto = demoCrypto\<lparr>cr_sha := chainSha, cr_sign := (\<lambda>k d. if d = ''signed'' then Some ''s'' else None),
     cr_verify := (\<lambda>k d s. d = ''signed'' \<and> s = ''s'')\<rparr>"

definition chainEnvelope :: bytes where
  "chainEnvelope = Marshal (encodeEnvelope \<lparr>dv_PayloadType = InTotoPayloadType, dv_Payload = EncodeToString (Marshal (encodeStatement chainStatement)),
     dv_Signatures = [\<lparr>sg_KeyID = ''sha256:'' @ countSha ''key'', sg_Sig = EncodeToString ''s''\<rparr>]\<rparr>)"

definition chainBundle :: ResolvedDependencyBundle where
  "chainBundle = \<lparr>rd_ManifestDigest = d_Digest chainDesc, rd_Config = demoBundle, rd_Lock = demoLock, rd_Layer = emptyDescriptor\<rparr>"

lemma chain_crypto [simp]: "cr_sha chainCrypto = chainSha" "cr_pub chainCrypto k = k"
  by (simp_all add: chainCrypto_def demoCrypto_def)

lemma chain_crypto_ok: "crypto_ok chainCrypto"
  by (simp add: crypto_ok_def chainCrypto_def demoCrypto_def)

lemma chain_documents: "chainSha (Marshal (encodeManifest m)) = countSha (Marshal (encodeManifest m))" "chainSha chainSbom = countSha chainSbom"
  "chainSha chainEnvelope = countSha chainEnvelope" "chainSha ''{}'' = countSha ''{}''" "chainSha ''key'' = countSha ''key''"
  by (rule chainSha_other; simp add: Marshal_def encodeManifest_def chainSbom_def encodeBOM_def chainEnvelope_def encodeEnvelope_def)+

lemma chain_signs: "SignStatement chainCrypto chainStatement ''key'' = Inr chainEnvelope"
proof -
  have "cr_sign chainCrypto ''key'' ''signed'' = Some ''s''" "cr_pkix chainCrypto k = Some k" for k
    by (simp_all add: chainCrypto_def demoCrypto_def)
  moreover have "chainSha (dssePAE InTotoPayloadType (Marshal (encodeStatement chainStatement))) = ''signed''"
    by (simp add: chainSha_def signedMessage_def)
  ultimately show ?thesis by (simp add: SignStatement_def Let_def PublicKeyID_def chainEnvelope_def chain_documents)
qed

lemma chain_signs':
  "SignStatement chainCrypto (bundleStatement chainDesc demoBundle (digestOf (cr_sha chainCrypto) (Marshal (encodeBOM (bomOf demoLock demoBundle)))) ''ci@acme'') ''key'' =
    Inr chainEnvelope"
  using chain_signs by (simp add: chainStatement_def digestOf_def chain_documents flip: chainSbom_def)

lemma chain_lock: "ValidateLock demoLock = None"
  by code_simp

lemma chain_index_ok: "index_ok chainIndex"
  by (simp add: chainIndex_def emptyIndex_def chainDesc_def emptyDescriptor_def index_ok_def descriptor_ok_def in_int64_def min_int64_def max_int64_def)

lemma chain_reads: "readIndex ''/store'' chainStore = Inr chainIndex"
  using parseIndex_print [OF chain_index_ok] by (simp add: readIndex_def fileAt_def chainStore_def flip: indexKey_def)

lemma chain_lengths: "map length (supplyBlobs countSha chainDesc demoBundle demoLock chainEnvelope) = [2, 530, 588, 927, 707]"
  by code_simp

lemma chain_blobs:
  "distinct (map chainSha (supplyBlobs chainSha chainDesc demoBundle demoLock chainEnvelope))"
  "list_all smallFile (supplyBlobs chainSha chainDesc demoBundle demoLock chainEnvelope)"
proof -
  let ?bs = "supplyBlobs countSha chainDesc demoBundle demoLock chainEnvelope"
  have l: "inj_on countSha (set ?bs)" "list_all smallFile ?bs" by (rule countSha_lengths [OF chain_lengths]; simp)+
  have "distinct (map length ?bs)" unfolding chain_lengths by simp
  then have d: "distinct (map countSha ?bs)" using l(1) by (simp only: distinct_map)
  have e: "supplyBlobs chainSha chainDesc demoBundle demoLock chainEnvelope = ?bs"
    by (simp add: supplyBlobs_def Let_def referrerRaw_def referrerDoc_def blobDesc_def digestOf_def chain_documents flip: chainSbom_def)
  have m: "map chainSha ?bs = map countSha ?bs" by (simp add: supplyBlobs_def Let_def referrerRaw_def chain_documents flip: chainSbom_def)
  show "distinct (map chainSha (supplyBlobs chainSha chainDesc demoBundle demoLock chainEnvelope))"
    "list_all smallFile (supplyBlobs chainSha chainDesc demoBundle demoLock chainEnvelope)"
    unfolding e m by (rule d l(2))+
qed

lemma chain_desc:
  "find (\<lambda>d. d_Digest d = d_Digest chainDesc) (x_Manifests chainIndex) = Some chainDesc" "isSHA256Digest (d_Digest chainDesc)"
  "\<forall>d \<in> set (x_Manifests chainIndex). d_ArtifactType d \<notin> {CycloneDXMediaType, AttestationArtifactType}"
  "\<forall>d \<in> set (x_Manifests chainIndex). d_Digest d \<notin> digestOf chainSha ` X"
proof -
  have d: "d_Digest chainDesc = demoDigest (CHR ''a'')" "d_ArtifactType chainDesc = DependencyBundleArtifactType" "x_Manifests chainIndex = [chainDesc]"
    by (simp_all add: chainDesc_def chainIndex_def)
  show "find (\<lambda>d. d_Digest d = d_Digest chainDesc) (x_Manifests chainIndex) = Some chainDesc" by (simp add: d(3))
  show "isSHA256Digest (d_Digest chainDesc)" unfolding d(1) by (rule demo_predicate(2))
  show "\<forall>d \<in> set (x_Manifests chainIndex). d_ArtifactType d \<notin> {CycloneDXMediaType, AttestationArtifactType}"
    by (simp add: d(2,3) oci_names CycloneDXMediaType_def AttestationArtifactType_def)
  have "CHR ''a'' \<notin> set (chainSha b)" for b by (simp add: chainSha_def countSha_def)
  moreover have "CHR ''a'' \<in> set (replicate 64 (CHR ''a''))" by simp
  ultimately have "demoDigest (CHR ''a'') \<noteq> digestOf chainSha b" for b unfolding demoDigest_def digestOf_def by (metis same_append_eq)
  then show "\<forall>d \<in> set (x_Manifests chainIndex). d_Digest d \<notin> digestOf chainSha ` X" by (auto simp: d(1,3))
qed

lemma PublishReferrer_runs:
  assumes sha: "\<And>x. plainName (sha x)" and idx: "readIndex root fs = Inr idx"
  shows "\<exists>d fs'. PublishReferrer sha workingDisk root subject at lt doc ann fs = (Inr d, fs')"
proof -
  have w: "writeBlob sha workingDisk root b gs = (Inr (blobDesc sha '''' b), putBlobs sha root [b] gs)" for b gs
    by (simp add: writeBlob_def thenF_def bindF_def mkdirF_def writeF_def retF_def Let_def workingDisk_def blobKey_def digestOf_def blobDesc_def emptyDescriptor_def)
  have a: "\<exists>gs'. appendIndex workingDisk root d gs = (Inr (), gs')" if "readIndex root gs = Inr idx" for d gs
    using that by (auto simp: readIndex_def appendIndex_def fsm_ok workingDisk_def split: option.splits)
  have b: "\<exists>gs'. appendIndex workingDisk root d (putBlobs sha root bs fs) = (Inr (), gs')" for d bs
    by (rule a) (use idx readIndex_putBlobs [where sha = sha, OF sha] in simp)
  have k: "dk_write workingDisk p = Written" for p by (simp add: workingDisk_def)
  show ?thesis using b [where bs = "[x, y, z]" for x y z] by (simp add: PublishReferrer_def fsm_ok w k Let_def writeLayoutMarker_def)
qed

lemma chain_publishes:
  obtains fs' where "PublishBundleSupplyChain chainCrypto workingDisk ''/store'' chainDesc demoBundle demoLock ''key'' ''ci@acme'' chainStore =
    (Inr (digestOf chainSha chainSbom), fs')"
proof -
  let ?r1 = "referrerRaw chainSha chainDesc CycloneDXMediaType CycloneDXMediaType chainSbom []"
  obtain d1 fs1 where 1: "PublishReferrer chainSha workingDisk ''/store'' chainDesc CycloneDXMediaType CycloneDXMediaType chainSbom [] chainStore = (Inr d1, fs1)"
    using PublishReferrer_runs [where sha = chainSha, OF chainSha_plain chain_reads] by blast
  have n: "\<forall>d \<in> set (x_Manifests chainIndex). d_Digest d \<noteq> digestOf chainSha ?r1" using chain_desc(4) [of "{?r1}"] by simp
  have s: "smallFile ?r1" using chain_blobs(2) by (simp add: supplyBlobs_def Let_def flip: chainSbom_def)
  have "readIndex ''/store'' fs1 = Inr (withReferrer chainIndex (referrerDesc chainSha chainDesc CycloneDXMediaType CycloneDXMediaType chainSbom []))"
    unfolding PublishReferrer_ok [OF 1 chainSha_plain chain_reads n]
    by (intro readIndex_referred withReferrer_ok chain_index_ok referrerDesc_ok s)
  then obtain d2 fs2 where 2: "PublishReferrer chainSha workingDisk ''/store'' chainDesc AttestationArtifactType DSSEEnvelopeMediaType chainEnvelope
      [(PredicateTypeAnnotation, BundlePredicateType)] fs1 = (Inr d2, fs2)"
    using PublishReferrer_runs [where sha = chainSha, OF chainSha_plain] by blast
  have t: "TrimSpace ''ci@acme'' \<noteq> ''''" by code_simp
  have g: "GenerateCycloneDX demoLock demoBundle = Inr chainSbom" by (simp add: GenerateCycloneDX_def chain_lock chainSbom_def)
  have "SignStatement chainCrypto (bundleStatement chainDesc demoBundle (digestOf chainSha chainSbom) ''ci@acme'') ''key'' = Inr chainEnvelope"
    using chain_signs by (simp add: chainStatement_def digestOf_def chain_documents)
  then have "PublishBundleSupplyChain chainCrypto workingDisk ''/store'' chainDesc demoBundle demoLock ''key'' ''ci@acme'' chainStore =
      (Inr (digestOf chainSha chainSbom), fs2)"
    using 1 2 t g unfolding PublishBundleSupplyChain_def publishBundleSBOM_def bundleStatement_def
    by (simp add: fsm_ok)
  then show thesis by (rule that)
qed

lemma chain_verifies:
  "\<exists>fs'. PublishBundleSupplyChain chainCrypto workingDisk ''/store'' chainDesc demoBundle demoLock ''key'' ''ci@acme'' chainStore =
      (Inr (digestOf chainSha chainSbom), fs') \<and>
    VerifyBundleSupplyChain chainCrypto Some ''/store'' fs' chainBundle (Some ''key'') ''ci@acme'' =
      Inr \<lparr>vb_SBOMDigest = digestOf chainSha chainSbom, vb_BuilderIdentity = ''ci@acme'', vb_Signed = True\<rparr>"
proof (rule chain_publishes)
  fix fs'
  assume run: "PublishBundleSupplyChain chainCrypto workingDisk ''/store'' chainDesc demoBundle demoLock ''key'' ''ci@acme'' chainStore =
    (Inr (digestOf chainSha chainSbom), fs')"
  have "VerifyBundleSupplyChain chainCrypto Some ''/store'' fs' chainBundle (Some (cr_pub chainCrypto ''key'')) ''ci@acme'' =
      Inr \<lparr>vb_SBOMDigest = digestOf chainSha chainSbom, vb_BuilderIdentity = ''ci@acme'', vb_Signed = True\<rparr>"
    by (rule published_verifies [OF chain_crypto_ok demo_crypto(2) _ chain_reads chain_desc(1,2,3) chain_signs' _ _ _ run])
      (simp_all add: chainSha_plain chain_blobs chain_desc(4) chainBundle_def)
  then show ?thesis using run by auto
qed


theorem verified_bundle_is_bound_witness:
  "\<exists>fs' sbom. vb_Signed \<lparr>vb_SBOMDigest = digestOf chainSha chainSbom, vb_BuilderIdentity = ''ci@acme'', vb_Signed = True\<rparr> \<and>
    VerifyBundleSupplyChain chainCrypto Some ''/store'' fs' chainBundle (Some ''key'') ''ci@acme'' =
      Inr \<lparr>vb_SBOMDigest = digestOf chainSha chainSbom, vb_BuilderIdentity = ''ci@acme'', vb_Signed = True\<rparr> \<and>
    digestOf chainSha sbom = digestOf chainSha chainSbom \<and> validateCycloneDX sbom demoLock demoBundle = None \<and>
    st_PredicateType chainStatement = BundlePredicateType"
proof -
  obtain fs' where v: "VerifyBundleSupplyChain chainCrypto Some ''/store'' fs' chainBundle (Some ''key'') ''ci@acme'' =
      Inr \<lparr>vb_SBOMDigest = digestOf chainSha chainSbom, vb_BuilderIdentity = ''ci@acme'', vb_Signed = True\<rparr>"
    using chain_verifies by blast
  have u: "\<forall>k d sig. Some ''key'' = Some k \<longrightarrow> cr_verify chainCrypto k d sig \<longrightarrow> (\<exists>s \<in> {chainStatement}. d = cr_sha chainCrypto (signedMessage s))"
    by (simp add: chainCrypto_def demoCrypto_def chainSha_def)
  have "\<not> collides chainCrypto (signedMessage chainStatement)"
    using chainSha_unique unfolding collides_def chain_crypto by (metis (full_types))
  moreover have "wellFormedStatement chainStatement"
    by (simp add: wellFormedStatement_def chainStatement_def bundleStatement_def NewStatement_def subject_ok_def)
  ultimately have w: "\<forall>s \<in> {chainStatement}. wellFormedStatement s \<and> \<not> collides chainCrypto (signedMessage s)" by simp
  have "rd_Lock chainBundle = demoLock" "rd_Config chainBundle = demoBundle" by (simp_all add: chainBundle_def)
  then show ?thesis using verified_bundle_is_bound [OF v u w] v by auto
qed

theorem validateCycloneDX_exact_witness:
  "ValidateLock demoLock = None \<and> validateCycloneDX chainSbom demoLock demoBundle = None \<and>
    (\<exists>sbom. Option.bind (parseJson chainSbom) decodeBOM = Some sbom \<and>
       mset (map libraryItem (cb_Components sbom)) = mset (map sbomItem (lk_Artifacts demoLock)))"
  using validateCycloneDX_exact [OF chain_lock, of chainSbom demoBundle] generated_sbom_validates [OF chain_lock, of demoBundle] chain_lock
  unfolding chainSbom_def by blast

end
