(* ===== verification/Brewlet_Cli.thy ===== *)
theory Brewlet_Cli
  imports Flags Jar_Inspect Doctor Supply_Chain Runnable_Image Bundle
begin

text \<open>
  The commands of \<open>brewlet\<close> (\<open>src/core/cmd/brewlet/main.go\<close>), from the arguments to the result, over the models of the packages they call. A
  command that uses the OCI layout is a computation on the files (\<open>Go_FS\<close>). \<open>jdks\<close> and \<open>doctor\<close> give the text they print; the other commands give the
  values that they print. \<open>run\<close> ends with the plan it would execute (starting the JVM and forwarding signals is not modelled), \<open>bundle\<close> with the
  operations on the host and the written specification. The record \<open>cli_world\<close> is the rest of the machine: the cryptography, the codecs, the disk,
  the zip reader, temporary directories, the environment and the training JVM, which may change files; \<open>local_world\<close> is what \<open>run\<close> and
  \<open>bundle\<close> need besides: the host as a function of the files, the floating-point steps and the inputs of a regeneration decision.
\<close>

section \<open>The machine\<close>

datatype jvm_exit = TimedOut | Exited bool

record cli_world =
  cw_crypto :: crypto
  cw_float :: "string \<Rightarrow> string option"
  cw_codec :: codec
  cw_disk :: disk
  cw_goarch :: string
  cw_unzip :: "bytes \<Rightarrow> zip_entry list option"
  cw_isDir :: "string \<Rightarrow> bool"
  cw_remove :: "string \<Rightarrow> bool"
  cw_tempDir :: "string \<Rightarrow> string option"
  cw_cwd :: string
  cw_JavaHome :: string
  cw_LookPath :: "string \<Rightarrow> string option"
  cw_jvm :: "string \<Rightarrow> string list \<Rightarrow> string \<Rightarrow> int \<Rightarrow> fsys \<Rightarrow> jvm_exit \<times> fsys"
  cw_freshKey :: "privkey option"

datatype cli_error =
    FlagFailure flag_error
  | Diverges
  | Usage string
  | FileUnreadable string
  | ConfigFailure decode_error
  | JarFailure jar_error
  | StoreFailure store_error
  | BundleFailure bundle_error
  | ChainFailure chain_error
  | KeyFailure attest_error
  | NeedsImageFormat
  | ExclusiveLayers
  | NoAppCDSWithBundle
  | LockRequired
  | SigningFlagsTogether
  | TrustFlagsTogether
  | MainClassRequired
  | AppCDSExclusive
  | AppCDSFatJarOnly
  | NoJava
  | NoTempDir
  | TrainingModeUnsupported
  | TrainingTimedOut
  | TrainingFailed
  | FileNotRemoved string
  | UnknownFormat string
  | UnknownOutput string
  | BadJDKFeature string
  | KubectlFailed string
  | InventoryFailure inv_error
  | BlockingChecks

text \<open>The value of a declared flag.\<close>

definition flagString :: "flagset \<Rightarrow> string \<Rightarrow> string" where
  "flagString fs n = (case fs n of Some (VString s) \<Rightarrow> s | _ \<Rightarrow> '''')"

definition flagBool :: "flagset \<Rightarrow> string \<Rightarrow> bool" where
  "flagBool fs n = (case fs n of Some (VBool b) \<Rightarrow> b | _ \<Rightarrow> False)"

definition flagInt :: "flagset \<Rightarrow> string \<Rightarrow> int" where
  "flagInt fs n = (case fs n of Some (VInt i) \<Rightarrow> i | _ \<Rightarrow> 0)"

definition flagSlice :: "flagset \<Rightarrow> string \<Rightarrow> string list" where
  "flagSlice fs n = (case fs n of Some (VSlice xs) \<Rightarrow> xs | _ \<Rightarrow> [])"

definition jarReader :: "cli_world \<Rightarrow> fsys \<Rightarrow> zip_reader" where
  "jarReader w fs path = Option.bind (fileAt fs path) (cw_unzip w)"

text \<open>A call that only reads.\<close>

definition readsF :: "(fsys \<Rightarrow> 'e + 'a) \<Rightarrow> ('e \<Rightarrow> 'f) \<Rightarrow> ('f, 'a) fsm" where
  "readsF f g fs = (case f fs of Inl e \<Rightarrow> (Inl (g e), fs) | Inr a \<Rightarrow> (Inr a, fs))"

definition guardF :: "bool \<Rightarrow> 'e \<Rightarrow> ('e, unit) fsm" where
  "guardF b e = (if b then retF () else failF e)"

definition exists :: "cli_world \<Rightarrow> fsys \<Rightarrow> string \<Rightarrow> bool" where
  "exists w fs p = (cw_isDir w p \<or> fileAt fs p \<noteq> None)"

section \<open>Helpers\<close>

definition splitArchFlag :: "string \<Rightarrow> string list" where
  "splitArchFlag v = (if TrimSpace v = '''' then [] else trimmedTokens (SplitOn (CHR '','') v))"

definition resolveJavaBinary :: "cli_world \<Rightarrow> fsys \<Rightarrow> string \<Rightarrow> cli_error + string" where
  "resolveJavaBinary w fs hint0 =
     (let hint = TrimSpace hint0 in
      if hint \<noteq> '''' then
        (if cw_isDir w hint then
           (let cand = PathJoin [hint, ''bin'', ''java''] in if exists w fs cand then Inr cand else Inl NoJava)
         else if exists w fs hint then Inr hint else Inl NoJava)
      else
        (let jh = TrimSpace (cw_JavaHome w); cand = PathJoin [jh, ''bin'', ''java''] in
         if jh \<noteq> '''' \<and> exists w fs cand then Inr cand
         else (case cw_LookPath w ''java'' of None \<Rightarrow> Inl NoJava | Some p \<Rightarrow> Inr p)))"

fun parseFeatures :: "string list \<Rightarrow> cli_error + int list" where
  "parseFeatures [] = Inr []"
| "parseFeatures (t # tokens) =
     (let token = TrimSpace t in
      case Atoi token of
        None \<Rightarrow> Inl (BadJDKFeature token)
      | Some feature \<Rightarrow>
          if feature \<le> 0 then Inl (BadJDKFeature token)
          else (case parseFeatures tokens of Inl e \<Rightarrow> Inl e | Inr out \<Rightarrow> Inr (feature # out)))"

definition parseJDKFeatures :: "string \<Rightarrow> cli_error + int list" where
  "parseJDKFeatures value = (if TrimSpace value = '''' then Inr [] else parseFeatures (SplitOn (CHR '','') value))"

definition AbsPath :: "string \<Rightarrow> string \<Rightarrow> string" where
  "AbsPath cwd p = (if IsAbs p then Clean p else PathJoin [cwd, p])"

text \<open>A temporary directory and everything below it goes when its user returns.\<close>

definition withTemp :: "string \<Rightarrow> ('e, 'a) fsm \<Rightarrow> ('e, 'a) fsm" where
  "withTemp dir m fs = (case m fs of (r, fs') \<Rightarrow> (r, \<lambda>p. if inside dir p then None else fs' p))"

text \<open>\<open>GenerateAppCDSArchive\<close> in \<open>src/core/internal/runtime/cds_train.go\<close>: a training run of the staged JAR. The modification time of
  the copy is not represented. An archive that is there and not empty is a success, whatever the exit code.\<close>

definition GenerateAppCDSArchive ::
  "cli_world \<Rightarrow> JVMConfig \<Rightarrow> string \<Rightarrow> string \<Rightarrow> string \<Rightarrow> int \<Rightarrow> string list \<Rightarrow> (cli_error, unit) fsm" where
  "GenerateAppCDSArchive w cfg jarPath javaBin outArchive timeout trainingArgs =
     (let jarName = mainJarName cfg jarPath; absOut = AbsPath (cw_cwd w) outArchive in
      thenF (mkdirF (cw_disk w) FileUnreadable (Dir absOut))
     (bindF (getF (\<lambda>fs. fileAt fs absOut)) (\<lambda>old.
      thenF (if old = None then retF () else if cw_remove w absOut then (\<lambda>fs. (Inr (), fs(Clean absOut := None))) else failF (FileNotRemoved absOut))
     (case cw_tempDir w ''brewlet-appcds-'' of None \<Rightarrow> failF NoTempDir
      | Some scratch \<Rightarrow>
        withTemp scratch
          (thenF (mkdirF (cw_disk w) FileUnreadable scratch)
          (bindF (readF FileUnreadable jarPath) (\<lambda>jar.
           thenF (writeF (cw_disk w) FileUnreadable (PathJoin [scratch, jarName]) jar)
          (case AppCDSTrainingArgs cfg jarName absOut trainingArgs of None \<Rightarrow> failF TrainingModeUnsupported
           | Some jvmArgs \<Rightarrow>
             bindF (\<lambda>fs. case cw_jvm w javaBin jvmArgs scratch timeout fs of (ex, fs') \<Rightarrow> (Inr ex, fs')) (\<lambda>ex.
             if ex = TimedOut then failF TrainingTimedOut
             else
               bindF (getF (\<lambda>fs. fileAt fs absOut)) (\<lambda>out.
               guardF (case out of None \<Rightarrow> False | Some b \<Rightarrow> b \<noteq> []) TrainingFailed))))))))))"

section \<open>push\<close>

definition pushFlags :: flagset where
  "pushFlags =
     [''store'' \<mapsto> VString ''./oci'', ''config'' \<mapsto> VString '''', ''arch'' \<mapsto> VString '''', ''no-arch'' \<mapsto> VBool False,
      ''classpath-layer'' \<mapsto> VSlice [], ''dependency-bundle'' \<mapsto> VString '''', ''dependency-lock'' \<mapsto> VString '''',
      ''trusted-public-key'' \<mapsto> VString '''', ''trusted-signer-identity'' \<mapsto> VString '''', ''signing-key'' \<mapsto> VString '''',
      ''builder-identity'' \<mapsto> VString '''', ''main-class'' \<mapsto> VString '''', ''module-layer'' \<mapsto> VSlice [], ''appcds-archive'' \<mapsto> VString '''',
      ''appcds'' \<mapsto> VBool False, ''appcds-java'' \<mapsto> VString '''', ''appcds-timeout'' \<mapsto> VInt 120, ''format'' \<mapsto> VString ''image'',
      ''appcds-arg'' \<mapsto> VSlice []]"

record push_options =
  po_store :: string
  po_cfgFile :: string
  po_arch :: string
  po_noArch :: bool
  po_cpLayers :: "string list"
  po_dependencyBundle :: string
  po_dependencyLock :: string
  po_trustedPublicKey :: string
  po_trustedSignerIdentity :: string
  po_signingKey :: string
  po_builderIdentity :: string
  po_mainClass :: string
  po_mpLayers :: "string list"
  po_cdsArchive :: string
  po_appcds :: bool
  po_appcdsJava :: string
  po_appcdsTimeout :: int
  po_format :: string
  po_appcdsArgs :: "string list"

definition readPushOptions :: "flagset \<Rightarrow> push_options" where
  "readPushOptions fs = \<lparr>
     po_store = flagString fs ''store'', po_cfgFile = flagString fs ''config'', po_arch = flagString fs ''arch'',
     po_noArch = flagBool fs ''no-arch'', po_cpLayers = flagSlice fs ''classpath-layer'',
     po_dependencyBundle = flagString fs ''dependency-bundle'', po_dependencyLock = flagString fs ''dependency-lock'',
     po_trustedPublicKey = flagString fs ''trusted-public-key'', po_trustedSignerIdentity = flagString fs ''trusted-signer-identity'',
     po_signingKey = flagString fs ''signing-key'', po_builderIdentity = flagString fs ''builder-identity'',
     po_mainClass = flagString fs ''main-class'', po_mpLayers = flagSlice fs ''module-layer'',
     po_cdsArchive = flagString fs ''appcds-archive'', po_appcds = flagBool fs ''appcds'', po_appcdsJava = flagString fs ''appcds-java'',
     po_appcdsTimeout = flagInt fs ''appcds-timeout'', po_format = flagString fs ''format'', po_appcdsArgs = flagSlice fs ''appcds-arg''\<rparr>"

definition plainEntry :: Entry where
  "plainEntry = \<lparr>e_Mode = '''', e_MainClass = '''', e_ClassPath = [], e_Module = '''', e_ModulePath = []\<rparr>"

definition emptyConfig :: JVMConfig where
  "emptyConfig = \<lparr>cfg_SchemaVersion = 0, cfg_MainJar = '''', cfg_Entry = plainEntry, cfg_EnablePreview = False, cfg_AddModules = [],
     cfg_AddOpens = [], cfg_AddExports = [], cfg_SystemProperties = [], cfg_User = None, cfg_Env = [], cfg_Arch = [], cfg_CDS = None\<rparr>"

definition detectedEntry :: "push_options \<Rightarrow> string \<Rightarrow> ModuleInfo option \<Rightarrow> Entry" where
  "detectedEntry po jarPath info =
     (case info of
        None \<Rightarrow> plainEntry\<lparr>e_Mode := ''jar''\<rparr>
      | Some mi \<Rightarrow> plainEntry\<lparr>e_Mode := ''module'', e_Module := mi_Name mi, e_MainClass := mi_MainClass mi,
          e_ModulePath := (if po_mpLayers po \<noteq> [] then [Base jarPath, ''mods''] else []),
          e_ClassPath := (if po_cpLayers po \<noteq> [] then [''lib/*''] else [])\<rparr>)"

definition pushConfig :: "cli_world \<Rightarrow> push_options \<Rightarrow> string \<Rightarrow> (cli_error, JVMConfig) fsm" where
  "pushConfig w po jarPath =
     (if po_cfgFile po \<noteq> '''' then
        bindF (readF FileUnreadable (po_cfgFile po)) (\<lambda>b. readsF (\<lambda>_. DecodeConfigBytes b) ConfigFailure)
      else
        bindF (readsF (\<lambda>fs. InspectModuleJar (jarReader w fs) jarPath) JarFailure) (\<lambda>info.
        retF (emptyConfig\<lparr>cfg_SchemaVersion := 1, cfg_MainJar := Base jarPath, cfg_Entry := detectedEntry po jarPath info\<rparr>)))"

text \<open>What a managed dependency bundle adds to a push.\<close>

record managed_push =
  mg_Bundle :: ResolvedDependencyBundle
  mg_Supply :: VerifiedBundleSupplyChain
  mg_Evidence :: ManagedDependencyEvidence
  mg_SigningKey :: "privkey option"

definition trustedKey :: "cli_world \<Rightarrow> push_options \<Rightarrow> (cli_error, pubkey option) fsm" where
  "trustedKey w po =
     (let key = TrimSpace (po_trustedPublicKey po); identity = TrimSpace (po_trustedSignerIdentity po) in
      if key \<noteq> '''' \<or> identity \<noteq> '''' then
        (if key = '''' \<or> identity = '''' then failF TrustFlagsTogether
         else bindF (readsF (\<lambda>fs. LoadECDSAPublicKey (cw_crypto w) fs (po_trustedPublicKey po)) KeyFailure) (\<lambda>k. retF (Some k)))
      else retF None)"

definition signingKey :: "cli_world \<Rightarrow> push_options \<Rightarrow> (cli_error, privkey option) fsm" where
  "signingKey w po =
     (if TrimSpace (po_signingKey po) \<noteq> ''''
      then bindF (readsF (\<lambda>fs. LoadECDSAPrivateKey (cw_crypto w) fs (po_signingKey po)) KeyFailure) (\<lambda>k. retF (Some k))
      else retF None)"

definition managedMain :: "push_options \<Rightarrow> JVMConfig \<Rightarrow> string" where
  "managedMain po cfg =
     (let flag = TrimSpace (po_mainClass po) in
      if flag = '''' \<and> e_Mode (cfg_Entry cfg) = ''classpath'' then e_MainClass (cfg_Entry cfg) else flag)"

definition managedConfig :: "push_options \<Rightarrow> string \<Rightarrow> JVMConfig \<Rightarrow> JVMConfig" where
  "managedConfig po jarPath cfg =
     (let named = (if cfg_MainJar cfg = '''' then cfg\<lparr>cfg_MainJar := Base jarPath\<rparr> else cfg) in
      named\<lparr>cfg_Entry := plainEntry\<lparr>e_Mode := ''classpath'', e_MainClass := managedMain po cfg, e_ClassPath := [cfg_MainJar named, ''lib/*'']\<rparr>\<rparr>)"

definition managedPush :: "cli_world \<Rightarrow> push_options \<Rightarrow> string \<Rightarrow> JVMConfig \<Rightarrow> (cli_error, JVMConfig \<times> managed_push) fsm" where
  "managedPush w po jarPath cfg =
     (let c = cw_crypto w; sha = cr_sha c; root = po_store po in
      thenF (guardF (po_format po = '''' \<or> po_format po = ''image'') NeedsImageFormat)
     (thenF (guardF (po_cpLayers po = [] \<and> po_mpLayers po = []) ExclusiveLayers)
     (thenF (guardF (\<not> po_appcds po \<and> po_cdsArchive po = '''') NoAppCDSWithBundle)
     (thenF (readsF (\<lambda>fs. case ValidateThinJar (jarReader w fs) jarPath of None \<Rightarrow> Inr () | Some e \<Rightarrow> Inl e) JarFailure)
     (bindF (readsF (\<lambda>fs. ResolveDependencyBundle sha (cw_codec w) root fs (po_dependencyBundle po)) BundleFailure) (\<lambda>b.
      thenF (guardF (TrimSpace (po_dependencyLock po) \<noteq> '''') LockRequired)
     (bindF (readF FileUnreadable (po_dependencyLock po)) (\<lambda>lockRaw.
      bindF (readsF (\<lambda>_. DecodeDependencyLock lockRaw) BundleFailure) (\<lambda>applicationLock.
      thenF (case VerifyDependencyLock (rd_Lock b) applicationLock of Some e \<Rightarrow> failF (BundleFailure e) | None \<Rightarrow> retF ())
     (thenF (guardF ((TrimSpace (po_signingKey po) = '''') = (TrimSpace (po_builderIdentity po) = '''')) SigningFlagsTogether)
     (bindF (trustedKey w po) (\<lambda>key.
      bindF (readsF (\<lambda>fs. VerifyBundleSupplyChain c (cw_float w) root fs b key (po_trustedSignerIdentity po)) ChainFailure) (\<lambda>supply.
      bindF (signingKey w po) (\<lambda>sk.
      thenF (guardF (managedMain po cfg \<noteq> '''') MainClassRequired)
     (bindF (mapErrF StoreFailure (Evidence sha b jarPath)) (\<lambda>evidence.
      retF (managedConfig po jarPath cfg,
            \<lparr>mg_Bundle = b, mg_Supply = supply,
             mg_Evidence = evidence\<lparr>ev_SBOMDigest := vb_SBOMDigest supply, ev_BuilderIdentity := TrimSpace (po_builderIdentity po)\<rparr>,
             mg_SigningKey = sk\<rparr>)))))))))))))))))"

definition pushArch :: "cli_world \<Rightarrow> push_options \<Rightarrow> string \<Rightarrow> JVMConfig \<Rightarrow> (cli_error, JVMConfig) fsm" where
  "pushArch w po jarPath cfg =
     (if splitArchFlag (po_arch po) \<noteq> [] then retF (cfg\<lparr>cfg_Arch := splitArchFlag (po_arch po)\<rparr>)
      else if po_noArch po then retF (cfg\<lparr>cfg_Arch := []\<rparr>)
      else
        bindF (readsF (\<lambda>fs. ScanNativeArch (jarReader w fs) jarPath) JarFailure) (\<lambda>scan.
        retF (if ns_Arches scan \<noteq> [] then cfg\<lparr>cfg_Arch := ns_Arches scan\<rparr> else cfg)))"

definition wireCDS :: "string \<Rightarrow> JVMConfig \<Rightarrow> JVMConfig" where
  "wireCDS cdsArchive cfg =
     (if cdsArchive = '''' then cfg
      else
        (case cfg_CDS cfg of
           None \<Rightarrow> cfg\<lparr>cfg_CDS := Some \<lparr>cds_Archive = Base cdsArchive, cds_Mode = ''dynamic''\<rparr>\<rparr>
         | Some cds \<Rightarrow> if cds_Archive cds = '''' then cfg\<lparr>cfg_CDS := Some (cds\<lparr>cds_Archive := Base cdsArchive\<rparr>)\<rparr> else cfg))"

definition managedPredicate :: "push_options \<Rightarrow> managed_push \<Rightarrow> Descriptor \<Rightarrow> ManagedDependencyPredicate" where
  "managedPredicate po mg desc = \<lparr>
     mp_SchemaVersion = 1, mp_FinalImageDigest = d_Digest desc, mp_ThinJar = True,
     mp_ApplicationJarDigest = ev_ApplicationJarDigest (mg_Evidence mg), mp_DependencyBundleDigest = rd_ManifestDigest (mg_Bundle mg),
     mp_DependencyLayerDigest = bc_LayerDigest (rd_Config (mg_Bundle mg)), mp_DependencyLockDigest = bc_LockDigest (rd_Config (mg_Bundle mg)),
     mp_SBOMDigest = vb_SBOMDigest (mg_Supply mg), mp_SourceBOM = bc_SourceBOM (rd_Config (mg_Bundle mg)),
     mp_BuilderIdentity = po_builderIdentity po\<rparr>"

definition pushStore ::
  "cli_world \<Rightarrow> push_options \<Rightarrow> string \<Rightarrow> string \<Rightarrow> managed_push option \<Rightarrow> JVMConfig \<Rightarrow> string \<Rightarrow> (cli_error, Descriptor \<times> JVMConfig) fsm" where
  "pushStore w po jarPath ref mg cfg0 cdsArchive =
     (let c = cw_crypto w; sha = cr_sha c; dk = cw_disk w; root = po_store po; cfg = wireCDS cdsArchive cfg0 in
      if po_format po = ''artifact'' then
        bindF (mapErrF StoreFailure (PushWithCDS sha dk root ref cfg jarPath (po_cpLayers po) (po_mpLayers po) cdsArchive)) (\<lambda>desc. retF (desc, cfg))
      else if po_format po = ''image'' \<or> po_format po = '''' then
        bindF (mapErrF StoreFailure (PushRunnableImageWithOptions sha (cw_codec w) dk root ref cfg jarPath (po_cpLayers po) (po_mpLayers po) cdsArchive
          \<lparr>ro_ManagedDependency = map_option mg_Bundle mg, ro_ManagedEvidence = map_option mg_Evidence mg\<rparr>)) (\<lambda>desc.
        bindF (case mg of None \<Rightarrow> retF ()
               | Some m \<Rightarrow>
                   (case mg_SigningKey m of None \<Rightarrow> retF ()
                    | Some key \<Rightarrow> bindF (mapErrF ChainFailure (PublishManagedAttestation c dk root desc (managedPredicate po m desc) key)) (\<lambda>_. retF ())))
        (\<lambda>_. retF (desc, cfg)))
      else failF (UnknownFormat (po_format po)))"

definition pushJar :: "cli_world \<Rightarrow> push_options \<Rightarrow> string \<Rightarrow> string \<Rightarrow> (cli_error, Descriptor \<times> JVMConfig) fsm" where
  "pushJar w po jarPath ref =
     bindF (pushConfig w po jarPath) (\<lambda>cfg0.
     bindF (if po_dependencyBundle po \<noteq> '''' then bindF (managedPush w po jarPath cfg0) (\<lambda>(cfg, mg). retF (cfg, Some mg)) else retF (cfg0, None))
       (\<lambda>(cfg1, mg).
     bindF (pushArch w po jarPath cfg1) (\<lambda>cfg.
     if po_appcds po then
       thenF (guardF (po_cdsArchive po = '''') AppCDSExclusive)
      (thenF (guardF (po_cpLayers po = [] \<and> po_mpLayers po = []) AppCDSFatJarOnly)
      (bindF (readsF (\<lambda>fs. resolveJavaBinary w fs (po_appcdsJava po)) id) (\<lambda>javaBin.
       case cw_tempDir w ''brewlet-appcds-out-'' of None \<Rightarrow> failF NoTempDir
       | Some genDir \<Rightarrow>
         withTemp genDir
           (let genArchive = PathJoin [genDir, TrimSuffix (Base jarPath) ''.jar'' @ ''.jsa''] in
            thenF (GenerateAppCDSArchive w cfg jarPath javaBin genArchive (po_appcdsTimeout po) (po_appcdsArgs po))
              (pushStore w po jarPath ref mg cfg genArchive)))))
     else pushStore w po jarPath ref mg cfg (po_cdsArchive po))))"

text \<open>The arguments of a command after its name.\<close>

definition withArguments :: "flagset \<Rightarrow> string list \<Rightarrow> (flagset \<Rightarrow> string list \<Rightarrow> (cli_error, 'a) fsm) \<Rightarrow> (cli_error, 'a) fsm" where
  "withArguments flags args k =
     (case parseInterspersed flags [] args of
        None \<Rightarrow> failF Diverges
      | Some (Inl e) \<Rightarrow> failF (FlagFailure e)
      | Some (Inr (fs, pos)) \<Rightarrow> k fs pos)"

definition cmdPush :: "cli_world \<Rightarrow> string list \<Rightarrow> (cli_error, Descriptor \<times> JVMConfig) fsm" where
  "cmdPush w args =
     withArguments pushFlags args (\<lambda>fs pos.
       if length pos < 2 then failF (Usage ''push <jar> <ref>'') else pushJar w (readPushOptions fs) (pos ! 0) (pos ! 1))"

section \<open>dependency-bundle, keygen and inspect\<close>

definition bundleFlags :: flagset where
  "bundleFlags =
     [''store'' \<mapsto> VString ''./oci'', ''name'' \<mapsto> VString '''', ''version'' \<mapsto> VString '''', ''source-bom'' \<mapsto> VString '''', ''lock'' \<mapsto> VString '''',
      ''compatible-jdks'' \<mapsto> VString '''', ''signing-key'' \<mapsto> VString '''', ''signer-identity'' \<mapsto> VString '''']"

definition cmdDependencyBundle :: "cli_world \<Rightarrow> string list \<Rightarrow> (cli_error, Descriptor \<times> string) fsm" where
  "cmdDependencyBundle w args =
     withArguments bundleFlags args (\<lambda>fl pos.
     (let c = cw_crypto w; sha = cr_sha c; dk = cw_disk w; root = flagString fl ''store''; lockFile = flagString fl ''lock'';
          keyFile = flagString fl ''signing-key''; identity = flagString fl ''signer-identity'' in
      if length pos < 2 \<or> lockFile = '''' \<or> (keyFile = '''') \<noteq> (TrimSpace identity = '''')
      then failF (Usage ''dependency-bundle <classpath-tar> <ref> --name NAME --version VERSION --source-bom G:A:V --lock FILE'')
      else
        bindF (readF FileUnreadable lockFile) (\<lambda>lockRaw.
        bindF (readsF (\<lambda>_. DecodeDependencyLock lockRaw) BundleFailure) (\<lambda>lock.
        bindF (readsF (\<lambda>_. parseJDKFeatures (flagString fl ''compatible-jdks'')) id) (\<lambda>jdks.
        bindF (mapErrF BundleFailure (PushDependencyBundle sha (cw_codec w) dk root (pos ! 1)
          \<lparr>bc_SchemaVersion = 0, bc_Name = flagString fl ''name'', bc_Version = flagString fl ''version'', bc_SourceBOM = flagString fl ''source-bom'',
           bc_LockDigest = '''', bc_LayerDigest = '''', bc_LayerDiffID = '''', bc_CompatibleJDKs = jdks\<rparr> lock (pos ! 0))) (\<lambda>desc.
        bindF (readsF (\<lambda>fs. ResolveDependencyBundle sha (cw_codec w) root fs (pos ! 1)) BundleFailure) (\<lambda>b.
        bindF (if keyFile = '''' then mapErrF ChainFailure (PublishBundleSBOM sha dk root desc (rd_Config b) (rd_Lock b))
               else
                 bindF (readsF (\<lambda>fs. LoadECDSAPrivateKey c fs keyFile) KeyFailure) (\<lambda>key.
                 mapErrF ChainFailure (PublishBundleSupplyChain c dk root desc (rd_Config b) (rd_Lock b) key identity))) (\<lambda>sbomDigest.
        retF (desc, sbomDigest)))))))))"

definition keygenFlags :: flagset where
  "keygenFlags = [''private'' \<mapsto> VString '''', ''public'' \<mapsto> VString '''']"

definition cmdKeygen :: "cli_world \<Rightarrow> string list \<Rightarrow> (cli_error, unit) fsm" where
  "cmdKeygen w args =
     (case Parse keygenFlags args of Inl e \<Rightarrow> failF (FlagFailure e)
      | Inr (fl, _) \<Rightarrow>
          if flagString fl ''private'' = '''' \<or> flagString fl ''public'' = '''' then failF (Usage ''keygen --private FILE --public FILE'')
          else mapErrF KeyFailure (GenerateECDSAKeyPair (cw_crypto w) (cw_disk w) (cw_freshKey w) (flagString fl ''private'') (flagString fl ''public'')))"

definition inspectFlags :: flagset where
  "inspectFlags = [''store'' \<mapsto> VString ''./oci'', ''trusted-public-key'' \<mapsto> VString '''', ''trusted-signer-identity'' \<mapsto> VString '''']"

text \<open>What \<open>inspect\<close> shows of a reference: a bundle with the verification of its supply chain, if one was asked for, or an
  application with its evidence and the verified attestation, if one was asked for.\<close>

datatype inspected =
    InspectedBundle Manifest ResolvedDependencyBundle "VerifiedBundleSupplyChain option"
  | InspectedApp bool Manifest JVMConfig "ManagedDependencyEvidence option" "ManagedDependencyPredicate option"

definition whenTrusted :: "cli_world \<Rightarrow> flagset \<Rightarrow> (pubkey \<Rightarrow> string \<Rightarrow> (cli_error, 'a) fsm) \<Rightarrow> (cli_error, 'a option) fsm" where
  "whenTrusted w fl k =
     (let keyFile = flagString fl ''trusted-public-key''; identity = flagString fl ''trusted-signer-identity'' in
      if keyFile \<noteq> '''' \<or> identity \<noteq> '''' then
        (if keyFile = '''' \<or> identity = '''' then failF TrustFlagsTogether
         else bindF (readsF (\<lambda>fs. LoadECDSAPublicKey (cw_crypto w) fs keyFile) KeyFailure) (\<lambda>key. bindF (k key identity) (\<lambda>v. retF (Some v))))
      else retF None)"

definition cmdInspect :: "cli_world \<Rightarrow> string list \<Rightarrow> (cli_error, inspected) fsm" where
  "cmdInspect w args =
     withArguments inspectFlags args (\<lambda>fl pos.
     if length pos < 1 then failF (Usage ''inspect <ref>'')
     else
       (let c = cw_crypto w; sha = cr_sha c; root = flagString fl ''store''; ref = pos ! 0 in
        bindF (readsF (\<lambda>fs. ResolveManifestByRef sha (cw_goarch w) root fs ref) StoreFailure) (\<lambda>(man, _).
        if m_ArtifactType man = DependencyBundleArtifactType then
          bindF (readsF (\<lambda>fs. ResolveDependencyBundle sha (cw_codec w) root fs ref) BundleFailure) (\<lambda>b.
          bindF (whenTrusted w fl (\<lambda>key identity. readsF (\<lambda>fs. VerifyBundleSupplyChain c (cw_float w) root fs b (Some key) identity) ChainFailure)) (\<lambda>verified.
          retF (InspectedBundle man b verified)))
        else
          bindF (if IsRunnableImage man then readsF (\<lambda>_. RunnableConfig man) StoreFailure
                 else
                   bindF (readsF (\<lambda>fs. ReadBlob (BlobPath root) fs (d_Digest (m_Config man))) StoreFailure) (\<lambda>cb.
                   readsF (\<lambda>_. DecodeConfigBytes cb) ConfigFailure)) (\<lambda>cfg.
          bindF (readsF (\<lambda>_. manifestEvidence man) BundleFailure) (\<lambda>evidence.
          bindF (whenTrusted w fl (\<lambda>key identity.
                  bindF (readsF (\<lambda>fs. DescriptorByRef root fs ref) StoreFailure) (\<lambda>desc.
                  readsF (\<lambda>fs. VerifyImageAttestation c (cw_float w) root fs desc key identity) ChainFailure))) (\<lambda>predicate.
          retF (InspectedApp (IsRunnableImage man) man cfg evidence predicate)))))))"

section \<open>run and bundle\<close>

record local_world =
  lw_host :: "fsys \<Rightarrow> host"
  lw_stageEnv :: string
  lw_tmp :: string
  lw_sandbox :: "string option"
  lw_floats :: float_ops
  lw_marshal :: "ociSpec \<Rightarrow> bytes"
  lw_regen :: "string \<Rightarrow> string \<Rightarrow> regen_env"

definition resolveLocal :: "cli_world \<Rightarrow> local_world \<Rightarrow> flagset \<Rightarrow> string \<Rightarrow> (cli_error, ResolvedBlobs) fsm" where
  "resolveLocal w lw fl ref =
     mapErrF StoreFailure (ResolveBlobs (cr_sha (cw_crypto w)) (cw_codec w) (cw_disk w) (cw_goarch w) (lw_stageEnv lw) (lw_tmp lw) (flagString fl ''store'') ref)"

definition runFlags :: flagset where
  "runFlags = [''store'' \<mapsto> VString ''./oci'', ''jdk-root'' \<mapsto> VString '''', ''launcher'' \<mapsto> VString ''java'', ''appcds-regenerate'' \<mapsto> VBool False]"

definition regenPlan :: "(string \<Rightarrow> string \<Rightarrow> regen_env) \<Rightarrow> host \<Rightarrow> string \<Rightarrow> ResolvedBlobs \<Rightarrow> Plan \<Rightarrow> cache \<Rightarrow> (launch_error + Plan) \<times> cache" where
  "regenPlan envOf h ref blobs plan dir =
     (let seed = seedOf (rb_Config blobs) (rb_CDSHostPath blobs);
          re = envOf (pl_JDKHome plan) seed
      in case DecideCDSRegen (re_sha re) (re_world re)
             \<lparr>rp_CacheDir = h_getenv h ''BREWLET_CDS_CACHE'', rp_JDKRoot = pl_JDKHome plan, rp_ArtifactKey = ref, rp_SeedArchive = seed,
              rp_ArchiveArgDir = '''', rp_Now = re_now re, rp_LockTTL = 0, rp_EvictTTL = 0\<rparr> dir of
           (None, dir') \<Rightarrow> (Inl (ReadFailed ''cds regen''), dir')
         | (Some dec, dir') \<Rightarrow> (Inr (plan\<lparr>pl_Args := rd_Args dec @ pl_Args plan\<rparr>), dir'))"

text \<open>The operations on the host up to the launch, and the plan that is launched.\<close>

definition runResolved :: "local_world \<Rightarrow> flagset \<Rightarrow> string \<Rightarrow> string list \<Rightarrow> ResolvedBlobs \<Rightarrow> host \<Rightarrow> cache \<Rightarrow> (launch_error, Plan) io \<times> cache" where
  "runResolved lw fl ref extra blobs h dir =
     (let regen = flagBool fl ''appcds-regenerate'' in
      case AssembleSandboxWithCDS h (lw_sandbox lw) (rb_Config blobs) (rb_JarHostPath blobs) (rb_ClasspathHostPaths blobs) (rb_ModulepathHostPaths blobs)
             (rb_CDSHostPath blobs) regen of
        (ops, Inl e) \<Rightarrow> ((ops, Inl e), dir)
      | (ops, Inr (sandbox, jarPath)) \<Rightarrow>
          (case BuildPlan h (rb_Config blobs) jarPath (flagString fl ''jdk-root'') (flagString fl ''launcher'') extra regen of
             Inl e \<Rightarrow> ((ops, Inl e), dir)
           | Inr plan \<Rightarrow>
               if regen then (case regenPlan (lw_regen lw) h ref blobs plan dir of (r, dir') \<Rightarrow> ((ops, r), dir')) else ((ops, Inr plan), dir)))"

definition cmdRun :: "cli_world \<Rightarrow> local_world \<Rightarrow> cache \<Rightarrow> string list \<Rightarrow> (cli_error, (launch_error, Plan) io \<times> cache) fsm" where
  "cmdRun w lw dir args =
     (let (flagArgs, extra) = splitDoubleDash args in
      withArguments runFlags flagArgs (\<lambda>fl pos.
      if length pos < 1 then failF (Usage ''run <ref>'')
      else bindF (resolveLocal w lw fl (pos ! 0)) (\<lambda>blobs. getF (\<lambda>fs. runResolved lw fl (pos ! 0) extra blobs (lw_host lw fs) dir))))"

definition bundleCmdFlags :: flagset where
  "bundleCmdFlags =
     [''store'' \<mapsto> VString ''./oci'', ''cpu'' \<mapsto> VString '''', ''memory'' \<mapsto> VString '''', ''jdk-root'' \<mapsto> VString ''/opt/brewlet/jdks/temurin-21'',
      ''launcher'' \<mapsto> VString ''java'', ''launcher-root'' \<mapsto> VString '''', ''out'' \<mapsto> VString ''./bundle'', ''appcds-regenerate'' \<mapsto> VBool False]"

definition cmdBundle :: "cli_world \<Rightarrow> local_world \<Rightarrow> cache \<Rightarrow> string list \<Rightarrow> (cli_error, (launch_error, ociSpec) io \<times> cache) fsm" where
  "cmdBundle w lw dir args =
     withArguments bundleCmdFlags args (\<lambda>fl pos.
     if length pos < 1 then failF (Usage ''bundle <ref>'')
     else
       bindF (resolveLocal w lw fl (pos ! 0)) (\<lambda>blobs. getF (\<lambda>fs.
         GenerateBundleWithRegen (lw_host lw fs) (lw_floats lw) (lw_marshal lw) (lw_regen lw (flagString fl ''jdk-root'') (seedOf (rb_Config blobs) (rb_CDSHostPath blobs)))
           (rb_Config blobs) (flagString fl ''jdk-root'') (flagString fl ''launcher-root'') (flagString fl ''launcher'') (rb_JarHostPath blobs)
           (rb_ClasspathHostPaths blobs) (rb_ModulepathHostPaths blobs) (rb_CDSHostPath blobs) (flagString fl ''out'')
           \<lparr>lim_CPU = flagString fl ''cpu'', lim_Memory = flagString fl ''memory''\<rparr> []
           \<lparr>ro_Regenerate = flagBool fl ''appcds-regenerate'', ro_ArtifactKey = pos ! 0, ro_CacheDir = h_getenv (lw_host lw fs) ''BREWLET_CDS_CACHE''\<rparr> dir)))"

section \<open>jdks and doctor\<close>

definition jdksFlags :: flagset where
  "jdksFlags = [''output'' \<mapsto> VString ''table'', ''kubeconfig'' \<mapsto> VString '''', ''context'' \<mapsto> VString '''', ''selector'' \<mapsto> VString '''']"

text \<open>\<open>kubectl\<close> gives its standard output, or fails with the text on its standard error. A table that panics is no text.\<close>

definition cmdJDKs :: "(string list \<Rightarrow> string + bytes) \<Rightarrow> string list \<Rightarrow> cli_error + string option" where
  "cmdJDKs kubectl args =
     (case Parse jdksFlags args of Inl e \<Rightarrow> Inl (FlagFailure e)
      | Inr (fl, _) \<Rightarrow>
        (let opt = (\<lambda>flag name. if flagString fl name \<noteq> '''' then [flag, flagString fl name] else []);
             kubeArgs = [''get'', ''nodes'', ''-o'', ''json''] @ opt ''--kubeconfig'' ''kubeconfig'' @ opt ''--context'' ''context'' @ opt ''-l'' ''selector''
         in case kubectl kubeArgs of Inl stderr \<Rightarrow> Inl (KubectlFailed (TrimSpace stderr))
            | Inr out \<Rightarrow>
              (case ParseNodes out of Inl e \<Rightarrow> Inl (InventoryFailure e)
               | Inr nodes \<Rightarrow>
                 (let output = flagString fl ''output'' in
                  if output = ''table'' then Inr (RenderTable nodes)
                  else if output = ''wide'' then Inr (RenderByNode nodes)
                  else if output = ''json'' then Inr (Some (RenderJSON nodes))
                  else Inl (UnknownOutput output)))))"

definition doctorFlags :: flagset where
  "doctorFlags = [''namespace'' \<mapsto> VString ''default'', ''output'' \<mapsto> VString ''table'', ''kubeconfig'' \<mapsto> VString '''', ''context'' \<mapsto> VString '''']"

definition statusText :: "Status \<Rightarrow> string" where
  "statusText s = (case s of Pass \<Rightarrow> ''pass'' | Warn \<Rightarrow> ''warn'' | Fail \<Rightarrow> ''fail'')"

definition statusUpper :: "Status \<Rightarrow> string" where
  "statusUpper s = (case s of Pass \<Rightarrow> ''PASS'' | Warn \<Rightarrow> ''WARN'' | Fail \<Rightarrow> ''FAIL'')"

definition checkLines :: "Check \<Rightarrow> string" where
  "checkLines check =
     ''['' @ padRight 4 (statusUpper (ck_Status check)) @ ''] '' @ padRight 20 (ck_Name check) @ '' '' @ ck_Detail check @ [CHR 0x0A] @
     (if ck_Remediation check \<noteq> '''' \<and> ck_Status check \<noteq> Pass then ''       fix: '' @ ck_Remediation check @ [CHR 0x0A] else '''')"

definition encodeCheck :: "Check \<Rightarrow> json" where
  "encodeCheck check =
     JObj ([(''name'', JStr (ck_Name check)), (''status'', JStr (statusText (ck_Status check))), (''detail'', JStr (ck_Detail check))] @
       omitStr ''remediation'' (ck_Remediation check))"

text \<open>The text that is printed, and the error that the command returns after it.\<close>

definition cmdDoctor :: "json_text \<Rightarrow> Executor \<Rightarrow> string list \<Rightarrow> string \<times> cli_error option" where
  "cmdDoctor je exec args =
     (case Parse doctorFlags args of Inl e \<Rightarrow> ('''', Some (FlagFailure e))
      | Inr (fl, _) \<Rightarrow>
        (let report = RunDoctor je exec \<lparr>do_Kubeconfig = flagString fl ''kubeconfig'', do_Context = flagString fl ''context'', do_Namespace = flagString fl ''namespace''\<rparr>;
             output = flagString fl ''output'';
             verdict = (if \<not> ReportOK report then Some BlockingChecks else None)
         in if output = ''table'' then (concat (map checkLines report), verdict)
            else if output = ''json'' then (MarshalIndent (JObj [(''checks'', JArr (map encodeCheck report))]) @ [CHR 0x0A], verdict)
            else ('''', Some (UnknownOutput output))))"

section \<open>The program\<close>

datatype command = CmdPush | CmdInspect | CmdRun | CmdBundle | CmdDependencyBundle | CmdKeygen | CmdJDKs | CmdDoctor | CmdVersion | CmdHelp

text \<open>The command that the arguments name and its arguments, or the exit code.\<close>

definition mainCommand :: "string list \<Rightarrow> nat + command \<times> string list" where
  "mainCommand args =
     (case args of [] \<Rightarrow> Inl 2
      | name # rest \<Rightarrow>
        (case map_of [(''push'', CmdPush), (''inspect'', CmdInspect), (''run'', CmdRun), (''bundle'', CmdBundle), (''dependency-bundle'', CmdDependencyBundle),
            (''keygen'', CmdKeygen), (''jdks'', CmdJDKs), (''doctor'', CmdDoctor), (''version'', CmdVersion), (''--version'', CmdVersion),
            (''-h'', CmdHelp), (''--help'', CmdHelp), (''help'', CmdHelp)] name of
           None \<Rightarrow> Inl 2 | Some c \<Rightarrow> Inr (c, rest)))"

section \<open>Running a command\<close>

lemma readsF_ok [fsm_ok]: "readsF f g fs = (Inr a, fs') \<longleftrightarrow> f fs = Inr a \<and> fs' = fs"
  by (auto simp: readsF_def split: sum.split)

lemma guardF_ok [fsm_ok]: "guardF b e fs = (Inr u, fs') \<longleftrightarrow> b \<and> fs' = fs"
  by (auto simp: guardF_def retF_def failF_def)

lemma keepsF_reads [intro, simp]: "keepsF K (readsF f g)" "keepsF K (guardF b e)"
  by (auto simp: keepsF_def readsF_def guardF_def retF_def failF_def split: sum.split)

lemma withArguments_never_diverges: "withArguments flags args k fs \<noteq> (Inl Diverges, fs') \<or> (\<exists>fl pos. k fl pos fs = (Inl Diverges, fs'))"
proof -
  obtain result where "parseInterspersed flags [] args = Some result" using interspersed_total by blast
  then show ?thesis by (cases result) (auto simp: withArguments_def failF_def)
qed

section \<open>What a managed push requires\<close>

text \<open>The key of a verification that was asked for: with both flags a key that loads, with neither none.\<close>

definition keyGiven :: "string \<Rightarrow> string \<Rightarrow> 'e + 'k \<Rightarrow> 'k option \<Rightarrow> bool" where
  "keyGiven file identity loaded key \<longleftrightarrow>
     (TrimSpace file = '''' \<and> TrimSpace identity = '''' \<and> key = None) \<or>
     (TrimSpace file \<noteq> '''' \<and> TrimSpace identity \<noteq> '''' \<and> (\<exists>k. loaded = Inr k \<and> key = Some k))"

text \<open>A push with a dependency bundle, as a specification of what is published.\<close>

definition managedAccepts ::
  "cli_world \<Rightarrow> push_options \<Rightarrow> string \<Rightarrow> JVMConfig \<Rightarrow> fsys \<Rightarrow> JVMConfig \<times> managed_push \<Rightarrow> bool" where
  "managedAccepts w po jarPath cfg fs out \<longleftrightarrow>
     po_format po \<in> {'''', ''image''} \<and> po_cpLayers po = [] \<and> po_mpLayers po = [] \<and> \<not> po_appcds po \<and> po_cdsArchive po = '''' \<and>
     (\<exists>entries. jarReader w fs jarPath = Some entries \<and> (\<forall>f \<in> set entries. ze_IsDir f \<or> \<not> HasSuffix (ToLower (ze_Name f)) ''.jar'')) \<and>
     TrimSpace (po_dependencyLock po) \<noteq> '''' \<and> managedMain po cfg \<noteq> '''' \<and>
     (\<exists>b lockRaw lock jar key supply sk.
       ResolveDependencyBundle (cr_sha (cw_crypto w)) (cw_codec w) (po_store po) fs (po_dependencyBundle po) = Inr b \<and>
       fileAt fs (po_dependencyLock po) = Some lockRaw \<and> DecodeDependencyLock lockRaw = Inr lock \<and> sortLock (rd_Lock b) = sortLock lock \<and>
       fileAt fs jarPath = Some jar \<and>
       keyGiven (po_trustedPublicKey po) (po_trustedSignerIdentity po) (LoadECDSAPublicKey (cw_crypto w) fs (po_trustedPublicKey po)) key \<and>
       VerifyBundleSupplyChain (cw_crypto w) (cw_float w) (po_store po) fs b key (po_trustedSignerIdentity po) = Inr supply \<and>
       keyGiven (po_signingKey po) (po_builderIdentity po) (LoadECDSAPrivateKey (cw_crypto w) fs (po_signingKey po)) sk \<and>
       out = (managedConfig po jarPath cfg,
         \<lparr>mg_Bundle = b, mg_Supply = supply,
          mg_Evidence = \<lparr>ev_SchemaVersion = 1, ev_ThinJar = True, ev_ApplicationJarDigest = digestOf (cr_sha (cw_crypto w)) jar,
            ev_DependencyBundleDigest = rd_ManifestDigest b, ev_DependencyLayerDigest = d_Digest (rd_Layer b),
            ev_DependencyLockDigest = bc_LockDigest (rd_Config b), ev_SBOMDigest = vb_SBOMDigest supply, ev_SourceBOM = bc_SourceBOM (rd_Config b),
            ev_BuilderIdentity = TrimSpace (po_builderIdentity po)\<rparr>,
          mg_SigningKey = sk\<rparr>))"

lemma trustedKey_ok:
  "trustedKey w po fs = (Inr key, fs') \<longleftrightarrow> fs' = fs \<and>
     keyGiven (po_trustedPublicKey po) (po_trustedSignerIdentity po) (LoadECDSAPublicKey (cw_crypto w) fs (po_trustedPublicKey po)) key"
  by (auto simp: trustedKey_def keyGiven_def fsm_ok Let_def)

lemma signingKey_ok:
  assumes "(TrimSpace (po_signingKey po) = '''') = (TrimSpace (po_builderIdentity po) = '''')"
  shows "signingKey w po fs = (Inr sk, fs') \<longleftrightarrow> fs' = fs \<and>
     keyGiven (po_signingKey po) (po_builderIdentity po) (LoadECDSAPrivateKey (cw_crypto w) fs (po_signingKey po)) sk"
  using assms by (auto simp: signingKey_def keyGiven_def fsm_ok)

lemma thin_ok:
  "(case ValidateThinJar zr p of None \<Rightarrow> Inr () | Some e \<Rightarrow> Inl e) = Inr u \<longleftrightarrow>
   (\<exists>entries. zr p = Some entries \<and> (\<forall>f \<in> set entries. ze_IsDir f \<or> \<not> HasSuffix (ToLower (ze_Name f)) ''.jar''))"
  unfolding ValidateThinJar_iff [symmetric] by (cases "ValidateThinJar zr p") auto

lemma lock_ok: "(case VerifyDependencyLock a b of Some e \<Rightarrow> failF (f e) | None \<Rightarrow> retF ()) fs = (Inr u, fs') \<longleftrightarrow> sortLock a = sortLock b \<and> fs' = fs"
  by (auto simp: VerifyDependencyLock_def fsm_ok)

text \<open>C34: A push that uses an approved dependency bundle goes ahead in exactly these cases: the image format, no other layers and no AppCDS; a
  JAR without embedded JARs; a bundle that resolves under the reference; a lock file that decodes to the lock of the bundle; a supply chain of the
  bundle that verifies with the given key and identity; signing key and builder identity both given, with a key that
  loads, or neither; and a main class. It then publishes the application in class-path mode with its JAR and the managed libraries, with
  evidence that names the digests of the JAR, the bundle, its layer and lock and of the verified SBOM. Up to
  this point nothing is written, whatever the outcome.\<close>

theorem managed_push_iff:
  "(managedPush w po jarPath cfg fs = (Inr out, fs') \<longleftrightarrow> managedAccepts w po jarPath cfg fs out \<and> fs' = fs) \<and>
   snd (managedPush w po jarPath cfg fs) = fs"
proof
  let ?both = "(TrimSpace (po_signingKey po) = '''') = (TrimSpace (po_builderIdentity po) = '''')"
  have both: "keyGiven (po_signingKey po) (po_builderIdentity po) x sk \<Longrightarrow> ?both" for x :: "attest_error + privkey" and sk
    by (auto simp: keyGiven_def)
  show "managedPush w po jarPath cfg fs = (Inr out, fs') \<longleftrightarrow> managedAccepts w po jarPath cfg fs out \<and> fs' = fs"
  proof (cases ?both)
    case True
    then show ?thesis
      unfolding managedPush_def managedAccepts_def Let_def fsm_ok thin_ok lock_ok trustedKey_ok signingKey_ok [OF True] Evidence_def
      by (auto; blast)
  next
    case False
    then have "\<not> managedAccepts w po jarPath cfg fs out" using both unfolding managedAccepts_def by blast
    moreover have "managedPush w po jarPath cfg fs \<noteq> (Inr out, fs')" using False unfolding managedPush_def Let_def fsm_ok by blast
    ultimately show ?thesis by blast
  qed
  have "keepsF (\<lambda>_. True) (managedPush w po jarPath cfg)"
    unfolding managedPush_def Let_def trustedKey_def signingKey_def Evidence_def
    by (intro keepsF_then keepsF_bind keepsF_mapErr; auto split: option.split)
  then show "snd (managedPush w po jarPath cfg fs) = fs" by (auto simp: keepsF_def)
qed

text \<open>The architectures of a push: an explicit list, else none if detection is off, else what the native libraries show.\<close>

lemma pushArch_exact:
  "pushArch w po jarPath cfg fs = (Inr cfg', fs') \<longleftrightarrow> fs' = fs \<and>
     (let explicit = splitArchFlag (po_arch po) in
      if explicit \<noteq> [] then cfg' = cfg\<lparr>cfg_Arch := explicit\<rparr>
      else if po_noArch po then cfg' = cfg\<lparr>cfg_Arch := []\<rparr>
      else (\<exists>entries. jarReader w fs jarPath = Some entries \<and>
        (let found = sorted_list_of_set (\<Union>f \<in> set (filter nativeEntry entries). set (archOf (ze_Name f))) in
         cfg' = (if found \<noteq> [] then cfg\<lparr>cfg_Arch := found\<rparr> else cfg))))"
proof (cases "splitArchFlag (po_arch po) \<noteq> [] \<or> po_noArch po")
  case True
  then show ?thesis by (auto simp: pushArch_def fsm_ok Let_def)
next
  case False
  show ?thesis
  proof (cases "jarReader w fs jarPath")
    case None
    then have "ScanNativeArch (jarReader w fs) jarPath = Inl (JarUnreadable jarPath)" by (simp add: ScanNativeArch_def)
    then show ?thesis using False None by (auto simp: pushArch_def fsm_ok Let_def)
  next
    case (Some entries)
    show ?thesis using False ScanNativeArch_exact [of "jarReader w fs", OF Some] Some by (auto simp: pushArch_def fsm_ok Let_def)
  qed
qed

section \<open>The launch configuration of a push\<close>

text \<open>Every step of a push keeps the configuration valid: the one that is read or made up from the JAR, the change to class-path mode of a
  managed push, and the architectures that the JAR shows. Only an explicit list of architectures can make it invalid.\<close>

lemma module_named: "InspectModuleJar zr p = Inr (Some mi) \<Longrightarrow> mi_Name mi \<noteq> ''''"
  by (auto simp: InspectModuleJar_def parseModuleInfo_def split: option.splits sum.splits if_splits)

lemma star_not_jar [simp]: "\<not> isBareJarRef ''lib/*''" "\<not> isBareJarRef ''mods''"
  by (simp_all add: isBareJarRef_def HasSuffix_def)

lemma pushConfig_valid:
  assumes "pushConfig w po jarPath fs = (Inr cfg, fs')" shows "Validate cfg = None"
proof (cases "po_cfgFile po = ''''")
  case True
  then obtain info where c: "InspectModuleJar (jarReader w fs) jarPath = Inr info"
    "cfg = emptyConfig\<lparr>cfg_SchemaVersion := 1, cfg_MainJar := Base jarPath, cfg_Entry := detectedEntry po jarPath info\<rparr>"
    using assms by (auto simp: pushConfig_def fsm_ok)
  have "entry_wf (detectedEntry po jarPath info)" using module_named [of "jarReader w fs" jarPath] c(1)
    by (cases info) (auto simp: entry_wf_def detectedEntry_def plainEntry_def)
  moreover have "set (e_ClassPath (detectedEntry po jarPath info)) \<union> set (e_ModulePath (detectedEntry po jarPath info)) \<subseteq> {Base jarPath, ''lib/*'', ''mods''}"
    by (cases info) (auto simp: detectedEntry_def plainEntry_def)
  ultimately show ?thesis unfolding Validate_config_wf config_wf_def c(2) by (auto simp: emptyConfig_def)
next
  case False
  then show ?thesis using assms by (auto simp: pushConfig_def fsm_ok DecodeConfigBytes_def DecodeConfig_def split: option.splits)
qed

lemma managedConfig_valid:
  assumes "Validate cfg = None" and "managedMain po cfg \<noteq> ''''" shows "Validate (managedConfig po jarPath cfg) = None"
  using assms unfolding Validate_config_wf config_wf_def by (auto simp: managedConfig_def plainEntry_def entry_wf_def Let_def)

lemma archOf_known: "set (archOf name) \<subseteq> {''amd64'', ''arm64''}"
  by (auto simp: archOf_def archTokens_def)

lemma pushArch_valid:
  assumes "Validate cfg = None" and "pushArch w po jarPath cfg fs = (Inr cfg', fs')" and "splitArchFlag (po_arch po) = []"
  shows "Validate cfg' = None"
proof -
  have arch: "Validate (cfg\<lparr>cfg_Arch := as\<rparr>) = None" if "distinct as" "set as \<subseteq> {''amd64'', ''arm64''}" for as
    using assms(1) that unfolding Validate_config_wf config_wf_def by simp
  have "set (sorted_list_of_set (\<Union>f \<in> set (filter nativeEntry entries). set (archOf (ze_Name f)))) \<subseteq> {''amd64'', ''arm64''}" for entries
    using archOf_known by auto
  then show ?thesis using assms(2) unfolding pushArch_exact Let_def using assms(1,3) arch [of "[]"] arch [of "sorted_list_of_set x" for x]
    by (auto split: if_splits)
qed

end
