(* ===== verification/Spec2Isabelle.thy ===== *)
theory Spec2Isabelle
  imports Admission Node_Controller JavaApplication Shim Ratify_Verifier Brewlet_Cli
begin

text \<open>
  Brewlet runs Java applications on Kubernetes from the JAR alone: there is no base image, the JDK and the
  launcher come from the node. This library models the program and proves what makes it correct.

  \<^bold>\<open>The program and its parts.\<close> A developer publishes an application with the command line tool into an OCI layout,
  as a native artifact or as a runnable image (\<open>src/core/internal/artifact\<close>). An application may use a managed
  dependency bundle, whose bill of materials and signed provenance are published beside it
  (\<open>src/core/pkg/attest\<close>). An operator (\<open>src/kubernetes\<close>) provisions nodes from NodeProfiles and tracks
  their state on labels and annotations; its webhook steers a pod to the nodes that have the JDK, launcher and
  architecture it asks for; its JavaApplication controller renders Deployments. On the node the
  containerd shim (\<open>src/core/shim\<close>) resolves the artifact of a pod, selects the JDK and the launcher, computes the
  JVM command line with the launch core (\<open>src/core/internal/runtime\<close>), rewrites the container
  specification and reports telemetry, which a node exporter counts.

  \<^bold>\<open>Theories, in the order they build on each other.\<close>
  \<^item> \<open>Go_Base\<close>, \<open>Go_IO\<close>, \<open>Go_FS\<close>, \<open>Json\<close>: the parts of Go and its standard library that the program uses: strings, paths,
    \<open>strconv\<close>, maps; file system calls as a trace of calls (\<open>Go_IO\<close>, where only order and targets matter) or over a
    state of files (\<open>Go_FS\<close>, where a computation reads back what it wrote, and a write can fail after truncating its
    file); \<open>encoding/json\<close> with the theorem that the scanner reads what the encoder writes.
  \<^item> \<open>Vocabulary\<close>, \<open>Cluster_Types\<close>: labels, annotations and the Kubernetes objects (\<open>labels.go\<close>, the API fields that are used),
    node selectors with their semantics as a locale.
  \<^item> \<open>Admission\<close> (\<open>capability.go\<close>, \<open>mutate.go\<close>, \<open>webhook.go\<close>): the affinity that is injected selects exactly the nodes that
    can run the pod; a pod is denied exactly if there is none.
  \<^item> \<open>NodeProfile\<close>, \<open>NodeProfile_Controller\<close>, \<open>Node_Controller\<close>, \<open>JavaApplication\<close>: validation, ownership of nodes, rendered
    objects, and the reconcile loops as functions from the observed objects to a list of effects and a result. Locales state
    what is relied on of the API machinery (status conditions, owner references), and are interpreted on its models.
  \<^item> \<open>Launch_Config\<close>, \<open>Launch\<close>, \<open>Cds_Regen\<close>, \<open>Bundle\<close>: launch configuration, JVM arguments, extraction of layers, the AppCDS
    decision with the election of a single writer as a step relation over two processes, OCI runtime bundles.
  \<^item> \<open>Oci_Model\<close>, \<open>Artifact_Store\<close>, \<open>Runnable_Image\<close>, \<open>Dependency_Bundle\<close>: the documents of a layout, publishing and resolving
    in both formats, managed dependency bundles. The locale \<open>blob_source\<close> is the contract between resolving and
    the place the blobs come from; a layout and containerd's content store are its instances.
  \<^item> \<open>Attest\<close>, \<open>Supply_Chain\<close>, \<open>Ratify_Verifier\<close>: signing and verification (\<open>attest.go\<close>), the CycloneDX document, referrers, the evidence
    of bundles and images (\<open>supply_chain.go\<close>), and the admission check of images, which admits exactly what this evidence covers (\<open>verify.go\<close>).
  \<^item> \<open>Jar_Inspect\<close> (\<open>jarmodule.go\<close>, \<open>jarnative.go\<close>, \<open>jarshape.go\<close>): what the tool reads out of a JAR: a class file reader, proved against the
    format as a specification, with the exact inputs on which it panics.
  \<^item> \<open>Inventory\<close>, \<open>Doctor\<close> (\<open>inventory.go\<close>, \<open>doctor.go\<close>): the fleet inventory, which is exact, and the readiness report, which is clean for exactly the
    ready clusters.
  \<^item> \<open>Jdk_Select\<close>, \<open>Telemetry\<close>, \<open>Shim\<close>: the node side, with the task service as operations on its state and as an
    interleaving of steps that the operations refine.
  \<^item> \<open>Flags\<close>, \<open>Brewlet_Cli\<close> (\<open>main.go\<close>, \<open>cds_train.go\<close>): Go's flag parser, the loop around it, which ends on every input, and the commands of the
    tool, composed of the theories above; a push with managed dependencies is characterised completely.

  \<^bold>\<open>Conventions.\<close> A struct is a record, an enumeration a datatype, a Go map an association list in canonical order or a HOL
  map; an error is a value (\<open>Inl\<close>) of the error type of its theory, a panic is an error value of its own.
  Definitions have the names of the source; every theory says where it departs. Sized integers are words where
  overflow can matter (\<open>int32\<close> replicas and autoscaling bounds, \<open>itoa\<close>, the 16-bit indices of a class file); file sizes and JSON
  integers are \<open>int\<close> with the range of \<open>int64\<close> checked. Loops are structural recursion or have a termination proof by a
  measure; the one loop that is a partial function is proved to end; no fuel is used. The length guards in the JSON scanner serve its termination and are always true.

  \<^bold>\<open>Parameters and hypotheses.\<close> Code that is not part of the repository is an argument: SHA-256 (\<open>sha\<close>; hypotheses say that a
  digest is 64 hexadecimal digits or a plain name, and which blobs have different digests), gzip and tar (\<open>codec\<close>, \<open>codec_ok\<close>:
  what is written is read back), ECDSA, X.509 and PEM (\<open>crypto\<close>, \<open>crypto_ok\<close>: a signature verifies, an encoded key parses; that
  nothing else verifies is a hypothesis of the two theorems that need it), the text of a \<open>float64\<close> (\<open>float_ok\<close>), the zip
  reader, the Kubernetes API server, the inner runc task service, kubectl. Each property with hypotheses has a witness.

  \<^bold>\<open>Findings.\<close> Where the code does not do what it means to, or a comment says otherwise, a lemma shows it and the manifest
  lists it; among them: the pool conflict check, \<open>itoa\<close> of the least 32-bit number, the reclaim of a stale regeneration
  marker, a panic of the class file reader.

  \<^bold>\<open>Not modelled.\<close> Starting the application's JVM and forwarding signals (\<open>Plan.Run\<close>), HTTP and socket set-up, the Prometheus client, plugin
  registration, the text that most commands print, informer and cache wiring of the operator (\<open>src/kubernetes/cmd\<close>), the merge functions inside
  \<open>ensureRuntimeClass\<close> and \<open>ensureProfileDaemonSet\<close>, generated deep-copy functions, the Maven plugin (Java), the provisioner (shell), charts, site and
  documentation: these are input and output, generated, in other languages, or without logic of their own.
\<close>

end
